(* ===== verification/TK_Prelude.thy ===== *)
theory TK_Prelude
  imports Main
begin

text \<open>
  Shared vocabulary of the TallyKeep development: the names of the model's scalar types, the
  service combinators (a computation over a database session that returns a value or raises),
  the table operations every repository is written with, the generic facts about them, and
  the two locales that state what a database table promises to the code that reads and writes
  it and how a one-step invariant reaches every state of a run.
\<close>

section \<open>Scalar types\<close>

text \<open>Identifiers are drawn by \<^verbatim>\<open>uuid4()\<close>; the operations take the fresh identifiers they draw as
  arguments.  Times are the values of \<^verbatim>\<open>datetime.now(UTC)\<close> and are arguments as well.
  Amounts are Python integers and never overflow.\<close>

type_synonym uuid = nat
type_synonym timestamp = int
type_synonym sats = int

text \<open>\<^verbatim>\<open>d.get(key, default)\<close> of a lookup, and a field that has a default.\<close>

definition get_or :: "'a option \<Rightarrow> 'a \<Rightarrow> 'a" where
  "get_or a b = (case a of None \<Rightarrow> b | Some x \<Rightarrow> x)"

named_theorems svc_defs \<open>unfolding of the service combinators\<close>
named_theorems repo_defs \<open>definitions of repository operations\<close>
named_theorems inv_defs \<open>definitions of invariants\<close>

section \<open>Services: a session, a value or an exception\<close>

text \<open>A service runs in a database session and either returns a value or raises; the session
  state reached so far is part of both outcomes, because whether it is committed or rolled
  back is the caller's decision.\<close>

type_synonym ('e, 's, 'a) svc = "'s \<Rightarrow> ('e + 'a) \<times> 's"

definition ret :: "'a \<Rightarrow> ('e, 's, 'a) svc" where
  "ret x s = (Inr x, s)"

definition raise :: "'e \<Rightarrow> ('e, 's, 'a) svc" where
  "raise e s = (Inl e, s)"

definition bnd :: "('e, 's, 'a) svc \<Rightarrow> ('a \<Rightarrow> ('e, 's, 'b) svc) \<Rightarrow> ('e, 's, 'b) svc" where
  "bnd m f s = (case m s of (Inl e, t) \<Rightarrow> (Inl e, t) | (Inr x, t) \<Rightarrow> f x t)"

definition gets :: "('s \<Rightarrow> 'a) \<Rightarrow> ('e, 's, 'a) svc" where
  "gets f s = (Inr (f s), s)"

definition modify :: "('s \<Rightarrow> 's) \<Rightarrow> ('e, 's, unit) svc" where
  "modify f s = (Inr (), f s)"

definition lift_result :: "('e + 'a) \<Rightarrow> ('e, 's, 'a) svc" where
  "lift_result r s = (r, s)"

definition raise_if :: "bool \<Rightarrow> 'e \<Rightarrow> ('e, 's, unit) svc" where
  "raise_if c e s = (if c then Inl e else Inr (), s)"

definition readr :: "('s \<Rightarrow> 'e + 'a) \<Rightarrow> ('e, 's, 'a) svc" where
  "readr f s = (f s, s)"

declare ret_def [svc_defs] raise_def [svc_defs] gets_def [svc_defs] modify_def [svc_defs]
  lift_result_def [svc_defs] readr_def [svc_defs]

text \<open>A request handler commits the session when its service returns; when the service raises,
  the session is closed without a commit and the database keeps its previous contents.\<close>

definition commit_on_success :: "('e, 's, 'a) svc \<Rightarrow> ('e, 's, 'a) svc" where
  "commit_on_success m s = (case m s of (Inr x, t) \<Rightarrow> (Inr x, t) | (Inl e, t) \<Rightarrow> (Inl e, s))"

text \<open>The plain error monad on values, for pure code that may raise.\<close>

definition rbind :: "('e + 'a) \<Rightarrow> ('a \<Rightarrow> 'e + 'b) \<Rightarrow> 'e + 'b" where
  "rbind r f = (case r of Inl e \<Rightarrow> Inl e | Inr x \<Rightarrow> f x)"

text \<open>A list of fallible steps run left to right; the first exception ends it.\<close>

fun rmap :: "('a \<Rightarrow> 'e + 'b) \<Rightarrow> 'a list \<Rightarrow> 'e + 'b list" where
  "rmap f [] = Inr []"
| "rmap f (x # xs) = rbind (f x) (\<lambda>y. rbind (rmap f xs) (\<lambda>ys. Inr (y # ys)))"

lemma rbind_simps [simp]:
  "rbind (Inl e) f = Inl e"
  "rbind (Inr x) f = f x"
  by (simp_all add: rbind_def)

lemma rbind_eq_Inr_iff: "rbind r f = Inr y \<longleftrightarrow> (\<exists>x. r = Inr x \<and> f x = Inr y)"
  by (cases r) auto

lemma rbind_eq_Inl_iff: "rbind r f = Inl e \<longleftrightarrow> r = Inl e \<or> (\<exists>x. r = Inr x \<and> f x = Inl e)"
  by (cases r) auto

lemma rmap_eq_Inr_iff: "rmap f xs = Inr ys \<longleftrightarrow> list_all2 (\<lambda>x y. f x = Inr y) xs ys"
proof (induction xs arbitrary: ys)
  case Nil
  then show ?case by auto
next
  case (Cons x xs)
  then show ?case by (cases ys) (auto simp: rbind_eq_Inr_iff)
qed

lemma rmap_all_Inr: "(\<And>x. x \<in> set xs \<Longrightarrow> f x = Inr (g x)) \<Longrightarrow> rmap f xs = Inr (map g xs)"
  by (induction xs) auto

lemma rmap_Inl_if: "x \<in> set xs \<Longrightarrow> f x = Inl e \<Longrightarrow> \<exists>e'. rmap f xs = Inl e'"
proof (induction xs)
  case Nil
  then show ?case by simp
next
  case (Cons y ys)
  then show ?case by (cases "f y"; cases "rmap f ys") auto
qed

lemma bnd_Inr [simp]: "m s = (Inr x, t) \<Longrightarrow> bnd m f s = f x t"
  by (simp add: bnd_def)

lemma bnd_Inl [simp]: "m s = (Inl e, t) \<Longrightarrow> bnd m f s = (Inl e, t)"
  by (simp add: bnd_def)

lemma bnd_simps [svc_defs]:
  "bnd (ret x) f s = f x s"
  "bnd (raise e) f s = (Inl e, s)"
  "bnd (gets g) f s = f (g s) s"
  "bnd (modify h) k s = k () (h s)"
  by (simp_all add: bnd_def ret_def raise_def gets_def modify_def)

lemma bnd_readr [svc_defs]:
  "bnd (readr g) f s = (case g s of Inl e \<Rightarrow> (Inl e, s) | Inr x \<Rightarrow> f x s)"
  "bnd (lift_result r) f s = (case r of Inl e \<Rightarrow> (Inl e, s) | Inr x \<Rightarrow> f x s)"
  by (simp_all add: bnd_def readr_def lift_result_def split: sum.split)

lemma bnd_raise_if [svc_defs]:
  "bnd (raise_if c e) f s = (if c then (Inl e, s) else f () s)"
  by (simp add: bnd_def raise_if_def)

lemma commit_on_success_Inr_iff:
  "commit_on_success m s = (Inr x, t) \<longleftrightarrow> m s = (Inr x, t)"
  by (auto simp: commit_on_success_def split: prod.splits sum.splits)

lemma commit_on_success_InlD:
  "commit_on_success m s = (Inl e, t) \<Longrightarrow> t = s \<and> (\<exists>u. m s = (Inl e, u))"
  by (auto simp: commit_on_success_def split: prod.splits sum.splits)

lemma bnd_eq_Inr_iff:
  "bnd m f s = (Inr y, u) \<longleftrightarrow> (\<exists>x t. m s = (Inr x, t) \<and> f x t = (Inr y, u))"
  by (auto simp: bnd_def split: prod.split sum.split)

lemma if_svc_apply: "(if c then f else g) s = (if c then f s else g s)"
  by simp

section \<open>Tables\<close>

text \<open>A table is the list of its rows in insertion order.  \<open>find_row\<close> is \<^verbatim>\<open>session.get\<close>,
  \<open>update_rows\<close> an attribute assignment on the row with that key, \<open>delete_rows\<close> a
  \<^verbatim>\<open>DELETE ... WHERE\<close>, and \<open>one_or_none\<close> is \<^verbatim>\<open>scalar_one_or_none()\<close>, which raises when more
  than one row matches.\<close>

definition find_row :: "('r \<Rightarrow> 'k) \<Rightarrow> 'k \<Rightarrow> 'r list \<Rightarrow> 'r option" where
  "find_row key k rows = find (\<lambda>r. key r = k) rows"

definition update_rows :: "('r \<Rightarrow> 'k) \<Rightarrow> 'k \<Rightarrow> ('r \<Rightarrow> 'r) \<Rightarrow> 'r list \<Rightarrow> 'r list" where
  "update_rows key k f rows = map (\<lambda>r. if key r = k then f r else r) rows"

definition update_where :: "('r \<Rightarrow> bool) \<Rightarrow> ('r \<Rightarrow> 'r) \<Rightarrow> 'r list \<Rightarrow> 'r list" where
  "update_where p f rows = map (\<lambda>r. if p r then f r else r) rows"

definition delete_where :: "('r \<Rightarrow> bool) \<Rightarrow> 'r list \<Rightarrow> 'r list" where
  "delete_where p rows = filter (\<lambda>r. \<not> p r) rows"

datatype 'r selected = SelNone | SelOne 'r | SelMany

definition one_or_none :: "('r \<Rightarrow> bool) \<Rightarrow> 'r list \<Rightarrow> 'r selected" where
  "one_or_none p rows = (case filter p rows of [] \<Rightarrow> SelNone | [r] \<Rightarrow> SelOne r | _ \<Rightarrow> SelMany)"

text \<open>\<^verbatim>\<open>stmt.offset(max(offset, 0)).limit(min(max(limit, 1), 200))\<close>, the page every list query
  ends with.\<close>

definition page :: "int \<Rightarrow> int \<Rightarrow> 'r list \<Rightarrow> 'r list" where
  "page limit offset rows = take (nat (min (max limit 1) 200)) (drop (nat (max offset 0)) rows)"

lemma find_row_SomeD:
  "find_row key k rows = Some r \<Longrightarrow> r \<in> set rows \<and> key r = k"
  by (auto simp: find_row_def find_Some_iff)

lemma find_row_None_iff: "find_row key k rows = None \<longleftrightarrow> k \<notin> key ` set rows"
  by (auto simp: find_row_def find_None_iff)

lemma find_row_append:
  "find_row key k (xs @ ys) =
     (case find_row key k xs of None \<Rightarrow> find_row key k ys | Some r \<Rightarrow> Some r)"
  by (induction xs) (auto simp: find_row_def)

lemma find_row_Cons [simp]:
  "find_row key k (x # xs) = (if key x = k then Some x else find_row key k xs)"
  by (simp add: find_row_def)

lemma find_row_Nil [simp]: "find_row key k [] = None"
  by (simp add: find_row_def)

lemma find_row_in: "distinct (map key rows) \<Longrightarrow> r \<in> set rows \<Longrightarrow> find_row key (key r) rows = Some r"
  by (induction rows) (auto simp: rev_image_eqI)

lemma find_row_update:
  assumes "\<And>r. key (f r) = key r"
  shows "find_row key k' (update_rows key k f rows) =
    (if k' = k then map_option f (find_row key k rows) else find_row key k' rows)"
  using assms by (induction rows) (auto simp: update_rows_def)

lemma find_row_update_where:
  assumes "\<And>r. key (f r) = key r"
  shows "find_row key k (update_where p f rows) =
    map_option (\<lambda>r. if p r then f r else r) (find_row key k rows)"
  using assms by (induction rows) (auto simp: update_where_def)

lemma set_update_rows:
  "set (update_rows key k f rows) = (\<lambda>r. if key r = k then f r else r) ` set rows"
  by (simp add: update_rows_def)

lemma length_update_rows [simp]: "length (update_rows key k f rows) = length rows"
  by (simp add: update_rows_def)

lemma map_key_update_rows:
  assumes "\<And>r. g (f r) = g r"
  shows "map g (update_rows key k f rows) = map g rows"
  using assms by (simp add: update_rows_def)

lemma map_key_update_where:
  assumes "\<And>r. g (f r) = g r"
  shows "map g (update_where p f rows) = map g rows"
  using assms by (simp add: update_where_def)

lemma set_update_where:
  "set (update_where p f rows) = (\<lambda>r. if p r then f r else r) ` set rows"
  by (simp add: update_where_def)

lemma bnd_ret_Inr: "bnd m (\<lambda>u. ret (g u)) s = (Inr x, t) \<Longrightarrow> \<exists>u. m s = (Inr u, t)"
  by (auto simp: bnd_eq_Inr_iff ret_def)

lemma update_rows_absent: "k \<notin> key ` set rows \<Longrightarrow> update_rows key k f rows = rows"
  by (induction rows) (auto simp: update_rows_def)

lemma update_rows_Cons [simp]:
  "update_rows key k f (x # xs) = (if key x = k then f x else x) # update_rows key k f xs"
  by (simp add: update_rows_def)

lemma update_rows_Nil [simp]: "update_rows key k f [] = []"
  by (simp add: update_rows_def)

lemma one_or_none_SelNone [simp]: "one_or_none p rows = SelNone \<longleftrightarrow> (\<forall>r \<in> set rows. \<not> p r)"
proof -
  have "one_or_none p rows = SelNone \<longleftrightarrow> filter p rows = []"
    by (auto simp: one_or_none_def split: list.split)
  then show ?thesis
    by (simp add: filter_empty_conv)
qed

lemma one_or_none_SelOneD: "one_or_none p rows = SelOne r \<Longrightarrow> r \<in> set rows \<and> p r"
proof -
  assume "one_or_none p rows = SelOne r"
  then have "filter p rows = [r]"
    by (auto simp: one_or_none_def split: list.splits)
  then have "r \<in> set (filter p rows)"
    by simp
  then show ?thesis
    by simp
qed

text \<open>A unique constraint on the selected columns rules \<open>SelMany\<close> out.\<close>

lemma one_or_none_unique:
  assumes "distinct (map g rows)" "\<And>r. p r \<longleftrightarrow> g r = k"
  shows "one_or_none p rows = (case find_row g k rows of None \<Rightarrow> SelNone | Some r \<Rightarrow> SelOne r)"
proof -
  have "filter p rows = (case find_row g k rows of None \<Rightarrow> [] | Some r \<Rightarrow> [r])"
    using assms
  proof (induction rows)
    case Nil
    then show ?case by simp
  next
    case (Cons x xs)
    show ?case
    proof (cases "g x = k")
      case True
      with Cons.prems have "\<forall>y \<in> set xs. g y \<noteq> k"
        by (auto simp: rev_image_eqI)
      then have "filter p xs = []"
        using Cons.prems(2) by (simp add: filter_empty_conv)
      moreover have "p x"
        using True Cons.prems(2) by simp
      ultimately show ?thesis
        using True by simp
    next
      case False
      with Cons show ?thesis by simp
    qed
  qed
  then show ?thesis
    by (simp add: one_or_none_def split: option.split)
qed

lemma set_page: "set (page limit offset rows) \<subseteq> set rows"
  unfolding page_def by (meson dual_order.trans set_drop_subset set_take_subset)

lemma length_page: "length (page limit offset rows) \<le> 200"
  by (simp add: page_def)

section \<open>What a table promises\<close>

text \<open>A repository reaches its table through a field of the session.  The locale names the
  field's reader and its update function and states the two laws the record package gives:
  an update is seen by the next read, and consecutive updates compose.  From those follow the
  facts every repository client uses: what a lookup returns after an insert, an attribute
  update or a delete, and that primary keys stay distinct.\<close>

locale db_table =
  fixes key :: "'r \<Rightarrow> 'k"
    and rows :: "'d \<Rightarrow> 'r list"
    and upd :: "('r list \<Rightarrow> 'r list) \<Rightarrow> 'd \<Rightarrow> 'd"
  assumes rows_upd: "rows (upd f d) = f (rows d)"
    and upd_upd: "upd f (upd g d) = upd (\<lambda>x. f (g x)) d"
begin

lemma get_insert:
  "find_row key (key r) (rows d) = None \<Longrightarrow>
   find_row key k (rows (upd (\<lambda>rs. rs @ [r]) d)) =
     (if k = key r then Some r else find_row key k (rows d))"
  by (auto simp: rows_upd find_row_append split: option.split)

lemma get_update:
  "(\<And>r. key (f r) = key r) \<Longrightarrow>
   find_row key k' (rows (upd (update_rows key k f) d)) =
     (if k' = k then map_option f (find_row key k (rows d)) else find_row key k' (rows d))"
  by (simp add: rows_upd find_row_update)

lemma distinct_insert:
  "distinct (map key (rows d)) \<Longrightarrow> find_row key (key r) (rows d) = None \<Longrightarrow>
   distinct (map key (rows (upd (\<lambda>rs. rs @ [r]) d)))"
  by (auto simp: rows_upd find_row_None_iff)

lemma distinct_update:
  "(\<And>r. key (f r) = key r) \<Longrightarrow> distinct (map key (rows d)) \<Longrightarrow>
   distinct (map key (rows (upd (update_rows key k f) d)))"
  by (simp add: rows_upd map_key_update_rows)

lemma update_update:
  "(\<And>r. key (f r) = key r) \<Longrightarrow>
   upd (update_rows key k g) (upd (update_rows key k f) d) =
   upd (update_rows key k (\<lambda>r. g (f r))) d"
proof -
  assume keep: "\<And>r. key (f r) = key r"
  have "update_rows key k g (update_rows key k f rs) = update_rows key k (\<lambda>r. g (f r)) rs" for rs
    using keep by (induction rs) simp_all
  then show ?thesis
    by (simp add: upd_upd)
qed

lemma rows_all_update:
  "(\<And>r. r \<in> set (rows d) \<Longrightarrow> P r) \<Longrightarrow> (\<And>r. r \<in> set (rows d) \<Longrightarrow> key r = k \<Longrightarrow> P (f r)) \<Longrightarrow>
   r' \<in> set (rows (upd (update_rows key k f) d)) \<Longrightarrow> P r'"
  by (auto simp: rows_upd set_update_rows)

end

section \<open>Runs and invariants\<close>

text \<open>A component is a step relation on its state.  An invariant that holds at the start and
  that every step keeps holds in every state a run reaches.\<close>

locale invariant_system =
  fixes step :: "'s \<Rightarrow> 's \<Rightarrow> bool"
    and inv :: "'s \<Rightarrow> bool"
  assumes inv_step: "inv s \<Longrightarrow> step s t \<Longrightarrow> inv t"
begin

lemma inv_run: "step\<^sup>*\<^sup>* s t \<Longrightarrow> inv s \<Longrightarrow> inv t"
  by (induction rule: rtranclp_induct) (auto intro: inv_step)

end

text \<open>A simulation: on states that satisfy the invariant every concrete step is an abstract
  step or leaves the abstract state alone, so every concrete run is an abstract run.\<close>

locale simulation = invariant_system +
  fixes abs :: "'s \<Rightarrow> 'a"
    and astep :: "'a \<Rightarrow> 'a \<Rightarrow> bool"
  assumes sim_step: "inv s \<Longrightarrow> step s t \<Longrightarrow> abs t = abs s \<or> astep (abs s) (abs t)"
begin

lemma sim_run: "step\<^sup>*\<^sup>* s t \<Longrightarrow> inv s \<Longrightarrow> astep\<^sup>*\<^sup>* (abs s) (abs t)"
proof (induction rule: rtranclp_induct)
  case base
  show ?case by simp
next
  case (step t u)
  then have "astep\<^sup>*\<^sup>* (abs s) (abs t)" by simp
  moreover have "abs u = abs t \<or> astep (abs t) (abs u)"
    using sim_step [OF inv_run [OF step.hyps(1) step.prems] step.hyps(2)] .
  ultimately show ?case
    by (auto intro: rtranclp.rtrancl_into_rtrancl)
qed

end

section \<open>Identifiers as text\<close>

text \<open>\<^verbatim>\<open>uuid.hex\<close> and \<^verbatim>\<open>str(uuid)\<close>.\<close>

definition hex_char :: "nat \<Rightarrow> char" where
  "hex_char n = ''0123456789abcdef'' ! n"

fun low_digits :: "nat \<Rightarrow> nat \<Rightarrow> string" where
  "low_digits 0 n = []"
| "low_digits (Suc k) n = low_digits k (n div 16) @ [hex_char (n mod 16)]"

definition uuid_hex :: "uuid \<Rightarrow> string" where
  "uuid_hex u = low_digits 32 u"

definition uuid_str :: "uuid \<Rightarrow> string" where
  "uuid_str u = (let h = uuid_hex u in
     take 8 h @ ''-'' @ take 4 (drop 8 h) @ ''-'' @ take 4 (drop 12 h) @ ''-'' @ take 4 (drop 16 h) @ ''-'' @ drop 20 h)"

end
