(* ===== verification/Enums.thy ===== *)
theory Enums
  imports TK_Prelude
begin

text \<open>
  The string-valued enumerations of \<^verbatim>\<open>domain/enums.py\<close>.  Each Python class becomes a
  datatype whose constructors carry a short prefix naming the class (\<open>PS_DRAFT\<close> is
  \<^verbatim>\<open>PaymentStatus.DRAFT\<close>), a function giving each member's canonical string, and the list of
  its members in declaration order.  The locale \<open>str_enum\<close> is the contract the database and
  the wire format rely on: calling the class on a member's value gives that member back, and
  on any other string it fails.
\<close>

section \<open>The enumerations\<close>

datatype purpose =
    PUR_SPENDING
  | PUR_RESERVE
  | PUR_LONG_TERM
  | PUR_TRANSIT
  | PUR_UNDECLARED

datatype custody_model =
    CM_THIRD_PARTY
  | CM_SELF_SINGLE
  | CM_SELF_MULTISIG

datatype signing_model =
    SM_NOT_APPLICABLE
  | SM_SOFTWARE_HOT
  | SM_HARDWARE_OFFLINE
  | SM_AIRGAPPED
  | SM_CEREMONIAL
  | SM_UNKNOWN

datatype holding_type =
    HT_ACCOUNT
  | HT_PURSE
  | HT_STRONGBOX
  | HT_VAULT

datatype network =
    NET_MAINNET
  | NET_TESTNET
  | NET_SIGNET
  | NET_REGTEST

datatype address_type =
    AT_LEGACY
  | AT_NESTED_SEGWIT
  | AT_NATIVE_SEGWIT
  | AT_TAPROOT
  | AT_P2SH_MULTISIG
  | AT_P2WSH
  | AT_P2SH_P2WSH

datatype hygiene_flag =
    HF_ADDRESS_REUSED
  | HF_DUST
  | HF_SUSPECTED_CONSOLIDATION
  | HF_ROUND_NUMBER

datatype provider_kind =
    PK_EXCHANGE
  | PK_BROKER
  | PK_P2P_VENUE

datatype direction =
    DIR_INCOMING
  | DIR_OUTGOING
  | DIR_INTERNAL

datatype ledger_entry_source =
    SRC_ONCHAIN_TRANSACTION
  | SRC_LIGHTNING_PAYMENT
  | SRC_CUSTODIAL_EVENT

datatype ledger_category =
    CAT_CUSTODIAL_WITHDRAWAL
  | CAT_P2P_RECEIVE
  | CAT_SALARY
  | CAT_MERCHANT_RECEIPT
  | CAT_MERCHANT_PAYMENT
  | CAT_P2P_SEND
  | CAT_CUSTODIAL_DEPOSIT
  | CAT_INTERNAL_TRANSFER
  | CAT_CONSOLIDATION
  | CAT_OTHER

datatype payment_type =
    PT_ONCHAIN
  | PT_LIGHTNING

datatype payment_status =
    PS_DRAFT
  | PS_AWAITING_SIGNATURE
  | PS_AWAITING_BROADCAST
  | PS_BROADCAST
  | PS_CONFIRMED
  | PS_FAILED
  | PS_EXPIRED
  | PS_CANCELLED

datatype invoice_status =
    IS_OPEN
  | IS_PAID
  | IS_OVERPAID
  | IS_EXPIRED
  | IS_CANCELLED

datatype sweep_trigger_type =
    TRG_SCHEDULED
  | TRG_THRESHOLD
  | TRG_MANUAL

datatype safety_warning_kind =
    SWK_DESTINATION_KEYS_ON_HOST
  | SWK_DESTINATION_IS_CUSTODIAL
  | SWK_SOURCE_AND_DESTINATION_SAME_SECURITY_TIER
  | SWK_NO_MAXIMUM_CAP_SET
  | SWK_UNVERIFIED_WHITELIST_ON_PROVIDER

datatype safety_warning_severity =
    SWS_LOW
  | SWS_MEDIUM
  | SWS_HIGH

datatype sweep_execution_status =
    SES_REQUESTED
  | SES_AWAITING_USER_CONFIRMATION
  | SES_DISPATCHED
  | SES_ONCHAIN_PENDING
  | SES_COMPLETED
  | SES_FAILED
  | SES_CANCELLED

datatype job_status =
    JS_QUEUED
  | JS_RUNNING
  | JS_SUCCESS
  | JS_FAILED
  | JS_CANCELLED

datatype purse_mode =
    PM_WATCH_ONLY
  | PM_ON_DEVICE_TK_GENERATED
  | PM_ON_DEVICE_USER_IMPORTED

datatype discrepancy_kind =
    DK_CLAIMED_MULTISIG_BUT_SINGLE_KEY
  | DK_CLAIMED_SINGLE_BUT_OBSERVABLE_MULTISIG
  | DK_CLAIMED_OFFLINE_BUT_PATTERN_SUGGESTS_HOT
  | DK_CLAIMED_VAULT_NO_TIMELOCK_NO_MULTISIG
  | DK_CLAIMED_INHERITANCE_NO_RECOVERY_PATH

datatype discrepancy_severity =
    DS_INFORMATIONAL
  | DS_LOW
  | DS_MEDIUM
  | DS_HIGH

section \<open>Canonical strings\<close>

fun purpose_value :: "purpose \<Rightarrow> string" where
  "purpose_value PUR_SPENDING = ''spending''"
| "purpose_value PUR_RESERVE = ''reserve''"
| "purpose_value PUR_LONG_TERM = ''long_term''"
| "purpose_value PUR_TRANSIT = ''transit''"
| "purpose_value PUR_UNDECLARED = ''undeclared''"

definition purpose_members :: "purpose list" where
  "purpose_members =
     [PUR_SPENDING,
      PUR_RESERVE,
      PUR_LONG_TERM,
      PUR_TRANSIT,
      PUR_UNDECLARED]"

fun custody_model_value :: "custody_model \<Rightarrow> string" where
  "custody_model_value CM_THIRD_PARTY = ''third_party''"
| "custody_model_value CM_SELF_SINGLE = ''self_single''"
| "custody_model_value CM_SELF_MULTISIG = ''self_multisig''"

definition custody_model_members :: "custody_model list" where
  "custody_model_members =
     [CM_THIRD_PARTY,
      CM_SELF_SINGLE,
      CM_SELF_MULTISIG]"

fun signing_model_value :: "signing_model \<Rightarrow> string" where
  "signing_model_value SM_NOT_APPLICABLE = ''not_applicable''"
| "signing_model_value SM_SOFTWARE_HOT = ''software_hot''"
| "signing_model_value SM_HARDWARE_OFFLINE = ''hardware_offline''"
| "signing_model_value SM_AIRGAPPED = ''airgapped''"
| "signing_model_value SM_CEREMONIAL = ''ceremonial''"
| "signing_model_value SM_UNKNOWN = ''unknown''"

definition signing_model_members :: "signing_model list" where
  "signing_model_members =
     [SM_NOT_APPLICABLE,
      SM_SOFTWARE_HOT,
      SM_HARDWARE_OFFLINE,
      SM_AIRGAPPED,
      SM_CEREMONIAL,
      SM_UNKNOWN]"

fun holding_type_value :: "holding_type \<Rightarrow> string" where
  "holding_type_value HT_ACCOUNT = ''account''"
| "holding_type_value HT_PURSE = ''purse''"
| "holding_type_value HT_STRONGBOX = ''strongbox''"
| "holding_type_value HT_VAULT = ''vault''"

definition holding_type_members :: "holding_type list" where
  "holding_type_members =
     [HT_ACCOUNT,
      HT_PURSE,
      HT_STRONGBOX,
      HT_VAULT]"

fun network_value :: "network \<Rightarrow> string" where
  "network_value NET_MAINNET = ''mainnet''"
| "network_value NET_TESTNET = ''testnet''"
| "network_value NET_SIGNET = ''signet''"
| "network_value NET_REGTEST = ''regtest''"

definition network_members :: "network list" where
  "network_members =
     [NET_MAINNET,
      NET_TESTNET,
      NET_SIGNET,
      NET_REGTEST]"

fun address_type_value :: "address_type \<Rightarrow> string" where
  "address_type_value AT_LEGACY = ''legacy''"
| "address_type_value AT_NESTED_SEGWIT = ''nested_segwit''"
| "address_type_value AT_NATIVE_SEGWIT = ''native_segwit''"
| "address_type_value AT_TAPROOT = ''taproot''"
| "address_type_value AT_P2SH_MULTISIG = ''p2sh_multisig''"
| "address_type_value AT_P2WSH = ''p2wsh''"
| "address_type_value AT_P2SH_P2WSH = ''p2sh_p2wsh''"

definition address_type_members :: "address_type list" where
  "address_type_members =
     [AT_LEGACY,
      AT_NESTED_SEGWIT,
      AT_NATIVE_SEGWIT,
      AT_TAPROOT,
      AT_P2SH_MULTISIG,
      AT_P2WSH,
      AT_P2SH_P2WSH]"

fun hygiene_flag_value :: "hygiene_flag \<Rightarrow> string" where
  "hygiene_flag_value HF_ADDRESS_REUSED = ''address_reused''"
| "hygiene_flag_value HF_DUST = ''dust''"
| "hygiene_flag_value HF_SUSPECTED_CONSOLIDATION = ''suspected_consolidation''"
| "hygiene_flag_value HF_ROUND_NUMBER = ''round_number''"

definition hygiene_flag_members :: "hygiene_flag list" where
  "hygiene_flag_members =
     [HF_ADDRESS_REUSED,
      HF_DUST,
      HF_SUSPECTED_CONSOLIDATION,
      HF_ROUND_NUMBER]"

fun provider_kind_value :: "provider_kind \<Rightarrow> string" where
  "provider_kind_value PK_EXCHANGE = ''exchange''"
| "provider_kind_value PK_BROKER = ''broker''"
| "provider_kind_value PK_P2P_VENUE = ''p2p_venue''"

definition provider_kind_members :: "provider_kind list" where
  "provider_kind_members =
     [PK_EXCHANGE,
      PK_BROKER,
      PK_P2P_VENUE]"

fun direction_value :: "direction \<Rightarrow> string" where
  "direction_value DIR_INCOMING = ''incoming''"
| "direction_value DIR_OUTGOING = ''outgoing''"
| "direction_value DIR_INTERNAL = ''internal''"

definition direction_members :: "direction list" where
  "direction_members =
     [DIR_INCOMING,
      DIR_OUTGOING,
      DIR_INTERNAL]"

fun ledger_entry_source_value :: "ledger_entry_source \<Rightarrow> string" where
  "ledger_entry_source_value SRC_ONCHAIN_TRANSACTION = ''onchain_transaction''"
| "ledger_entry_source_value SRC_LIGHTNING_PAYMENT = ''lightning_payment''"
| "ledger_entry_source_value SRC_CUSTODIAL_EVENT = ''custodial_event''"

definition ledger_entry_source_members :: "ledger_entry_source list" where
  "ledger_entry_source_members =
     [SRC_ONCHAIN_TRANSACTION,
      SRC_LIGHTNING_PAYMENT,
      SRC_CUSTODIAL_EVENT]"

fun ledger_category_value :: "ledger_category \<Rightarrow> string" where
  "ledger_category_value CAT_CUSTODIAL_WITHDRAWAL = ''custodial_withdrawal''"
| "ledger_category_value CAT_P2P_RECEIVE = ''p2p_receive''"
| "ledger_category_value CAT_SALARY = ''salary''"
| "ledger_category_value CAT_MERCHANT_RECEIPT = ''merchant_receipt''"
| "ledger_category_value CAT_MERCHANT_PAYMENT = ''merchant_payment''"
| "ledger_category_value CAT_P2P_SEND = ''p2p_send''"
| "ledger_category_value CAT_CUSTODIAL_DEPOSIT = ''custodial_deposit''"
| "ledger_category_value CAT_INTERNAL_TRANSFER = ''internal_transfer''"
| "ledger_category_value CAT_CONSOLIDATION = ''consolidation''"
| "ledger_category_value CAT_OTHER = ''other''"

definition ledger_category_members :: "ledger_category list" where
  "ledger_category_members =
     [CAT_CUSTODIAL_WITHDRAWAL,
      CAT_P2P_RECEIVE,
      CAT_SALARY,
      CAT_MERCHANT_RECEIPT,
      CAT_MERCHANT_PAYMENT,
      CAT_P2P_SEND,
      CAT_CUSTODIAL_DEPOSIT,
      CAT_INTERNAL_TRANSFER,
      CAT_CONSOLIDATION,
      CAT_OTHER]"

fun payment_type_value :: "payment_type \<Rightarrow> string" where
  "payment_type_value PT_ONCHAIN = ''onchain''"
| "payment_type_value PT_LIGHTNING = ''lightning''"

definition payment_type_members :: "payment_type list" where
  "payment_type_members =
     [PT_ONCHAIN,
      PT_LIGHTNING]"

fun payment_status_value :: "payment_status \<Rightarrow> string" where
  "payment_status_value PS_DRAFT = ''draft''"
| "payment_status_value PS_AWAITING_SIGNATURE = ''awaiting_signature''"
| "payment_status_value PS_AWAITING_BROADCAST = ''awaiting_broadcast''"
| "payment_status_value PS_BROADCAST = ''broadcast''"
| "payment_status_value PS_CONFIRMED = ''confirmed''"
| "payment_status_value PS_FAILED = ''failed''"
| "payment_status_value PS_EXPIRED = ''expired''"
| "payment_status_value PS_CANCELLED = ''cancelled''"

definition payment_status_members :: "payment_status list" where
  "payment_status_members =
     [PS_DRAFT,
      PS_AWAITING_SIGNATURE,
      PS_AWAITING_BROADCAST,
      PS_BROADCAST,
      PS_CONFIRMED,
      PS_FAILED,
      PS_EXPIRED,
      PS_CANCELLED]"

fun invoice_status_value :: "invoice_status \<Rightarrow> string" where
  "invoice_status_value IS_OPEN = ''open''"
| "invoice_status_value IS_PAID = ''paid''"
| "invoice_status_value IS_OVERPAID = ''overpaid''"
| "invoice_status_value IS_EXPIRED = ''expired''"
| "invoice_status_value IS_CANCELLED = ''cancelled''"

definition invoice_status_members :: "invoice_status list" where
  "invoice_status_members =
     [IS_OPEN,
      IS_PAID,
      IS_OVERPAID,
      IS_EXPIRED,
      IS_CANCELLED]"

fun sweep_trigger_type_value :: "sweep_trigger_type \<Rightarrow> string" where
  "sweep_trigger_type_value TRG_SCHEDULED = ''scheduled''"
| "sweep_trigger_type_value TRG_THRESHOLD = ''threshold''"
| "sweep_trigger_type_value TRG_MANUAL = ''manual''"

definition sweep_trigger_type_members :: "sweep_trigger_type list" where
  "sweep_trigger_type_members =
     [TRG_SCHEDULED,
      TRG_THRESHOLD,
      TRG_MANUAL]"

fun safety_warning_kind_value :: "safety_warning_kind \<Rightarrow> string" where
  "safety_warning_kind_value SWK_DESTINATION_KEYS_ON_HOST = ''destination_keys_on_host''"
| "safety_warning_kind_value SWK_DESTINATION_IS_CUSTODIAL = ''destination_is_custodial''"
| "safety_warning_kind_value SWK_SOURCE_AND_DESTINATION_SAME_SECURITY_TIER = ''same_security_tier''"
| "safety_warning_kind_value SWK_NO_MAXIMUM_CAP_SET = ''no_maximum_cap_set''"
| "safety_warning_kind_value SWK_UNVERIFIED_WHITELIST_ON_PROVIDER = ''unverified_whitelist_on_provider''"

definition safety_warning_kind_members :: "safety_warning_kind list" where
  "safety_warning_kind_members =
     [SWK_DESTINATION_KEYS_ON_HOST,
      SWK_DESTINATION_IS_CUSTODIAL,
      SWK_SOURCE_AND_DESTINATION_SAME_SECURITY_TIER,
      SWK_NO_MAXIMUM_CAP_SET,
      SWK_UNVERIFIED_WHITELIST_ON_PROVIDER]"

fun safety_warning_severity_value :: "safety_warning_severity \<Rightarrow> string" where
  "safety_warning_severity_value SWS_LOW = ''low''"
| "safety_warning_severity_value SWS_MEDIUM = ''medium''"
| "safety_warning_severity_value SWS_HIGH = ''high''"

definition safety_warning_severity_members :: "safety_warning_severity list" where
  "safety_warning_severity_members =
     [SWS_LOW,
      SWS_MEDIUM,
      SWS_HIGH]"

fun sweep_execution_status_value :: "sweep_execution_status \<Rightarrow> string" where
  "sweep_execution_status_value SES_REQUESTED = ''requested''"
| "sweep_execution_status_value SES_AWAITING_USER_CONFIRMATION = ''awaiting_user_confirmation''"
| "sweep_execution_status_value SES_DISPATCHED = ''dispatched''"
| "sweep_execution_status_value SES_ONCHAIN_PENDING = ''onchain_pending''"
| "sweep_execution_status_value SES_COMPLETED = ''completed''"
| "sweep_execution_status_value SES_FAILED = ''failed''"
| "sweep_execution_status_value SES_CANCELLED = ''cancelled''"

definition sweep_execution_status_members :: "sweep_execution_status list" where
  "sweep_execution_status_members =
     [SES_REQUESTED,
      SES_AWAITING_USER_CONFIRMATION,
      SES_DISPATCHED,
      SES_ONCHAIN_PENDING,
      SES_COMPLETED,
      SES_FAILED,
      SES_CANCELLED]"

fun job_status_value :: "job_status \<Rightarrow> string" where
  "job_status_value JS_QUEUED = ''queued''"
| "job_status_value JS_RUNNING = ''running''"
| "job_status_value JS_SUCCESS = ''success''"
| "job_status_value JS_FAILED = ''failed''"
| "job_status_value JS_CANCELLED = ''cancelled''"

definition job_status_members :: "job_status list" where
  "job_status_members =
     [JS_QUEUED,
      JS_RUNNING,
      JS_SUCCESS,
      JS_FAILED,
      JS_CANCELLED]"

fun purse_mode_value :: "purse_mode \<Rightarrow> string" where
  "purse_mode_value PM_WATCH_ONLY = ''watch_only''"
| "purse_mode_value PM_ON_DEVICE_TK_GENERATED = ''on_device_tk_generated''"
| "purse_mode_value PM_ON_DEVICE_USER_IMPORTED = ''on_device_user_imported''"

definition purse_mode_members :: "purse_mode list" where
  "purse_mode_members =
     [PM_WATCH_ONLY,
      PM_ON_DEVICE_TK_GENERATED,
      PM_ON_DEVICE_USER_IMPORTED]"

fun discrepancy_kind_value :: "discrepancy_kind \<Rightarrow> string" where
  "discrepancy_kind_value DK_CLAIMED_MULTISIG_BUT_SINGLE_KEY = ''claimed_multisig_but_single_key''"
| "discrepancy_kind_value DK_CLAIMED_SINGLE_BUT_OBSERVABLE_MULTISIG = ''claimed_single_but_observable_multisig''"
| "discrepancy_kind_value DK_CLAIMED_OFFLINE_BUT_PATTERN_SUGGESTS_HOT = ''claimed_offline_but_pattern_suggests_hot''"
| "discrepancy_kind_value DK_CLAIMED_VAULT_NO_TIMELOCK_NO_MULTISIG = ''claimed_vault_no_timelock_no_multisig''"
| "discrepancy_kind_value DK_CLAIMED_INHERITANCE_NO_RECOVERY_PATH = ''claimed_inheritance_no_recovery_path''"

definition discrepancy_kind_members :: "discrepancy_kind list" where
  "discrepancy_kind_members =
     [DK_CLAIMED_MULTISIG_BUT_SINGLE_KEY,
      DK_CLAIMED_SINGLE_BUT_OBSERVABLE_MULTISIG,
      DK_CLAIMED_OFFLINE_BUT_PATTERN_SUGGESTS_HOT,
      DK_CLAIMED_VAULT_NO_TIMELOCK_NO_MULTISIG,
      DK_CLAIMED_INHERITANCE_NO_RECOVERY_PATH]"

fun discrepancy_severity_value :: "discrepancy_severity \<Rightarrow> string" where
  "discrepancy_severity_value DS_INFORMATIONAL = ''informational''"
| "discrepancy_severity_value DS_LOW = ''low''"
| "discrepancy_severity_value DS_MEDIUM = ''medium''"
| "discrepancy_severity_value DS_HIGH = ''high''"

definition discrepancy_severity_members :: "discrepancy_severity list" where
  "discrepancy_severity_members =
     [DS_INFORMATIONAL,
      DS_LOW,
      DS_MEDIUM,
      DS_HIGH]"

section \<open>The contract of a string enumeration\<close>

text \<open>\<open>enum_of\<close> is the call \<^verbatim>\<open>X(value)\<close> of a Python \<^verbatim>\<open>(str, Enum)\<close> class: the member with
  that value, or the \<^verbatim>\<open>ValueError\<close> that Python raises (here \<open>None\<close>).\<close>

definition enum_of :: "'m list \<Rightarrow> ('m \<Rightarrow> string) \<Rightarrow> string \<Rightarrow> 'm option" where
  "enum_of ms val s = find (\<lambda>m. val m = s) ms"

locale str_enum =
  fixes members :: "'m list"
    and val :: "'m \<Rightarrow> string"
  assumes complete: "x \<in> set members"
    and distinct_values: "distinct (map val members)"
begin

lemma value_inj: "val x = val y \<Longrightarrow> x = y"
  using distinct_values complete [of x] complete [of y]
  by (auto simp: distinct_map inj_on_def)

lemma of_value: "enum_of members val (val x) = Some x"
proof -
  have "\<exists>m. m \<in> set members \<and> val m = val x"
    using complete by blast
  then obtain m where m: "find (\<lambda>m. val m = val x) members = Some m"
    by (cases "find (\<lambda>m. val m = val x) members") (auto simp: find_None_iff)
  then have "val m = val x"
    by (auto simp: find_Some_iff)
  then show ?thesis
    using m value_inj by (auto simp: enum_of_def)
qed

lemma value_of: "enum_of members val s = Some x \<Longrightarrow> val x = s"
  by (auto simp: enum_of_def find_Some_iff)

lemma of_value_iff: "enum_of members val s = Some x \<longleftrightarrow> s = val x"
  using of_value value_of by auto

lemma of_unknown: "enum_of members val s = None \<longleftrightarrow> (\<forall>x. val x \<noteq> s)"
  using complete by (auto simp: enum_of_def find_None_iff)

end

interpretation pur_enum: str_enum purpose_members purpose_value
  by unfold_locales
    (simp_all add: purpose_members_def, (case_tac x; simp)?)

interpretation cm_enum: str_enum custody_model_members custody_model_value
  by unfold_locales
    (simp_all add: custody_model_members_def, (case_tac x; simp)?)

interpretation sm_enum: str_enum signing_model_members signing_model_value
  by unfold_locales
    (simp_all add: signing_model_members_def, (case_tac x; simp)?)

interpretation ht_enum: str_enum holding_type_members holding_type_value
  by unfold_locales
    (simp_all add: holding_type_members_def, (case_tac x; simp)?)

interpretation net_enum: str_enum network_members network_value
  by unfold_locales
    (simp_all add: network_members_def, (case_tac x; simp)?)

interpretation at_enum: str_enum address_type_members address_type_value
  by unfold_locales
    (simp_all add: address_type_members_def, (case_tac x; simp)?)

interpretation hf_enum: str_enum hygiene_flag_members hygiene_flag_value
  by unfold_locales
    (simp_all add: hygiene_flag_members_def, (case_tac x; simp)?)

interpretation pk_enum: str_enum provider_kind_members provider_kind_value
  by unfold_locales
    (simp_all add: provider_kind_members_def, (case_tac x; simp)?)

interpretation dir_enum: str_enum direction_members direction_value
  by unfold_locales
    (simp_all add: direction_members_def, (case_tac x; simp)?)

interpretation src_enum: str_enum ledger_entry_source_members ledger_entry_source_value
  by unfold_locales
    (simp_all add: ledger_entry_source_members_def, (case_tac x; simp)?)

interpretation cat_enum: str_enum ledger_category_members ledger_category_value
  by unfold_locales
    (simp_all add: ledger_category_members_def, (case_tac x; simp)?)

interpretation pt_enum: str_enum payment_type_members payment_type_value
  by unfold_locales
    (simp_all add: payment_type_members_def, (case_tac x; simp)?)

interpretation ps_enum: str_enum payment_status_members payment_status_value
  by unfold_locales
    (simp_all add: payment_status_members_def, (case_tac x; simp)?)

interpretation is_enum: str_enum invoice_status_members invoice_status_value
  by unfold_locales
    (simp_all add: invoice_status_members_def, (case_tac x; simp)?)

interpretation trg_enum: str_enum sweep_trigger_type_members sweep_trigger_type_value
  by unfold_locales
    (simp_all add: sweep_trigger_type_members_def, (case_tac x; simp)?)

interpretation swk_enum: str_enum safety_warning_kind_members safety_warning_kind_value
  by unfold_locales
    (simp_all add: safety_warning_kind_members_def, (case_tac x; simp)?)

interpretation sws_enum: str_enum safety_warning_severity_members safety_warning_severity_value
  by unfold_locales
    (simp_all add: safety_warning_severity_members_def, (case_tac x; simp)?)

interpretation ses_enum: str_enum sweep_execution_status_members sweep_execution_status_value
  by unfold_locales
    (simp_all add: sweep_execution_status_members_def, (case_tac x; simp)?)

interpretation js_enum: str_enum job_status_members job_status_value
  by unfold_locales
    (simp_all add: job_status_members_def, (case_tac x; simp)?)

interpretation pm_enum: str_enum purse_mode_members purse_mode_value
  by unfold_locales
    (simp_all add: purse_mode_members_def, (case_tac x; simp)?)

interpretation dk_enum: str_enum discrepancy_kind_members discrepancy_kind_value
  by unfold_locales
    (simp_all add: discrepancy_kind_members_def, (case_tac x; simp)?)

interpretation ds_enum: str_enum discrepancy_severity_members discrepancy_severity_value
  by unfold_locales
    (simp_all add: discrepancy_severity_members_def, (case_tac x; simp)?)

end
