(* ===== verification/Domain.thy ===== *)
theory Domain
  imports Enums
begin

text \<open>
  The dataclasses of \<^verbatim>\<open>domain/*.py\<close>: one record per dataclass, with the source's fields in the
  source's order under a short prefix, and one function per \<^verbatim>\<open>__post_init__\<close> that returns the
  object or the \<^verbatim>\<open>ValueError\<close> it raises.  The checks run in the source's order, so the first
  violated rule is the one reported; each raise has its own \<open>violation\<close> constructor in place of
  its message text.  \<open>exn\<close> collects the exceptions the services raise.

  The lemmas characterise what construction guarantees: an object exists exactly when its
  class's rules hold.
\<close>

section \<open>Exceptions\<close>

datatype violation =
    V_Account_descriptors | V_Account_provider_missing | V_Account_signing | V_Account_custody
  | V_Self_no_descriptor | V_Self_provider | V_Self_signing | V_Self_custody
  | V_Signing_device_label | V_Vendor | V_Signing_metadata_present
  | V_Vault_metadata | V_Signers_together | V_Required_signers | V_Total_signers
  | V_Timelock_kind | V_Timelock_value_missing | V_Timelock_value_negative
  | V_Not_watch_only | V_Gap_limit | V_Last_scanned_height | V_Expression_empty
  | V_Derivation_index
  | V_Value_sats | V_Vout | V_Spent_without_txid | V_Unspent_with_txid
  | V_Source_reference | V_Incoming_negative | V_Outgoing_positive | V_Fee_negative
  | V_Category_without_time
  | V_Txid_missing | V_Txid_length | V_Size_negative | V_Height_negative
  | V_Amount_not_positive | V_Onchain_lightning_fields | V_Lightning_onchain_fields
  | V_Lightning_broadcast_txid
  | V_Same_holding | V_Minimum_negative | V_Maximum_negative
  | V_Unacknowledged "safety_warning_kind list"
  | V_Pre_balance_negative | V_Intended_negative
  | V_Adapter_id | V_Credential_missing | V_Credential_literal | V_Balance_negative
  | V_Fee_rate_not_positive | V_Unknown_fee_strategy
  | V_Cannot_cancel
  | V_Profile_id | V_Base_currency
  | V_Extended_key | V_Count_negative | V_Start_index_negative | V_Index_negative
  | V_Strongbox_only | V_Vault_only

datatype exn =
    ValueError violation
  | MultipleResultsFound
  | IntegrityError
  | KeyError
  | NodeError
  | BdkError
  | BankingError
  | HoldingNotFound
  | HoldingCannotSend
  | InsufficientBalance
  | InvalidDestination
  | InFlightPaymentExists
  | PaymentRequestNotFound
  | WrongStatusForOperation
  | PsbtMismatch
  | SignedTransactionInvalid
  | BroadcastRejected
  | InvoiceError
  | HoldingCannotReceive
  | NoUnusedAddress
  | TreasuryServiceError
  | ProviderNotFound
  | PolicyNotFound
  | ExecutionNotFound
  | PolicyHasUnacknowledgedWarnings
  | WrongExecutionStatus
  | InvalidPollingInterval
  | ProviderConnectionError
  | ItemNotFound
  | InvalidStateTransition
  | ReviveNotAllowed
  | HoldingServiceError
  | DescriptorAlreadyExists
  | DescriptorParseError
  | UnsupportedDescriptorError
  | UnsupportedAdapterError
  | TradePermissionsDetected
  | CredentialPermissionMismatch
  | PolicyAlreadyEnabled
  | ProviderAuthError
  | ProviderPermissionError
  | ProviderRateLimitError
  | ProviderError
  | LockedError
  | TypeError
  | AttributeError
  | AssertionError

section \<open>Holdings\<close>

record security_claim =
  sc_custody_model :: custody_model
  sc_signing_model :: signing_model
  sc_geographic_distribution :: bool
  sc_inheritance_configured :: bool
  sc_notes :: "string option"

record holding =
  h_id :: uuid
  h_holding_type :: holding_type
  h_name :: string
  h_description :: "string option"
  h_purpose :: purpose
  h_declared_security :: security_claim
  h_display_color :: string
  h_display_order :: int
  h_created_at :: timestamp
  h_updated_at :: timestamp
  h_custodial_provider_id :: "uuid option"
  h_descriptor_ids :: "uuid list"
  h_purse_mode :: "purse_mode option"
  h_signing_device_label :: "string option"
  h_vendor :: "string option"
  h_signing_metadata_present :: "bool option"
  h_required_signers :: "int option"
  h_total_signers :: "int option"
  h_timelock_kind :: "string option"
  h_timelock_value :: "int option"
  h_recovery_setup_notes :: "string option"

text \<open>The dataclasses raise from several helper methods; a check is the violation found, if
  any, and checks are tried in order.\<close>

fun first_violation :: "(bool \<times> violation) list \<Rightarrow> violation option" where
  "first_violation [] = None"
| "first_violation ((c, v) # rest) = (if c then Some v else first_violation rest)"

definition construct :: "(bool \<times> violation) list \<Rightarrow> 'a \<Rightarrow> exn + 'a" where
  "construct checks x =
     (case first_violation checks of Some v \<Rightarrow> Inl (ValueError v) | None \<Rightarrow> Inr x)"

definition reject_vault_metadata :: "holding \<Rightarrow> (bool \<times> violation) list" where
  "reject_vault_metadata h =
     [(h_required_signers h \<noteq> None \<or> h_total_signers h \<noteq> None \<or> h_timelock_kind h \<noteq> None \<or>
       h_timelock_value h \<noteq> None \<or> h_recovery_setup_notes h \<noteq> None, V_Vault_metadata)]"

definition reject_strongbox_metadata :: "holding \<Rightarrow> (bool \<times> violation) list" where
  "reject_strongbox_metadata h =
     [(h_signing_device_label h \<noteq> None, V_Signing_device_label),
      (h_vendor h \<noteq> None, V_Vendor),
      (h_signing_metadata_present h \<noteq> None, V_Signing_metadata_present)]"

definition opt_lt :: "int option \<Rightarrow> int \<Rightarrow> bool" where
  "opt_lt x n = (case x of None \<Rightarrow> False | Some i \<Rightarrow> i < n)"

definition opt_le :: "int option \<Rightarrow> int \<Rightarrow> bool" where
  "opt_le x n = (case x of None \<Rightarrow> False | Some i \<Rightarrow> i \<le> n)"

definition validate_vault_metadata :: "holding \<Rightarrow> (bool \<times> violation) list" where
  "validate_vault_metadata h =
     [((h_required_signers h = None) \<noteq> (h_total_signers h = None), V_Signers_together),
      (opt_lt (h_required_signers h) 1, V_Required_signers),
      (case (h_required_signers h, h_total_signers h) of
         (Some r, Some t) \<Rightarrow> t < r | _ \<Rightarrow> False, V_Total_signers),
      (h_timelock_kind h \<notin> {None, Some ''cltv'', Some ''csv''}, V_Timelock_kind),
      (h_timelock_kind h \<noteq> None \<and> h_timelock_value h = None, V_Timelock_value_missing),
      (opt_lt (h_timelock_value h) 0, V_Timelock_value_negative)]"

definition holding_checks :: "holding \<Rightarrow> (bool \<times> violation) list" where
  "holding_checks h =
     (if h_holding_type h = HT_ACCOUNT then
        [(h_descriptor_ids h \<noteq> [], V_Account_descriptors),
         (h_custodial_provider_id h = None, V_Account_provider_missing),
         (sc_signing_model (h_declared_security h) \<noteq> SM_NOT_APPLICABLE, V_Account_signing),
         (sc_custody_model (h_declared_security h) \<noteq> CM_THIRD_PARTY, V_Account_custody)] @
        reject_vault_metadata h @ reject_strongbox_metadata h
      else
        [(h_descriptor_ids h = [], V_Self_no_descriptor),
         (h_custodial_provider_id h \<noteq> None, V_Self_provider),
         (sc_signing_model (h_declared_security h) = SM_NOT_APPLICABLE, V_Self_signing),
         (sc_custody_model (h_declared_security h) = CM_THIRD_PARTY, V_Self_custody)]) @
     (if h_holding_type h \<noteq> HT_STRONGBOX then reject_strongbox_metadata h else []) @
     (if h_holding_type h \<noteq> HT_VAULT then reject_vault_metadata h
      else validate_vault_metadata h)"

definition Holding :: "holding \<Rightarrow> exn + holding" where
  "Holding h = construct (holding_checks h) h"

section \<open>Descriptors, addresses, UTXOs\<close>

record descriptor =
  d_id :: uuid
  d_holding_id :: uuid
  d_name :: string
  d_expression :: string
  d_change_expression :: "string option"
  d_network :: network
  d_address_type :: address_type
  d_gap_limit :: int
  d_is_watch_only :: bool
  d_last_scanned_height :: int
  d_created_at :: timestamp

definition Descriptor :: "descriptor \<Rightarrow> exn + descriptor" where
  "Descriptor d = construct
     [(\<not> d_is_watch_only d, V_Not_watch_only),
      (d_gap_limit d < 1, V_Gap_limit),
      (d_last_scanned_height d < 0, V_Last_scanned_height),
      (d_expression d = '''', V_Expression_empty)] d"

record address =
  a_id :: uuid
  a_descriptor_id :: uuid
  a_address :: string
  a_derivation_path :: string
  a_is_change :: bool
  a_derivation_index :: int
  a_label :: "string option"
  a_first_seen_height :: "int option"
  a_is_reused :: bool
  a_created_at :: timestamp

definition Address :: "address \<Rightarrow> exn + address" where
  "Address a = construct [(a_derivation_index a < 0, V_Derivation_index)] a"

record utxo =
  u_id :: uuid
  u_descriptor_id :: uuid
  u_address_id :: uuid
  u_txid :: string
  u_vout :: int
  u_value_sats :: sats
  u_confirmation_height :: "int option"
  u_is_frozen :: bool
  u_is_spent :: bool
  u_spent_in_txid :: "string option"
  u_hygiene_flags :: "hygiene_flag list"
  u_created_at :: timestamp

definition UTXO :: "utxo \<Rightarrow> exn + utxo" where
  "UTXO u = construct
     [(u_value_sats u < 0, V_Value_sats),
      (u_vout u < 0, V_Vout),
      (u_is_spent u \<and> u_spent_in_txid u = None, V_Spent_without_txid),
      (\<not> u_is_spent u \<and> u_spent_in_txid u \<noteq> None, V_Unspent_with_txid)] u"

section \<open>Ledger entries and on-chain transactions\<close>

record ledger_entry =
  le_id :: uuid
  le_direction :: direction
  le_net_amount_sats :: sats
  le_fee_sats :: "sats option"
  le_timestamp :: timestamp
  le_source :: ledger_entry_source
  le_source_reference :: string
  le_category :: "ledger_category option"
  le_counterparty_label :: "string option"
  le_note :: "string option"
  le_suggested_category :: "ledger_category option"
  le_categorized_at :: "timestamp option"
  le_created_at :: timestamp

definition LedgerEntry :: "ledger_entry \<Rightarrow> exn + ledger_entry" where
  "LedgerEntry e = construct
     [(le_source_reference e = '''', V_Source_reference),
      (le_direction e = DIR_INCOMING \<and> le_net_amount_sats e < 0, V_Incoming_negative),
      (le_direction e = DIR_OUTGOING \<and> le_net_amount_sats e > 0, V_Outgoing_positive),
      (opt_lt (le_fee_sats e) 0, V_Fee_negative),
      (le_category e \<noteq> None \<and> le_categorized_at e = None, V_Category_without_time)] e"

record ledger_link =
  ll_ledger_entry_id :: uuid
  ll_holding_id :: uuid
  ll_holding_amount_sats :: sats

record onchain_transaction =
  ot_txid :: string
  ot_raw_hex :: "string option"
  ot_confirmation_height :: "int option"
  ot_block_time :: "timestamp option"
  ot_first_seen_at :: timestamp
  ot_fee_sats :: "sats option"
  ot_size_vbytes :: "int option"
  ot_is_coinjoin_suspected :: bool

definition OnChainTransaction :: "onchain_transaction \<Rightarrow> exn + onchain_transaction" where
  "OnChainTransaction t = construct
     [(ot_txid t = '''', V_Txid_missing),
      (length (ot_txid t) \<noteq> 64, V_Txid_length),
      (opt_lt (ot_fee_sats t) 0, V_Fee_negative),
      (opt_lt (ot_size_vbytes t) 0, V_Size_negative),
      (opt_lt (ot_confirmation_height t) 0, V_Height_negative)] t"

section \<open>Payment requests and invoices\<close>

record payment_request =
  pr_id :: uuid
  pr_holding_id :: uuid
  pr_payment_type :: payment_type
  pr_amount_sats :: "sats option"
  pr_description :: "string option"
  pr_status :: payment_status
  pr_expires_at :: "timestamp option"
  pr_created_at :: timestamp
  pr_updated_at :: timestamp
  pr_destination_address :: "string option"
  pr_bip21_uri :: "string option"
  pr_psbt_base64 :: "string option"
  pr_signed_transaction_hex :: "string option"
  pr_broadcast_txid :: "string option"
  pr_lightning_invoice :: "string option"
  pr_lightning_payment_hash :: "string option"
  pr_resulting_ledger_entry_id :: "uuid option"
  pr_sweep_execution_id :: "uuid option"

definition PaymentRequest :: "payment_request \<Rightarrow> exn + payment_request" where
  "PaymentRequest p = construct
     ((opt_le (pr_amount_sats p) 0, V_Amount_not_positive) #
      (case pr_payment_type p of
         PT_ONCHAIN \<Rightarrow>
           [(pr_lightning_invoice p \<noteq> None \<or> pr_lightning_payment_hash p \<noteq> None,
             V_Onchain_lightning_fields)]
       | PT_LIGHTNING \<Rightarrow>
           [(pr_psbt_base64 p \<noteq> None \<or> pr_signed_transaction_hex p \<noteq> None,
             V_Lightning_onchain_fields),
            (pr_broadcast_txid p \<noteq> None, V_Lightning_broadcast_txid)])) p"

record invoice =
  i_id :: uuid
  i_holding_id :: uuid
  i_invoice_type :: payment_type
  i_amount_sats :: "sats option"
  i_description :: "string option"
  i_status :: invoice_status
  i_expires_at :: "timestamp option"
  i_created_at :: timestamp
  i_receiving_address :: "string option"
  i_receiving_address_id :: "uuid option"
  i_bip21_uri :: "string option"
  i_bolt11 :: "string option"
  i_payment_hash :: "string option"
  i_resulting_ledger_entry_id :: "uuid option"

definition Invoice :: "invoice \<Rightarrow> exn + invoice" where
  "Invoice i = construct
     [(opt_le (i_amount_sats i) 0, V_Amount_not_positive),
      (i_invoice_type i = PT_ONCHAIN \<and> (i_bolt11 i \<noteq> None \<or> i_payment_hash i \<noteq> None),
       V_Onchain_lightning_fields),
      (i_invoice_type i = PT_LIGHTNING \<and>
       (i_receiving_address i \<noteq> None \<or> i_bip21_uri i \<noteq> None),
       V_Lightning_onchain_fields)] i"

section \<open>Custodial providers\<close>

record provider_permissions =
  pp_can_read :: bool
  pp_can_trade :: bool
  pp_can_withdraw :: bool
  pp_overage :: "string list"
  pp_underage :: "string list"

record custodial_provider =
  cp_id :: uuid
  cp_holding_id :: uuid
  cp_provider_kind :: provider_kind
  cp_display_name :: string
  cp_adapter_id :: string
  cp_api_credential_reference :: string
  cp_api_secret_reference :: string
  cp_api_passphrase_reference :: "string option"
  cp_permissions :: provider_permissions
  cp_whitelist_address :: "string option"
  cp_whitelist_address_descriptor_id :: "uuid option"
  cp_whitelist_verified :: bool
  cp_is_active :: bool
  cp_last_polled_at :: "timestamp option"
  cp_last_error :: "string option"
  cp_last_known_balance_sats :: "sats option"
  cp_connection_status :: string
  cp_consecutive_error_count :: int
  cp_ledger_cursor_at :: "timestamp option"
  cp_polling_interval_seconds :: int
  cp_observation_key_last_four :: "string option"
  cp_non_btc_balances :: "(string \<times> string) list"
  cp_created_at :: timestamp
  cp_updated_at :: timestamp

definition CustodialProvider :: "custodial_provider \<Rightarrow> exn + custodial_provider" where
  "CustodialProvider p = construct
     [(cp_adapter_id p = '''', V_Adapter_id),
      (cp_api_credential_reference p = '''' \<or> cp_api_secret_reference p = '''',
       V_Credential_missing),
      (CHR ''{'' \<in> set (cp_api_credential_reference p) \<or>
       CHR ''{'' \<in> set (cp_api_secret_reference p), V_Credential_literal),
      (opt_lt (cp_last_known_balance_sats p) 0, V_Balance_negative)] p"

section \<open>Sweep policies and executions\<close>

record safety_warning =
  sw_kind :: safety_warning_kind
  sw_severity :: safety_warning_severity
  sw_message :: string
  sw_user_acknowledged :: bool

text \<open>The trigger configuration is a JSON object; the only key the modelled code reads is
  \<^verbatim>\<open>threshold_sats\<close>, so it is kept as the list of its integer entries.\<close>

record sweep_policy =
  sp_id :: uuid
  sp_name :: string
  sp_source_holding_id :: uuid
  sp_destination_holding_id :: uuid
  sp_is_enabled :: bool
  sp_trigger_type :: sweep_trigger_type
  sp_trigger_configuration :: "(string \<times> int) list"
  sp_minimum_balance_sats :: sats
  sp_maximum_per_period_sats :: "sats option"
  sp_requires_user_confirmation :: bool
  sp_is_dry_run :: bool
  sp_safety_warnings :: "safety_warning list"
  sp_last_executed_at :: "timestamp option"
  sp_last_result_summary :: "string option"
  sp_created_at :: timestamp
  sp_updated_at :: timestamp

definition unacked :: "safety_warning list \<Rightarrow> safety_warning list" where
  "unacked ws = filter (\<lambda>w. \<not> sw_user_acknowledged w) ws"

definition SweepPolicy :: "sweep_policy \<Rightarrow> exn + sweep_policy" where
  "SweepPolicy p = construct
     [(sp_source_holding_id p = sp_destination_holding_id p, V_Same_holding),
      (sp_minimum_balance_sats p < 0, V_Minimum_negative),
      (opt_lt (sp_maximum_per_period_sats p) 0, V_Maximum_negative),
      (sp_is_enabled p \<and> unacked (sp_safety_warnings p) \<noteq> [],
       V_Unacknowledged (map sw_kind (unacked (sp_safety_warnings p))))] p"

record sweep_execution =
  se_id :: uuid
  se_sweep_policy_id :: uuid
  se_triggered_at :: timestamp
  se_trigger_source :: sweep_trigger_type
  se_pre_balance_sats :: sats
  se_intended_amount_sats :: sats
  se_status :: sweep_execution_status
  se_provider_withdrawal_id :: "string option"
  se_expected_txid :: "string option"
  se_confirmed_txid :: "string option"
  se_error_message :: "string option"
  se_completed_at :: "timestamp option"

definition SweepExecution :: "sweep_execution \<Rightarrow> exn + sweep_execution" where
  "SweepExecution e = construct
     [(se_pre_balance_sats e < 0, V_Pre_balance_negative),
      (se_intended_amount_sats e < 0, V_Intended_negative)] e"

section \<open>User profile\<close>

definition USER_PROFILE_SINGLETON_ID :: uuid where
  "USER_PROFILE_SINGLETON_ID = 1"

record user_profile =
  up_id :: uuid
  up_feature_flags :: "(string \<times> bool) list"
  up_base_currency :: string
  up_locale :: string
  up_principles_acknowledged_at :: "timestamp option"
  up_created_at :: "timestamp option"
  up_updated_at :: "timestamp option"

definition UserProfile :: "user_profile \<Rightarrow> exn + user_profile" where
  "UserProfile u = construct
     [(up_id u \<noteq> USER_PROFILE_SINGLETON_ID, V_Profile_id),
      (length (up_base_currency u) \<noteq> 3, V_Base_currency)] u"

section \<open>What construction guarantees\<close>

lemma first_violation_None: "first_violation cs = None \<longleftrightarrow> (\<forall>(c, v) \<in> set cs. \<not> c)"
  by (induction cs rule: first_violation.induct) auto

lemma first_violation_Some: "first_violation cs = Some v \<Longrightarrow> (True, v) \<in> set cs"
  by (induction cs rule: first_violation.induct) (auto split: if_splits)

lemma construct_Inr_iff: "construct cs x = Inr y \<longleftrightarrow> y = x \<and> (\<forall>(c, v) \<in> set cs. \<not> c)"
  unfolding first_violation_None [symmetric] construct_def
  by (auto split: option.splits)

lemma construct_Inl_iff:
  "construct cs x = Inl e \<longleftrightarrow> (\<exists>v. e = ValueError v \<and> first_violation cs = Some v)"
  by (auto simp: construct_def split: option.splits)

lemma construct_cases: "construct cs x = Inr x \<or> (\<exists>v. construct cs x = Inl (ValueError v))"
  by (auto simp: construct_def split: option.splits)

lemmas domain_ctor_defs = Holding_def Descriptor_def Address_def UTXO_def LedgerEntry_def
  OnChainTransaction_def PaymentRequest_def Invoice_def CustodialProvider_def SweepPolicy_def
  SweepExecution_def UserProfile_def

lemma Holding_id: "Holding h = Inr h' \<Longrightarrow> h' = h"
  by (simp add: Holding_def construct_Inr_iff)

lemma PaymentRequest_id: "PaymentRequest p = Inr p' \<Longrightarrow> p' = p"
  by (simp add: PaymentRequest_def construct_Inr_iff)

lemma Invoice_id: "Invoice p = Inr p' \<Longrightarrow> p' = p"
  by (simp add: Invoice_def construct_Inr_iff)

lemma SweepPolicy_id: "SweepPolicy p = Inr p' \<Longrightarrow> p' = p"
  by (simp add: SweepPolicy_def construct_Inr_iff)

lemma SweepExecution_Inr_iff:
  "SweepExecution e = Inr e' \<longleftrightarrow>
     e' = e \<and> 0 \<le> se_pre_balance_sats e \<and> 0 \<le> se_intended_amount_sats e"
  by (auto simp: SweepExecution_def construct_Inr_iff)

lemma SweepPolicy_Inr_iff:
  "SweepPolicy p = Inr p' \<longleftrightarrow>
     p' = p \<and> sp_source_holding_id p \<noteq> sp_destination_holding_id p \<and>
     0 \<le> sp_minimum_balance_sats p \<and> \<not> opt_lt (sp_maximum_per_period_sats p) 0 \<and>
     (sp_is_enabled p \<longrightarrow> (\<forall>w \<in> set (sp_safety_warnings p). sw_user_acknowledged w))"
  by (auto simp: SweepPolicy_def construct_Inr_iff unacked_def filter_empty_conv)

lemma UTXO_Inr_iff:
  "UTXO u = Inr u' \<longleftrightarrow> u' = u \<and> 0 \<le> u_value_sats u \<and> 0 \<le> u_vout u \<and>
     (u_is_spent u \<longleftrightarrow> u_spent_in_txid u \<noteq> None)"
  by (auto simp: UTXO_def construct_Inr_iff)

lemma LedgerEntry_Inr_iff:
  "LedgerEntry e = Inr e' \<longleftrightarrow> e' = e \<and> le_source_reference e \<noteq> '''' \<and>
     (le_direction e = DIR_INCOMING \<longrightarrow> 0 \<le> le_net_amount_sats e) \<and>
     (le_direction e = DIR_OUTGOING \<longrightarrow> le_net_amount_sats e \<le> 0) \<and>
     \<not> opt_lt (le_fee_sats e) 0 \<and>
     (le_category e \<noteq> None \<longrightarrow> le_categorized_at e \<noteq> None)"
  by (auto simp: LedgerEntry_def construct_Inr_iff)

lemma PaymentRequest_onchain_Inr_iff:
  "pr_payment_type p = PT_ONCHAIN \<Longrightarrow>
   PaymentRequest p = Inr p' \<longleftrightarrow> p' = p \<and> \<not> opt_le (pr_amount_sats p) 0 \<and>
     pr_lightning_invoice p = None \<and> pr_lightning_payment_hash p = None"
  by (auto simp: PaymentRequest_def construct_Inr_iff)

lemma Invoice_onchain_Inr_iff:
  "i_invoice_type p = PT_ONCHAIN \<Longrightarrow>
   Invoice p = Inr p' \<longleftrightarrow> p' = p \<and> \<not> opt_le (i_amount_sats p) 0 \<and>
     i_bolt11 p = None \<and> i_payment_hash p = None"
  by (auto simp: Invoice_def construct_Inr_iff)

end
