(* ===== verification/Database.thy ===== *)
theory Database
  imports Domain
begin

text \<open>
  The database session: one list of rows per table of \<^verbatim>\<open>models/*.py\<close>, gathered in the record
  \<open>db\<close>, with the schema's primary keys, unique constraints and foreign keys as predicates.
  Columns holding an enumeration's canonical string hold the member itself (theory \<open>Enums\<close>
  shows the strings and the members correspond one to one).  Reading a row rebuilds its
  dataclass, so reads run the dataclass's checks and can raise.

  Every table is an interpretation of the locale \<open>db_table\<close>, which gives each repository its
  lookup-after-write facts.
\<close>

section \<open>Rows that have no dataclass\<close>

text \<open>\<^verbatim>\<open>BroadcastAttemptRow\<close>, \<^verbatim>\<open>CustodialLedgerEntryRow\<close>, \<^verbatim>\<open>HoldingTypeChangeLogRow\<close> and the
  security-health item.\<close>

record broadcast_attempt =
  ba_id :: uuid
  ba_payment_request_id :: uuid
  ba_transaction_hex :: string
  ba_txid :: string
  ba_status :: string
  ba_rejection_reason :: "string option"
  ba_completed_at :: "timestamp option"

record custodial_ledger_row =
  cle_id :: uuid
  cle_holding_id :: uuid
  cle_custodial_provider_id :: uuid
  cle_provider_entry_id :: string
  cle_kind :: string
  cle_asset :: string
  cle_amount_sats :: sats
  cle_fee_sats :: "sats option"
  cle_status :: string
  cle_timestamp :: timestamp
  cle_raw_payload :: "string \<times> string list"
  cle_linked_sweep_execution_id :: "uuid option"
  cle_linked_counterparty_holding_id :: "uuid option"
  cle_linked_chain_ledger_entry_id :: "uuid option"
  cle_reconciled_at :: "timestamp option"
  cle_updated_at :: timestamp

record type_change_log =
  tl_id :: uuid
  tl_holding_id :: uuid
  tl_previous_type :: holding_type
  tl_new_type :: holding_type
  tl_reason :: "string option"

record health_item =
  hi_id :: uuid
  hi_item_type :: string
  hi_holding_id :: "uuid option"
  hi_state :: string
  hi_severity :: string
  hi_created_at :: timestamp
  hi_resolved_at :: "timestamp option"
  hi_dismissal_reason :: "string option"
  hi_raw_context :: "(string \<times> string) list"

section \<open>The session\<close>

text \<open>A \<open>holding\<close> row carries no descriptor ids and no provider id: those are looked up through
  the foreign keys when the row is read.\<close>

record db =
  holdings :: "holding list"
  descriptors :: "descriptor list"
  addresses :: "address list"
  utxos :: "utxo list"
  onchain_transactions :: "onchain_transaction list"
  ledger_entries :: "ledger_entry list"
  ledger_links :: "ledger_link list"
  payment_requests :: "payment_request list"
  broadcast_attempts :: "broadcast_attempt list"
  invoices :: "invoice list"
  custodial_providers :: "custodial_provider list"
  custodial_ledger :: "custodial_ledger_row list"
  sweep_policies :: "sweep_policy list"
  sweep_executions :: "sweep_execution list"
  type_change_logs :: "type_change_log list"
  health_items :: "health_item list"
  user_profile_row :: "user_profile option"

definition empty_db :: db where
  "empty_db =
     \<lparr>holdings = [], descriptors = [], addresses = [], utxos = [], onchain_transactions = [],
      ledger_entries = [], ledger_links = [], payment_requests = [], broadcast_attempts = [],
      invoices = [], custodial_providers = [], custodial_ledger = [], sweep_policies = [],
      sweep_executions = [], type_change_logs = [], health_items = [],
      user_profile_row = None\<rparr>"

type_synonym 'a service = "(exn, db, 'a) svc"

section \<open>Tables\<close>

interpretation holding_t: db_table h_id holdings holdings_update
  by unfold_locales simp_all

interpretation descriptor_t: db_table d_id descriptors descriptors_update
  by unfold_locales simp_all

interpretation address_t: db_table a_id addresses addresses_update
  by unfold_locales simp_all

interpretation utxo_t: db_table u_id utxos utxos_update
  by unfold_locales simp_all

interpretation outpoint_t: db_table "\<lambda>u. (u_txid u, u_vout u)" utxos utxos_update
  by unfold_locales simp_all

interpretation onchain_t: db_table ot_txid onchain_transactions onchain_transactions_update
  by unfold_locales simp_all

interpretation ledger_t: db_table le_id ledger_entries ledger_entries_update
  by unfold_locales simp_all

interpretation payment_t: db_table pr_id payment_requests payment_requests_update
  by unfold_locales simp_all

interpretation attempt_t: db_table ba_id broadcast_attempts broadcast_attempts_update
  by unfold_locales simp_all

interpretation invoice_t: db_table i_id invoices invoices_update
  by unfold_locales simp_all

interpretation provider_t: db_table cp_id custodial_providers custodial_providers_update
  by unfold_locales simp_all

interpretation policy_t: db_table sp_id sweep_policies sweep_policies_update
  by unfold_locales simp_all

interpretation execution_t: db_table se_id sweep_executions sweep_executions_update
  by unfold_locales simp_all

interpretation health_t: db_table hi_id health_items health_items_update
  by unfold_locales simp_all

section \<open>Reading rows back as domain objects\<close>

definition row_get :: "('r \<Rightarrow> exn + 'r) \<Rightarrow> 'r option \<Rightarrow> exn + 'r option" where
  "row_get ctor r = (case r of None \<Rightarrow> Inr None | Some x \<Rightarrow> rbind (ctor x) (\<lambda>y. Inr (Some y)))"

definition row_one :: "('r \<Rightarrow> exn + 'r) \<Rightarrow> 'r selected \<Rightarrow> exn + 'r option" where
  "row_one ctor sel = (case sel of SelNone \<Rightarrow> Inr None | SelMany \<Rightarrow> Inl MultipleResultsFound
     | SelOne x \<Rightarrow> rbind (ctor x) (\<lambda>y. Inr (Some y)))"

lemma row_get_None [simp]: "row_get c None = Inr None"
  by (simp add: row_get_def)

lemma row_get_Some [simp]: "row_get c (Some x) = rbind (c x) (\<lambda>y. Inr (Some y))"
  by (simp add: row_get_def)

section \<open>Descriptor and holding lookups\<close>

text \<open>\<^verbatim>\<open>repositories/descriptor.py\<close>: the descriptors of a holding in creation order.\<close>

definition descriptor_rows_for_holding :: "db \<Rightarrow> uuid \<Rightarrow> descriptor list" where
  "descriptor_rows_for_holding s hid =
     sort_key d_created_at (filter (\<lambda>d. d_holding_id d = hid) (descriptors s))"

definition list_descriptors_for_holding :: "db \<Rightarrow> uuid \<Rightarrow> exn + descriptor list" where
  "list_descriptors_for_holding s hid = rmap Descriptor (descriptor_rows_for_holding s hid)"

definition descriptor_ids_for_holding :: "db \<Rightarrow> uuid \<Rightarrow> uuid list" where
  "descriptor_ids_for_holding s hid = map d_id (descriptor_rows_for_holding s hid)"

text \<open>\<^verbatim>\<open>repositories/holding.py\<close>: \<open>_row_to_domain\<close> and \<open>get\<close>.\<close>

definition holding_row_to_domain :: "holding \<Rightarrow> uuid list \<Rightarrow> uuid option \<Rightarrow> exn + holding" where
  "holding_row_to_domain r ds cp =
     Holding (r\<lparr>h_descriptor_ids := ds, h_custodial_provider_id := cp\<rparr>)"

definition holding_repo_get :: "db \<Rightarrow> uuid \<Rightarrow> uuid list \<Rightarrow> uuid option \<Rightarrow> exn + holding option" where
  "holding_repo_get s hid ds cp =
     (case find_row h_id hid (holdings s) of None \<Rightarrow> Inr None
      | Some r \<Rightarrow> rbind (holding_row_to_domain r ds cp) (\<lambda>h. Inr (Some h)))"

text \<open>\<^verbatim>\<open>services/holding_service.py\<close> \<open>get_holding\<close>: also resolves the custodial provider.\<close>

definition get_holding :: "db \<Rightarrow> uuid \<Rightarrow> exn + holding option" where
  "get_holding s hid =
     (case one_or_none (\<lambda>p. cp_holding_id p = hid) (custodial_providers s) of
        SelMany \<Rightarrow> Inl MultipleResultsFound
      | SelNone \<Rightarrow> holding_repo_get s hid (descriptor_ids_for_holding s hid) None
      | SelOne p \<Rightarrow> holding_repo_get s hid (descriptor_ids_for_holding s hid) (Some (cp_id p)))"

lemma holding_repo_get_SomeD:
  assumes "holding_repo_get s hid ds cp = Inr (Some h)"
  shows "\<exists>r. find_row h_id hid (holdings s) = Some r \<and>
    h = r\<lparr>h_descriptor_ids := ds, h_custodial_provider_id := cp\<rparr> \<and> Holding h = Inr h"
  using assms Holding_id
  by (auto simp: holding_repo_get_def holding_row_to_domain_def rbind_eq_Inr_iff split: option.splits)

lemma set_descriptor_rows_for_holding [simp]:
  "set (descriptor_rows_for_holding s hid) = {d \<in> set (descriptors s). d_holding_id d = hid}"
  by (auto simp: descriptor_rows_for_holding_def)

lemma list_descriptors_for_holdingD:
  assumes "list_descriptors_for_holding s hid = Inr ds"
  shows "ds = descriptor_rows_for_holding s hid"
proof -
  have "list_all2 (\<lambda>x y. Descriptor x = Inr y) (descriptor_rows_for_holding s hid) ds"
    using assms by (simp add: list_descriptors_for_holding_def rmap_eq_Inr_iff)
  then have "list_all2 (=) (descriptor_rows_for_holding s hid) ds"
    by (rule list_all2_mono) (simp add: Descriptor_def construct_Inr_iff)
  then show ?thesis
    by (simp add: list.rel_eq)
qed

end
