(* ===== verification/Ledger.thy ===== *)
theory Ledger
  imports Database
begin

text \<open>
  The ledger-entry and on-chain-transaction repositories (\<^verbatim>\<open>repositories/ledger_entry.py\<close>,
  \<^verbatim>\<open>repositories/onchain_transaction.py\<close>).  A ledger entry names its source by
  \<open>(source, source_reference)\<close> and is attached to holdings by link rows; on-chain transactions
  are stored once per txid and filled in as more becomes known.

  The lemmas show that the upsert keeps one row per txid, never forgets a field that was known
  and never moves \<^verbatim>\<open>first_seen_at\<close>, and that patching keeps every stored entry valid.
\<close>

section \<open>Ledger entries\<close>

definition le_get :: "db \<Rightarrow> uuid \<Rightarrow> exn + ledger_entry option" where
  "le_get s eid = row_get LedgerEntry (find_row le_id eid (ledger_entries s))"

definition le_get_by_source ::
  "db \<Rightarrow> ledger_entry_source \<Rightarrow> string \<Rightarrow> exn + ledger_entry option" where
  "le_get_by_source s src ref =
     row_one LedgerEntry
       (one_or_none (\<lambda>e. le_source e = src \<and> le_source_reference e = ref) (ledger_entries s))"

definition le_insert :: "ledger_entry \<Rightarrow> ledger_link list \<Rightarrow> db \<Rightarrow> db" where
  "le_insert e links s =
     ledger_links_update (\<lambda>ls. ls @ links) (ledger_entries_update (\<lambda>es. es @ [e]) s)"

text \<open>The join with the link table gives an entry once per link row of the holding.\<close>

definition le_join_holding :: "db \<Rightarrow> uuid \<Rightarrow> ledger_entry list" where
  "le_join_holding s hid =
     concat (map (\<lambda>e. map (\<lambda>_. e) (filter (\<lambda>l. ll_ledger_entry_id l = le_id e \<and>
                                                  ll_holding_id l = hid) (ledger_links s)))
       (ledger_entries s))"

record ledger_filter =
  lf_holding_id :: "uuid option"
  lf_direction :: "direction option"
  lf_category :: "ledger_category option"
  lf_uncategorized_only :: bool
  lf_from_timestamp :: "timestamp option"
  lf_to_timestamp :: "timestamp option"

definition ledger_matches :: "ledger_filter \<Rightarrow> ledger_entry \<Rightarrow> bool" where
  "ledger_matches f e \<longleftrightarrow>
     (lf_direction f = None \<or> lf_direction f = Some (le_direction e)) \<and>
     (lf_category f = None \<or> lf_category f = le_category e) \<and>
     (lf_uncategorized_only f \<longrightarrow> le_category e = None) \<and>
     (case lf_from_timestamp f of None \<Rightarrow> True | Some t \<Rightarrow> t \<le> le_timestamp e) \<and>
     (case lf_to_timestamp f of None \<Rightarrow> True | Some t \<Rightarrow> le_timestamp e \<le> t)"

definition le_list_filtered :: "db \<Rightarrow> ledger_filter \<Rightarrow> int \<Rightarrow> int \<Rightarrow> exn + ledger_entry list" where
  "le_list_filtered s f limit offset =
     rmap LedgerEntry (page limit offset (sort_key (\<lambda>e. - le_timestamp e)
       (filter (ledger_matches f)
         (case lf_holding_id f of None \<Rightarrow> ledger_entries s | Some h \<Rightarrow> le_join_holding s h))))"

definition list_holdings_for_entry :: "db \<Rightarrow> uuid \<Rightarrow> (uuid \<times> sats) list" where
  "list_holdings_for_entry s eid =
     map (\<lambda>l. (ll_holding_id l, ll_holding_amount_sats l))
       (filter (\<lambda>l. ll_ledger_entry_id l = eid) (ledger_links s))"

definition le_list_for_holding ::
  "db \<Rightarrow> uuid \<Rightarrow> direction option \<Rightarrow> bool \<Rightarrow> int \<Rightarrow> int \<Rightarrow> exn + ledger_entry list" where
  "le_list_for_holding s hid dir uncategorized_only limit offset =
     rmap LedgerEntry (page limit offset (sort_key (\<lambda>e. - le_timestamp e)
       (filter (\<lambda>e. (dir = None \<or> dir = Some (le_direction e)) \<and>
                    (uncategorized_only \<longrightarrow> le_category e = None)) (le_join_holding s hid))))"

definition patch_entry ::
  "timestamp \<Rightarrow> ledger_category option \<Rightarrow> string option \<Rightarrow> string option \<Rightarrow> ledger_entry \<Rightarrow> ledger_entry" where
  "patch_entry now category counterparty note e =
     (let e = (case category of None \<Rightarrow> e
                | Some c \<Rightarrow> e\<lparr>le_category := Some c, le_categorized_at := Some now\<rparr>);
          e = (case counterparty of None \<Rightarrow> e | Some c \<Rightarrow> e\<lparr>le_counterparty_label := Some c\<rparr>)
      in case note of None \<Rightarrow> e | Some n \<Rightarrow> e\<lparr>le_note := Some n\<rparr>)"

definition le_patch ::
  "timestamp \<Rightarrow> uuid \<Rightarrow> ledger_category option \<Rightarrow> string option \<Rightarrow> string option \<Rightarrow>
   ledger_entry option service" where
  "le_patch now eid category counterparty note s =
     (case find_row le_id eid (ledger_entries s) of
        None \<Rightarrow> (Inr None, s)
      | Some e \<Rightarrow>
          (rbind (LedgerEntry (patch_entry now category counterparty note e)) (\<lambda>e. Inr (Some e)),
           ledger_entries_update
             (update_rows le_id eid (patch_entry now category counterparty note)) s))"

section \<open>On-chain transactions\<close>

definition onchain_get :: "db \<Rightarrow> string \<Rightarrow> exn + onchain_transaction option" where
  "onchain_get s txid = row_get OnChainTransaction (find_row ot_txid txid (onchain_transactions s))"

record onchain_fields =
  of_raw_hex :: "string option"
  of_confirmation_height :: "int option"
  of_block_time :: "timestamp option"
  of_fee_sats :: "sats option"
  of_size_vbytes :: "int option"
  of_is_coinjoin_suspected :: "bool option"

definition new_onchain :: "timestamp \<Rightarrow> string \<Rightarrow> onchain_fields \<Rightarrow> onchain_transaction" where
  "new_onchain now txid f =
     \<lparr>ot_txid = txid, ot_raw_hex = of_raw_hex f,
      ot_confirmation_height = of_confirmation_height f, ot_block_time = of_block_time f,
      ot_first_seen_at = now, ot_fee_sats = of_fee_sats f, ot_size_vbytes = of_size_vbytes f,
      ot_is_coinjoin_suspected = (of_is_coinjoin_suspected f = Some True)\<rparr>"

definition keep_known :: "'a option \<Rightarrow> 'a option \<Rightarrow> 'a option" where
  "keep_known new old = (case new of None \<Rightarrow> old | Some x \<Rightarrow> Some x)"

definition refresh_onchain :: "onchain_fields \<Rightarrow> onchain_transaction \<Rightarrow> onchain_transaction" where
  "refresh_onchain f t =
     t\<lparr>ot_raw_hex := keep_known (of_raw_hex f) (ot_raw_hex t),
       ot_confirmation_height := keep_known (of_confirmation_height f) (ot_confirmation_height t),
       ot_block_time := keep_known (of_block_time f) (ot_block_time t),
       ot_fee_sats := keep_known (of_fee_sats f) (ot_fee_sats t),
       ot_size_vbytes := keep_known (of_size_vbytes f) (ot_size_vbytes t),
       ot_is_coinjoin_suspected :=
         (case of_is_coinjoin_suspected f of None \<Rightarrow> ot_is_coinjoin_suspected t | Some b \<Rightarrow> b)\<rparr>"

definition onchain_upsert ::
  "timestamp \<Rightarrow> string \<Rightarrow> onchain_fields \<Rightarrow> onchain_transaction service" where
  "onchain_upsert now txid f s =
     (case find_row ot_txid txid (onchain_transactions s) of
        None \<Rightarrow> (OnChainTransaction (new_onchain now txid f),
                 onchain_transactions_update (\<lambda>ts. ts @ [new_onchain now txid f]) s)
      | Some t \<Rightarrow> (OnChainTransaction (refresh_onchain f t),
                 onchain_transactions_update (update_rows ot_txid txid (refresh_onchain f)) s))"

section \<open>Lemmas\<close>

lemma keep_known_simps [simp]:
  "keep_known None y = y" "keep_known (Some x) y = Some x" "keep_known y y = y"
  by (auto simp: keep_known_def split: option.split)

lemma keep_known_idem: "keep_known x (keep_known x y) = keep_known x y"
  by (cases x) simp_all

lemma refresh_onchain_idem: "refresh_onchain f (refresh_onchain f t) = refresh_onchain f t"
  by (simp add: refresh_onchain_def keep_known_idem split: option.split)

lemma refresh_onchain_simps [simp]:
  "ot_txid (refresh_onchain f t) = ot_txid t"
  "ot_first_seen_at (refresh_onchain f t) = ot_first_seen_at t"
  by (simp_all add: refresh_onchain_def)

lemma new_onchain_txid [simp]: "ot_txid (new_onchain now txid f) = txid"
  by (simp add: new_onchain_def)

definition onchain_inv :: "db \<Rightarrow> bool" where
  "onchain_inv s \<longleftrightarrow> distinct (map ot_txid (onchain_transactions s)) \<and>
     (\<forall>t \<in> set (onchain_transactions s). OnChainTransaction t = Inr t)"

declare onchain_inv_def [inv_defs]

definition onchain_fields_ok :: "onchain_fields \<Rightarrow> bool" where
  "onchain_fields_ok f \<longleftrightarrow> \<not> opt_lt (of_fee_sats f) 0 \<and> \<not> opt_lt (of_size_vbytes f) 0 \<and>
     \<not> opt_lt (of_confirmation_height f) 0"

lemma opt_lt_keep_known:
  "\<not> opt_lt x n \<Longrightarrow> \<not> opt_lt y n \<Longrightarrow> \<not> opt_lt (keep_known x y) n"
  by (cases x) (simp_all add: opt_lt_def)

lemma OnChainTransaction_refresh:
  assumes "OnChainTransaction t = Inr t" "onchain_fields_ok f"
  shows "OnChainTransaction (refresh_onchain f t) = Inr (refresh_onchain f t)"
  using assms
  by (auto simp: OnChainTransaction_def construct_Inr_iff refresh_onchain_def onchain_fields_ok_def
      opt_lt_keep_known)

lemma OnChainTransaction_new:
  assumes "length txid = 64" "onchain_fields_ok f"
  shows "OnChainTransaction (new_onchain now txid f) = Inr (new_onchain now txid f)"
  using assms
  by (auto simp: OnChainTransaction_def construct_Inr_iff new_onchain_def onchain_fields_ok_def)

lemma onchain_upsert_ok:
  assumes inv: "onchain_inv s" and len: "length txid = 64" and ok: "onchain_fields_ok f"
    and run: "onchain_upsert now txid f s = (r, t)"
  shows "onchain_inv t \<and> (\<exists>x. r = Inr x \<and> find_row ot_txid txid (onchain_transactions t) = Some x)"
proof (cases "find_row ot_txid txid (onchain_transactions s)")
  case None
  then have new: "t = onchain_transactions_update (\<lambda>ts. ts @ [new_onchain now txid f]) s"
    using run by (simp add: onchain_upsert_def)
  have "txid \<notin> ot_txid ` set (onchain_transactions s)"
    using None by (simp add: find_row_None_iff)
  then have "onchain_inv t"
    using inv new OnChainTransaction_new [OF len ok, of now] by (auto simp: onchain_inv_def)
  then show ?thesis
    using None run OnChainTransaction_new [OF len ok, of now]
    by (auto simp: onchain_upsert_def find_row_append)
next
  case (Some x)
  then have valid: "OnChainTransaction x = Inr x"
    using inv by (auto simp: onchain_inv_def dest: find_row_SomeD)
  have "onchain_inv t"
    using inv run Some OnChainTransaction_refresh [OF _ ok]
    by (auto simp: onchain_upsert_def onchain_inv_def map_key_update_rows set_update_rows)
  moreover have "r = Inr (refresh_onchain f x)"
    using run Some OnChainTransaction_refresh [OF valid ok] by (auto simp: onchain_upsert_def)
  moreover have "find_row ot_txid txid (onchain_transactions t) = Some (refresh_onchain f x)"
    using run Some by (auto simp: onchain_upsert_def find_row_update)
  ultimately show ?thesis by blast
qed

lemma LedgerEntry_patch:
  assumes "LedgerEntry e = Inr e"
  shows "LedgerEntry (patch_entry now c p n e) = Inr (patch_entry now c p n e)"
  using assms
  by (auto simp: LedgerEntry_Inr_iff patch_entry_def Let_def split: option.splits)

end
