(* ===== verification/Utxos.thy ===== *)
theory Utxos
  imports Database "HOL-Library.Char_ord" "HOL-Library.List_Lexorder"
begin

text \<open>
  The UTXO repository (\<^verbatim>\<open>repositories/utxo.py\<close>): lookups by id and outpoint, the insert-or-refresh
  of a scan, spending, freezing, the ordered listing and the balance.  The invariant
  \<open>utxo_inv\<close> is what the schema and the dataclass demand of the table: outpoints are unique and
  every row passes its construction checks.  The lemmas show each write keeps it, that a
  spent output never becomes unspent, and how each write moves the balance.
\<close>

section \<open>Queries\<close>

definition outpoint :: "utxo \<Rightarrow> string \<times> int" where
  "outpoint u = (u_txid u, u_vout u)"

definition utxo_row_by_outpoint :: "db \<Rightarrow> string \<Rightarrow> int \<Rightarrow> utxo selected" where
  "utxo_row_by_outpoint s txid vout =
     one_or_none (\<lambda>u. u_txid u = txid \<and> u_vout u = vout) (utxos s)"

definition utxo_get :: "db \<Rightarrow> uuid \<Rightarrow> exn + utxo option" where
  "utxo_get s uid = row_get UTXO (find_row u_id uid (utxos s))"

definition utxo_get_by_outpoint :: "db \<Rightarrow> string \<Rightarrow> int \<Rightarrow> exn + utxo option" where
  "utxo_get_by_outpoint s txid vout = row_one UTXO (utxo_row_by_outpoint s txid vout)"

text \<open>\<^verbatim>\<open>ORDER BY confirmation_height DESC NULLS FIRST, txid, vout\<close>: stable sorts from the last
  key to the first.\<close>

definition utxo_order :: "utxo list \<Rightarrow> utxo list" where
  "utxo_order us =
     sort_key (\<lambda>u. case u_confirmation_height u of None \<Rightarrow> 0 | Some _ \<Rightarrow> (1::int))
       (sort_key (\<lambda>u. case u_confirmation_height u of None \<Rightarrow> 0 | Some h \<Rightarrow> - h)
         (sort_key u_txid (sort_key u_vout us)))"

definition utxo_list_for_descriptor :: "db \<Rightarrow> uuid \<Rightarrow> bool \<Rightarrow> exn + utxo list" where
  "utxo_list_for_descriptor s did only_unspent =
     rmap UTXO (utxo_order (filter
       (\<lambda>u. u_descriptor_id u = did \<and> (only_unspent \<longrightarrow> \<not> u_is_spent u)) (utxos s)))"

definition descriptor_balance_sats :: "db \<Rightarrow> uuid \<Rightarrow> sats" where
  "descriptor_balance_sats s did =
     sum_list (map u_value_sats
       (filter (\<lambda>u. u_descriptor_id u = did \<and> \<not> u_is_spent u) (utxos s)))"

section \<open>Writes\<close>

definition new_utxo ::
  "uuid \<Rightarrow> timestamp \<Rightarrow> uuid \<Rightarrow> uuid \<Rightarrow> string \<Rightarrow> int \<Rightarrow> sats \<Rightarrow> int option \<Rightarrow> utxo" where
  "new_utxo uid now did aid txid vout value height =
     \<lparr>u_id = uid, u_descriptor_id = did, u_address_id = aid, u_txid = txid, u_vout = vout,
      u_value_sats = value, u_confirmation_height = height, u_is_frozen = False,
      u_is_spent = False, u_spent_in_txid = None, u_hygiene_flags = [], u_created_at = now\<rparr>"

text \<open>Fill in the confirmation height of a row that had none; a known height stays.\<close>

definition refresh_height :: "int option \<Rightarrow> utxo \<Rightarrow> utxo" where
  "refresh_height height u =
     (if height \<noteq> None \<and> u_confirmation_height u = None
      then u\<lparr>u_confirmation_height := height\<rparr> else u)"

definition utxo_upsert_unspent ::
  "uuid \<Rightarrow> timestamp \<Rightarrow> uuid \<Rightarrow> uuid \<Rightarrow> string \<Rightarrow> int \<Rightarrow> sats \<Rightarrow> int option \<Rightarrow> utxo service" where
  "utxo_upsert_unspent uid now did aid txid vout value height s =
     (case utxo_row_by_outpoint s txid vout of
        SelMany \<Rightarrow> (Inl MultipleResultsFound, s)
      | SelNone \<Rightarrow>
          (let row = new_utxo uid now did aid txid vout value height in
           (UTXO row, utxos_update (\<lambda>us. us @ [row]) s))
      | SelOne u \<Rightarrow>
          (UTXO (refresh_height height u),
           utxos_update (update_rows u_id (u_id u) (refresh_height height)) s))"

definition set_spent :: "string \<Rightarrow> utxo \<Rightarrow> utxo" where
  "set_spent txid u = u\<lparr>u_is_spent := True, u_spent_in_txid := Some txid\<rparr>"

definition utxo_mark_spent :: "string \<Rightarrow> int \<Rightarrow> string \<Rightarrow> bool service" where
  "utxo_mark_spent txid vout spender s =
     (case utxo_row_by_outpoint s txid vout of
        SelMany \<Rightarrow> (Inl MultipleResultsFound, s)
      | SelNone \<Rightarrow> (Inr False, s)
      | SelOne u \<Rightarrow>
          (Inr True, utxos_update (update_rows u_id (u_id u) (set_spent spender)) s))"

definition utxo_freeze :: "uuid \<Rightarrow> bool \<Rightarrow> utxo option service" where
  "utxo_freeze uid frozen s =
     (case find_row u_id uid (utxos s) of
        None \<Rightarrow> (Inr None, s)
      | Some u \<Rightarrow>
          (rbind (UTXO (u\<lparr>u_is_frozen := frozen\<rparr>)) (\<lambda>u. Inr (Some u)),
           utxos_update (update_rows u_id uid (\<lambda>u. u\<lparr>u_is_frozen := frozen\<rparr>)) s))"

section \<open>The invariant\<close>

definition utxo_row_ok :: "utxo \<Rightarrow> bool" where
  "utxo_row_ok u \<longleftrightarrow> UTXO u = Inr u"

definition utxo_inv :: "db \<Rightarrow> bool" where
  "utxo_inv s \<longleftrightarrow> distinct (map u_id (utxos s)) \<and> distinct (map outpoint (utxos s)) \<and>
     (\<forall>u \<in> set (utxos s). utxo_row_ok u)"

declare utxo_inv_def [inv_defs]

lemma utxo_row_ok_iff:
  "utxo_row_ok u \<longleftrightarrow> 0 \<le> u_value_sats u \<and> 0 \<le> u_vout u \<and>
     (u_is_spent u \<longleftrightarrow> u_spent_in_txid u \<noteq> None)"
  by (simp add: utxo_row_ok_def UTXO_Inr_iff)

lemma set_utxo_order [simp]: "set (utxo_order us) = set us"
  by (simp add: utxo_order_def)

lemma utxo_row_by_outpoint_eq:
  assumes "distinct (map outpoint (utxos s))"
  shows "utxo_row_by_outpoint s txid vout =
    (case find_row outpoint (txid, vout) (utxos s) of None \<Rightarrow> SelNone | Some u \<Rightarrow> SelOne u)"
  unfolding utxo_row_by_outpoint_def
  by (rule one_or_none_unique [OF assms]) (auto simp: outpoint_def)

lemma utxo_row_by_outpoint_SelOneD:
  "utxo_row_by_outpoint s txid vout = SelOne u \<Longrightarrow>
     u \<in> set (utxos s) \<and> u_txid u = txid \<and> u_vout u = vout"
  unfolding utxo_row_by_outpoint_def by (drule one_or_none_SelOneD) auto

lemma utxo_list_for_descriptorD:
  assumes "utxo_list_for_descriptor s did ou = Inr us"
  shows "us = utxo_order (filter
     (\<lambda>u. u_descriptor_id u = did \<and> (ou \<longrightarrow> \<not> u_is_spent u)) (utxos s))"
proof -
  have "list_all2 (=) (utxo_order (filter
     (\<lambda>u. u_descriptor_id u = did \<and> (ou \<longrightarrow> \<not> u_is_spent u)) (utxos s))) us"
    using assms unfolding utxo_list_for_descriptor_def rmap_eq_Inr_iff
    by (rule list_all2_mono) (simp add: UTXO_Inr_iff)
  then show ?thesis by (simp add: list.rel_eq)
qed

text \<open>Row updates that keep the primary key and the outpoint keep uniqueness.\<close>

definition keeps_outpoint :: "(utxo \<Rightarrow> utxo) \<Rightarrow> bool" where
  "keeps_outpoint f \<longleftrightarrow> (\<forall>u. u_id (f u) = u_id u \<and> outpoint (f u) = outpoint u)"

lemma keeps_outpoint_simps [simp]:
  "keeps_outpoint (refresh_height h)" "keeps_outpoint (set_spent t)"
  "keeps_outpoint (\<lambda>u. u\<lparr>u_is_frozen := b\<rparr>)" "keeps_outpoint (\<lambda>u. u\<lparr>u_hygiene_flags := fl\<rparr>)"
  by (auto simp: keeps_outpoint_def refresh_height_def set_spent_def outpoint_def)

lemma utxo_inv_update:
  assumes "utxo_inv s" "keeps_outpoint f"
    and "\<And>u. u \<in> set (utxos s) \<Longrightarrow> utxo_row_ok u \<Longrightarrow> utxo_row_ok (f u)"
  shows "utxo_inv (utxos_update (update_rows u_id k f) s)"
  using assms unfolding utxo_inv_def keeps_outpoint_def
  by (auto simp: map_key_update_rows set_update_rows)

lemma utxo_inv_insert:
  assumes "utxo_inv s" "find_row u_id (u_id u) (utxos s) = None"
    "find_row outpoint (outpoint u) (utxos s) = None" "utxo_row_ok u"
  shows "utxo_inv (utxos_update (\<lambda>us. us @ [u]) s)"
  using assms unfolding utxo_inv_def by (auto simp: find_row_None_iff)

lemma utxo_upsert_inv:
  assumes inv: "utxo_inv s" and fresh: "find_row u_id uid (utxos s) = None"
    and nonneg: "0 \<le> value" "0 \<le> vout"
    and run: "utxo_upsert_unspent uid now did aid txid vout value height s = (r, t)"
  shows "utxo_inv t \<and> (\<exists>u. r = Inr u)"
proof -
  have sel: "utxo_row_by_outpoint s txid vout =
    (case find_row outpoint (txid, vout) (utxos s) of None \<Rightarrow> SelNone | Some u \<Rightarrow> SelOne u)"
    using inv by (simp add: utxo_row_by_outpoint_eq utxo_inv_def)
  show ?thesis
  proof (cases "find_row outpoint (txid, vout) (utxos s)")
    case None
    let ?row = "new_utxo uid now did aid txid vout value height"
    have ok: "utxo_row_ok ?row" using nonneg by (simp add: utxo_row_ok_iff new_utxo_def)
    then have ctor: "UTXO ?row = Inr ?row" by (simp add: utxo_row_ok_def)
    have "utxo_inv (utxos_update (\<lambda>us. us @ [?row]) s)"
      using inv fresh None ok by (intro utxo_inv_insert) (auto simp: new_utxo_def outpoint_def)
    then show ?thesis
      using run sel None by (auto simp: utxo_upsert_unspent_def Let_def ctor)
  next
    case (Some u)
    then have "u \<in> set (utxos s)" by (blast dest: find_row_SomeD)
    then have "utxo_row_ok (refresh_height height u)"
      using inv by (auto simp: utxo_inv_def utxo_row_ok_iff refresh_height_def)
    then have ctor: "UTXO (refresh_height height u) = Inr (refresh_height height u)"
      by (simp add: utxo_row_ok_def)
    have "utxo_inv (utxos_update (update_rows u_id (u_id u) (refresh_height height)) s)"
      using inv by (rule utxo_inv_update) (auto simp: utxo_row_ok_iff refresh_height_def)
    then show ?thesis
      using run sel Some by (auto simp: utxo_upsert_unspent_def ctor)
  qed
qed

lemma utxo_mark_spent_inv:
  assumes "utxo_inv s" "utxo_mark_spent txid vout spender s = (r, t)"
  shows "utxo_inv t"
  using assms
  by (auto simp: utxo_mark_spent_def utxo_row_ok_iff set_spent_def
      intro!: utxo_inv_update split: selected.splits)

lemma utxo_freeze_inv:
  assumes "utxo_inv s" "utxo_freeze uid frozen s = (r, t)"
  shows "utxo_inv t"
  using assms
  by (auto simp: utxo_freeze_def utxo_row_ok_iff intro!: utxo_inv_update split: option.splits)

section \<open>Balance\<close>

lemma sum_list_update_row:
  fixes w :: "'r \<Rightarrow> int"
  assumes "distinct (map key rows)" "r \<in> set rows"
  shows "sum_list (map w (update_rows key (key r) f rows)) =
    sum_list (map w rows) - w r + w (f r)"
  using assms
proof (induction rows)
  case Nil
  then show ?case by simp
next
  case (Cons x xs)
  show ?case
  proof (cases "key x = key r")
    case True
    then have "x = r" using Cons.prems by (auto simp: rev_image_eqI)
    moreover have "update_rows key (key r) f xs = xs"
      using True Cons.prems by (intro update_rows_absent) auto
    ultimately show ?thesis by simp
  next
    case False
    then have "r \<in> set xs" using Cons.prems by auto
    then show ?thesis using Cons False by simp
  qed
qed

text \<open>The balance as a sum over all rows of the table.\<close>

definition unspent_value :: "uuid \<Rightarrow> utxo \<Rightarrow> sats" where
  "unspent_value did u = (if u_descriptor_id u = did \<and> \<not> u_is_spent u then u_value_sats u else 0)"

lemma balance_eq: "descriptor_balance_sats s did = sum_list (map (unspent_value did) (utxos s))"
proof -
  have "sum_list (map u_value_sats (filter (\<lambda>u. u_descriptor_id u = did \<and> \<not> u_is_spent u) us)) =
    sum_list (map (unspent_value did) us)" for us
    by (induction us) (auto simp: unspent_value_def)
  then show ?thesis by (simp add: descriptor_balance_sats_def)
qed

lemma balance_insert:
  "descriptor_balance_sats (utxos_update (\<lambda>us. us @ [u]) s) did =
   descriptor_balance_sats s did + unspent_value did u"
  by (simp add: balance_eq)

lemma balance_update:
  assumes "utxo_inv s" "u \<in> set (utxos s)"
  shows "descriptor_balance_sats (utxos_update (update_rows u_id (u_id u) f) s) did =
    descriptor_balance_sats s did - unspent_value did u + unspent_value did (f u)"
  using assms sum_list_update_row [of u_id "utxos s" u "unspent_value did" f]
  by (simp add: balance_eq utxo_inv_def)

end
