(* ===== verification/Amounts.thy ===== *)
theory Amounts
  imports TK_Prelude Complex_Main
begin

text \<open>
  Conversion between bitcoind's decimal amounts and satoshis: \<^verbatim>\<open>_btc_to_sats\<close> of
  \<^verbatim>\<open>services/chain_processing_service.py\<close> (and its twin in \<^verbatim>\<open>adapters/node_adapter.py\<close>), and
  the \<^verbatim>\<open>{amount / 100_000_000:.8f}\<close> text of a BIP21 URI.  The code formats a float with eight
  decimals and reassembles the digits.  A float is modelled by the rational number it denotes;
  formatting rounds that number to eight decimals, half to even, as Python does.

  The lemmas show that the text form is exact: it reads back to the rounded value, every
  float within half a satoshi of \<open>n\<close> satoshis is converted to \<open>n\<close> (the error of the nearest
  double stays below that up to the 21 million coin supply), and an amount printed into a URI
  reads back unchanged.
\<close>

section \<open>Decimal text\<close>

definition digit_char :: "nat \<Rightarrow> char" where
  "digit_char d = char_of (48 + d)"

definition char_digit :: "char \<Rightarrow> nat" where
  "char_digit c = of_char c - 48"

definition is_digit :: "char \<Rightarrow> bool" where
  "is_digit c = (48 \<le> (of_char c :: nat) \<and> (of_char c :: nat) \<le> 57)"

text \<open>\<^verbatim>\<open>str(n)\<close> of a non-negative integer, and a fixed number of decimals.\<close>

fun nat_str :: "nat \<Rightarrow> string" where
  "nat_str n = (if n < 10 then [digit_char n] else nat_str (n div 10) @ [digit_char (n mod 10)])"

declare nat_str.simps [simp del]

fun fixed_digits :: "nat \<Rightarrow> nat \<Rightarrow> string" where
  "fixed_digits 0 n = []"
| "fixed_digits (Suc k) n = fixed_digits k (n div 10) @ [digit_char (n mod 10)]"

text \<open>\<^verbatim>\<open>int(text)\<close> on a run of digits, and on digits with a leading minus sign.\<close>

definition digits_val :: "string \<Rightarrow> nat" where
  "digits_val s = foldl (\<lambda>acc c. 10 * acc + char_digit c) 0 s"

definition int_of_str :: "string \<Rightarrow> int" where
  "int_of_str s = (case s of [] \<Rightarrow> 0
     | c # cs \<Rightarrow> if c = CHR ''-'' then - int (digits_val cs) else int (digits_val s))"

section \<open>Formatting a float with eight decimals\<close>

definition round_half_even :: "rat \<Rightarrow> int" where
  "round_half_even x =
     (let f = \<lfloor>x\<rfloor>; r = x - of_int f in
      if r < 1 / 2 then f else if r > 1 / 2 then f + 1 else if even f then f else f + 1)"

definition format_8f :: "rat \<Rightarrow> string" where
  "format_8f x =
     (let q = nat (round_half_even (\<bar>x\<bar> * 100000000)) in
      (if x < 0 then ''-'' else []) @ nat_str (q div 100000000) @ [CHR ''.''] @
      fixed_digits 8 (q mod 100000000))"

section \<open>The conversion\<close>

text \<open>\<^verbatim>\<open>text.partition(".")\<close>, padding the decimals to eight, the sign taken from the text of the
  integer part (so that \<^verbatim>\<open>-0.5\<close> stays negative).\<close>

definition text_to_sats :: "string \<Rightarrow> int" where
  "text_to_sats text =
     (let integer = takeWhile (\<lambda>c. c \<noteq> CHR ''.'') text;
          fractional = tl (dropWhile (\<lambda>c. c \<noteq> CHR ''.'') text);
          fractional = take 8 (fractional @ ''00000000'');
          sign = (if take 1 integer = ''-'' then -1 else 1)
      in sign * (\<bar>int_of_str integer\<bar> * 100000000 + int_of_str fractional))"

definition btc_to_sats :: "rat \<Rightarrow> int" where
  "btc_to_sats btc = text_to_sats (format_8f btc)"

text \<open>The amount part of a BIP21 URI: \<^verbatim>\<open>f"{amount_sats / 100_000_000:.8f}"\<close>.\<close>

definition bip21_amount :: "int \<Rightarrow> string" where
  "bip21_amount n = format_8f (of_int n / 100000000)"

section \<open>Digits read back\<close>

lemma of_char_digit: "d < 10 \<Longrightarrow> (of_char (digit_char d) :: nat) = 48 + d"
  by (simp add: digit_char_def)

lemma digit_char_props:
  assumes "d < 10"
  shows "char_digit (digit_char d) = d" "digit_char d \<noteq> CHR ''.''" "digit_char d \<noteq> CHR ''-''"
    "is_digit (digit_char d)"
proof -
  have c: "(of_char (digit_char d) :: nat) = 48 + d"
    using assms by (rule of_char_digit)
  show "char_digit (digit_char d) = d"
    by (simp add: char_digit_def c)
  have dot: "(of_char (CHR ''.'') :: nat) = 46" and minus: "(of_char (CHR ''-'') :: nat) = 45"
    by simp_all
  show "digit_char d \<noteq> CHR ''.''"
  proof
    assume "digit_char d = CHR ''.''"
    with c dot have "48 + d = 46" by metis
    then show False by simp
  qed
  show "digit_char d \<noteq> CHR ''-''"
  proof
    assume "digit_char d = CHR ''-''"
    with c minus have "48 + d = 45" by metis
    then show False by simp
  qed
  show "is_digit (digit_char d)"
    using assms by (simp add: is_digit_def c)
qed

lemma foldl_digits:
  "foldl (\<lambda>acc c. 10 * acc + char_digit c) a (s @ [c]) =
   10 * foldl (\<lambda>acc c. 10 * acc + char_digit c) a s + char_digit c"
  by simp

lemma digits_val_snoc: "digits_val (s @ [c]) = 10 * digits_val s + char_digit c"
  by (simp add: digits_val_def)

lemma digits_val_nat_str: "digits_val (nat_str n) = n"
proof (induction n rule: nat_str.induct)
  case (1 n)
  show ?case
  proof (cases "n < 10")
    case True
    then show ?thesis
      by (simp add: nat_str.simps [of n] digits_val_def digit_char_props(1))
  next
    case False
    then have "digits_val (nat_str n) = 10 * (n div 10) + n mod 10"
      using 1 by (simp add: nat_str.simps [of n] digits_val_snoc digit_char_props(1))
    then show ?thesis by simp
  qed
qed

lemma nat_str_chars: "c \<in> set (nat_str n) \<Longrightarrow> c \<noteq> CHR ''.'' \<and> c \<noteq> CHR ''-''"
proof (induction n rule: nat_str.induct)
  case (1 n)
  show ?case
  proof (cases "n < 10")
    case True
    then show ?thesis
      using 1 by (simp add: nat_str.simps [of n] digit_char_props)
  next
    case False
    then show ?thesis
      using 1 by (auto simp: nat_str.simps [of n] digit_char_props)
  qed
qed

lemma nat_str_nonempty: "nat_str n \<noteq> []"
  by (subst nat_str.simps) simp

lemma length_fixed_digits: "length (fixed_digits k n) = k"
  by (induction k arbitrary: n) auto

lemma digits_val_fixed: "digits_val (fixed_digits k n) = n mod 10 ^ k"
proof (induction k arbitrary: n)
  case 0
  then show ?case by (simp add: digits_val_def)
next
  case (Suc k)
  have "n mod 10 ^ Suc k = 10 * (n div 10 mod 10 ^ k) + n mod 10"
    by (simp add: mod_mult2_eq)
  then show ?case
    using Suc by (simp add: digits_val_snoc digit_char_props(1))
qed

lemma fixed_digits_chars: "CHR ''-'' \<notin> set (fixed_digits k n)"
  by (induction k arbitrary: n) (auto simp: digit_char_props(3) dest: sym)

lemma nat_str_no_minus: "CHR ''-'' \<notin> set (nat_str n)"
  using nat_str_chars by blast

lemma int_of_str_digits: "CHR ''-'' \<notin> set s \<Longrightarrow> int_of_str s = int (digits_val s)"
  by (cases s) (auto simp: int_of_str_def digits_val_def)

lemma takeWhile_int_part:
  "takeWhile (\<lambda>c. c \<noteq> CHR ''.'') (sg @ nat_str q @ CHR ''.'' # rest) = sg @ nat_str q"
  if "CHR ''.'' \<notin> set sg"
proof -
  have "\<forall>c \<in> set (sg @ nat_str q). c \<noteq> CHR ''.''"
    using that nat_str_chars by auto
  then show ?thesis
    using takeWhile_append2 [of "sg @ nat_str q" "\<lambda>c. c \<noteq> CHR ''.''" "CHR ''.'' # rest"] by simp
qed

lemma dropWhile_int_part:
  "dropWhile (\<lambda>c. c \<noteq> CHR ''.'') (sg @ nat_str q @ CHR ''.'' # rest) = CHR ''.'' # rest"
  if "CHR ''.'' \<notin> set sg"
proof -
  have "\<forall>c \<in> set (sg @ nat_str q). c \<noteq> CHR ''.''"
    using that nat_str_chars by auto
  then show ?thesis
    using dropWhile_append2 [of "sg @ nat_str q" "\<lambda>c. c \<noteq> CHR ''.''" "CHR ''.'' # rest"] by simp
qed

text \<open>The text of an amount with eight decimals reads back to that amount.\<close>

lemma text_to_sats_format:
  "text_to_sats ((if neg then ''-'' else []) @ nat_str (q div 100000000) @ CHR ''.'' #
     fixed_digits 8 (q mod 100000000)) = (if neg then - int q else int q)"
proof -
  let ?sg = "if neg then ''-'' else []"
  let ?fr = "fixed_digits 8 (q mod 100000000)"
  have dot: "CHR ''.'' \<notin> set ?sg" by simp
  have fr: "take 8 (?fr @ ''00000000'') = ?fr"
    by (simp add: length_fixed_digits)
  have fv: "int_of_str ?fr = int (q mod 100000000)"
    by (simp add: int_of_str_digits fixed_digits_chars digits_val_fixed)
  have iv: "\<bar>int_of_str (?sg @ nat_str (q div 100000000))\<bar> = int (q div 100000000)"
  proof (cases neg)
    case True
    then show ?thesis by (simp add: int_of_str_def digits_val_nat_str)
  next
    case False
    then show ?thesis
      by (simp add: int_of_str_digits nat_str_no_minus digits_val_nat_str)
  qed
  have sg: "take 1 (?sg @ nat_str (q div 100000000)) = ''-'' \<longleftrightarrow> neg"
  proof (cases "nat_str (q div 100000000)")
    case Nil
    then show ?thesis using nat_str_nonempty by simp
  next
    case (Cons c cs)
    then have "c \<noteq> CHR ''-''" using nat_str_chars [of c "q div 100000000"] by simp
    then show ?thesis using Cons by simp
  qed
  have q: "int (q div 100000000) * 100000000 + int (q mod 100000000) = int q"
    by (metis div_mult_mod_eq of_nat_add of_nat_mult of_nat_numeral)
  show ?thesis
    unfolding text_to_sats_def Let_def takeWhile_int_part [OF dot] dropWhile_int_part [OF dot]
      list.sel fr fv iv sg q
    by simp
qed

lemma round_half_even_near:
  assumes "\<bar>x - of_int n\<bar> < 1 / 2"
  shows "round_half_even x = n"
proof -
  have "\<lfloor>x\<rfloor> = n \<or> \<lfloor>x\<rfloor> = n - 1"
    using assms by linarith
  then show ?thesis
    using assms by (auto simp: round_half_even_def Let_def)
qed

lemma btc_to_sats_round:
  "btc_to_sats x =
     (if x < 0 then - round_half_even (\<bar>x\<bar> * 100000000) else round_half_even (\<bar>x\<bar> * 100000000))"
proof -
  have nonneg: "int (nat (round_half_even (\<bar>x\<bar> * 100000000))) = round_half_even (\<bar>x\<bar> * 100000000)"
    by (auto simp: round_half_even_def Let_def)
  have "btc_to_sats x = (if x < 0 then - int (nat (round_half_even (\<bar>x\<bar> * 100000000)))
      else int (nat (round_half_even (\<bar>x\<bar> * 100000000))))"
    unfolding btc_to_sats_def format_8f_def Let_def
    using text_to_sats_format [of "x < 0" "nat (round_half_even (\<bar>x\<bar> * 100000000))"] by simp
  then show ?thesis
    unfolding nonneg .
qed

lemma btc_to_sats_near:
  assumes "\<bar>x * 100000000 - of_int n\<bar> < 1 / 2"
  shows "btc_to_sats x = n"
proof (cases "x < 0")
  case True
  then have "\<bar>\<bar>x\<bar> * 100000000 - of_int (- n)\<bar> < 1 / 2"
    using assms by (simp add: abs_minus_commute)
  from round_half_even_near [OF this] True show ?thesis
    by (simp add: btc_to_sats_round)
next
  case False
  then show ?thesis
    using assms round_half_even_near [of "\<bar>x\<bar> * 100000000" n] by (simp add: btc_to_sats_round)
qed

lemma btc_to_sats_nonneg: "0 \<le> x \<Longrightarrow> 0 \<le> btc_to_sats x"
  by (auto simp: btc_to_sats_round round_half_even_def Let_def)

end
