(* ===== verification/Descriptors.thy ===== *)
theory Descriptors
  imports Database
begin

text \<open>
  The descriptor and address repository (\<^verbatim>\<open>repositories/descriptor.py\<close>).  Inserting a descriptor
  whose expression is taken violates \<^verbatim>\<open>uq_descriptor_expression\<close>: the session is rolled back and
  \<^verbatim>\<open>DescriptorAlreadyExists\<close> is raised.  \<open>next_unused_address\<close> is the reservation rule of the
  invoice flow: the lowest external index that no transaction has been recorded for and no
  open invoice holds.

  The lemmas give the selection rule of \<open>next_unused_address\<close> in both directions and show
  that expressions stay unique.
\<close>

section \<open>Descriptors\<close>

text \<open>The flush fails on any constraint of the row: the unique expression, the primary key, the
  holding it references and the watch-only check.  A rollback returns the session to the state
  the transaction started in, \<open>base\<close>.\<close>

definition insert_descriptor :: "db \<Rightarrow> descriptor \<Rightarrow> unit service" where
  "insert_descriptor base d s =
     (if d_expression d \<in> d_expression ` set (descriptors s) \<or>
         d_id d \<in> d_id ` set (descriptors s) \<or>
         d_holding_id d \<notin> h_id ` set (holdings s) \<or> \<not> d_is_watch_only d
      then (Inl DescriptorAlreadyExists, base)
      else (Inr (), descriptors_update (\<lambda>ds. ds @ [d]) s))"

definition get_descriptor :: "db \<Rightarrow> uuid \<Rightarrow> exn + descriptor option" where
  "get_descriptor s did = row_get Descriptor (find_row d_id did (descriptors s))"

definition list_descriptors :: "db \<Rightarrow> uuid option \<Rightarrow> exn + descriptor list" where
  "list_descriptors s holding_id =
     rmap Descriptor (filter (\<lambda>d. holding_id = None \<or> Some (d_holding_id d) = holding_id)
       (sort_key d_created_at (descriptors s)))"

definition set_descriptor_fields :: "string option \<Rightarrow> int option \<Rightarrow> descriptor \<Rightarrow> descriptor" where
  "set_descriptor_fields name gap_limit d =
     (let d1 = (case name of None \<Rightarrow> d | Some n \<Rightarrow> d\<lparr>d_name := n\<rparr>)
      in case gap_limit of None \<Rightarrow> d1 | Some g \<Rightarrow> d1\<lparr>d_gap_limit := g\<rparr>)"

definition update_descriptor ::
  "uuid \<Rightarrow> string option \<Rightarrow> int option \<Rightarrow> descriptor option service" where
  "update_descriptor did name gap_limit s =
     (case find_row d_id did (descriptors s) of
        None \<Rightarrow> (Inr None, s)
      | Some d \<Rightarrow>
          (rbind (Descriptor (set_descriptor_fields name gap_limit d)) (\<lambda>d. Inr (Some d)),
           descriptors_update (update_rows d_id did (set_descriptor_fields name gap_limit)) s))"

text \<open>The foreign keys of \<^verbatim>\<open>address\<close>, \<^verbatim>\<open>utxo\<close> and the provider whitelist restrict the delete; the
  database reports it when the delete is flushed.\<close>

definition descriptor_referenced :: "db \<Rightarrow> uuid \<Rightarrow> bool" where
  "descriptor_referenced s did \<longleftrightarrow>
     did \<in> a_descriptor_id ` set (addresses s) \<or> did \<in> u_descriptor_id ` set (utxos s) \<or>
     Some did \<in> cp_whitelist_address_descriptor_id ` set (custodial_providers s)"

definition delete_descriptor :: "uuid \<Rightarrow> bool service" where
  "delete_descriptor did s =
     (case find_row d_id did (descriptors s) of
        None \<Rightarrow> (Inr False, s)
      | Some d \<Rightarrow>
          if descriptor_referenced s did then (Inl IntegrityError, s)
          else (Inr True, descriptors_update (delete_where (\<lambda>d. d_id d = did)) s))"

section \<open>Addresses\<close>

definition insert_address :: "address \<Rightarrow> db \<Rightarrow> db" where
  "insert_address a = addresses_update (\<lambda>as. as @ [a])"

definition insert_addresses :: "address list \<Rightarrow> db \<Rightarrow> db" where
  "insert_addresses as = addresses_update (\<lambda>old. old @ as)"

definition list_addresses_for_descriptor ::
  "db \<Rightarrow> uuid \<Rightarrow> bool option \<Rightarrow> nat option \<Rightarrow> nat \<Rightarrow> exn + address list" where
  "list_addresses_for_descriptor s did is_change limit offset =
     (let rows = sort_key a_is_change (sort_key a_derivation_index
                   (filter (\<lambda>a. a_descriptor_id a = did \<and>
                      (is_change = None \<or> is_change = Some (a_is_change a))) (addresses s)));
          rows = drop offset rows;
          rows = (case limit of None \<Rightarrow> rows | Some 0 \<Rightarrow> rows | Some n \<Rightarrow> take n rows)
      in rmap Address rows)"

definition update_address_label :: "uuid \<Rightarrow> string option \<Rightarrow> address option service" where
  "update_address_label aid label s =
     (case find_row a_id aid (addresses s) of
        None \<Rightarrow> (Inr None, s)
      | Some a \<Rightarrow>
          (rbind (Address (a\<lparr>a_label := label\<rparr>)) (\<lambda>a. Inr (Some a)),
           addresses_update (update_rows a_id aid (\<lambda>a. a\<lparr>a_label := label\<rparr>)) s))"

text \<open>The reservation subquery, the candidate rows and the choice of the lowest index.\<close>

definition reserved_address_ids :: "db \<Rightarrow> uuid list" where
  "reserved_address_ids s =
     List.map_filter i_receiving_address_id (filter (\<lambda>i. i_status i = IS_OPEN) (invoices s))"

definition unused_candidate :: "db \<Rightarrow> uuid \<Rightarrow> bool \<Rightarrow> address \<Rightarrow> bool" where
  "unused_candidate s did is_change a \<longleftrightarrow>
     a_descriptor_id a = did \<and> a_is_change a = is_change \<and> a_first_seen_height a = None \<and>
     a_id a \<notin> set (reserved_address_ids s)"

definition next_unused_address :: "db \<Rightarrow> uuid \<Rightarrow> bool \<Rightarrow> exn + address option" where
  "next_unused_address s did is_change =
     (case sort_key a_derivation_index (filter (unused_candidate s did is_change) (addresses s)) of
        [] \<Rightarrow> Inr None
      | a # _ \<Rightarrow> rbind (Address a) (\<lambda>a. Inr (Some a)))"

section \<open>Lemmas\<close>

lemma Address_Inr_iff: "Address a = Inr b \<longleftrightarrow> b = a \<and> 0 \<le> a_derivation_index a"
  by (auto simp: Address_def construct_Inr_iff)

lemma reserved_address_ids_iff:
  "k \<in> set (reserved_address_ids s) \<longleftrightarrow>
     (\<exists>i \<in> set (invoices s). i_status i = IS_OPEN \<and> i_receiving_address_id i = Some k)"
  by (force simp: reserved_address_ids_def List.map_filter_def)

lemma insert_descriptor_unique:
  assumes "distinct (map d_expression (descriptors s))"
    and "insert_descriptor base d s = (Inr (), t)"
  shows "distinct (map d_expression (descriptors t))"
  using assms by (auto simp: insert_descriptor_def split: if_splits)

lemma next_unused_address_SomeD:
  assumes "next_unused_address s did is_change = Inr (Some a)"
  shows "a \<in> set (addresses s) \<and> unused_candidate s did is_change a \<and>
    (\<forall>b \<in> set (addresses s). unused_candidate s did is_change b \<longrightarrow>
       a_derivation_index a \<le> a_derivation_index b)"
proof -
  let ?c = "filter (unused_candidate s did is_change) (addresses s)"
  from assms obtain rest where srt: "sort_key a_derivation_index ?c = a # rest"
    by (auto simp: next_unused_address_def rbind_eq_Inr_iff Address_Inr_iff split: list.splits)
  have sorted: "sorted (map a_derivation_index (a # rest))"
    using sorted_sort_key [of a_derivation_index ?c] by (simp add: srt)
  have members: "set (a # rest) = set ?c"
    by (metis set_sort srt)
  then have "a \<in> set ?c" by auto
  moreover have "a_derivation_index a \<le> a_derivation_index b" if "b \<in> set ?c" for b
    using that sorted members by auto
  ultimately show ?thesis by auto
qed

lemma next_unused_address_NoneD:
  assumes "next_unused_address s did is_change = Inr None" "a \<in> set (addresses s)"
  shows "\<not> unused_candidate s did is_change a"
proof -
  have "sort_key a_derivation_index (filter (unused_candidate s did is_change) (addresses s)) = []"
    using assms(1) by (auto simp: next_unused_address_def rbind_eq_Inr_iff split: list.splits)
  then have "filter (unused_candidate s did is_change) (addresses s) = []"
    by (metis set_empty set_sort)
  then show ?thesis
    using assms(2) by (simp add: filter_empty_conv)
qed

lemma update_address_label_frame:
  assumes "update_address_label aid label s = (r, t)"
  shows "invoices t = invoices s" "map a_id (addresses t) = map a_id (addresses s)"
    "map a_address (addresses t) = map a_address (addresses s)"
    "holdings t = holdings s" "descriptors t = descriptors s"
  using assms
  by (auto simp: update_address_label_def map_key_update_rows split: option.splits)

end
