(* ===== verification/Chain_Processing.thy ===== *)
theory Chain_Processing
  imports Ledger Utxos Amounts Descriptors
begin

text \<open>
  What one bitcoin transaction does to the books: \<^verbatim>\<open>services/chain_processing_service.py\<close> and the
  hygiene flags of \<^verbatim>\<open>services/utxo_hygiene_service.py\<close>.  Processing marks the inputs that spend
  known outputs, records the outputs that pay watched addresses, flags them, and writes one
  ledger entry per touched holding.

  Identifiers drawn by \<^verbatim>\<open>uuid4()\<close> are given by two functions, one indexed by the position of
  the discovered output and one by the holding an entry is for.  Python iterates a set of
  holdings in an unspecified order; \<open>iter\<close> is that order, applied to the set listed without
  repetition.
\<close>

section \<open>Decoded transactions\<close>

text \<open>The fields of \<^verbatim>\<open>getrawtransaction\<close> the code reads.  A coinbase input has no \<^verbatim>\<open>txid\<close>.\<close>

record txin =
  ti_txid :: "string option"
  ti_vout :: "int option"

record txout =
  to_value :: "rat option"
  to_n :: "int option"
  to_address :: "string option"

record decoded_tx =
  dt_txid :: string
  dt_hex :: "string option"
  dt_vin :: "txin list"
  dt_vout :: "txout list"
  dt_blockhash :: "string option"
  dt_blocktime :: "timestamp option"

definition input_row :: "db \<Rightarrow> txin \<Rightarrow> utxo selected" where
  "input_row s i = (case (ti_txid i, ti_vout i) of
     (Some t, Some v) \<Rightarrow> utxo_row_by_outpoint s t v | _ \<Rightarrow> SelNone)"

section \<open>Hygiene flags\<close>

record hygiene_context =
  hc_decoded_tx :: "decoded_tx option"
  hc_address_type :: address_type
  hc_fee_rate :: rat

definition fallback_fee_rate :: rat where
  "fallback_fee_rate = 10"

definition dust_factor :: rat where
  "dust_factor = 3"

fun typical_input_vbytes :: "address_type \<Rightarrow> rat" where
  "typical_input_vbytes AT_LEGACY = 148"
| "typical_input_vbytes AT_NESTED_SEGWIT = 91"
| "typical_input_vbytes AT_NATIVE_SEGWIT = 68"
| "typical_input_vbytes AT_TAPROOT = 115 / 2"

definition estimate_fee_rate_sat_per_vbyte :: "('x + rat option) option \<Rightarrow> rat" where
  "estimate_fee_rate_sat_per_vbyte answer =
     (case answer of
        None \<Rightarrow> fallback_fee_rate
      | Some (Inl _) \<Rightarrow> fallback_fee_rate
      | Some (Inr None) \<Rightarrow> fallback_fee_rate
      | Some (Inr (Some feerate)) \<Rightarrow>
          if feerate \<le> 0 then fallback_fee_rate else feerate * 100000)"

definition is_address_reused :: "db \<Rightarrow> utxo \<Rightarrow> bool" where
  "is_address_reused s u \<longleftrightarrow>
     (\<exists>v \<in> set (utxos s). u_address_id v = u_address_id u \<and> u_txid v \<noteq> u_txid u)"

definition is_dust :: "utxo \<Rightarrow> hygiene_context \<Rightarrow> bool" where
  "is_dust u c \<longleftrightarrow>
     of_int (u_value_sats u) < dust_factor * hc_fee_rate c * typical_input_vbytes (hc_address_type c)"

definition is_round_number :: "sats \<Rightarrow> bool" where
  "is_round_number v \<longleftrightarrow> v \<ge> 100000 \<and> v mod 100000 = 0"

text \<open>The count of inputs that spend known outputs; a lookup may raise.\<close>

fun count_ours :: "db \<Rightarrow> txin list \<Rightarrow> int \<Rightarrow> exn + int" where
  "count_ours s [] n = Inr n"
| "count_ours s (i # is) n =
     (case input_row s i of
        SelMany \<Rightarrow> Inl MultipleResultsFound
      | SelNone \<Rightarrow> count_ours s is n
      | SelOne _ \<Rightarrow> count_ours s is (n + 1))"

definition is_suspected_consolidation :: "db \<Rightarrow> decoded_tx \<Rightarrow> exn + bool" where
  "is_suspected_consolidation s tx =
     (if length (dt_vin tx) < 5 \<or> length (dt_vout tx) > 2 then Inr False
      else rbind (count_ours s (dt_vin tx) 0)
             (\<lambda>ours. Inr (of_int ours > (of_nat (length (dt_vin tx)) :: rat) / 2)))"

definition compute_flags :: "db \<Rightarrow> utxo \<Rightarrow> hygiene_context \<Rightarrow> exn + hygiene_flag list" where
  "compute_flags s u c =
     (let reused = (if is_address_reused s u then [HF_ADDRESS_REUSED] else []);
          dust = (if is_dust u c then [HF_DUST] else [])
      in case hc_decoded_tx c of
           None \<Rightarrow> Inr (reused @ dust)
         | Some tx \<Rightarrow>
             rbind (is_suspected_consolidation s tx) (\<lambda>cons.
               Inr (reused @ dust @
                 (if is_round_number (u_value_sats u) then [HF_ROUND_NUMBER] else []) @
                 (if cons then [HF_SUSPECTED_CONSOLIDATION] else []))))"

definition flag_reused :: "utxo \<Rightarrow> utxo" where
  "flag_reused u =
     (if HF_ADDRESS_REUSED \<in> set (u_hygiene_flags u) then u
      else u\<lparr>u_hygiene_flags := u_hygiene_flags u @ [HF_ADDRESS_REUSED]\<rparr>)"

definition propagate_address_reuse :: "utxo \<Rightarrow> db \<Rightarrow> db" where
  "propagate_address_reuse u s =
     addresses_update (update_rows a_id (u_address_id u) (\<lambda>a. a\<lparr>a_is_reused := True\<rparr>))
       (utxos_update (update_where (\<lambda>v. u_address_id v = u_address_id u \<and> u_id v \<noteq> u_id u)
          flag_reused) s)"

definition apply_flags_and_propagate_reuse ::
  "utxo \<Rightarrow> hygiene_context \<Rightarrow> hygiene_flag list service" where
  "apply_flags_and_propagate_reuse u c s =
     (case compute_flags s u c of
        Inl e \<Rightarrow> (Inl e, s)
      | Inr flags \<Rightarrow>
          (let s1 = utxos_update (update_rows u_id (u_id u) (\<lambda>v. v\<lparr>u_hygiene_flags := flags\<rparr>)) s
           in (Inr flags,
               if HF_ADDRESS_REUSED \<in> set flags then propagate_address_reuse u s1 else s1)))"

section \<open>Inputs and outputs\<close>

record spent_acc =
  sa_value :: sats
  sa_ids :: "uuid list"
  sa_descriptors :: "uuid list"
  sa_holdings :: "uuid list"

definition no_spent :: spent_acc where
  "no_spent = \<lparr>sa_value = 0, sa_ids = [], sa_descriptors = [], sa_holdings = []\<rparr>"

definition holding_of_descriptor :: "db \<Rightarrow> uuid \<Rightarrow> uuid option" where
  "holding_of_descriptor s did = map_option d_holding_id (find_row d_id did (descriptors s))"

definition spend_row :: "string \<Rightarrow> utxo \<Rightarrow> utxo" where
  "spend_row txid u = (if u_is_spent u then u else set_spent txid u)"

definition add_spent :: "db \<Rightarrow> utxo \<Rightarrow> spent_acc \<Rightarrow> spent_acc" where
  "add_spent s u acc =
     \<lparr>sa_value = sa_value acc + u_value_sats u, sa_ids = sa_ids acc @ [u_id u],
      sa_descriptors = List.insert (u_descriptor_id u) (sa_descriptors acc),
      sa_holdings = (case holding_of_descriptor s (u_descriptor_id u) of
                       None \<Rightarrow> sa_holdings acc | Some h \<Rightarrow> List.insert h (sa_holdings acc))\<rparr>"

fun mark_inputs_spent :: "string \<Rightarrow> txin list \<Rightarrow> spent_acc \<Rightarrow> spent_acc service" where
  "mark_inputs_spent txid [] acc s = (Inr acc, s)"
| "mark_inputs_spent txid (i # is) acc s =
     (case input_row s i of
        SelMany \<Rightarrow> (Inl MultipleResultsFound, s)
      | SelNone \<Rightarrow> mark_inputs_spent txid is acc s
      | SelOne u \<Rightarrow> mark_inputs_spent txid is (add_spent s u acc)
                     (utxos_update (update_rows u_id (u_id u) (spend_row txid)) s))"

record found_output =
  fo_vout :: int
  fo_value_sats :: sats
  fo_address :: string
  fo_address_id :: uuid
  fo_descriptor_id :: uuid
  fo_holding_id :: uuid

text \<open>The outputs that name an address and a value, and the discovered ones among them: for every
  watched address row, the outputs that pay it, provided its descriptor is known.\<close>

definition addressed_outputs :: "txout list \<Rightarrow> (string \<times> sats \<times> int) list" where
  "addressed_outputs vout = List.map_filter (\<lambda>o'.
     case (to_value o', to_address o') of
       (Some v, Some a) \<Rightarrow>
         if a = [] then None
         else Some (a, btc_to_sats v, case to_n o' of None \<Rightarrow> 0 | Some n \<Rightarrow> n)
     | _ \<Rightarrow> None) vout"

definition found_at :: "db \<Rightarrow> (string \<times> sats \<times> int) list \<Rightarrow> address \<Rightarrow> found_output list" where
  "found_at s outs a = (case holding_of_descriptor s (a_descriptor_id a) of
     None \<Rightarrow> []
   | Some h \<Rightarrow> map (\<lambda>(_, v, n). \<lparr>fo_vout = n, fo_value_sats = v, fo_address = a_address a,
         fo_address_id = a_id a, fo_descriptor_id = a_descriptor_id a, fo_holding_id = h\<rparr>)
       (filter (\<lambda>(x, _, _). x = a_address a) outs))"

definition discover_outputs :: "db \<Rightarrow> txout list \<Rightarrow> found_output list" where
  "discover_outputs s vout =
     concat (map (found_at s (addressed_outputs vout)) (addresses s))"

section \<open>Recording the outputs\<close>

record tx_context =
  tc_txid :: string
  tc_decoded :: decoded_tx
  tc_confirmation_height :: "int option"
  tc_fee_rate :: "rat option"
  tc_now :: timestamp

definition descriptor_address_type :: "db \<Rightarrow> uuid \<Rightarrow> address_type" where
  "descriptor_address_type s did = (case find_row d_id did (descriptors s) of
     None \<Rightarrow> AT_NATIVE_SEGWIT | Some d \<Rightarrow> d_address_type d)"

definition record_output ::
  "tx_context \<Rightarrow> uuid \<Rightarrow> found_output \<Rightarrow> uuid option service" where
  "record_output c uid f s =
     (case utxo_row_by_outpoint s (tc_txid c) (fo_vout f) of
        SelMany \<Rightarrow> (Inl MultipleResultsFound, s)
      | SelOne u \<Rightarrow>
          (Inr None, utxos_update (update_rows u_id (u_id u)
                       (refresh_height (tc_confirmation_height c))) s)
      | SelNone \<Rightarrow>
          (let row = new_utxo uid (tc_now c) (fo_descriptor_id f) (fo_address_id f) (tc_txid c)
                       (fo_vout f) (fo_value_sats f) (tc_confirmation_height c);
               s1 = utxos_update (\<lambda>us. us @ [row]) s;
               ctx = \<lparr>hc_decoded_tx = Some (tc_decoded c),
                      hc_address_type = descriptor_address_type s1 (fo_descriptor_id f),
                      hc_fee_rate = (case tc_fee_rate c of None \<Rightarrow> 10 | Some r \<Rightarrow> r)\<rparr>
           in case apply_flags_and_propagate_reuse row ctx s1 of
                (Inl e, s2) \<Rightarrow> (Inl e, s2)
              | (Inr _, s2) \<Rightarrow> (Inr (Some uid), s2)))"

fun record_outputs ::
  "tx_context \<Rightarrow> (nat \<Rightarrow> uuid) \<Rightarrow> nat \<Rightarrow> found_output list \<Rightarrow> uuid list service" where
  "record_outputs c uids k [] s = (Inr [], s)"
| "record_outputs c uids k (f # fs) s =
     (case record_output c (uids k) f s of
        (Inl e, s1) \<Rightarrow> (Inl e, s1)
      | (Inr new, s1) \<Rightarrow>
          (case record_outputs c uids (Suc k) fs s1 of
             (Inl e, s2) \<Rightarrow> (Inl e, s2)
           | (Inr news, s2) \<Rightarrow>
               (Inr (case new of None \<Rightarrow> news | Some uid \<Rightarrow> uid # news), s2)))"

section \<open>Direction and ledger entries\<close>

definition received_total :: "found_output list \<Rightarrow> sats" where
  "received_total fs = sum_list (map fo_value_sats fs)"

definition received_for :: "found_output list \<Rightarrow> uuid \<Rightarrow> sats" where
  "received_for fs h = sum_list (map fo_value_sats (filter (\<lambda>f. fo_holding_id f = h) fs))"

definition infer_direction :: "sats \<Rightarrow> sats \<Rightarrow> nat \<Rightarrow> nat \<Rightarrow> direction" where
  "infer_direction spent received n_in n_out =
     (if spent > 0 \<and> received > 0 \<and> n_in > 0 \<and> n_out > 0 then DIR_INTERNAL
      else if received \<ge> spent then DIR_INCOMING else DIR_OUTGOING)"

definition links_of_tx :: "db \<Rightarrow> string \<Rightarrow> uuid \<Rightarrow> ledger_link list" where
  "links_of_tx s txid hid =
     concat (map (\<lambda>l. map (\<lambda>_. l) (filter (\<lambda>e. le_id e = ll_ledger_entry_id l \<and>
         le_source e = SRC_ONCHAIN_TRANSACTION \<and> le_source_reference e = txid) (ledger_entries s)))
       (filter (\<lambda>l. ll_holding_id l = hid) (ledger_links s)))"

definition already_linked :: "db \<Rightarrow> string \<Rightarrow> uuid \<Rightarrow> exn + bool" where
  "already_linked s txid hid =
     (case links_of_tx s txid hid of [] \<Rightarrow> Inr False | [_] \<Rightarrow> Inr True
      | _ \<Rightarrow> Inl MultipleResultsFound)"

fun holding_input_value :: "db \<Rightarrow> txin list \<Rightarrow> uuid \<Rightarrow> sats \<Rightarrow> exn + sats" where
  "holding_input_value s [] hid acc = Inr acc"
| "holding_input_value s (i # is) hid acc =
     (case input_row s i of
        SelMany \<Rightarrow> Inl MultipleResultsFound
      | SelNone \<Rightarrow> holding_input_value s is hid acc
      | SelOne u \<Rightarrow> holding_input_value s is hid
          (if holding_of_descriptor s (u_descriptor_id u) = Some hid
           then acc + u_value_sats u else acc))"

definition onchain_entry ::
  "uuid \<Rightarrow> timestamp \<Rightarrow> timestamp \<Rightarrow> direction \<Rightarrow> string \<Rightarrow> sats \<Rightarrow> ledger_entry" where
  "onchain_entry eid now ts dir txid net =
     \<lparr>le_id = eid, le_direction = dir, le_net_amount_sats = net, le_fee_sats = None,
      le_timestamp = ts, le_source = SRC_ONCHAIN_TRANSACTION, le_source_reference = txid,
      le_category = None, le_counterparty_label = None, le_note = None,
      le_suggested_category = None, le_categorized_at = None, le_created_at = now\<rparr>"

definition ledger_holding ::
  "tx_context \<Rightarrow> (uuid \<Rightarrow> uuid) \<Rightarrow> timestamp \<Rightarrow> direction \<Rightarrow> found_output list \<Rightarrow> uuid \<Rightarrow>
   uuid option service" where
  "ledger_holding c eids ts dir fs hid s =
     (case already_linked s (tc_txid c) hid of
        Inl e \<Rightarrow> (Inl e, s)
      | Inr True \<Rightarrow> (Inr None, s)
      | Inr False \<Rightarrow>
          (case holding_input_value s (dt_vin (tc_decoded c)) hid 0 of
             Inl e \<Rightarrow> (Inl e, s)
           | Inr spent \<Rightarrow>
               (let received = received_for fs hid; net = received - spent in
                if received = 0 \<and> spent = 0 then (Inr None, s)
                else case LedgerEntry (onchain_entry (eids hid) (tc_now c) ts dir (tc_txid c) net) of
                       Inl e \<Rightarrow> (Inl e, s)
                     | Inr entry \<Rightarrow>
                         (Inr (Some (eids hid)),
                          le_insert entry [\<lparr>ll_ledger_entry_id = eids hid, ll_holding_id = hid,
                                            ll_holding_amount_sats = net\<rparr>] s))))"

fun ledger_holdings ::
  "tx_context \<Rightarrow> (uuid \<Rightarrow> uuid) \<Rightarrow> timestamp \<Rightarrow> direction \<Rightarrow> found_output list \<Rightarrow> uuid list \<Rightarrow>
   uuid list service" where
  "ledger_holdings c eids ts dir fs [] s = (Inr [], s)"
| "ledger_holdings c eids ts dir fs (h # hs) s =
     (case ledger_holding c eids ts dir fs h s of
        (Inl e, s1) \<Rightarrow> (Inl e, s1)
      | (Inr new, s1) \<Rightarrow>
          (case ledger_holdings c eids ts dir fs hs s1 of
             (Inl e, s2) \<Rightarrow> (Inl e, s2)
           | (Inr news, s2) \<Rightarrow>
               (Inr (case new of None \<Rightarrow> news | Some eid \<Rightarrow> eid # news), s2)))"

section \<open>The whole transaction\<close>

record tx_result =
  tr_txid :: string
  tr_confirmation_height :: "int option"
  tr_is_new :: bool
  tr_spent_utxo_ids :: "uuid list"
  tr_discovered_utxo_ids :: "uuid list"
  tr_new_ledger_entry_ids :: "uuid list"
  tr_affected_holding_ids :: "uuid list"
  tr_affected_descriptor_ids :: "uuid list"
  tr_direction :: "direction option"
  tr_net_amount_sats :: sats

definition noop_result :: "string \<Rightarrow> int option \<Rightarrow> tx_result" where
  "noop_result txid height =
     \<lparr>tr_txid = txid, tr_confirmation_height = height, tr_is_new = False, tr_spent_utxo_ids = [],
      tr_discovered_utxo_ids = [], tr_new_ledger_entry_ids = [], tr_affected_holding_ids = [],
      tr_affected_descriptor_ids = [], tr_direction = None, tr_net_amount_sats = 0\<rparr>"

text \<open>The arguments a call draws from its environment: the set iteration order, the identifiers,
  the clock.\<close>

record draws =
  dr_iter :: "uuid list \<Rightarrow> uuid list"
  dr_utxo_ids :: "nat \<Rightarrow> uuid"
  dr_entry_ids :: "uuid \<Rightarrow> uuid"
  dr_now :: timestamp

definition affected_holdings :: "spent_acc \<Rightarrow> found_output list \<Rightarrow> uuid list" where
  "affected_holdings acc fs = fold List.insert (map fo_holding_id fs) (sa_holdings acc)"

definition process_decoded_transaction ::
  "draws \<Rightarrow> decoded_tx \<Rightarrow> int option \<Rightarrow> timestamp option \<Rightarrow> rat option \<Rightarrow> tx_result service" where
  "process_decoded_transaction dr tx height block_time fee_rate =
     (let txid = dt_txid tx;
          c = \<lparr>tc_txid = txid, tc_decoded = tx, tc_confirmation_height = height,
               tc_fee_rate = fee_rate, tc_now = dr_now dr\<rparr> in
      bnd (mark_inputs_spent txid (dt_vin tx) no_spent) (\<lambda>acc.
      bnd (gets (\<lambda>s. discover_outputs s (dt_vout tx))) (\<lambda>found.
      if sa_ids acc = [] \<and> found = [] then ret (noop_result txid height)
      else
      bnd (readr (\<lambda>s. onchain_get s txid)) (\<lambda>existing.
      bnd (onchain_upsert (dr_now dr) txid
             \<lparr>of_raw_hex = (if dt_hex tx = Some [] then None else dt_hex tx),
              of_confirmation_height = height, of_block_time = block_time, of_fee_sats = None,
              of_size_vbytes = None, of_is_coinjoin_suspected = None\<rparr>) (\<lambda>_.
      bnd (record_outputs c (dr_utxo_ids dr) 0 found) (\<lambda>discovered_ids.
      let dir = infer_direction (sa_value acc) (received_total found) (length (sa_holdings acc))
                  (length (remdups (map fo_holding_id found)));
          ts = (case block_time of None \<Rightarrow> dr_now dr | Some t \<Rightarrow> t);
          hs = affected_holdings acc found in
      bnd (ledger_holdings c (dr_entry_ids dr) ts dir found (dr_iter dr hs)) (\<lambda>entry_ids.
      ret \<lparr>tr_txid = txid, tr_confirmation_height = height, tr_is_new = (existing = None),
           tr_spent_utxo_ids = sa_ids acc, tr_discovered_utxo_ids = discovered_ids,
           tr_new_ledger_entry_ids = entry_ids, tr_affected_holding_ids = sort hs,
           tr_affected_descriptor_ids =
             sort (fold List.insert (map fo_descriptor_id found) (sa_descriptors acc)),
           tr_direction = Some dir,
           tr_net_amount_sats = received_total found - sa_value acc\<rparr>)))))))"

section \<open>Spending the inputs\<close>

text \<open>In closed form: the rows the inputs name, in input order, and the table in which each of
  them is spent.\<close>

definition names_outpoint :: "txin \<Rightarrow> utxo \<Rightarrow> bool" where
  "names_outpoint i u \<longleftrightarrow> ti_txid i = Some (u_txid u) \<and> ti_vout i = Some (u_vout u)"

definition spends :: "txin list \<Rightarrow> utxo \<Rightarrow> bool" where
  "spends is u \<longleftrightarrow> (\<exists>i \<in> set is. names_outpoint i u)"

definition input_rows :: "db \<Rightarrow> txin list \<Rightarrow> utxo list" where
  "input_rows s is = List.map_filter (\<lambda>i. find (names_outpoint i) (utxos s)) is"

lemma input_row_eq:
  assumes "utxo_inv s"
  shows "input_row s i =
    (case find (names_outpoint i) (utxos s) of None \<Rightarrow> SelNone | Some u \<Rightarrow> SelOne u)"
proof (cases "\<exists>t v. ti_txid i = Some t \<and> ti_vout i = Some v")
  case True
  then obtain t v where tv: "ti_txid i = Some t" "ti_vout i = Some v" by blast
  have "names_outpoint i = (\<lambda>u. outpoint u = (t, v))"
    by (auto simp: names_outpoint_def tv outpoint_def)
  then show ?thesis
    using assms by (simp add: input_row_def tv utxo_row_by_outpoint_eq utxo_inv_def find_row_def)
next
  case False
  then have "names_outpoint i = (\<lambda>u. False)"
    by (auto simp: names_outpoint_def)
  then have "find (names_outpoint i) (utxos s) = None" by (simp add: find_None_iff)
  then show ?thesis
    using False by (auto simp: input_row_def split: option.splits)
qed

lemma spend_row_simps [simp]:
  "u_id (spend_row t u) = u_id u" "u_txid (spend_row t u) = u_txid u"
  "u_vout (spend_row t u) = u_vout u" "u_value_sats (spend_row t u) = u_value_sats u"
  "u_descriptor_id (spend_row t u) = u_descriptor_id u" "u_is_spent (spend_row t u)"
  "spend_row t (spend_row t' u) = spend_row t' u" "keeps_outpoint (spend_row t)"
  by (auto simp: spend_row_def set_spent_def keeps_outpoint_def outpoint_def)

lemma names_outpoint_spend_row [simp]: "names_outpoint i (spend_row t u) = names_outpoint i u"
  by (simp add: names_outpoint_def)

lemma utxo_row_ok_spend [simp]: "utxo_row_ok u \<Longrightarrow> utxo_row_ok (spend_row t u)"
  by (auto simp: utxo_row_ok_iff spend_row_def set_spent_def)

lemma find_map_same:
  assumes "\<And>u. P (f u) = P u"
  shows "find P (map f us) = map_option f (find P us)"
  using assms by (induction us) auto

lemma add_spent_cong:
  assumes "u_id v = u_id u" "u_value_sats v = u_value_sats u" "u_descriptor_id v = u_descriptor_id u"
    "descriptors t = descriptors s"
  shows "add_spent t v acc = add_spent s u acc"
  using assms by (simp add: add_spent_def holding_of_descriptor_def)

lemma fold_add_spent_cong:
  assumes "list_all2 (\<lambda>v u. u_id v = u_id u \<and> u_value_sats v = u_value_sats u \<and>
      u_descriptor_id v = u_descriptor_id u) vs us" "descriptors t = descriptors s"
  shows "fold (add_spent t) vs acc = fold (add_spent s) us acc"
  using assms by (induction vs us arbitrary: acc rule: list_all2_induct) (auto cong: add_spent_cong)

lemma update_row_as_where:
  assumes "distinct (map u_id us)" "distinct (map outpoint us)" "find (names_outpoint i) us = Some u"
  shows "update_rows u_id (u_id u) f us = update_where (names_outpoint i) f us"
proof -
  have u: "u \<in> set us" "names_outpoint i u"
    using assms(3) by (auto simp: find_Some_iff)
  have "u_id v = u_id u \<longleftrightarrow> names_outpoint i v" if "v \<in> set us" for v
  proof
    assume "u_id v = u_id u"
    then have "v = u" using assms(1) u(1) that by (auto simp: distinct_map inj_on_def)
    then show "names_outpoint i v" using u by simp
  next
    assume "names_outpoint i v"
    then have "outpoint v = outpoint u" using u(2) by (simp add: names_outpoint_def outpoint_def)
    then have "v = u" using assms(2) u(1) that by (auto simp: distinct_map inj_on_def)
    then show "u_id v = u_id u" by simp
  qed
  then show ?thesis by (simp add: update_rows_def update_where_def)
qed

lemma mark_inputs_spent_eq:
  assumes "utxo_inv s"
  shows "mark_inputs_spent txid is acc s =
    (Inr (fold (add_spent s) (input_rows s is) acc),
     utxos_update (update_where (spends is) (spend_row txid)) s)"
  using assms
proof (induction "is" arbitrary: acc s)
  case Nil
  have "update_where (spends []) (spend_row txid) = (\<lambda>us. us)"
    by (simp add: update_where_def spends_def fun_eq_iff)
  then show ?case by (simp add: input_rows_def List.map_filter_def)
next
  case (Cons i "is")
  show ?case
  proof (cases "find (names_outpoint i) (utxos s)")
    case None
    then have "spends (i # is) u = spends is u" if "u \<in> set (utxos s)" for u
      using that by (auto simp: spends_def find_None_iff)
    then have "update_where (spends (i # is)) (spend_row txid) (utxos s) =
        update_where (spends is) (spend_row txid) (utxos s)"
      by (auto simp: update_where_def)
    then have same: "utxos_update (update_where (spends (i # is)) (spend_row txid)) s =
        utxos_update (update_where (spends is) (spend_row txid)) s"
      by (cases s) simp
    have "input_rows s (i # is) = input_rows s is"
      using None by (simp add: input_rows_def List.map_filter_def)
    with same show ?thesis
      using None Cons by (simp add: input_row_eq)
  next
    case (Some u)
    let ?s = "utxos_update (update_rows u_id (u_id u) (spend_row txid)) s"
    have inv: "utxo_inv ?s"
      using Cons.prems by (rule utxo_inv_update) simp_all
    have upd: "update_rows u_id (u_id u) (spend_row txid) (utxos s) =
        update_where (names_outpoint i) (spend_row txid) (utxos s)"
      using Cons.prems Some by (intro update_row_as_where) (simp_all add: utxo_inv_def)
    have rows: "utxos ?s = map (\<lambda>u. if names_outpoint i u then spend_row txid u else u) (utxos s)"
      by (simp add: upd update_where_def)
    have "list_all2 (\<lambda>v u. u_id v = u_id u \<and> u_value_sats v = u_value_sats u \<and>
      u_descriptor_id v = u_descriptor_id u) (input_rows ?s is) (input_rows s is)"
      unfolding input_rows_def rows
      by (induction "is") (auto simp: List.map_filter_def find_map_same split: option.splits)
    then have acc: "fold (add_spent ?s) (input_rows ?s is) a = fold (add_spent s) (input_rows s is) a" for a
      by (rule fold_add_spent_cong) simp
    have final: "utxos_update (update_where (spends is) (spend_row txid)) ?s =
        utxos_update (update_where (spends (i # is)) (spend_row txid)) s"
      using upd by (cases s) (auto simp: update_where_def spends_def)
    have "input_rows s (i # is) = u # input_rows s is"
      using Some by (simp add: input_rows_def List.map_filter_def)
    then show ?thesis
      using Some Cons.prems Cons.IH [OF inv] acc final by (simp add: input_row_eq)
  qed
qed

end
