(* ===== verification/Chain_Books.thy ===== *)
theory Chain_Books
  imports Chain_Processing
begin

text \<open>
  What processing a transaction keeps and changes.  The books are consistent when outpoints,
  transactions and ledger links are unique and every row is valid (\<open>books_inv\<close>); processing
  never raises on consistent books and keeps them consistent.  The value theorems follow each
  holding: what a first sighting adds to the ledger is what it adds to the holding's balance,
  and a second sighting of the same transaction adds nothing.
\<close>

section \<open>The part of a UTXO row that carries value\<close>

text \<open>Flags and confirmation heights are annotations; the rest of the row is its core.\<close>

definition ucore :: "utxo \<Rightarrow> utxo" where
  "ucore u = u\<lparr>u_confirmation_height := None, u_hygiene_flags := []\<rparr>"

lemma ucore_simps [simp]:
  "u_id (ucore u) = u_id u" "u_descriptor_id (ucore u) = u_descriptor_id u"
  "u_address_id (ucore u) = u_address_id u" "u_txid (ucore u) = u_txid u"
  "u_vout (ucore u) = u_vout u" "u_value_sats (ucore u) = u_value_sats u"
  "u_is_spent (ucore u) = u_is_spent u" "u_spent_in_txid (ucore u) = u_spent_in_txid u"
  "outpoint (ucore u) = outpoint u" "utxo_row_ok (ucore u) = utxo_row_ok u"
  by (simp_all add: ucore_def outpoint_def utxo_row_ok_iff)

lemma ucore_annotations [simp]:
  "ucore (flag_reused u) = ucore u" "ucore (refresh_height h u) = ucore u"
  "ucore (u\<lparr>u_hygiene_flags := fl\<rparr>) = ucore u"
  by (simp_all add: ucore_def flag_reused_def refresh_height_def)

definition cores :: "db \<Rightarrow> utxo list" where
  "cores s = map ucore (utxos s)"

lemma map_via_cores:
  assumes "\<And>u. g (ucore u) = g u"
  shows "map g (utxos s) = map g (cores s)"
  using assms by (simp add: cores_def)

lemma utxo_inv_cores:
  "utxo_inv s \<longleftrightarrow> distinct (map u_id (cores s)) \<and> distinct (map outpoint (cores s)) \<and>
     (\<forall>u \<in> set (cores s). utxo_row_ok u)"
  by (simp add: utxo_inv_def cores_def comp_def)

lemma cores_update_rows:
  "(\<And>u. ucore (f u) = ucore u) \<Longrightarrow> map ucore (update_rows u_id k f us) = map ucore us"
  by (simp add: update_rows_def)

lemma cores_update_where:
  "(\<And>u. ucore (f u) = ucore u) \<Longrightarrow> map ucore (update_where p f us) = map ucore us"
  by (simp add: update_where_def)

section \<open>Recording outputs\<close>

definition akey :: "address \<Rightarrow> uuid \<times> uuid \<times> string \<times> bool \<times> int" where
  "akey a = (a_id a, a_descriptor_id a, a_address a, a_is_change a, a_derivation_index a)"

text \<open>The rest of the session: everything but the UTXO table and the address annotations.\<close>

definition same_but_utxos :: "db \<Rightarrow> db \<Rightarrow> bool" where
  "same_but_utxos s t \<longleftrightarrow> map akey (addresses t) = map akey (addresses s) \<and>
     t\<lparr>utxos := [], addresses := []\<rparr> = s\<lparr>utxos := [], addresses := []\<rparr>"

lemma same_but_utxos_refl [simp]: "same_but_utxos s s"
  by (simp add: same_but_utxos_def)

lemma same_but_utxos_trans [trans]:
  "same_but_utxos r s \<Longrightarrow> same_but_utxos s t \<Longrightarrow> same_but_utxos r t"
  by (simp add: same_but_utxos_def)

lemma same_but_utxos_simps:
  assumes "same_but_utxos s t"
  shows "descriptors t = descriptors s" "ledger_entries t = ledger_entries s"
    "ledger_links t = ledger_links s" "onchain_transactions t = onchain_transactions s"
    "holdings t = holdings s" "payment_requests t = payment_requests s"
    "invoices t = invoices s" "sweep_executions t = sweep_executions s"
    "broadcast_attempts t = broadcast_attempts s"
  using assms unfolding same_but_utxos_def by (cases s; cases t; simp)+

lemma same_but_utxos_update [simp]:
  "same_but_utxos s (utxos_update f s)"
  by (simp add: same_but_utxos_def)

lemma same_but_utxos_propagate [simp]:
  "same_but_utxos s (propagate_address_reuse u s)"
  by (simp add: same_but_utxos_def propagate_address_reuse_def map_key_update_rows akey_def)

lemma cores_propagate [simp]: "cores (propagate_address_reuse u s) = cores s"
  by (simp add: cores_def propagate_address_reuse_def cores_update_where)

lemma count_ours_Inr:
  assumes "utxo_inv s"
  shows "\<exists>m. count_ours s is n = Inr m"
proof (induction "is" arbitrary: n)
  case Nil
  then show ?case by simp
next
  case (Cons i "is")
  then show ?case using assms by (simp add: input_row_eq split: option.split)
qed

lemma compute_flags_Inr: "utxo_inv s \<Longrightarrow> \<exists>fl. compute_flags s u c = Inr fl"
  using count_ours_Inr [of s]
  by (auto simp: compute_flags_def is_suspected_consolidation_def Let_def rbind_eq_Inr_iff
      split: option.split)

lemma apply_flags_ok:
  assumes "utxo_inv s"
  shows "\<exists>fl t. apply_flags_and_propagate_reuse u c s = (Inr fl, t) \<and> same_but_utxos s t \<and>
    cores t = cores s"
proof -
  obtain fl where "compute_flags s u c = Inr fl"
    using compute_flags_Inr [OF assms] by blast
  moreover have "cores (utxos_update (update_rows u_id (u_id u) (\<lambda>v. v\<lparr>u_hygiene_flags := fl\<rparr>)) s) =
      cores s"
    by (simp add: cores_def cores_update_rows)
  ultimately show ?thesis
    by (auto simp: apply_flags_and_propagate_reuse_def Let_def
        intro: same_but_utxos_trans [OF _ same_but_utxos_propagate])
qed

definition found_row :: "tx_context \<Rightarrow> uuid \<Rightarrow> found_output \<Rightarrow> utxo" where
  "found_row c uid f = new_utxo uid (tc_now c) (fo_descriptor_id f) (fo_address_id f) (tc_txid c)
     (fo_vout f) (fo_value_sats f) None"

lemma ucore_new_utxo: "ucore (new_utxo uid now did aid txid vout v h) = new_utxo uid now did aid txid vout v None"
  by (simp add: ucore_def new_utxo_def)

lemma found_row_simps [simp]:
  "u_id (found_row c uid f) = uid" "outpoint (found_row c uid f) = (tc_txid c, fo_vout f)"
  "u_txid (found_row c uid f) = tc_txid c" "u_vout (found_row c uid f) = fo_vout f"
  "u_descriptor_id (found_row c uid f) = fo_descriptor_id f"
  "u_value_sats (found_row c uid f) = fo_value_sats f" "\<not> u_is_spent (found_row c uid f)"
  "ucore (found_row c uid f) = found_row c uid f"
  by (simp_all add: found_row_def new_utxo_def outpoint_def ucore_def)

lemma record_output_ok:
  assumes inv: "utxo_inv s" and fresh: "uid \<notin> u_id ` set (utxos s)"
    and nonneg: "0 \<le> fo_value_sats f" "0 \<le> fo_vout f"
  shows "\<exists>t. record_output c uid f s =
      (Inr (if (tc_txid c, fo_vout f) \<in> outpoint ` set (cores s) then None else Some uid), t) \<and>
    utxo_inv t \<and> same_but_utxos s t \<and>
    cores t = cores s @ (if (tc_txid c, fo_vout f) \<in> outpoint ` set (cores s) then []
                         else [found_row c uid f])"
proof -
  have sel: "utxo_row_by_outpoint s (tc_txid c) (fo_vout f) =
    (case find_row outpoint (tc_txid c, fo_vout f) (utxos s) of None \<Rightarrow> SelNone | Some u \<Rightarrow> SelOne u)"
    using inv by (simp add: utxo_row_by_outpoint_eq utxo_inv_def)
  have img: "outpoint ` set (cores s) = outpoint ` set (utxos s)"
    by (simp add: cores_def image_image)
  show ?thesis
  proof (cases "find_row outpoint (tc_txid c, fo_vout f) (utxos s)")
    case None
    then have new: "(tc_txid c, fo_vout f) \<notin> outpoint ` set (cores s)"
      by (simp add: find_row_None_iff img)
    let ?row = "new_utxo uid (tc_now c) (fo_descriptor_id f) (fo_address_id f) (tc_txid c)
       (fo_vout f) (fo_value_sats f) (tc_confirmation_height c)"
    let ?s1 = "utxos_update (\<lambda>us. us @ [?row]) s"
    have "utxo_inv ?s1"
      using inv fresh None nonneg
      by (intro utxo_inv_insert)
         (auto simp: new_utxo_def outpoint_def find_row_None_iff utxo_row_ok_iff)
    moreover have "cores ?s1 = cores s @ [found_row c uid f]"
      by (simp add: cores_def ucore_new_utxo found_row_def)
    moreover obtain fl t where flagged: "apply_flags_and_propagate_reuse ?row
        \<lparr>hc_decoded_tx = Some (tc_decoded c),
         hc_address_type = descriptor_address_type ?s1 (fo_descriptor_id f),
         hc_fee_rate = (case tc_fee_rate c of None \<Rightarrow> 10 | Some r \<Rightarrow> r)\<rparr> ?s1 = (Inr fl, t)"
      and frame: "same_but_utxos ?s1 t" and cores: "cores t = cores ?s1"
      using apply_flags_ok [OF calculation(1)] by blast
    moreover have "same_but_utxos s t"
      using same_but_utxos_update frame by (rule same_but_utxos_trans)
    ultimately have "utxo_inv t" "same_but_utxos s t" "cores t = cores s @ [found_row c uid f]"
      by (simp_all add: utxo_inv_cores)
    moreover have "record_output c uid f s = (Inr (Some uid), t)"
      using sel None flagged by (simp add: record_output_def Let_def)
    ultimately show ?thesis
      using new by simp
  next
    case (Some u)
    then have old: "(tc_txid c, fo_vout f) \<in> outpoint ` set (cores s)"
      unfolding img by (metis find_row_SomeD imageI)
    let ?t = "utxos_update (update_rows u_id (u_id u) (refresh_height (tc_confirmation_height c))) s"
    have "cores ?t = cores s" by (simp add: cores_def cores_update_rows)
    moreover from this have "utxo_inv ?t" using inv by (simp add: utxo_inv_cores)
    ultimately show ?thesis
      using sel Some old by (simp add: record_output_def)
  qed
qed

text \<open>The rows a list of outputs adds: one per outpoint that is not known yet.\<close>

fun added_rows :: "tx_context \<Rightarrow> (nat \<Rightarrow> uuid) \<Rightarrow> nat \<Rightarrow> found_output list \<Rightarrow> (string \<times> int) set \<Rightarrow> utxo list" where
  "added_rows c uids k [] known = []"
| "added_rows c uids k (f # fs) known =
     (if (tc_txid c, fo_vout f) \<in> known then added_rows c uids (Suc k) fs known
      else found_row c (uids k) f #
           added_rows c uids (Suc k) fs (insert (tc_txid c, fo_vout f) known))"

definition outputs_ok :: "found_output list \<Rightarrow> bool" where
  "outputs_ok fs \<longleftrightarrow> (\<forall>f \<in> set fs. 0 \<le> fo_value_sats f \<and> 0 \<le> fo_vout f)"

definition fresh_from :: "(nat \<Rightarrow> uuid) \<Rightarrow> nat \<Rightarrow> uuid set \<Rightarrow> bool" where
  "fresh_from uids k used \<longleftrightarrow> inj uids \<and> (\<forall>j \<ge> k. uids j \<notin> used)"

lemma record_outputs_ok:
  assumes "utxo_inv s" "fresh_from uids k (u_id ` set (cores s))" "outputs_ok fs"
  shows "\<exists>t. record_outputs c uids k fs s =
      (Inr (map u_id (added_rows c uids k fs (outpoint ` set (cores s)))), t) \<and>
    utxo_inv t \<and> same_but_utxos s t \<and>
    cores t = cores s @ added_rows c uids k fs (outpoint ` set (cores s))"
  using assms
proof (induction fs arbitrary: k s)
  case Nil
  then show ?case by simp
next
  case (Cons f fs)
  have "uids k \<notin> u_id ` set (utxos s)"
    using Cons.prems(2) by (auto simp: fresh_from_def cores_def image_image)
  then obtain s1 where s1: "record_output c (uids k) f s =
      (Inr (if (tc_txid c, fo_vout f) \<in> outpoint ` set (cores s) then None else Some (uids k)), s1)"
    and inv1: "utxo_inv s1" and frame1: "same_but_utxos s s1"
    and cores1: "cores s1 = cores s @ (if (tc_txid c, fo_vout f) \<in> outpoint ` set (cores s) then []
                         else [found_row c (uids k) f])"
    using record_output_ok [OF Cons.prems(1), of "uids k" f c] Cons.prems(3)
    by (auto simp: outputs_ok_def)
  have fresh1: "fresh_from uids (Suc k) (u_id ` set (cores s1))"
    using Cons.prems(2) by (auto simp: fresh_from_def cores1 dest: injD)
  have ok: "outputs_ok fs"
    using Cons.prems(3) by (simp add: outputs_ok_def)
  obtain t where t: "record_outputs c uids (Suc k) fs s1 =
      (Inr (map u_id (added_rows c uids (Suc k) fs (outpoint ` set (cores s1)))), t)"
    and "utxo_inv t" "same_but_utxos s1 t"
    and "cores t = cores s1 @ added_rows c uids (Suc k) fs (outpoint ` set (cores s1))"
    using Cons.IH [OF inv1 fresh1 ok] by blast
  then show ?case
    using s1 frame1 cores1 by (auto dest: same_but_utxos_trans)
qed

section \<open>Ledger entries\<close>

definition ledger_inv :: "db \<Rightarrow> bool" where
  "ledger_inv s \<longleftrightarrow> distinct (map le_id (ledger_entries s)) \<and>
     (\<forall>e \<in> set (ledger_entries s). LedgerEntry e = Inr e) \<and>
     (\<forall>l \<in> set (ledger_links s). ll_ledger_entry_id l \<in> le_id ` set (ledger_entries s)) \<and>
     (\<forall>txid h. length (links_of_tx s txid h) \<le> 1)"

declare ledger_inv_def [inv_defs]

definition input_value_for :: "db \<Rightarrow> txin list \<Rightarrow> uuid \<Rightarrow> sats" where
  "input_value_for s is h =
     sum_list (map u_value_sats
       (filter (\<lambda>u. holding_of_descriptor s (u_descriptor_id u) = Some h) (input_rows s is)))"

lemma holding_input_value_eq:
  assumes "utxo_inv s"
  shows "holding_input_value s is h n = Inr (n + input_value_for s is h)"
proof (induction "is" arbitrary: n)
  case Nil
  then show ?case by (simp add: input_value_for_def input_rows_def List.map_filter_def)
next
  case (Cons i "is")
  then show ?case
    using assms
    by (auto simp: input_row_eq input_value_for_def input_rows_def List.map_filter_def
        split: option.split)
qed

lemma already_linked_eq:
  assumes "ledger_inv s"
  shows "already_linked s txid h = Inr (links_of_tx s txid h \<noteq> [])"
proof -
  have "length (links_of_tx s txid h) \<le> 1" using assms by (simp add: ledger_inv_def)
  then show ?thesis
    by (cases "links_of_tx s txid h" rule: remdups_adj.cases) (auto simp: already_linked_def)
qed

definition entry_ids_used :: "db \<Rightarrow> uuid set" where
  "entry_ids_used s = le_id ` set (ledger_entries s)"

lemma le_insert_simps [simp]:
  "utxos (le_insert e ls s) = utxos s" "descriptors (le_insert e ls s) = descriptors s"
  "ledger_entries (le_insert e ls s) = ledger_entries s @ [e]"
  "ledger_links (le_insert e ls s) = ledger_links s @ ls"
  "onchain_transactions (le_insert e ls s) = onchain_transactions s"
  "addresses (le_insert e ls s) = addresses s" "cores (le_insert e ls s) = cores s"
  by (simp_all add: le_insert_def cores_def)

lemma links_of_tx_insert:
  assumes inv: "ledger_inv s" and fresh: "le_id e \<notin> entry_ids_used s"
    and link: "ll_ledger_entry_id l = le_id e"
  shows "links_of_tx (le_insert e [l] s) txid h = links_of_tx s txid h @
    (if ll_holding_id l = h \<and> le_source e = SRC_ONCHAIN_TRANSACTION \<and> le_source_reference e = txid
     then [l] else [])"
proof -
  have old: "ll_ledger_entry_id l' \<noteq> le_id e" if "l' \<in> set (ledger_links s)" for l'
    using inv fresh that unfolding ledger_inv_def entry_ids_used_def by metis
  have new: "filter (\<lambda>e'. le_id e' = le_id e \<and> P e') (ledger_entries s) = []" for P
    using fresh unfolding filter_empty_conv entry_ids_used_def by (metis imageI)
  let ?P = "\<lambda>e'. le_source e' = SRC_ONCHAIN_TRANSACTION \<and> le_source_reference e' = txid"
  let ?q = "\<lambda>es l'. map (\<lambda>_. l') (filter (\<lambda>e'. le_id e' = ll_ledger_entry_id l' \<and> ?P e') es)"
  have keep: "?q (ledger_entries s @ [e]) l' = ?q (ledger_entries s) l'" if "l' \<in> set (ledger_links s)" for l'
    using old [OF that, THEN not_sym] by simp
  have "links_of_tx (le_insert e [l] s) txid h =
      concat (map (?q (ledger_entries s @ [e])) (filter (\<lambda>l. ll_holding_id l = h) (ledger_links s))) @
      (if ll_holding_id l = h then ?q (ledger_entries s @ [e]) l else [])"
    by (simp add: links_of_tx_def del: filter_append)
       (simp add: filter_append [of "\<lambda>l. ll_holding_id l = h"] del: filter_append)
  also have "?q (ledger_entries s @ [e]) l = (if ?P e then [l] else [])"
    by (simp add: link new)
  also have "map (?q (ledger_entries s @ [e])) (filter (\<lambda>l. ll_holding_id l = h) (ledger_links s)) =
      map (?q (ledger_entries s)) (filter (\<lambda>l. ll_holding_id l = h) (ledger_links s))"
    by (rule map_cong [OF refl]) (simp add: keep del: filter_append)
  finally show ?thesis
    by (simp add: links_of_tx_def)
qed

text \<open>The entry and the link written for one holding, and the holdings that get one: those the
  transaction moves value for and that have no entry for it yet.\<close>

definition holding_net :: "db \<Rightarrow> txin list \<Rightarrow> found_output list \<Rightarrow> uuid \<Rightarrow> sats" where
  "holding_net s is fs h = received_for fs h - input_value_for s is h"

definition needs_entry :: "db \<Rightarrow> tx_context \<Rightarrow> found_output list \<Rightarrow> uuid \<Rightarrow> bool" where
  "needs_entry s c fs h \<longleftrightarrow> links_of_tx s (tc_txid c) h = [] \<and>
     \<not> (received_for fs h = 0 \<and> input_value_for s (dt_vin (tc_decoded c)) h = 0)"

definition holding_entry ::
  "db \<Rightarrow> tx_context \<Rightarrow> (uuid \<Rightarrow> uuid) \<Rightarrow> timestamp \<Rightarrow> direction \<Rightarrow> found_output list \<Rightarrow> uuid \<Rightarrow> ledger_entry" where
  "holding_entry s c eids ts dir fs h =
     onchain_entry (eids h) (tc_now c) ts dir (tc_txid c) (holding_net s (dt_vin (tc_decoded c)) fs h)"

definition holding_link ::
  "db \<Rightarrow> tx_context \<Rightarrow> (uuid \<Rightarrow> uuid) \<Rightarrow> found_output list \<Rightarrow> uuid \<Rightarrow> ledger_link" where
  "holding_link s c eids fs h =
     \<lparr>ll_ledger_entry_id = eids h, ll_holding_id = h,
      ll_holding_amount_sats = holding_net s (dt_vin (tc_decoded c)) fs h\<rparr>"

lemma holding_entry_simps [simp]:
  "le_id (holding_entry s c eids ts dir fs h) = eids h"
  "le_source (holding_entry s c eids ts dir fs h) = SRC_ONCHAIN_TRANSACTION"
  "le_source_reference (holding_entry s c eids ts dir fs h) = tc_txid c"
  "le_direction (holding_entry s c eids ts dir fs h) = dir"
  "le_net_amount_sats (holding_entry s c eids ts dir fs h) =
     holding_net s (dt_vin (tc_decoded c)) fs h"
  by (simp_all add: holding_entry_def onchain_entry_def)

lemma holding_link_simps [simp]:
  "ll_ledger_entry_id (holding_link s c eids fs h) = eids h"
  "ll_holding_id (holding_link s c eids fs h) = h"
  "ll_holding_amount_sats (holding_link s c eids fs h) =
     holding_net s (dt_vin (tc_decoded c)) fs h"
  by (simp_all add: holding_link_def)

definition direction_fits :: "direction \<Rightarrow> sats \<Rightarrow> bool" where
  "direction_fits dir net \<longleftrightarrow> (dir = DIR_INCOMING \<longrightarrow> 0 \<le> net) \<and> (dir = DIR_OUTGOING \<longrightarrow> net \<le> 0)"

lemma LedgerEntry_holding_entry:
  assumes "tc_txid c \<noteq> []" "direction_fits dir (holding_net s (dt_vin (tc_decoded c)) fs h)"
  shows "LedgerEntry (holding_entry s c eids ts dir fs h) =
    Inr (holding_entry s c eids ts dir fs h)"
  using assms
  by (simp add: LedgerEntry_Inr_iff direction_fits_def)
     (simp add: holding_entry_def onchain_entry_def opt_lt_def)

lemma ledger_holding_eq:
  assumes "utxo_inv s" "ledger_inv s" "tc_txid c \<noteq> []"
    "direction_fits dir (holding_net s (dt_vin (tc_decoded c)) fs h)"
  shows "ledger_holding c eids ts dir fs h s =
    (if needs_entry s c fs h
     then (Inr (Some (eids h)),
           le_insert (holding_entry s c eids ts dir fs h) [holding_link s c eids fs h] s)
     else (Inr None, s))"
  using assms LedgerEntry_holding_entry [OF assms(3,4), of eids ts]
  by (auto simp: ledger_holding_def already_linked_eq holding_input_value_eq needs_entry_def Let_def
      holding_entry_def holding_link_def holding_net_def split: sum.splits bool.split)

lemma ledger_inv_insert:
  assumes inv: "ledger_inv s" and fresh: "le_id e \<notin> entry_ids_used s"
    and valid: "LedgerEntry e = Inr e" and link: "ll_ledger_entry_id l = le_id e"
    and new: "links_of_tx s (le_source_reference e) (ll_holding_id l) = []"
  shows "ledger_inv (le_insert e [l] s)"
proof -
  have "length (links_of_tx (le_insert e [l] s) txid h) \<le> 1" for txid h
    using inv new by (auto simp: links_of_tx_insert [OF inv fresh link] ledger_inv_def)
  then show ?thesis
    using inv fresh valid link
    by (auto simp: ledger_inv_def le_insert_def entry_ids_used_def)
qed

lemma input_rows_cong: "utxos t = utxos s \<Longrightarrow> input_rows t is = input_rows s is"
  by (simp add: input_rows_def)

lemma input_value_for_le_insert [simp]:
  "input_value_for (le_insert e ls s) is h = input_value_for s is h"
  by (simp add: input_value_for_def holding_of_descriptor_def input_rows_cong [of "le_insert e ls s" s])

lemma holding_net_le_insert [simp]: "holding_net (le_insert e ls s) is fs h = holding_net s is fs h"
  by (simp add: holding_net_def)

lemma ledger_holdings_eq:
  assumes "utxo_inv s" "ledger_inv s" "tc_txid c \<noteq> []" "distinct hs" "inj eids"
    "\<And>h. h \<in> set hs \<Longrightarrow> eids h \<notin> entry_ids_used s"
    "\<And>h. h \<in> set hs \<Longrightarrow> direction_fits dir (holding_net s (dt_vin (tc_decoded c)) fs h)"
  shows "\<exists>t. ledger_holdings c eids ts dir fs hs s = (Inr (map eids (filter (needs_entry s c fs) hs)), t) \<and>
    ledger_inv t \<and>
    (\<forall>txid h. links_of_tx t txid h = links_of_tx s txid h @
       map (holding_link s c eids fs)
         (filter (\<lambda>h'. h' = h \<and> txid = tc_txid c) (filter (needs_entry s c fs) hs))) \<and>
    t = ledger_links_update (\<lambda>ls. ls @ map (holding_link s c eids fs) (filter (needs_entry s c fs) hs))
         (ledger_entries_update
           (\<lambda>es. es @ map (holding_entry s c eids ts dir fs) (filter (needs_entry s c fs) hs)) s)"
  using assms
proof (induction hs arbitrary: s)
  case Nil
  then show ?case by simp
next
  case (Cons h hs)
  have step: "ledger_holding c eids ts dir fs h s =
    (if needs_entry s c fs h
     then (Inr (Some (eids h)),
           le_insert (holding_entry s c eids ts dir fs h) [holding_link s c eids fs h] s)
     else (Inr None, s))"
    using Cons.prems by (intro ledger_holding_eq) auto
  show ?case
  proof (cases "needs_entry s c fs h")
    case False
    then show ?thesis using Cons.IH [of s] Cons.prems step by auto
  next
    case True
    let ?s = "le_insert (holding_entry s c eids ts dir fs h) [holding_link s c eids fs h] s"
    have fresh: "le_id (holding_entry s c eids ts dir fs h) \<notin> entry_ids_used s"
      using Cons.prems(6) by simp
    have inv: "ledger_inv ?s"
      using Cons.prems True fresh
      by (intro ledger_inv_insert LedgerEntry_holding_entry) (auto simp: needs_entry_def)
    have uinv: "utxo_inv ?s" using Cons.prems(1) by (simp add: utxo_inv_def)
    have same: "needs_entry ?s c fs h' = needs_entry s c fs h'" if "h' \<in> set hs" for h'
      using that Cons.prems(4)
      by (auto simp: needs_entry_def links_of_tx_insert [OF Cons.prems(2) fresh])
    then have flt: "filter (needs_entry ?s c fs) hs = filter (needs_entry s c fs) hs"
      by (simp cong: filter_cong)
    have lnk: "holding_link ?s c eids fs = holding_link s c eids fs"
      and ent: "holding_entry ?s c eids ts dir fs = holding_entry s c eids ts dir fs"
      by (simp_all add: fun_eq_iff holding_link_def holding_entry_def)
    have fresh': "\<And>h'. h' \<in> set hs \<Longrightarrow> eids h' \<notin> entry_ids_used ?s"
      using Cons.prems(4,5,6) by (auto simp: entry_ids_used_def dest: injD)
    obtain t where t: "ledger_holdings c eids ts dir fs hs ?s =
        (Inr (map eids (filter (needs_entry s c fs) hs)), t)" and "ledger_inv t"
      and links: "\<And>txid h'. links_of_tx t txid h' = links_of_tx ?s txid h' @
       map (holding_link s c eids fs)
         (filter (\<lambda>x. x = h' \<and> txid = tc_txid c) (filter (needs_entry s c fs) hs))"
      and eq: "t = ledger_links_update (\<lambda>ls. ls @ map (holding_link s c eids fs) (filter (needs_entry s c fs) hs))
         (ledger_entries_update
           (\<lambda>es. es @ map (holding_entry s c eids ts dir fs) (filter (needs_entry s c fs) hs)) ?s)"
      using Cons.IH [OF uinv inv Cons.prems(3) _ Cons.prems(5) fresh'] Cons.prems(4,7)
      unfolding flt lnk ent by auto
    have "t = ledger_links_update (\<lambda>ls. ls @ map (holding_link s c eids fs) (filter (needs_entry s c fs) (h # hs)))
         (ledger_entries_update
           (\<lambda>es. es @ map (holding_entry s c eids ts dir fs) (filter (needs_entry s c fs) (h # hs))) s)"
      using True by (simp add: eq le_insert_def)
    moreover have "links_of_tx t txid h' = links_of_tx s txid h' @ map (holding_link s c eids fs)
        (filter (\<lambda>x. x = h' \<and> txid = tc_txid c) (filter (needs_entry s c fs) (h # hs)))" for txid h'
      using True by (auto simp: links links_of_tx_insert [OF Cons.prems(2) fresh])
    ultimately show ?thesis
      using t \<open>ledger_inv t\<close> step True by simp
  qed
qed

end
