(* ===== verification/Chain_Ledger.thy ===== *)
theory Chain_Ledger
  imports Chain_Books "HOL-Library.Multiset"
begin

text \<open>
  The composition: the effect of \<open>process_decoded_transaction\<close> as a whole, and the properties of
  \<^verbatim>\<open>services/chain_processing_service.py\<close> that follow from it.
\<close>

section \<open>Hypotheses\<close>

definition books_inv :: "db \<Rightarrow> bool" where
  "books_inv s \<longleftrightarrow> utxo_inv s \<and> onchain_inv s \<and> ledger_inv s \<and>
     (\<forall>u \<in> set (utxos s). u_descriptor_id u \<in> d_id ` set (descriptors s))"

declare books_inv_def [inv_defs]

text \<open>What bitcoind guarantees of a transaction it reports: a 64-digit txid, outputs with
  non-negative values and positions, a non-negative height, no input that spends the transaction
  itself.\<close>

definition tx_ok :: "decoded_tx \<Rightarrow> int option \<Rightarrow> bool" where
  "tx_ok tx height \<longleftrightarrow> length (dt_txid tx) = 64 \<and> \<not> opt_lt height 0 \<and>
     (\<forall>i \<in> set (dt_vin tx). ti_txid i \<noteq> Some (dt_txid tx)) \<and>
     (\<forall>x \<in> set (dt_vout tx). (\<forall>v. to_value x = Some v \<longrightarrow> 0 \<le> v) \<and> \<not> opt_lt (to_n x) 0)"

text \<open>Drawn identifiers are new and distinct; a set is iterated without loss or repetition.\<close>

definition draws_ok :: "db \<Rightarrow> draws \<Rightarrow> bool" where
  "draws_ok s dr \<longleftrightarrow> fresh_from (dr_utxo_ids dr) 0 (u_id ` set (utxos s)) \<and>
     inj (dr_entry_ids dr) \<and> range (dr_entry_ids dr) \<inter> entry_ids_used s = {} \<and>
     (\<forall>xs. set (dr_iter dr xs) = set xs \<and> (distinct xs \<longrightarrow> distinct (dr_iter dr xs)))"

section \<open>Inputs and outputs of a transaction\<close>

lemma fold_add_spent:
  "sa_value (fold (add_spent s) us acc) = sa_value acc + sum_list (map u_value_sats us)"
  "sa_ids (fold (add_spent s) us acc) = sa_ids acc @ map u_id us"
  "set (sa_holdings (fold (add_spent s) us acc)) = set (sa_holdings acc) \<union>
     {h. \<exists>u \<in> set us. holding_of_descriptor s (u_descriptor_id u) = Some h}"
  "distinct (sa_holdings acc) \<Longrightarrow> distinct (sa_holdings (fold (add_spent s) us acc))"
  by (induction us arbitrary: acc) (auto simp: add_spent_def split: option.splits)

lemma input_rows_iff:
  "u \<in> set (input_rows s is) \<longleftrightarrow> (\<exists>i \<in> set is. find (names_outpoint i) (utxos s) = Some u)"
  by (force simp: input_rows_def List.map_filter_def)

lemma input_rows_subset: "u \<in> set (input_rows s is) \<Longrightarrow> u \<in> set (utxos s)"
  by (auto simp: input_rows_iff find_Some_iff)

lemma names_outpoint_ucore [simp]: "names_outpoint i (ucore u) = names_outpoint i u"
  by (simp add: names_outpoint_def)

text \<open>The value an input list takes from a holding, read off the cores; spending rows and adding
  rows the inputs do not name leaves it unchanged.\<close>

definition input_core :: "utxo list \<Rightarrow> txin \<Rightarrow> utxo option" where
  "input_core us i = find (names_outpoint i) us"

lemma input_value_for_cores:
  "input_value_for s is h = sum_list (map (\<lambda>i. case input_core (cores s) i of None \<Rightarrow> 0
     | Some u \<Rightarrow> if holding_of_descriptor s (u_descriptor_id u) = Some h then u_value_sats u else 0) is)"
proof (induction "is")
  case Nil
  then show ?case by (simp add: input_value_for_def input_rows_def List.map_filter_def)
next
  case (Cons i "is")
  have "input_core (cores s) i = map_option ucore (find (names_outpoint i) (utxos s))"
    by (simp add: input_core_def cores_def find_map_same)
  then show ?case
    using Cons
    by (auto simp: input_value_for_def input_rows_def List.map_filter_def split: option.split)
qed

lemma find_append_None: "(\<forall>y \<in> set ys. \<not> P y) \<Longrightarrow> find P (xs @ ys) = find P xs"
  by (induction xs) (auto simp: find_None_iff)

definition spend_where :: "txin list \<Rightarrow> string \<Rightarrow> utxo \<Rightarrow> utxo" where
  "spend_where is txid u = (if spends is u then spend_row txid u else u)"

lemma spend_where_simps [simp]:
  "u_id (spend_where is t u) = u_id u" "u_txid (spend_where is t u) = u_txid u"
  "u_vout (spend_where is t u) = u_vout u" "u_value_sats (spend_where is t u) = u_value_sats u"
  "u_descriptor_id (spend_where is t u) = u_descriptor_id u"
  "outpoint (spend_where is t u) = outpoint u"
  "names_outpoint i (spend_where is t u) = names_outpoint i u"
  by (simp_all add: spend_where_def outpoint_def)

lemma input_value_for_after:
  assumes "cores t = map (spend_where is' txid) (cores s) @ new" "descriptors t = descriptors s"
    and "\<And>i u. i \<in> set is \<Longrightarrow> u \<in> set new \<Longrightarrow> \<not> names_outpoint i u"
  shows "input_value_for t is h = input_value_for s is h"
proof -
  have "(case input_core (cores t) i of None \<Rightarrow> 0
     | Some u \<Rightarrow> if holding_of_descriptor t (u_descriptor_id u) = Some h then u_value_sats u else 0) =
    (case input_core (cores s) i of None \<Rightarrow> 0
     | Some u \<Rightarrow> if holding_of_descriptor s (u_descriptor_id u) = Some h then u_value_sats u else 0)"
    if "i \<in> set is" for i
  proof -
    have "input_core (cores t) i = map_option (spend_where is' txid) (input_core (cores s) i)"
      unfolding input_core_def assms(1) using assms(3) [OF that]
      by (subst find_append_None) (auto simp: find_map_same)
    then show ?thesis
      by (auto simp: holding_of_descriptor_def assms(2) split: option.split)
  qed
  then show ?thesis
    unfolding input_value_for_cores by (simp cong: map_cong)
qed

lemma addressed_outputsD:
  assumes "(a, v, n) \<in> set (addressed_outputs vout)"
  shows "\<exists>x \<in> set vout. \<exists>q. to_value x = Some q \<and> to_address x = Some a \<and> a \<noteq> [] \<and>
    v = btc_to_sats q \<and> n = (case to_n x of None \<Rightarrow> 0 | Some n \<Rightarrow> n)"
  using assms
proof (induction vout)
  case Nil
  then show ?case by (simp add: addressed_outputs_def List.map_filter_def)
next
  case (Cons x xs)
  then show ?case
    by (cases "to_value x"; cases "to_address x")
       (auto simp: addressed_outputs_def List.map_filter_def split: if_splits)
qed

lemma addressed_outputs_ok:
  assumes "tx_ok tx height" "(a, v, n) \<in> set (addressed_outputs (dt_vout tx))"
  shows "0 \<le> v \<and> 0 \<le> n"
proof -
  obtain x q where "x \<in> set (dt_vout tx)" "to_value x = Some q" "v = btc_to_sats q"
    "n = (case to_n x of None \<Rightarrow> 0 | Some n \<Rightarrow> n)"
    using addressed_outputsD [OF assms(2)] by blast
  then show ?thesis
    using assms(1) btc_to_sats_nonneg [of q] by (auto simp: tx_ok_def opt_lt_def split: option.splits)
qed

lemma discover_outputsD:
  assumes "f \<in> set (discover_outputs s vout)"
  shows "(fo_address f, fo_value_sats f, fo_vout f) \<in> set (addressed_outputs vout) \<and>
    holding_of_descriptor s (fo_descriptor_id f) = Some (fo_holding_id f)"
  using assms by (auto simp: discover_outputs_def found_at_def split: option.splits)

lemma discover_outputs_ok: "tx_ok tx height \<Longrightarrow> outputs_ok (discover_outputs s (dt_vout tx))"
  unfolding outputs_ok_def by (meson addressed_outputs_ok discover_outputsD)

lemma discover_outputs_cong:
  assumes "map akey (addresses t) = map akey (addresses s)" "descriptors t = descriptors s"
  shows "discover_outputs t vout = discover_outputs s vout"
proof -
  have "found_at t outs a = found_at s outs b" if "akey a = akey b" for outs a b
    using that
    by (auto simp: found_at_def holding_of_descriptor_def assms(2) akey_def split: option.split)
  moreover have "list_all2 (\<lambda>a b. akey a = akey b) (addresses t) (addresses s)"
    using assms(1) unfolding list.rel_eq [symmetric] list.rel_map .
  ultimately have "list_all2 (\<lambda>a b. found_at t outs a = found_at s outs b) (addresses t) (addresses s)" for outs
    by (blast intro: list_all2_mono)
  then have "map (found_at t outs) (addresses t) = map (found_at s outs) (addresses s)" for outs
    unfolding list.rel_eq [symmetric] list.rel_map .
  then show ?thesis by (simp add: discover_outputs_def)
qed

lemma affected_holdings_simps:
  "set (affected_holdings acc fs) = set (sa_holdings acc) \<union> fo_holding_id ` set fs"
  "distinct (sa_holdings acc) \<Longrightarrow> distinct (affected_holdings acc fs)"
proof -
  have "set (fold List.insert xs ys) = set ys \<union> set xs" for xs ys :: "uuid list"
    by (induction xs arbitrary: ys) auto
  moreover have "distinct ys \<Longrightarrow> distinct (fold List.insert xs ys)" for xs ys :: "uuid list"
    by (induction xs arbitrary: ys) auto
  ultimately show "set (affected_holdings acc fs) = set (sa_holdings acc) \<union> fo_holding_id ` set fs"
    "distinct (sa_holdings acc) \<Longrightarrow> distinct (affected_holdings acc fs)"
    by (auto simp: affected_holdings_def)
qed

section \<open>Direction\<close>

lemma sum_list_filter_le:
  fixes g :: "'a \<Rightarrow> int"
  assumes "\<And>x. x \<in> set xs \<Longrightarrow> 0 \<le> g x"
  shows "0 \<le> sum_list (map g (filter P xs))" "sum_list (map g (filter P xs)) \<le> sum_list (map g xs)"
  using assms by (induction xs) (auto, force+)

text \<open>The direction inferred for the whole transaction fits the net amount of every holding, so
  constructing an entry never raises.\<close>

lemma direction_fits_all:
  assumes "\<And>u. u \<in> set us \<Longrightarrow> 0 \<le> u_value_sats u" "outputs_ok fs"
    and "us \<noteq> [] \<Longrightarrow> 0 < n_in"
    and "spent = sum_list (map u_value_sats us)"
    and "n_out = length (remdups (map fo_holding_id fs))"
  shows "direction_fits (infer_direction spent (received_total fs) n_in n_out)
    (received_for fs h - sum_list (map u_value_sats (filter P us)))"
proof -
  have u: "0 \<le> sum_list (map u_value_sats (filter P us))"
    "sum_list (map u_value_sats (filter P us)) \<le> spent"
    using sum_list_filter_le [of us u_value_sats P] assms(1,4) by auto
  have f: "0 \<le> received_for fs h" "received_for fs h \<le> received_total fs"
    using sum_list_filter_le [of fs fo_value_sats "\<lambda>f. fo_holding_id f = h"] assms(2)
    by (auto simp: received_for_def received_total_def outputs_ok_def)
  have "0 < spent \<longrightarrow> 0 < n_in" using assms(3,4) by (cases us) auto
  moreover have "0 < received_total fs \<longrightarrow> 0 < n_out"
    using assms(5) by (cases fs) (auto simp: received_total_def)
  ultimately show ?thesis
    using u f by (auto simp: infer_direction_def direction_fits_def)
qed

section \<open>The effect of a transaction\<close>

definition tx_context_of :: "draws \<Rightarrow> decoded_tx \<Rightarrow> int option \<Rightarrow> rat option \<Rightarrow> tx_context" where
  "tx_context_of dr tx height fee =
     \<lparr>tc_txid = dt_txid tx, tc_decoded = tx, tc_confirmation_height = height,
      tc_fee_rate = fee, tc_now = dr_now dr\<rparr>"

lemma tx_context_of_simps [simp]:
  "tc_txid (tx_context_of dr tx height fee) = dt_txid tx"
  "tc_decoded (tx_context_of dr tx height fee) = tx"
  "tc_confirmation_height (tx_context_of dr tx height fee) = height"
  "tc_now (tx_context_of dr tx height fee) = dr_now dr"
  by (simp_all add: tx_context_of_def)

definition spent_by :: "db \<Rightarrow> decoded_tx \<Rightarrow> spent_acc" where
  "spent_by s tx = fold (add_spent s) (input_rows s (dt_vin tx)) no_spent"

definition ledgered_holdings :: "draws \<Rightarrow> decoded_tx \<Rightarrow> db \<Rightarrow> uuid list" where
  "ledgered_holdings dr tx s =
     filter (needs_entry s (tx_context_of dr tx None None) (discover_outputs s (dt_vout tx)))
       (dr_iter dr (affected_holdings (spent_by s tx) (discover_outputs s (dt_vout tx))))"

definition added_by :: "draws \<Rightarrow> decoded_tx \<Rightarrow> db \<Rightarrow> utxo list" where
  "added_by dr tx s =
     added_rows (tx_context_of dr tx None None) (dr_utxo_ids dr) 0 (discover_outputs s (dt_vout tx))
       (outpoint ` set (cores s))"

text \<open>What a transaction does to the books: it spends the rows its inputs name, adds the outputs
  that are not known, and writes an entry and a link for each holding that needs one.\<close>

definition tx_effect :: "draws \<Rightarrow> decoded_tx \<Rightarrow> db \<Rightarrow> tx_result \<Rightarrow> db \<Rightarrow> bool" where
  "tx_effect dr tx s res t \<longleftrightarrow>
     cores t = map (spend_where (dt_vin tx) (dt_txid tx)) (cores s) @ added_by dr tx s \<and>
     ledger_links t = ledger_links s @
       map (holding_link s (tx_context_of dr tx None None) (dr_entry_ids dr)
              (discover_outputs s (dt_vout tx))) (ledgered_holdings dr tx s) \<and>
     map le_id (ledger_entries t) = map le_id (ledger_entries s) @
       map (dr_entry_ids dr) (ledgered_holdings dr tx s) \<and>
     (\<forall>txid h. links_of_tx t txid h = links_of_tx s txid h @
       map (holding_link s (tx_context_of dr tx None None) (dr_entry_ids dr)
              (discover_outputs s (dt_vout tx)))
         (filter (\<lambda>h'. h' = h \<and> txid = dt_txid tx) (ledgered_holdings dr tx s))) \<and>
     descriptors t = descriptors s \<and> map akey (addresses t) = map akey (addresses s) \<and>
     tr_txid res = dt_txid tx \<and>
     tr_spent_utxo_ids res = map u_id (input_rows s (dt_vin tx)) \<and>
     tr_discovered_utxo_ids res = map u_id (added_by dr tx s) \<and>
     tr_new_ledger_entry_ids res = map (dr_entry_ids dr) (ledgered_holdings dr tx s)"

lemma added_rows_cong:
  "tc_txid c = tc_txid c' \<Longrightarrow> tc_now c = tc_now c' \<Longrightarrow>
   added_rows c uids k fs known = added_rows c' uids k fs known"
  by (induction fs arbitrary: k known) (auto simp: found_row_def)

lemma added_rows_txid: "u \<in> set (added_rows c uids k fs known) \<Longrightarrow> u_txid u = tc_txid c"
  by (induction fs arbitrary: k known) (auto split: if_splits)

lemma added_rows_descriptor:
  "u \<in> set (added_rows c uids k fs known) \<Longrightarrow> u_descriptor_id u \<in> fo_descriptor_id ` set fs"
  by (induction fs arbitrary: k known) (auto split: if_splits)

lemma needs_entry_cong:
  assumes "tc_txid c = tc_txid c'" "tc_decoded c = tc_decoded c'"
    "ledger_links t = ledger_links s" "ledger_entries t = ledger_entries s"
    "input_value_for t (dt_vin (tc_decoded c)) h = input_value_for s (dt_vin (tc_decoded c)) h"
  shows "needs_entry t c fs h = needs_entry s c' fs h"
  using assms by (simp add: needs_entry_def links_of_tx_def)

lemma ledger_inv_cong:
  "ledger_links t = ledger_links s \<Longrightarrow> ledger_entries t = ledger_entries s \<Longrightarrow>
   ledger_inv t = ledger_inv s"
  by (simp add: ledger_inv_def links_of_tx_def)

lemma onchain_upsert_frame:
  assumes "onchain_upsert now txid f s = (r, t)"
  shows "\<exists>g. t = onchain_transactions_update g s"
  using assms by (auto simp: onchain_upsert_def split: option.splits)

lemma mark_state:
  fixes s tx
  defines "s1 \<equiv> utxos_update (update_where (spends (dt_vin tx)) (spend_row (dt_txid tx))) s"
  shows "cores s1 = map (spend_where (dt_vin tx) (dt_txid tx)) (cores s)" "same_but_utxos s s1"
    "utxo_inv s \<Longrightarrow> utxo_inv s1" "outpoint ` set (cores s1) = outpoint ` set (cores s)"
proof -
  have "ucore (spend_row t u) = spend_row t (ucore u)" for t u
    by (simp add: ucore_def spend_row_def set_spent_def)
  moreover have "spends is (ucore u) = spends is u" for "is" u
    by (simp add: spends_def)
  ultimately show cores: "cores s1 = map (spend_where (dt_vin tx) (dt_txid tx)) (cores s)"
    by (simp add: s1_def cores_def update_where_def spend_where_def)
  show "same_but_utxos s s1" by (simp add: s1_def)
  have "utxo_row_ok (spend_where is t u) = utxo_row_ok u" if "utxo_row_ok u" for "is" t u
    using that by (simp add: spend_where_def)
  then show "utxo_inv s \<Longrightarrow> utxo_inv s1"
    unfolding utxo_inv_cores cores by (auto simp: comp_def)
  show "outpoint ` set (cores s1) = outpoint ` set (cores s)"
    by (simp add: cores image_image)
qed

lemma no_inputs_no_spends:
  assumes "input_rows s is = []"
  shows "utxos_update (update_where (spends is) (spend_row txid)) s = s"
proof -
  have "\<not> spends is u" if "u \<in> set (utxos s)" for u
  proof
    assume "spends is u"
    then obtain i where i: "i \<in> set is" "names_outpoint i u" by (auto simp: spends_def)
    then have "find (names_outpoint i) (utxos s) \<noteq> None"
      using that by (auto simp: find_None_iff)
    then show False using assms i(1) input_rows_iff [of _ s "is"] by fastforce
  qed
  then have "update_where (spends is) (spend_row txid) (utxos s) = utxos s"
    by (simp add: update_where_def map_idI)
  then show ?thesis by (cases s) simp
qed

lemma spent_by_simps:
  "sa_value (spent_by s tx) = sum_list (map u_value_sats (input_rows s (dt_vin tx)))"
  "sa_ids (spent_by s tx) = map u_id (input_rows s (dt_vin tx))"
  "set (sa_holdings (spent_by s tx)) =
     {h. \<exists>u \<in> set (input_rows s (dt_vin tx)). holding_of_descriptor s (u_descriptor_id u) = Some h}"
  "distinct (sa_holdings (spent_by s tx))"
  by (simp_all add: spent_by_def fold_add_spent no_spent_def)

lemma known_descriptor_has_holding:
  "did \<in> d_id ` set (descriptors s) \<Longrightarrow> \<exists>h. holding_of_descriptor s did = Some h"
  by (cases "find_row d_id did (descriptors s)")
     (auto simp: holding_of_descriptor_def find_row_None_iff)

lemma process_direction_fits:
  assumes inv: "books_inv s" and tx: "tx_ok tx height"
  shows "direction_fits
    (infer_direction (sa_value (spent_by s tx)) (received_total (discover_outputs s (dt_vout tx)))
      (length (sa_holdings (spent_by s tx)))
      (length (remdups (map fo_holding_id (discover_outputs s (dt_vout tx))))))
    (holding_net s (dt_vin tx) (discover_outputs s (dt_vout tx)) h)"
proof -
  let ?us = "input_rows s (dt_vin tx)"
  have rows: "u \<in> set (utxos s)" if "u \<in> set ?us" for u
    using that by (rule input_rows_subset)
  have "0 \<le> u_value_sats u" if "u \<in> set ?us" for u
    using rows [OF that] inv by (auto simp: books_inv_def utxo_inv_def utxo_row_ok_iff)
  moreover have "0 < length (sa_holdings (spent_by s tx))" if "?us \<noteq> []"
  proof -
    from that have "hd ?us \<in> set ?us" by simp
    then have "u_descriptor_id (hd ?us) \<in> d_id ` set (descriptors s)"
      using rows inv by (auto simp: books_inv_def)
    then obtain h where "holding_of_descriptor s (u_descriptor_id (hd ?us)) = Some h"
      using known_descriptor_has_holding by blast
    then have "h \<in> set (sa_holdings (spent_by s tx))"
      using \<open>hd ?us \<in> set ?us\<close> unfolding spent_by_simps by blast
    then show ?thesis by (auto intro: length_pos_if_in_set)
  qed
  ultimately show ?thesis
    unfolding holding_net_def input_value_for_def
    using discover_outputs_ok [OF tx]
    by (intro direction_fits_all) (simp_all add: spent_by_simps)
qed

lemma added_by_descriptor:
  assumes "u \<in> set (added_by dr tx s)"
  shows "u_descriptor_id u \<in> d_id ` set (descriptors s)"
proof -
  obtain f where "f \<in> set (discover_outputs s (dt_vout tx))" "u_descriptor_id u = fo_descriptor_id f"
    using assms added_rows_descriptor unfolding added_by_def by fastforce
  then have "find_row d_id (u_descriptor_id u) (descriptors s) \<noteq> None"
    using discover_outputsD [of f s] by (auto simp: holding_of_descriptor_def)
  then show ?thesis by (simp add: find_row_None_iff)
qed

lemma onchain_get_Inr: "onchain_inv s \<Longrightarrow> \<exists>x. onchain_get s txid = Inr x"
  by (cases "find_row ot_txid txid (onchain_transactions s)")
     (auto simp: onchain_get_def onchain_inv_def dest: find_row_SomeD)

text \<open>The middle of the pipeline: from the marked inputs to the recorded outputs.\<close>

lemma record_stage:
  fixes s tx
  defines "s1 \<equiv> utxos_update (update_where (spends (dt_vin tx)) (spend_row (dt_txid tx))) s"
  assumes inv: "books_inv s" and tx: "tx_ok tx height" and dr: "draws_ok s dr"
  shows "\<exists>x s2 s3. onchain_upsert (dr_now dr) (dt_txid tx)
       \<lparr>of_raw_hex = raw, of_confirmation_height = height, of_block_time = bt, of_fee_sats = None,
        of_size_vbytes = None, of_is_coinjoin_suspected = None\<rparr> s1 = (Inr x, s2) \<and>
    record_outputs (tx_context_of dr tx height fee) (dr_utxo_ids dr) 0
       (discover_outputs s (dt_vout tx)) s2 = (Inr (map u_id (added_by dr tx s)), s3) \<and>
    utxo_inv s3 \<and> onchain_inv s3 \<and> ledger_links s3 = ledger_links s \<and>
    ledger_entries s3 = ledger_entries s \<and> descriptors s3 = descriptors s \<and>
    map akey (addresses s3) = map akey (addresses s) \<and>
    cores s3 = map (spend_where (dt_vin tx) (dt_txid tx)) (cores s) @ added_by dr tx s"
proof -
  note m = mark_state [where tx = tx and s = s, folded s1_def]
  let ?f = "\<lparr>of_raw_hex = raw, of_confirmation_height = height, of_block_time = bt,
        of_fee_sats = None, of_size_vbytes = None, of_is_coinjoin_suspected = None\<rparr>"
  have "onchain_inv s1"
    using inv by (simp add: books_inv_def onchain_inv_def s1_def)
  moreover have "onchain_fields_ok ?f" "length (dt_txid tx) = 64"
    using tx by (simp_all add: onchain_fields_ok_def tx_ok_def opt_lt_def)
  moreover obtain r s2 where up: "onchain_upsert (dr_now dr) (dt_txid tx) ?f s1 = (r, s2)"
    by fastforce
  ultimately obtain x where r: "r = Inr x" and oinv: "onchain_inv s2"
    using onchain_upsert_ok by blast
  obtain g where s2: "s2 = onchain_transactions_update g s1"
    using onchain_upsert_frame [OF up] by blast
  have uinv: "utxo_inv s2"
    using m(3) inv by (simp add: s2 books_inv_def utxo_inv_def)
  have cores2: "cores s2 = cores s1" by (simp add: s2 cores_def)
  have "u_id ` set (cores s2) = u_id ` set (utxos s)"
    by (simp add: cores2 m(1)) (simp add: cores_def image_image)
  then have fresh: "fresh_from (dr_utxo_ids dr) 0 (u_id ` set (cores s2))"
    using dr by (simp add: draws_ok_def)
  have added: "added_rows (tx_context_of dr tx height fee) (dr_utxo_ids dr) 0
      (discover_outputs s (dt_vout tx)) (outpoint ` set (cores s2)) = added_by dr tx s"
    unfolding added_by_def cores2 m(4) by (rule added_rows_cong) simp_all
  obtain s3 where "record_outputs (tx_context_of dr tx height fee) (dr_utxo_ids dr) 0
       (discover_outputs s (dt_vout tx)) s2 = (Inr (map u_id (added_by dr tx s)), s3)"
    and "utxo_inv s3" and frame: "same_but_utxos s2 s3" and "cores s3 = cores s2 @ added_by dr tx s"
    using record_outputs_ok [OF uinv fresh discover_outputs_ok [OF tx, of s], of "tx_context_of dr tx height fee"]
    unfolding added by blast
  moreover have "map akey (addresses s3) = map akey (addresses s)"
    using frame by (simp add: same_but_utxos_def s2 s1_def)
  moreover have "onchain_inv s3"
    using oinv same_but_utxos_simps(4) [OF frame] by (simp add: onchain_inv_def)
  ultimately show ?thesis
    using up r same_but_utxos_simps [OF frame] cores2 m(1) by (simp add: s2 s1_def)
qed

text \<open>The last stage: the ledger entries.\<close>

lemma ledger_stage:
  assumes inv: "books_inv s" and tx: "tx_ok tx height" and dr: "draws_ok s dr"
    and s3: "utxo_inv s3" "ledger_links s3 = ledger_links s" "ledger_entries s3 = ledger_entries s"
    "descriptors s3 = descriptors s"
    "cores s3 = map (spend_where (dt_vin tx) (dt_txid tx)) (cores s) @ added_by dr tx s"
    and dir: "\<And>h. direction_fits dir (holding_net s (dt_vin tx) (discover_outputs s (dt_vout tx)) h)"
  shows "\<exists>t entries. ledger_holdings (tx_context_of dr tx height fee) (dr_entry_ids dr) ts dir
       (discover_outputs s (dt_vout tx))
       (dr_iter dr (affected_holdings (spent_by s tx) (discover_outputs s (dt_vout tx)))) s3 =
       (Inr (map (dr_entry_ids dr) (ledgered_holdings dr tx s)), t) \<and>
    ledger_inv t \<and>
    (\<forall>txid h. links_of_tx t txid h = links_of_tx s txid h @
       map (holding_link s (tx_context_of dr tx None None) (dr_entry_ids dr)
              (discover_outputs s (dt_vout tx)))
         (filter (\<lambda>h'. h' = h \<and> txid = dt_txid tx) (ledgered_holdings dr tx s))) \<and>
    map le_id entries = map (dr_entry_ids dr) (ledgered_holdings dr tx s) \<and>
    t = ledger_links_update (\<lambda>ls. ls @
          map (holding_link s (tx_context_of dr tx None None) (dr_entry_ids dr)
              (discover_outputs s (dt_vout tx))) (ledgered_holdings dr tx s))
         (ledger_entries_update (\<lambda>es. es @ entries) s3)"
proof -
  let ?c = "tx_context_of dr tx height fee" and ?d = "tx_context_of dr tx None None"
  let ?fs = "discover_outputs s (dt_vout tx)"
  let ?hs = "dr_iter dr (affected_holdings (spent_by s tx) ?fs)"
  have val: "input_value_for s3 (dt_vin tx) h = input_value_for s (dt_vin tx) h" for h
  proof (rule input_value_for_after [OF s3(5,4)])
    fix i u assume "i \<in> set (dt_vin tx)" "u \<in> set (added_by dr tx s)"
    then show "\<not> names_outpoint i u"
      using tx added_rows_txid [of u ?d] by (auto simp: added_by_def tx_ok_def names_outpoint_def)
  qed
  then have net: "holding_net s3 (dt_vin tx) fs h = holding_net s (dt_vin tx) fs h" for fs h
    by (simp add: holding_net_def)
  have need: "needs_entry s3 ?c ?fs = needs_entry s ?d ?fs"
    using s3 val by (intro ext needs_entry_cong) simp_all
  have link: "holding_link s3 ?c (dr_entry_ids dr) ?fs = holding_link s ?d (dr_entry_ids dr) ?fs"
    by (simp add: fun_eq_iff holding_link_def net)
  have links: "links_of_tx s3 = links_of_tx s"
    using s3 by (simp add: fun_eq_iff links_of_tx_def)
  have hs: "filter (needs_entry s3 ?c ?fs) ?hs = ledgered_holdings dr tx s"
    by (simp add: need ledgered_holdings_def)
  have dist: "distinct ?hs"
    using dr affected_holdings_simps(2) [OF spent_by_simps(4)] by (simp add: draws_ok_def)
  have linv: "ledger_inv s3"
    using inv ledger_inv_cong [OF s3(2,3)] by (simp add: books_inv_def)
  have ne: "tc_txid ?c \<noteq> []" using tx by (auto simp: tx_ok_def)
  have inj: "inj (dr_entry_ids dr)" and fresh: "dr_entry_ids dr h \<notin> entry_ids_used s3" for h
    using dr s3 by (auto simp: draws_ok_def entry_ids_used_def)
  have fits: "direction_fits dir (holding_net s3 (dt_vin (tc_decoded ?c)) ?fs h)" for h
    using dir by (simp add: net)
  obtain t where
    "ledger_holdings ?c (dr_entry_ids dr) ts dir ?fs ?hs s3 =
       (Inr (map (dr_entry_ids dr) (ledgered_holdings dr tx s)), t)" "ledger_inv t"
    and "\<forall>txid h. links_of_tx t txid h = links_of_tx s txid h @
       map (holding_link s ?d (dr_entry_ids dr) ?fs)
         (filter (\<lambda>h'. h' = h \<and> txid = dt_txid tx) (ledgered_holdings dr tx s))"
    and "t = ledger_links_update (\<lambda>ls. ls @ map (holding_link s ?d (dr_entry_ids dr) ?fs) (ledgered_holdings dr tx s))
         (ledger_entries_update (\<lambda>es. es @ map (holding_entry s3 ?c (dr_entry_ids dr) ts dir ?fs)
            (ledgered_holdings dr tx s)) s3)"
    using ledger_holdings_eq [OF s3(1) linv ne dist inj fresh fits, of ts]
    unfolding hs link links tx_context_of_simps by blast
  moreover have "map le_id (map (holding_entry s3 ?c (dr_entry_ids dr) ts dir ?fs)
      (ledgered_holdings dr tx s)) = map (dr_entry_ids dr) (ledgered_holdings dr tx s)"
    by simp
  ultimately show ?thesis by blast
qed

lemma process_effect:
  assumes inv: "books_inv s" and tx: "tx_ok tx height" and dr: "draws_ok s dr"
  shows "\<exists>res t. process_decoded_transaction dr tx height bt fee s = (Inr res, t) \<and>
    tx_effect dr tx s res t \<and> books_inv t"
proof -
  let ?is = "dt_vin tx" and ?txid = "dt_txid tx" and ?found = "discover_outputs s (dt_vout tx)"
  let ?s1 = "utxos_update (update_where (spends ?is) (spend_row ?txid)) s"
  let ?c = "tx_context_of dr tx height fee" and ?d = "tx_context_of dr tx None None"
  have uinv: "utxo_inv s" and oinv: "onchain_inv s" and linv: "ledger_inv s"
    and fk: "\<forall>u \<in> set (utxos s). u_descriptor_id u \<in> d_id ` set (descriptors s)"
    using inv by (simp_all add: books_inv_def)
  have mark: "mark_inputs_spent ?txid ?is no_spent s = (Inr (spent_by s tx), ?s1)"
    using uinv by (simp add: mark_inputs_spent_eq spent_by_def)
  note m = mark_state [where tx = tx and s = s]
  have disc: "discover_outputs ?s1 (dt_vout tx) = ?found"
    by (rule discover_outputs_cong) simp_all
  show ?thesis
  proof (cases "input_rows s ?is = [] \<and> ?found = []")
    case True
    then have same: "?s1 = s" by (simp add: no_inputs_no_spends)
    have "affected_holdings (spent_by s tx) ?found = []"
      using True by (simp add: affected_holdings_def spent_by_def no_spent_def)
    moreover have "set (dr_iter dr []) = {}" using dr by (simp add: draws_ok_def)
    ultimately have "ledgered_holdings dr tx s = []"
      by (simp add: ledgered_holdings_def)
    moreover have "process_decoded_transaction dr tx height bt fee s =
        (Inr (noop_result ?txid height), s)"
      using mark True disc
      by (simp add: process_decoded_transaction_def Let_def svc_defs same spent_by_simps)
    moreover have "map (spend_where ?is ?txid) (cores s) = cores s"
      using m(1) by (simp add: same)
    ultimately show ?thesis
      using True inv by (simp add: tx_effect_def noop_result_def added_by_def)
  next
    case False
    have "onchain_inv ?s1" using oinv by (simp add: onchain_inv_def)
    then obtain existing where ex: "onchain_get ?s1 ?txid = Inr existing"
      using onchain_get_Inr by blast
    obtain x s2 s3 where up: "onchain_upsert (dr_now dr) ?txid
         \<lparr>of_raw_hex = (if dt_hex tx = Some [] then None else dt_hex tx),
          of_confirmation_height = height, of_block_time = bt, of_fee_sats = None,
          of_size_vbytes = None, of_is_coinjoin_suspected = None\<rparr> ?s1 = (Inr x, s2)"
      and rec: "record_outputs ?c (dr_utxo_ids dr) 0 ?found s2 = (Inr (map u_id (added_by dr tx s)), s3)"
      and s3: "utxo_inv s3" "onchain_inv s3" "ledger_links s3 = ledger_links s"
        "ledger_entries s3 = ledger_entries s" "descriptors s3 = descriptors s"
        "map akey (addresses s3) = map akey (addresses s)"
        "cores s3 = map (spend_where ?is ?txid) (cores s) @ added_by dr tx s"
      using record_stage [OF inv tx dr] by blast
    let ?dir = "infer_direction (sa_value (spent_by s tx)) (received_total ?found)
        (length (sa_holdings (spent_by s tx))) (length (remdups (map fo_holding_id ?found)))"
    let ?ts = "case bt of None \<Rightarrow> dr_now dr | Some t \<Rightarrow> t"
    obtain t entries where led: "ledger_holdings ?c (dr_entry_ids dr) ?ts ?dir ?found
         (dr_iter dr (affected_holdings (spent_by s tx) ?found)) s3 =
         (Inr (map (dr_entry_ids dr) (ledgered_holdings dr tx s)), t)"
      and t: "ledger_inv t" "\<forall>txid h. links_of_tx t txid h = links_of_tx s txid h @
         map (holding_link s ?d (dr_entry_ids dr) ?found)
           (filter (\<lambda>h'. h' = h \<and> txid = ?txid) (ledgered_holdings dr tx s))"
        "map le_id entries = map (dr_entry_ids dr) (ledgered_holdings dr tx s)"
        "t = ledger_links_update (\<lambda>ls. ls @ map (holding_link s ?d (dr_entry_ids dr) ?found)
             (ledgered_holdings dr tx s)) (ledger_entries_update (\<lambda>es. es @ entries) s3)"
      using ledger_stage [OF inv tx dr s3(1,3,4,5,7) process_direction_fits [OF inv tx]] by blast
    have run: "\<exists>res. process_decoded_transaction dr tx height bt fee s = (Inr res, t) \<and>
        tr_txid res = ?txid \<and> tr_spent_utxo_ids res = map u_id (input_rows s ?is) \<and>
        tr_discovered_utxo_ids res = map u_id (added_by dr tx s) \<and>
        tr_new_ledger_entry_ids res = map (dr_entry_ids dr) (ledgered_holdings dr tx s)"
      using mark False disc ex up rec led
      by (auto simp: process_decoded_transaction_def Let_def svc_defs spent_by_simps
          tx_context_of_def [symmetric])
    have cores: "cores t = cores s3" by (simp add: t(4) cores_def)
    have fk': "u_descriptor_id u \<in> d_id ` set (descriptors s)" if "u \<in> set (cores t)" for u
      using that fk added_by_descriptor [of u dr tx s] unfolding cores s3(7) by (auto simp: cores_def)
    have "u_descriptor_id u \<in> d_id ` set (descriptors s)" if "u \<in> set (utxos s3)" for u
      using fk' [of "ucore u", unfolded cores] that by (simp add: cores_def)
    then have "books_inv t"
      using t(1) s3(1,2,5) unfolding books_inv_def
      by (simp add: t(4) utxo_inv_def onchain_inv_def)
    moreover have "ledger_links t = ledger_links s @ map (holding_link s ?d (dr_entry_ids dr) ?found)
        (ledgered_holdings dr tx s)"
      "map le_id (ledger_entries t) = map le_id (ledger_entries s) @ map (dr_entry_ids dr)
        (ledgered_holdings dr tx s)"
      "descriptors t = descriptors s" "map akey (addresses t) = map akey (addresses s)"
      using s3 t(3) by (simp_all add: t(4))
    moreover have "cores t = map (spend_where ?is ?txid) (cores s) @ added_by dr tx s"
      using cores s3(7) by simp
    ultimately show ?thesis
      using run t(2) unfolding tx_effect_def by blast
  qed
qed

section \<open>Balances\<close>

text \<open>A holding's balance is the sum over its descriptors, as the services compute it.\<close>

definition holding_balance :: "db \<Rightarrow> uuid \<Rightarrow> sats" where
  "holding_balance s h =
     sum_list (map (descriptor_balance_sats s) (descriptor_ids_for_holding s h))"

definition held_value :: "db \<Rightarrow> uuid \<Rightarrow> utxo \<Rightarrow> sats" where
  "held_value s h u =
     (if \<not> u_is_spent u \<and> holding_of_descriptor s (u_descriptor_id u) = Some h
      then u_value_sats u else 0)"

lemma sum_list_swap:
  fixes f :: "'a \<Rightarrow> 'b \<Rightarrow> int"
  shows "sum_list (map (\<lambda>x. sum_list (map (f x) ys)) xs) =
    sum_list (map (\<lambda>y. sum_list (map (\<lambda>x. f x y) xs)) ys)"
  by (induction xs) (simp_all add: sum_list_addf)

lemma sum_list_sort_key:
  fixes g :: "'a \<Rightarrow> int"
  shows "sum_list (map g (sort_key k xs)) = sum_list (map g xs)"
  by (metis mset_map mset_sort sum_mset_sum_list)

lemma sum_list_unique_row:
  fixes v :: int
  assumes "distinct (map key rows)"
  shows "sum_list (map (\<lambda>r. if k = key r then v else 0) (filter P rows)) =
    (case find_row key k rows of None \<Rightarrow> 0 | Some r \<Rightarrow> if P r then v else 0)"
  using assms
proof (induction rows)
  case Nil
  then show ?case by simp
next
  case (Cons r rows)
  show ?case
  proof (cases "key r = k")
    case True
    then have "find_row key k rows = None"
      using Cons.prems by (auto simp: find_row_None_iff)
    then show ?thesis using Cons True by auto
  next
    case False
    then show ?thesis using Cons by auto
  qed
qed

lemma holding_balance_eq:
  assumes "distinct (map d_id (descriptors s))"
  shows "holding_balance s h = sum_list (map (held_value s h) (utxos s))"
proof -
  have "sum_list (map (\<lambda>d. unspent_value (d_id d) u) (filter (\<lambda>d. d_holding_id d = h) (descriptors s))) =
      held_value s h u" for u
  proof -
    have eq: "(\<lambda>d. unspent_value (d_id d) u) = (\<lambda>d.
        if u_descriptor_id u = d_id d then if u_is_spent u then 0 else u_value_sats u else 0)"
      by (simp add: fun_eq_iff unspent_value_def)
    show ?thesis
      unfolding eq sum_list_unique_row [OF assms]
      by (simp add: held_value_def holding_of_descriptor_def split: option.split)
  qed
  then show ?thesis
    unfolding holding_balance_def descriptor_ids_for_holding_def descriptor_rows_for_holding_def
    by (simp add: comp_def sum_list_sort_key balance_eq sum_list_swap)
qed

lemma held_value_ucore [simp]: "held_value s h (ucore u) = held_value s h u"
  by (simp add: held_value_def)

lemma holding_balance_cores:
  assumes "distinct (map d_id (descriptors s))"
  shows "holding_balance s h = sum_list (map (held_value s h) (cores s))"
  using assms by (simp add: holding_balance_eq cores_def comp_def)

section \<open>First sighting: the ledger follows the balance\<close>

text \<open>A transaction seen for the first time: none of its outputs is recorded, it has no ledger
  entry, its inputs name different unspent rows, and no two discovered outputs share a
  position.\<close>

definition first_sighting :: "db \<Rightarrow> decoded_tx \<Rightarrow> bool" where
  "first_sighting s tx \<longleftrightarrow>
     (\<forall>u \<in> set (utxos s). u_txid u \<noteq> dt_txid tx) \<and>
     (\<forall>h. links_of_tx s (dt_txid tx) h = []) \<and>
     distinct (input_rows s (dt_vin tx)) \<and>
     (\<forall>u \<in> set (input_rows s (dt_vin tx)). \<not> u_is_spent u) \<and>
     distinct (map fo_vout (discover_outputs s (dt_vout tx)))"

lemma spends_iff_input_row:
  assumes "utxo_inv s" "u \<in> set (utxos s)"
  shows "spends is u \<longleftrightarrow> u \<in> set (input_rows s is)"
proof
  assume "spends is u"
  then obtain i where i: "i \<in> set is" "names_outpoint i u" by (auto simp: spends_def)
  then obtain v where v: "find (names_outpoint i) (utxos s) = Some v"
    using assms(2) by (cases "find (names_outpoint i) (utxos s)") (auto simp: find_None_iff)
  then have "v \<in> set (utxos s)" "outpoint v = outpoint u"
    using i(2) by (auto simp: find_Some_iff names_outpoint_def outpoint_def)
  then have "v = u" using assms by (auto simp: utxo_inv_def distinct_map inj_on_def)
  then show "u \<in> set (input_rows s is)" using i(1) v by (auto simp: input_rows_iff)
next
  assume "u \<in> set (input_rows s is)"
  then show "spends is u" by (auto simp: input_rows_iff spends_def find_Some_iff)
qed

lemma sum_list_if_mem:
  fixes g :: "'a \<Rightarrow> int"
  assumes "distinct xs" "distinct ys" "set ys \<subseteq> set xs"
  shows "sum_list (map (\<lambda>x. if x \<in> set ys then g x else 0) xs) = sum_list (map g ys)"
proof -
  have "sum_list (map (\<lambda>x. if x \<in> set ys then g x else 0) xs) = (\<Sum>x\<in>set xs. if x \<in> set ys then g x else 0)"
    using assms(1) by (simp add: sum_list_distinct_conv_sum_set)
  also have "\<dots> = sum g (set ys)"
    using assms(3) by (simp add: sum.If_cases Int_absorb1)
  also have "\<dots> = sum_list (map g ys)"
    using assms(2) by (simp add: sum_list_distinct_conv_sum_set)
  finally show ?thesis .
qed

lemma spent_value_leaves:
  assumes inv: "utxo_inv s" and first: "first_sighting s tx"
  shows "sum_list (map (held_value s h) (map (spend_where (dt_vin tx) (dt_txid tx)) (cores s))) =
    sum_list (map (held_value s h) (cores s)) - input_value_for s (dt_vin tx) h"
proof -
  let ?R = "input_rows s (dt_vin tx)"
  let ?g = "\<lambda>u. if holding_of_descriptor s (u_descriptor_id u) = Some h then u_value_sats u else 0"
  have "held_value s h (spend_where (dt_vin tx) (dt_txid tx) (ucore u)) =
      held_value s h u - (if u \<in> set ?R then ?g u else 0)" if "u \<in> set (utxos s)" for u
  proof -
    have "spends (dt_vin tx) (ucore u) = (u \<in> set ?R)"
      using spends_iff_input_row [OF inv that] by (simp add: spends_def)
    moreover have "u \<in> set ?R \<Longrightarrow> \<not> u_is_spent u" using first by (simp add: first_sighting_def)
    ultimately show ?thesis by (auto simp: held_value_def spend_where_def)
  qed
  then have "sum_list (map (held_value s h) (map (spend_where (dt_vin tx) (dt_txid tx)) (cores s))) =
      sum_list (map (\<lambda>u. held_value s h u - (if u \<in> set ?R then ?g u else 0)) (utxos s))"
    by (simp add: cores_def comp_def cong: map_cong)
  also have "\<dots> = sum_list (map (held_value s h) (utxos s)) -
      sum_list (map (\<lambda>u. if u \<in> set ?R then ?g u else 0) (utxos s))"
    by (rule sum_list_subtractf)
  also have "sum_list (map (\<lambda>u. if u \<in> set ?R then ?g u else 0) (utxos s)) = sum_list (map ?g ?R)"
    using inv first by (intro sum_list_if_mem)
      (auto simp: utxo_inv_def distinct_map first_sighting_def dest: input_rows_subset)
  also have "sum_list (map ?g ?R) = input_value_for s (dt_vin tx) h"
    by (simp add: input_value_for_def sum_list_map_filter')
  finally show ?thesis by (simp add: cores_def comp_def)
qed

lemma added_rows_fresh:
  assumes "distinct (map fo_vout fs)" "\<And>f. f \<in> set fs \<Longrightarrow> (tc_txid c, fo_vout f) \<notin> known"
  shows "map (\<lambda>u. (u_descriptor_id u, u_value_sats u, u_is_spent u)) (added_rows c uids k fs known) =
    map (\<lambda>f. (fo_descriptor_id f, fo_value_sats f, False)) fs"
  using assms
proof (induction fs arbitrary: k known)
  case Nil
  then show ?case by simp
next
  case (Cons a fs)
  have "(tc_txid c, fo_vout f) \<notin> insert (tc_txid c, fo_vout a) known" if "f \<in> set fs" for f
  proof -
    have "fo_vout f \<noteq> fo_vout a" using Cons.prems(1) that by (metis distinct.simps(2) image_eqI list.simps(9) set_map)
    then show ?thesis using Cons.prems(2) that by simp
  qed
  then have "map (\<lambda>u. (u_descriptor_id u, u_value_sats u, u_is_spent u))
      (added_rows c uids (Suc k) fs (insert (tc_txid c, fo_vout a) known)) =
      map (\<lambda>f. (fo_descriptor_id f, fo_value_sats f, False)) fs"
    using Cons.prems(1) by (intro Cons.IH) simp_all
  then show ?case using Cons.prems(2) by simp
qed

lemma received_value_arrives:
  assumes first: "first_sighting s tx"
  shows "sum_list (map (held_value s h) (added_by dr tx s)) =
    received_for (discover_outputs s (dt_vout tx)) h"
proof -
  let ?fs = "discover_outputs s (dt_vout tx)"
  let ?w = "\<lambda>(d, v, sp). if \<not> sp \<and> holding_of_descriptor s d = Some h then v else 0"
  have "(dt_txid tx, n) \<notin> outpoint ` set (cores s)" for n
    using first by (auto simp: first_sighting_def cores_def outpoint_def image_image)
  then have "map (\<lambda>u. (u_descriptor_id u, u_value_sats u, u_is_spent u)) (added_by dr tx s) =
      map (\<lambda>f. (fo_descriptor_id f, fo_value_sats f, False)) ?fs"
    using first unfolding added_by_def by (intro added_rows_fresh) (simp_all add: first_sighting_def)
  then have "sum_list (map ?w (map (\<lambda>u. (u_descriptor_id u, u_value_sats u, u_is_spent u)) (added_by dr tx s))) =
      sum_list (map ?w (map (\<lambda>f. (fo_descriptor_id f, fo_value_sats f, False)) ?fs))"
    by simp
  then have "sum_list (map (held_value s h) (added_by dr tx s)) =
      sum_list (map (\<lambda>f. if holding_of_descriptor s (fo_descriptor_id f) = Some h then fo_value_sats f else 0) ?fs)"
    by (simp add: comp_def held_value_def [abs_def])
  also have "\<dots> = sum_list (map (\<lambda>f. if fo_holding_id f = h then fo_value_sats f else 0) ?fs)"
    using discover_outputsD [of _ s "dt_vout tx"] by (intro arg_cong [of _ _ sum_list] map_cong) auto
  also have "\<dots> = received_for ?fs h"
    by (simp add: received_for_def sum_list_map_filter')
  finally show ?thesis .
qed

lemma not_ledgered_no_value:
  assumes inv: "books_inv s" and dr: "draws_ok s dr" and first: "first_sighting s tx"
    and h: "h \<notin> set (ledgered_holdings dr tx s)"
  shows "holding_net s (dt_vin tx) (discover_outputs s (dt_vout tx)) h = 0"
proof (cases "h \<in> set (affected_holdings (spent_by s tx) (discover_outputs s (dt_vout tx)))")
  case True
  then have "\<not> needs_entry s (tx_context_of dr tx None None) (discover_outputs s (dt_vout tx)) h"
    using h dr by (auto simp: ledgered_holdings_def draws_ok_def)
  then show ?thesis
    using first by (auto simp: needs_entry_def first_sighting_def holding_net_def)
next
  case False
  then have "filter (\<lambda>f. fo_holding_id f = h) (discover_outputs s (dt_vout tx)) = []"
    "filter (\<lambda>u. holding_of_descriptor s (u_descriptor_id u) = Some h) (input_rows s (dt_vin tx)) = []"
    by (auto simp: affected_holdings_simps spent_by_simps filter_empty_conv)
  then show ?thesis
    by (simp add: holding_net_def received_for_def input_value_for_def)
qed

lemma filter_eq_single: "distinct xs \<Longrightarrow> filter (\<lambda>x. x = a) xs = (if a \<in> set xs then [a] else [])"
  by (induction xs) (auto simp: filter_empty_conv)

lemma links_after_first_sighting:
  assumes inv: "books_inv s" and dr: "draws_ok s dr" and first: "first_sighting s tx"
    and eff: "tx_effect dr tx s res t"
  shows "sum_list (map ll_holding_amount_sats (links_of_tx t (dt_txid tx) h)) =
    holding_net s (dt_vin tx) (discover_outputs s (dt_vout tx)) h"
proof -
  have "distinct (ledgered_holdings dr tx s)"
    using dr affected_holdings_simps(2) [OF spent_by_simps(4)]
    by (simp add: ledgered_holdings_def draws_ok_def)
  then have "filter (\<lambda>h'. h' = h) (ledgered_holdings dr tx s) =
      (if h \<in> set (ledgered_holdings dr tx s) then [h] else [])"
    by (rule filter_eq_single)
  then show ?thesis
    using eff first not_ledgered_no_value [OF inv dr first, of h]
    by (simp add: tx_effect_def first_sighting_def)
qed

lemma balance_after_first_sighting:
  assumes inv: "books_inv s" and d: "distinct (map d_id (descriptors s))"
    and first: "first_sighting s tx" and eff: "tx_effect dr tx s res t"
  shows "holding_balance t h = holding_balance s h +
    holding_net s (dt_vin tx) (discover_outputs s (dt_vout tx)) h"
proof -
  have same: "descriptors t = descriptors s" using eff by (simp add: tx_effect_def)
  then have held: "held_value t h = held_value s h"
    by (simp add: fun_eq_iff held_value_def holding_of_descriptor_def)
  have "utxo_inv s" using inv by (simp add: books_inv_def)
  then show ?thesis
    using eff d spent_value_leaves [OF _ first, of h] received_value_arrives [OF first, of h dr]
    by (simp add: holding_balance_cores same held tx_effect_def holding_net_def)
qed

section \<open>Second sighting: nothing new\<close>

text \<open>A later sighting of a transaction that has been processed, for instance its confirmation
  after it was seen in the mempool.\<close>

lemma known_after:
  assumes "f \<in> set fs"
  shows "(tc_txid c, fo_vout f) \<in> known \<union> outpoint ` set (added_rows c uids k fs known)"
  using assms
proof (induction fs arbitrary: k known)
  case Nil
  then show ?case by simp
next
  case (Cons g gs)
  show ?case
  proof (cases "(tc_txid c, fo_vout g) \<in> known")
    case True
    then show ?thesis using Cons.IH [of known "Suc k"] Cons.prems by auto
  next
    case False
    then show ?thesis
      using Cons.IH [of "insert (tc_txid c, fo_vout g) known" "Suc k"] Cons.prems by auto
  qed
qed

lemma added_rows_known:
  "(\<And>f. f \<in> set fs \<Longrightarrow> (tc_txid c, fo_vout f) \<in> known) \<Longrightarrow> added_rows c uids k fs known = []"
  by (induction fs arbitrary: k) auto

lemma second_sighting_outputs:
  assumes "tx_effect dr tx s res t"
  shows "added_by dr' tx t = []"
proof -
  have found: "discover_outputs t (dt_vout tx) = discover_outputs s (dt_vout tx)"
    using assms by (intro discover_outputs_cong) (simp_all add: tx_effect_def)
  have "outpoint ` set (cores t) = outpoint ` set (cores s) \<union> outpoint ` set (added_by dr tx s)"
    using assms by (simp add: tx_effect_def image_Un image_image)
  then show ?thesis
    unfolding added_by_def found
    using known_after [of _ "discover_outputs s (dt_vout tx)" "tx_context_of dr tx None None"
        "outpoint ` set (cores s)" "dr_utxo_ids dr" 0]
    by (intro added_rows_known) (simp add: added_by_def)
qed

lemma second_sighting_inputs:
  assumes tx: "tx_ok tx height" and eff: "tx_effect dr tx s res t"
  shows "map (spend_where (dt_vin tx) (dt_txid tx)) (cores t) = cores t"
proof (rule map_idI)
  fix u assume "u \<in> set (cores t)"
  then consider v where "u = spend_where (dt_vin tx) (dt_txid tx) v" | "u \<in> set (added_by dr tx s)"
    using eff by (auto simp: tx_effect_def)
  then show "spend_where (dt_vin tx) (dt_txid tx) u = u"
  proof cases
    case 1
    then show ?thesis by (simp add: spend_where_def spends_def)
  next
    case 2
    then have "u_txid u = dt_txid tx" using added_rows_txid by (fastforce simp: added_by_def)
    then have "\<not> spends (dt_vin tx) u"
      using tx by (auto simp: spends_def names_outpoint_def tx_ok_def)
    then show ?thesis by (simp add: spend_where_def)
  qed
qed

lemma second_sighting_ledger:
  assumes inv: "books_inv s" and tx: "tx_ok tx height" and dr: "draws_ok s dr"
    and dr': "draws_ok t dr'" and eff: "tx_effect dr tx s res t"
  shows "ledgered_holdings dr' tx t = []"
proof -
  let ?fs = "discover_outputs s (dt_vout tx)" and ?c = "tx_context_of dr tx None None"
  have found: "discover_outputs t (dt_vout tx) = ?fs" and ds: "descriptors t = descriptors s"
    using eff by (auto simp: tx_effect_def intro!: discover_outputs_cong)
  have val: "input_value_for t (dt_vin tx) h = input_value_for s (dt_vin tx) h" for h
  proof (rule input_value_for_after [OF _ ds])
    show "cores t = map (spend_where (dt_vin tx) (dt_txid tx)) (cores s) @ added_by dr tx s"
      using eff by (simp add: tx_effect_def)
    fix i u assume "i \<in> set (dt_vin tx)" "u \<in> set (added_by dr tx s)"
    then show "\<not> names_outpoint i u"
      using tx added_rows_txid [of u ?c] by (auto simp: added_by_def tx_ok_def names_outpoint_def)
  qed
  have "\<not> needs_entry t (tx_context_of dr' tx None None) ?fs h" for h
  proof
    assume "needs_entry t (tx_context_of dr' tx None None) ?fs h"
    then have none: "links_of_tx t (dt_txid tx) h = []"
      and moves: "\<not> (received_for ?fs h = 0 \<and> input_value_for s (dt_vin tx) h = 0)"
      by (simp_all add: needs_entry_def val)
    from none eff have "links_of_tx s (dt_txid tx) h = []" "h \<notin> set (ledgered_holdings dr tx s)"
      by (auto simp: tx_effect_def filter_empty_conv)
    moreover from this moves have "h \<notin> set (affected_holdings (spent_by s tx) ?fs)"
      using dr by (auto simp: ledgered_holdings_def draws_ok_def needs_entry_def)
    then have "filter (\<lambda>f. fo_holding_id f = h) ?fs = []"
      "filter (\<lambda>u. holding_of_descriptor s (u_descriptor_id u) = Some h) (input_rows s (dt_vin tx)) = []"
      by (auto simp: affected_holdings_simps spent_by_simps filter_empty_conv)
    then show False
      using moves by (simp add: received_for_def input_value_for_def)
  qed
  then show ?thesis by (simp add: ledgered_holdings_def found)
qed

section \<open>Properties\<close>

text \<open>C4. Processing a transaction on consistent books always returns (no lookup is ambiguous, no
  ledger entry is rejected by its own sign rules) and leaves the books consistent: outpoints,
  transactions and the entry of each holding for each transaction stay unique.\<close>

theorem process_keeps_books:
  assumes "books_inv s" "tx_ok tx height" "draws_ok s dr"
  shows "\<exists>res t. process_decoded_transaction dr tx height bt fee s = (Inr res, t) \<and> books_inv t"
  using process_effect [OF assms] by blast


text \<open>C14. Seeing the same transaction again, for instance when it confirms, records no output,
  writes no ledger entry, spends nothing and leaves every holding's balance unchanged.\<close>

theorem second_sighting_adds_nothing:
  assumes "books_inv s" "tx_ok tx height" "tx_ok tx height'" "draws_ok s dr"
    and "distinct (map d_id (descriptors s))"
    and "process_decoded_transaction dr tx height bt fee s = (Inr res, t)" "draws_ok t dr'"
  shows "\<exists>res' u. process_decoded_transaction dr' tx height' bt' fee' t = (Inr res', u) \<and>
    tr_discovered_utxo_ids res' = [] \<and> tr_new_ledger_entry_ids res' = [] \<and>
    ledger_links u = ledger_links t \<and> holding_balance u h = holding_balance t h"
proof -
  have eff: "tx_effect dr tx s res t" and inv: "books_inv t"
    using process_effect [OF assms(1,2,4), of bt fee] assms(6) by auto
  obtain res' u where run: "process_decoded_transaction dr' tx height' bt' fee' t = (Inr res', u)"
    and eff': "tx_effect dr' tx t res' u"
    using process_effect [OF inv assms(3,7)] by blast
  note none = second_sighting_outputs [OF eff] second_sighting_inputs [OF assms(2) eff]
    second_sighting_ledger [OF assms(1,2,4,7) eff]
  have ds: "descriptors u = descriptors s" "descriptors t = descriptors s"
    using eff eff' by (simp_all add: tx_effect_def)
  have held: "held_value u h = held_value t h"
    by (simp add: fun_eq_iff held_value_def holding_of_descriptor_def ds)
  have "cores u = cores t" using eff' none by (simp add: tx_effect_def)
  then have "holding_balance u h = holding_balance t h"
    using assms(5) ds by (simp add: holding_balance_cores held)
  then show ?thesis
    using run eff' none by (simp add: tx_effect_def)
qed

end
