(* ===== verification/Payments.thy ===== *)
theory Payments
  imports Descriptors Utxos Amounts
begin

text \<open>
  Outgoing payments: the payment-request repository (\<^verbatim>\<open>repositories/payment_request.py\<close>), the
  banking service that builds, signs, broadcasts and cancels payment requests
  (\<^verbatim>\<open>services/banking_service.py\<close>) and the request handlers of \<^verbatim>\<open>api/v1/banking.py\<close> that commit
  or drop the session.

  bitcoind and the BDK library are arguments: \<open>node_api\<close> holds the answers of the node's calls,
  \<open>bdk_api\<close> the BDK operations over an arbitrary type of parsed PSBTs, \<open>build_psbt\<close> the PSBT
  builder.  A call that raises returns \<open>None\<close> or a \<open>node_exn\<close>.  Fee rates are the rational
  numbers the floats denote.
\<close>

section \<open>What the service is given\<close>

datatype node_exn = NodeRpcError int string | NodeUnavailable | NodeAuthError | NodeMethodNotFound

datatype rpc_value = RpcStr string | RpcOther

record node_api =
  estimate_smart_fee :: "int \<Rightarrow> node_exn + rat option"
  get_raw_transaction :: "string \<Rightarrow> node_exn + rpc_value"
  send_raw_transaction :: "string \<Rightarrow> node_exn + string"

record 'p bdk_api =
  bdk_address_ok :: "string \<Rightarrow> network \<Rightarrow> bool"
  bdk_psbt :: "string \<Rightarrow> 'p option"
  bdk_input :: "'p \<Rightarrow> (bool \<times> bool) list"
  bdk_extract_tx :: "'p \<Rightarrow> string option"
  bdk_combine :: "'p \<Rightarrow> 'p \<Rightarrow> 'p option"
  bdk_finalize :: "'p \<Rightarrow> (bool \<times> 'p) option"
  bdk_serialize :: "'p \<Rightarrow> string"
  bdk_transaction_txid :: "string \<Rightarrow> string option"

record utxo_for_build =
  ub_txid :: string
  ub_vout :: int
  ub_value_sats :: sats
  ub_parent_raw_hex :: string

record build_psbt_args =
  bp_external_descriptor :: string
  bp_change_descriptor :: "string option"
  bp_network :: network
  bp_utxos :: "utxo_for_build list"
  bp_recipient_address :: string
  bp_amount_sats :: "sats option"
  bp_fee_rate_sat_per_vbyte :: rat
  bp_max_external_index :: int
  bp_max_change_index :: int

record 'p banking_env =
  env_node :: node_api
  env_bdk :: "'p bdk_api"
  env_build_psbt :: "build_psbt_args \<Rightarrow> string option"

record payment_order =
  po_holding_id :: uuid
  po_destination_address :: string
  po_amount_sats :: "sats option"
  po_fee_strategy :: "string option"
  po_fee_sat_per_vbyte :: "rat option"
  po_description :: "string option"
  po_confirmed_long_term :: bool

section \<open>Repository: queries\<close>

definition pr_get :: "db \<Rightarrow> uuid \<Rightarrow> exn + payment_request option" where
  "pr_get s rid = row_get PaymentRequest (find_row pr_id rid (payment_requests s))"

definition pr_get_by_broadcast_txid :: "db \<Rightarrow> string \<Rightarrow> exn + payment_request option" where
  "pr_get_by_broadcast_txid s txid =
     row_one PaymentRequest
       (one_or_none (\<lambda>p. pr_broadcast_txid p = Some txid) (payment_requests s))"

text \<open>\<open>ORDER BY created_at DESC\<close> and the page limits.\<close>

definition pr_list_filtered ::
  "db \<Rightarrow> uuid option \<Rightarrow> payment_status option \<Rightarrow> int \<Rightarrow> int \<Rightarrow> exn + payment_request list" where
  "pr_list_filtered s holding_id status limit offset =
     rmap PaymentRequest (page limit offset (sort_key (\<lambda>p. - pr_created_at p)
       (filter (\<lambda>p. (holding_id = None \<or> holding_id = Some (pr_holding_id p)) \<and>
                    (status = None \<or> status = Some (pr_status p))) (payment_requests s))))"

definition pr_list_for_holding ::
  "db \<Rightarrow> uuid \<Rightarrow> payment_status option \<Rightarrow> int \<Rightarrow> int \<Rightarrow> exn + payment_request list" where
  "pr_list_for_holding s holding_id status limit offset =
     rmap PaymentRequest (page limit offset (sort_key (\<lambda>p. - pr_created_at p)
       (filter (\<lambda>p. pr_holding_id p = holding_id \<and>
                    (status = None \<or> status = Some (pr_status p))) (payment_requests s))))"

definition in_flight :: "payment_status list" where
  "in_flight = [PS_DRAFT, PS_AWAITING_SIGNATURE, PS_AWAITING_BROADCAST, PS_BROADCAST]"

definition has_in_flight_for_holding :: "db \<Rightarrow> uuid \<Rightarrow> bool" where
  "has_in_flight_for_holding s hid \<longleftrightarrow>
     (\<exists>p \<in> set (payment_requests s). pr_holding_id p = hid \<and> pr_status p \<in> set in_flight)"

section \<open>Repository: writes\<close>

definition pr_insert :: "payment_request \<Rightarrow> unit service" where
  "pr_insert p s = (Inr (), payment_requests_update (\<lambda>ps. ps @ [p]) s)"

text \<open>Every status flip reads the row, writes the fields that belong to the flip and returns the
  rebuilt dataclass.\<close>

definition pr_write ::
  "uuid \<Rightarrow> (payment_request \<Rightarrow> payment_request) \<Rightarrow> payment_request option service" where
  "pr_write rid f s =
     (case find_row pr_id rid (payment_requests s) of
        None \<Rightarrow> (Inr None, s)
      | Some p \<Rightarrow>
          (rbind (PaymentRequest (f p)) (\<lambda>p. Inr (Some p)),
           payment_requests_update (update_rows pr_id rid f) s))"

definition signed_row ::
  "timestamp \<Rightarrow> string \<Rightarrow> string option \<Rightarrow> payment_request \<Rightarrow> payment_request" where
  "signed_row now hex psbt p =
     p\<lparr>pr_signed_transaction_hex := Some hex,
       pr_psbt_base64 := (case psbt of None \<Rightarrow> pr_psbt_base64 p | Some b \<Rightarrow> Some b),
       pr_status := PS_AWAITING_BROADCAST, pr_updated_at := now\<rparr>"

definition broadcast_row :: "timestamp \<Rightarrow> string \<Rightarrow> payment_request \<Rightarrow> payment_request" where
  "broadcast_row now txid p =
     p\<lparr>pr_broadcast_txid := Some txid, pr_status := PS_BROADCAST, pr_updated_at := now\<rparr>"

definition confirmed_row :: "timestamp \<Rightarrow> uuid \<Rightarrow> payment_request \<Rightarrow> payment_request" where
  "confirmed_row now eid p =
     p\<lparr>pr_resulting_ledger_entry_id := Some eid, pr_status := PS_CONFIRMED, pr_updated_at := now\<rparr>"

definition cancelled_row :: "timestamp \<Rightarrow> payment_request \<Rightarrow> payment_request" where
  "cancelled_row now p = p\<lparr>pr_status := PS_CANCELLED, pr_updated_at := now\<rparr>"

definition mark_signed ::
  "timestamp \<Rightarrow> uuid \<Rightarrow> string \<Rightarrow> string option \<Rightarrow> payment_request option service" where
  "mark_signed now rid hex psbt = pr_write rid (signed_row now hex psbt)"

definition mark_broadcast :: "timestamp \<Rightarrow> uuid \<Rightarrow> string \<Rightarrow> payment_request option service" where
  "mark_broadcast now rid txid = pr_write rid (broadcast_row now txid)"

definition mark_confirmed :: "timestamp \<Rightarrow> uuid \<Rightarrow> uuid \<Rightarrow> payment_request option service" where
  "mark_confirmed now rid eid = pr_write rid (confirmed_row now eid)"

definition cancellable :: "payment_status list" where
  "cancellable = [PS_DRAFT, PS_AWAITING_SIGNATURE, PS_AWAITING_BROADCAST]"

definition pr_cancel :: "timestamp \<Rightarrow> uuid \<Rightarrow> payment_request option service" where
  "pr_cancel now rid s =
     (case find_row pr_id rid (payment_requests s) of
        None \<Rightarrow> (Inr None, s)
      | Some p \<Rightarrow>
          if pr_status p \<notin> set cancellable then (Inl (ValueError V_Cannot_cancel), s)
          else pr_write rid (cancelled_row now) s)"

definition insert_broadcast_attempt ::
  "timestamp \<Rightarrow> uuid \<Rightarrow> uuid \<Rightarrow> string \<Rightarrow> string \<Rightarrow> string \<Rightarrow> string option \<Rightarrow> db \<Rightarrow> db" where
  "insert_broadcast_attempt now aid rid hex txid status reason =
     broadcast_attempts_update (\<lambda>as. as @
       [\<lparr>ba_id = aid, ba_payment_request_id = rid, ba_transaction_hex = hex, ba_txid = txid,
         ba_status = status, ba_rejection_reason = reason,
         ba_completed_at = (if status \<in> {''accepted'', ''rejected''} then Some now else None)\<rparr>])"

definition update_broadcast_attempt ::
  "timestamp \<Rightarrow> uuid \<Rightarrow> string \<Rightarrow> string option \<Rightarrow> db \<Rightarrow> db" where
  "update_broadcast_attempt now aid status reason =
     broadcast_attempts_update (update_rows ba_id aid (\<lambda>a.
       a\<lparr>ba_status := status,
         ba_rejection_reason := (case reason of None \<Rightarrow> ba_rejection_reason a | Some r \<Rightarrow> Some r),
         ba_completed_at := Some now\<rparr>))"

section \<open>Service: building a payment\<close>

text \<open>\<^verbatim>\<open>_NAMED_TIERS_TARGETS\<close> and \<^verbatim>\<open>_resolve_fee_rate\<close>.\<close>

definition named_tiers_targets :: "(string \<times> int) list" where
  "named_tiers_targets = [(''economy'', 24), (''normal'', 6), (''priority'', 2)]"

definition resolve_fee_rate :: "node_api \<Rightarrow> string option \<Rightarrow> rat option \<Rightarrow> exn + rat" where
  "resolve_fee_rate node strategy sat_per_vbyte =
     (case sat_per_vbyte of
        Some r \<Rightarrow> if r \<le> 0 then Inl (ValueError V_Fee_rate_not_positive) else Inr r
      | None \<Rightarrow>
          (case map_of named_tiers_targets
             (if strategy = None \<or> strategy = Some [] then ''normal'' else the strategy) of
             None \<Rightarrow> Inl (ValueError V_Unknown_fee_strategy)
           | Some target \<Rightarrow>
               (case estimate_smart_fee node target of
                  Inl _ \<Rightarrow> Inr 10
                | Inr None \<Rightarrow> Inr 10
                | Inr (Some feerate) \<Rightarrow>
                    if feerate \<le> 0 then Inr 10 else Inr (feerate * 100000))))"

definition gather_spendable_utxos :: "db \<Rightarrow> uuid \<Rightarrow> exn + utxo list" where
  "gather_spendable_utxos s did =
     rbind (utxo_list_for_descriptor s did True)
       (\<lambda>rows. Inr (filter (\<lambda>u. \<not> u_is_frozen u \<and> u_confirmation_height u \<noteq> None) rows))"

definition high_water_index :: "db \<Rightarrow> uuid \<Rightarrow> bool \<Rightarrow> exn + int" where
  "high_water_index s did is_change =
     rbind (list_addresses_for_descriptor s did (Some is_change) None 0)
       (\<lambda>as. Inr (if as = [] then 0 else Max (a_derivation_index ` set as)))"

text \<open>The \<^verbatim>\<open>parents\<close> dictionary: one node call per distinct transaction, in UTXO order.\<close>

fun fetch_parents ::
  "node_api \<Rightarrow> utxo list \<Rightarrow> (string \<times> string) list \<Rightarrow> exn + (string \<times> string) list" where
  "fetch_parents node [] parents = Inr parents"
| "fetch_parents node (u # us) parents =
     (if u_txid u \<in> fst ` set parents then fetch_parents node us parents
      else case get_raw_transaction node (u_txid u) of
             Inl (NodeRpcError _ _) \<Rightarrow> Inl BankingError
           | Inl _ \<Rightarrow> Inl NodeError
           | Inr RpcOther \<Rightarrow> Inl BankingError
           | Inr (RpcStr raw) \<Rightarrow> fetch_parents node us (parents @ [(u_txid u, raw)]))"

definition utxos_for_build :: "(string \<times> string) list \<Rightarrow> utxo list \<Rightarrow> exn + utxo_for_build list" where
  "utxos_for_build parents = rmap (\<lambda>u.
     case map_of parents (u_txid u) of
       None \<Rightarrow> Inl KeyError
     | Some raw \<Rightarrow> Inr \<lparr>ub_txid = u_txid u, ub_vout = u_vout u, ub_value_sats = u_value_sats u,
                         ub_parent_raw_hex = raw\<rparr>)"

definition payment_bip21 :: "string \<Rightarrow> sats option \<Rightarrow> string" where
  "payment_bip21 destination amount =
     ''bitcoin:'' @ destination @
     (case amount of None \<Rightarrow> [] | Some a \<Rightarrow> if a = 0 then [] else ''?amount='' @ bip21_amount a)"

datatype build_result = NeedsConfirmation | Built payment_request

definition new_payment_request ::
  "uuid \<Rightarrow> timestamp \<Rightarrow> payment_order \<Rightarrow> string \<Rightarrow> payment_request" where
  "new_payment_request rid now po psbt =
     \<lparr>pr_id = rid, pr_holding_id = po_holding_id po, pr_payment_type = PT_ONCHAIN,
      pr_amount_sats = po_amount_sats po, pr_description = po_description po,
      pr_status = PS_AWAITING_SIGNATURE, pr_expires_at = None, pr_created_at = now,
      pr_updated_at = now, pr_destination_address = Some (po_destination_address po),
      pr_bip21_uri = Some (payment_bip21 (po_destination_address po) (po_amount_sats po)),
      pr_psbt_base64 = Some psbt, pr_signed_transaction_hex = None, pr_broadcast_txid = None,
      pr_lightning_invoice = None, pr_lightning_payment_hash = None,
      pr_resulting_ledger_entry_id = None, pr_sweep_execution_id = None\<rparr>"

definition total_sats :: "utxo list \<Rightarrow> sats" where
  "total_sats us = sum_list (map u_value_sats us)"

text \<open>The three guards on the holding, up to the in-flight check.\<close>

definition cannot_send :: "holding \<Rightarrow> bool" where
  "cannot_send h \<longleftrightarrow> h_holding_type h = HT_ACCOUNT \<or>
     sc_signing_model (h_declared_security h) = SM_NOT_APPLICABLE"

definition needs_long_term_confirmation :: "holding \<Rightarrow> payment_order \<Rightarrow> bool" where
  "needs_long_term_confirmation h po \<longleftrightarrow>
     h_holding_type h = HT_VAULT \<and> h_purpose h = PUR_LONG_TERM \<and> \<not> po_confirmed_long_term po"

text \<open>From the primary descriptor to the built PSBT; no step of it writes.\<close>

definition compose_psbt ::
  "'p banking_env \<Rightarrow> payment_order \<Rightarrow> db \<Rightarrow> descriptor \<Rightarrow> exn + string" where
  "compose_psbt env po s d =
     rbind (gather_spendable_utxos s (d_id d)) (\<lambda>us.
     if us = [] then Inl InsufficientBalance
     else if (case po_amount_sats po of None \<Rightarrow> False | Some a \<Rightarrow> a > total_sats us)
     then Inl InsufficientBalance
     else if \<not> bdk_address_ok (env_bdk env) (po_destination_address po) (d_network d)
     then Inl InvalidDestination
     else
     rbind (resolve_fee_rate (env_node env) (po_fee_strategy po) (po_fee_sat_per_vbyte po)) (\<lambda>fee_rate.
     rbind (fetch_parents (env_node env) us []) (\<lambda>parents.
     rbind (utxos_for_build parents us) (\<lambda>for_build.
     rbind (high_water_index s (d_id d) False) (\<lambda>max_external.
     rbind (high_water_index s (d_id d) True) (\<lambda>max_change.
     case env_build_psbt env
       \<lparr>bp_external_descriptor = d_expression d, bp_change_descriptor = d_change_expression d,
        bp_network = d_network d, bp_utxos = for_build,
        bp_recipient_address = po_destination_address po, bp_amount_sats = po_amount_sats po,
        bp_fee_rate_sat_per_vbyte = fee_rate, bp_max_external_index = max_external,
        bp_max_change_index = max_change\<rparr> of
       None \<Rightarrow> Inl BankingError
     | Some psbt \<Rightarrow> Inr psbt))))))"

definition build_payment_request ::
  "'p banking_env \<Rightarrow> uuid \<Rightarrow> timestamp \<Rightarrow> payment_order \<Rightarrow> build_result service" where
  "build_payment_request env rid now po =
     (let hid = po_holding_id po in
      bnd (readr (\<lambda>s. holding_repo_get s hid (descriptor_ids_for_holding s hid) None)) (\<lambda>found.
      case found of
        None \<Rightarrow> raise HoldingNotFound
      | Some holding \<Rightarrow>
          if cannot_send holding then raise HoldingCannotSend
          else if needs_long_term_confirmation holding po then ret NeedsConfirmation
          else
            bnd (gets (\<lambda>s. has_in_flight_for_holding s hid)) (\<lambda>busy.
            if busy then raise InFlightPaymentExists
            else
            bnd (readr (\<lambda>s. list_descriptors_for_holding s hid)) (\<lambda>ds.
            case ds of
              [] \<Rightarrow> raise InsufficientBalance
            | [d] \<Rightarrow>
                bnd (readr (\<lambda>s. compose_psbt env po s d)) (\<lambda>psbt.
                bnd (lift_result (PaymentRequest (new_payment_request rid now po psbt))) (\<lambda>payment.
                bnd (pr_insert payment) (\<lambda>_. ret (Built payment))))
            | _ \<Rightarrow> raise BankingError))))"

section \<open>Service: signing, broadcasting, cancelling\<close>

definition is_psbt_finalized :: "'p bdk_api \<Rightarrow> 'p \<Rightarrow> bool" where
  "is_psbt_finalized bdk p \<longleftrightarrow>
     bdk_input bdk p \<noteq> [] \<and> list_all (\<lambda>(witness, script_sig). witness \<or> script_sig) (bdk_input bdk p)"

text \<open>What a submission is turned into: the signed hex and the PSBT to store, or the exception.\<close>

definition accept_psbt ::
  "'p bdk_api \<Rightarrow> string \<Rightarrow> string \<Rightarrow> exn + (string \<times> string option)" where
  "accept_psbt bdk original submitted =
     (case bdk_psbt bdk submitted of
        None \<Rightarrow> Inl BankingError
      | Some user_psbt \<Rightarrow>
          if is_psbt_finalized bdk user_psbt then
            (case bdk_extract_tx bdk user_psbt of
               None \<Rightarrow> Inl SignedTransactionInvalid
             | Some hex \<Rightarrow> Inr (hex, Some submitted))
          else
            (case bdk_psbt bdk original of
               None \<Rightarrow> Inl BdkError
             | Some original_psbt \<Rightarrow>
                 (case bdk_combine bdk original_psbt user_psbt of
                    None \<Rightarrow> Inl PsbtMismatch
                  | Some merged \<Rightarrow>
                      (case bdk_finalize bdk merged of
                         None \<Rightarrow> Inl SignedTransactionInvalid
                       | Some (could_finalize, psbt) \<Rightarrow>
                           if \<not> could_finalize then Inl SignedTransactionInvalid
                           else (case bdk_extract_tx bdk psbt of
                                   None \<Rightarrow> Inl SignedTransactionInvalid
                                 | Some hex \<Rightarrow> Inr (hex, Some (bdk_serialize bdk psbt)))))))"

definition accept_submission ::
  "'p bdk_api \<Rightarrow> string \<Rightarrow> string option \<Rightarrow> string option \<Rightarrow> exn + (string \<times> string option)" where
  "accept_submission bdk original psbt_base64 signed_transaction_hex =
     (case (psbt_base64, signed_transaction_hex) of
        (None, None) \<Rightarrow> Inl BankingError
      | (Some submitted, _) \<Rightarrow> accept_psbt bdk original submitted
      | (None, Some hex) \<Rightarrow>
          if bdk_transaction_txid bdk hex = None then Inl BankingError else Inr (hex, None))"

text \<open>\<open>require\<close> is the \<open>if updated is None: raise PaymentRequestNotFound\<close> that ends each
  operation.\<close>

definition require :: "'a option \<Rightarrow> 'a service" where
  "require x = (case x of None \<Rightarrow> raise PaymentRequestNotFound | Some y \<Rightarrow> ret y)"

definition submit_signed_payment_request ::
  "'p bdk_api \<Rightarrow> timestamp \<Rightarrow> uuid \<Rightarrow> string option \<Rightarrow> string option \<Rightarrow> payment_request service" where
  "submit_signed_payment_request bdk now rid psbt_base64 signed_transaction_hex =
     bnd (readr (\<lambda>s. pr_get s rid)) (\<lambda>found.
     bnd (require found) (\<lambda>request.
     bnd (raise_if (pr_status request \<noteq> PS_AWAITING_SIGNATURE) WrongStatusForOperation) (\<lambda>_.
     case pr_psbt_base64 request of
       None \<Rightarrow> raise BankingError
     | Some original \<Rightarrow>
         bnd (lift_result (accept_submission bdk original psbt_base64 signed_transaction_hex))
           (\<lambda>(hex, psbt). bnd (mark_signed now rid hex psbt) require))))"

text \<open>\<^verbatim>\<open>f"{exc.code}: {exc.message}"\<close>.\<close>

definition int_str :: "int \<Rightarrow> string" where
  "int_str n = (if n < 0 then CHR ''-'' # nat_str (nat (- n)) else nat_str (nat n))"

definition rejection_text :: "int \<Rightarrow> string \<Rightarrow> string" where
  "rejection_text code msg = int_str code @ '': '' @ msg"

definition broadcast_payment_request ::
  "node_api \<Rightarrow> 'p bdk_api \<Rightarrow> uuid \<Rightarrow> timestamp \<Rightarrow> uuid \<Rightarrow> payment_request service" where
  "broadcast_payment_request node bdk attempt_id now rid =
     bnd (readr (\<lambda>s. pr_get s rid)) (\<lambda>found.
     bnd (require found) (\<lambda>request.
     bnd (raise_if (pr_status request \<noteq> PS_AWAITING_BROADCAST) WrongStatusForOperation) (\<lambda>_.
     case pr_signed_transaction_hex request of
       None \<Rightarrow> raise BankingError
     | Some hex \<Rightarrow>
         (case bdk_transaction_txid bdk hex of
            None \<Rightarrow> raise BdkError
          | Some txid \<Rightarrow>
              bnd (modify (insert_broadcast_attempt now attempt_id rid hex txid ''submitted'' None)) (\<lambda>_.
              case send_raw_transaction node hex of
                Inl (NodeRpcError code msg) \<Rightarrow>
                  bnd (modify (update_broadcast_attempt now attempt_id ''rejected''
                                 (Some (rejection_text code msg))))
                    (\<lambda>_. raise BroadcastRejected)
              | Inl _ \<Rightarrow> raise BankingError
              | Inr broadcast_txid \<Rightarrow>
                  bnd (modify (update_broadcast_attempt now attempt_id ''accepted'' None)) (\<lambda>_.
                  bnd (mark_broadcast now rid broadcast_txid) require))))))"

definition cancel_payment_request :: "timestamp \<Rightarrow> uuid \<Rightarrow> payment_request service" where
  "cancel_payment_request now rid =
     bnd (readr (\<lambda>s. pr_get s rid)) (\<lambda>found.
     bnd (require found) (\<lambda>_ s.
     case pr_cancel now rid s of
       (Inl (ValueError _), t) \<Rightarrow> (Inl WrongStatusForOperation, t)
     | (Inl e, t) \<Rightarrow> (Inl e, t)
     | (Inr cancelled, t) \<Rightarrow> require cancelled t))"

section \<open>Request handlers\<close>

text \<open>The handlers of \<^verbatim>\<open>api/v1/banking.py\<close> commit when the service returns; an exception that is
  raised before the commit drops the session.  The broadcast handler also commits the attempt
  of a rejected broadcast.  \<open>*_http\<close> are the status codes of the \<open>except\<close> clauses, tried in
  order; an exception no clause names is a 500.\<close>

definition api_create_payment_request ::
  "'p banking_env \<Rightarrow> uuid \<Rightarrow> timestamp \<Rightarrow> payment_order \<Rightarrow> build_result service" where
  "api_create_payment_request env rid now po =
     commit_on_success (build_payment_request env rid now po)"

definition api_submit_signed_payment ::
  "'p bdk_api \<Rightarrow> timestamp \<Rightarrow> uuid \<Rightarrow> string option \<Rightarrow> string option \<Rightarrow> payment_request service" where
  "api_submit_signed_payment bdk now rid psbt_base64 signed_transaction_hex =
     (if psbt_base64 = None \<and> signed_transaction_hex = None then raise BankingError
      else commit_on_success
        (submit_signed_payment_request bdk now rid psbt_base64 signed_transaction_hex))"

definition api_broadcast_payment ::
  "node_api \<Rightarrow> 'p bdk_api \<Rightarrow> uuid \<Rightarrow> timestamp \<Rightarrow> uuid \<Rightarrow> payment_request service" where
  "api_broadcast_payment node bdk attempt_id now rid s =
     (case broadcast_payment_request node bdk attempt_id now rid s of
        (Inr p, t) \<Rightarrow> (Inr p, t)
      | (Inl e, t) \<Rightarrow> (Inl e, if e = BroadcastRejected then t else s))"

definition api_cancel_payment_request :: "timestamp \<Rightarrow> uuid \<Rightarrow> payment_request service" where
  "api_cancel_payment_request now rid = commit_on_success (cancel_payment_request now rid)"

definition is_banking_error :: "exn \<Rightarrow> bool" where
  "is_banking_error e \<longleftrightarrow> e \<in> {BankingError, HoldingNotFound, HoldingCannotSend,
     InsufficientBalance, InvalidDestination, InFlightPaymentExists, PaymentRequestNotFound,
     WrongStatusForOperation, PsbtMismatch, SignedTransactionInvalid, BroadcastRejected,
     InvoiceError, HoldingCannotReceive, NoUnusedAddress}"

definition create_payment_http :: "exn \<Rightarrow> int" where
  "create_payment_http e =
     (if e = HoldingNotFound then 404 else if e = HoldingCannotSend then 400
      else if e = InsufficientBalance then 400 else if e = InvalidDestination then 400
      else if e = InFlightPaymentExists then 409 else if is_banking_error e then 400 else 500)"

definition submit_signed_http :: "exn \<Rightarrow> int" where
  "submit_signed_http e =
     (if e = PaymentRequestNotFound then 404 else if e = WrongStatusForOperation then 409
      else if e = PsbtMismatch then 400 else if e = SignedTransactionInvalid then 400
      else if is_banking_error e then 400 else 500)"

definition broadcast_http :: "exn \<Rightarrow> int" where
  "broadcast_http e =
     (if e = PaymentRequestNotFound then 404 else if e = WrongStatusForOperation then 409
      else if e = BroadcastRejected then 400 else if is_banking_error e then 503 else 500)"

definition cancel_payment_http :: "exn \<Rightarrow> int" where
  "cancel_payment_http e =
     (if e = PaymentRequestNotFound then 404 else if e = WrongStatusForOperation then 409 else 500)"

section \<open>Effects of the repository operations\<close>

lemma row_get_Some_iff:
  "row_get ctor r = Inr (Some x) \<longleftrightarrow> (\<exists>row. r = Some row \<and> ctor row = Inr x)"
  by (auto simp: row_get_def rbind_eq_Inr_iff split: option.splits)

lemma row_get_None_iff: "row_get ctor r = Inr None \<longleftrightarrow> r = None"
  by (auto simp: row_get_def rbind_eq_Inr_iff split: option.splits)

lemma pr_get_Some_iff:
  "pr_get s rid = Inr (Some p) \<longleftrightarrow>
     find_row pr_id rid (payment_requests s) = Some p \<and> PaymentRequest p = Inr p"
  by (auto simp: pr_get_def row_get_Some_iff dest: PaymentRequest_id)

lemma pr_get_None_iff: "pr_get s rid = Inr None \<longleftrightarrow> find_row pr_id rid (payment_requests s) = None"
  by (simp add: pr_get_def row_get_None_iff)

lemma pr_get_InlD: "pr_get s rid = Inl e \<Longrightarrow> \<exists>v. e = ValueError v"
  by (auto simp: pr_get_def row_get_def rbind_eq_Inl_iff PaymentRequest_def construct_Inl_iff
      split: option.splits)

lemma bnd_require [svc_defs]:
  "bnd (require x) f s = (case x of None \<Rightarrow> (Inl PaymentRequestNotFound, s) | Some y \<Rightarrow> f y s)"
  by (simp add: require_def bnd_def ret_def raise_def split: option.split)

lemma require_apply [svc_defs]:
  "require x s = (case x of None \<Rightarrow> Inl PaymentRequestNotFound | Some y \<Rightarrow> Inr y, s)"
  by (simp add: require_def ret_def raise_def split: option.split)

lemma bnd_pr_write:
  assumes "find_row pr_id rid (payment_requests s) = Some p" "PaymentRequest (f p) = Inr (f p)"
  shows "bnd (pr_write rid f) require s =
    (Inr (f p), payment_requests_update (update_rows pr_id rid f) s)"
  using assms by (simp add: bnd_def pr_write_def svc_defs)

text \<open>The row functions only touch the fields of their flip, so they keep a valid on-chain
  request valid.\<close>

lemmas pr_row_defs = signed_row_def broadcast_row_def confirmed_row_def cancelled_row_def

lemma pr_row_simps [simp]:
  "pr_id (signed_row now hex psbt p) = pr_id p" "pr_id (broadcast_row now txid p) = pr_id p"
  "pr_id (confirmed_row now eid p) = pr_id p" "pr_id (cancelled_row now p) = pr_id p"
  "pr_holding_id (signed_row now hex psbt p) = pr_holding_id p"
  "pr_holding_id (broadcast_row now txid p) = pr_holding_id p"
  "pr_holding_id (confirmed_row now eid p) = pr_holding_id p"
  "pr_holding_id (cancelled_row now p) = pr_holding_id p"
  "pr_status (signed_row now hex psbt p) = PS_AWAITING_BROADCAST"
  "pr_status (broadcast_row now txid p) = PS_BROADCAST"
  "pr_status (confirmed_row now eid p) = PS_CONFIRMED"
  "pr_status (cancelled_row now p) = PS_CANCELLED"
  by (simp_all add: pr_row_defs)

lemma PaymentRequest_onchain:
  assumes "PaymentRequest p = Inr p"
    and "pr_psbt_base64 p \<noteq> None \<or> pr_signed_transaction_hex p \<noteq> None"
  shows "pr_payment_type p = PT_ONCHAIN"
  using assms by (cases "pr_payment_type p") (auto simp: PaymentRequest_def construct_Inr_iff)

lemma PaymentRequest_rows:
  assumes "PaymentRequest p = Inr p" "pr_payment_type p = PT_ONCHAIN"
  shows "PaymentRequest (signed_row now hex psbt p) = Inr (signed_row now hex psbt p)"
    "PaymentRequest (broadcast_row now txid p) = Inr (broadcast_row now txid p)"
  using assms by (simp_all add: PaymentRequest_onchain_Inr_iff pr_row_defs)

lemma PaymentRequest_rows_any:
  assumes "PaymentRequest p = Inr p"
  shows "PaymentRequest (confirmed_row now eid p) = Inr (confirmed_row now eid p)"
    "PaymentRequest (cancelled_row now p) = Inr (cancelled_row now p)"
  using assms by (simp_all add: PaymentRequest_def construct_Inr_iff pr_row_defs split: payment_type.splits)

section \<open>Effects of the service operations\<close>

text \<open>Each operation either raises and leaves the session as it was, or performs exactly the one
  status flip it is named after.\<close>

lemma with_requestE:
  assumes "bnd (readr (\<lambda>s. pr_get s rid)) (\<lambda>found. bnd (require found) k) s = (r, t)"
  obtains (fail) e where "r = Inl e" "t = s" "e = PaymentRequestNotFound \<or> (\<exists>v. e = ValueError v)"
    | (row) p where "find_row pr_id rid (payment_requests s) = Some p"
        "PaymentRequest p = Inr p" "k p s = (r, t)"
proof (cases "pr_get s rid")
  case (Inl e)
  then have "\<exists>v. e = ValueError v" by (rule pr_get_InlD)
  moreover have "r = Inl e" "t = s" using assms Inl by (auto simp: svc_defs)
  ultimately show thesis by (auto intro: fail)
next
  case (Inr found)
  show thesis
  proof (cases found)
    case None
    then show thesis using assms Inr fail by (auto simp: svc_defs)
  next
    case (Some p)
    have "k p s = (r, t)" using assms Inr Some by (simp add: svc_defs)
    moreover have "find_row pr_id rid (payment_requests s) = Some p" "PaymentRequest p = Inr p"
      using Inr Some by (simp_all add: pr_get_Some_iff)
    ultimately show thesis by (simp add: row)
  qed
qed

lemma submit_effect:
  assumes "submit_signed_payment_request bdk now rid psbt hex s = (r, t)"
  shows "(\<exists>e. r = Inl e \<and> t = s) \<or>
    (\<exists>p original signed stored. find_row pr_id rid (payment_requests s) = Some p \<and>
       PaymentRequest p = Inr p \<and> pr_payment_type p = PT_ONCHAIN \<and>
       pr_status p = PS_AWAITING_SIGNATURE \<and> pr_psbt_base64 p = Some original \<and>
       accept_submission bdk original psbt hex = Inr (signed, stored) \<and>
       r = Inr (signed_row now signed stored p) \<and>
       t = payment_requests_update (update_rows pr_id rid (signed_row now signed stored)) s)"
  using assms unfolding submit_signed_payment_request_def
proof (cases rule: with_requestE)
  case (fail e)
  then show ?thesis by simp
next
  case (row p)
  show ?thesis
  proof (cases "pr_status p = PS_AWAITING_SIGNATURE \<and> pr_psbt_base64 p \<noteq> None")
    case False
    then show ?thesis using row(3) by (auto simp: svc_defs split: if_splits option.splits)
  next
    case True
    then obtain original where psbt: "pr_psbt_base64 p = Some original" by blast
    have onchain: "pr_payment_type p = PT_ONCHAIN"
      using PaymentRequest_onchain [OF row(2)] psbt by simp
    show ?thesis
    proof (cases "accept_submission bdk original psbt hex")
      case (Inl e)
      then show ?thesis using row(3) True psbt by (auto simp: svc_defs)
    next
      case (Inr acc)
      obtain signed stored where acc: "acc = (signed, stored)" by (cases acc)
      have "bnd (mark_signed now rid signed stored) require s =
        (Inr (signed_row now signed stored p),
         payment_requests_update (update_rows pr_id rid (signed_row now signed stored)) s)"
        unfolding mark_signed_def using row(1) PaymentRequest_rows(1) [OF row(2) onchain]
        by (rule bnd_pr_write)
      then show ?thesis
        using row True psbt Inr acc onchain by (auto simp: svc_defs)
    qed
  qed
qed

lemma cancel_effect:
  assumes "cancel_payment_request now rid s = (r, t)"
  shows "(\<exists>e. r = Inl e \<and> t = s) \<or>
    (\<exists>p. find_row pr_id rid (payment_requests s) = Some p \<and> PaymentRequest p = Inr p \<and>
       pr_status p \<in> set cancellable \<and> r = Inr (cancelled_row now p) \<and>
       t = payment_requests_update (update_rows pr_id rid (cancelled_row now)) s)"
  using assms unfolding cancel_payment_request_def
proof (cases rule: with_requestE)
  case (fail e)
  then show ?thesis by simp
next
  case (row p)
  have "PaymentRequest (cancelled_row now p) = Inr (cancelled_row now p)"
    using row(2) by (rule PaymentRequest_rows_any)
  then show ?thesis
    using row by (auto simp: pr_cancel_def pr_write_def svc_defs split: if_splits)
qed

text \<open>The attempt row a broadcast leaves behind.\<close>

definition attempt_row ::
  "uuid \<Rightarrow> uuid \<Rightarrow> string \<Rightarrow> string \<Rightarrow> string \<Rightarrow> string option \<Rightarrow> timestamp option \<Rightarrow> broadcast_attempt" where
  "attempt_row aid rid hex txid status reason completed =
     \<lparr>ba_id = aid, ba_payment_request_id = rid, ba_transaction_hex = hex, ba_txid = txid,
      ba_status = status, ba_rejection_reason = reason, ba_completed_at = completed\<rparr>"

lemma attempt_insert_update:
  assumes "aid \<notin> ba_id ` set (broadcast_attempts s)"
  shows "update_broadcast_attempt now aid status reason
      (broadcast_attempts_update
        (\<lambda>as. as @ [attempt_row aid rid hex txid ''submitted'' None None]) s) =
    broadcast_attempts_update (\<lambda>as. as @ [attempt_row aid rid hex txid status reason (Some now)]) s"
proof -
  have "update_rows ba_id aid f (broadcast_attempts s @ [a]) = broadcast_attempts s @ [f a]"
    if "ba_id a = aid" for f a
    using assms that update_rows_absent [of aid ba_id "broadcast_attempts s" f]
    by (simp add: update_rows_def)
  then show ?thesis
    by (cases s)
      (simp add: update_broadcast_attempt_def attempt_row_def split: option.split)
qed

lemma attempt_insert_submitted:
  "insert_broadcast_attempt now aid rid hex txid ''submitted'' None s =
   broadcast_attempts_update (\<lambda>as. as @ [attempt_row aid rid hex txid ''submitted'' None None]) s"
  by (simp add: insert_broadcast_attempt_def attempt_row_def)

text \<open>The five ways a broadcast can end.\<close>

datatype broadcast_outcome =
    Refused | Accepted string | Rejected int string | Unreachable

definition broadcast_outcome_of :: "(node_exn + string) \<Rightarrow> broadcast_outcome" where
  "broadcast_outcome_of r = (case r of
     Inr txid \<Rightarrow> Accepted txid
   | Inl (NodeRpcError code msg) \<Rightarrow> Rejected code msg
   | Inl _ \<Rightarrow> Unreachable)"

lemma broadcast_effect:
  assumes fresh: "aid \<notin> ba_id ` set (broadcast_attempts s)"
    and run: "broadcast_payment_request node bdk aid now rid s = (r, t)"
  shows "(\<exists>e. r = Inl e \<and> e \<noteq> BroadcastRejected \<and> t = s) \<or>
    (\<exists>p hex txid. find_row pr_id rid (payment_requests s) = Some p \<and> PaymentRequest p = Inr p \<and>
       pr_payment_type p = PT_ONCHAIN \<and> pr_status p = PS_AWAITING_BROADCAST \<and>
       pr_signed_transaction_hex p = Some hex \<and> bdk_transaction_txid bdk hex = Some txid \<and>
       (case broadcast_outcome_of (send_raw_transaction node hex) of
          Accepted btxid \<Rightarrow> r = Inr (broadcast_row now btxid p) \<and>
            t = payment_requests_update (update_rows pr_id rid (broadcast_row now btxid))
              (broadcast_attempts_update (\<lambda>as. as @
                 [attempt_row aid rid hex txid ''accepted'' None (Some now)]) s)
        | Rejected code msg \<Rightarrow> r = Inl BroadcastRejected \<and>
            t = broadcast_attempts_update (\<lambda>as. as @
                 [attempt_row aid rid hex txid ''rejected'' (Some (rejection_text code msg))
                   (Some now)]) s
        | Unreachable \<Rightarrow> r = Inl BankingError \<and>
            t = broadcast_attempts_update (\<lambda>as. as @
                 [attempt_row aid rid hex txid ''submitted'' None None]) s
        | Refused \<Rightarrow> False))"
proof -
  from run show ?thesis
    unfolding broadcast_payment_request_def
  proof (cases rule: with_requestE)
    case (fail e)
    then show ?thesis by auto
  next
    case (row p)
    show ?thesis
    proof (cases "pr_status p = PS_AWAITING_BROADCAST \<and> (\<exists>hex txid.
        pr_signed_transaction_hex p = Some hex \<and> bdk_transaction_txid bdk hex = Some txid)")
      case False
      then show ?thesis using row(3) by (auto simp: svc_defs split: if_splits option.splits)
    next
      case True
      then obtain hex txid where st: "pr_status p = PS_AWAITING_BROADCAST"
        and hex: "pr_signed_transaction_hex p = Some hex" "bdk_transaction_txid bdk hex = Some txid"
        by blast
      have onchain: "pr_payment_type p = PT_ONCHAIN"
        using PaymentRequest_onchain [OF row(2)] hex by simp
      have marked: "bnd (mark_broadcast now rid b) require u =
        (Inr (broadcast_row now b p), payment_requests_update (update_rows pr_id rid (broadcast_row now b)) u)"
        if "payment_requests u = payment_requests s" for b u
        unfolding mark_broadcast_def using row(1) that PaymentRequest_rows(2) [OF row(2) onchain]
        by (intro bnd_pr_write) simp_all
      show ?thesis
        using row st hex onchain fresh
        by (auto simp: svc_defs broadcast_outcome_of_def attempt_insert_update
            attempt_insert_submitted marked split: sum.splits node_exn.splits)
    qed
  qed
qed

text \<open>Building a payment either leaves the session alone or appends one request that awaits its
  signature, and it does that only when every guard has passed.\<close>

definition spendable :: "db \<Rightarrow> uuid \<Rightarrow> utxo \<Rightarrow> bool" where
  "spendable s did u \<longleftrightarrow> u \<in> set (utxos s) \<and> u_descriptor_id u = did \<and> \<not> u_is_spent u \<and>
     \<not> u_is_frozen u \<and> u_confirmation_height u \<noteq> None"

lemma gather_spendable_utxosD:
  assumes "gather_spendable_utxos s did = Inr us"
  shows "set us = {u. spendable s did u}"
  using assms
  by (auto simp: gather_spendable_utxos_def rbind_eq_Inr_iff spendable_def
      dest!: utxo_list_for_descriptorD)

lemma build_effect:
  assumes "build_payment_request env rid now po s = (r, t)"
  shows "(\<exists>e. r = Inl e \<and> t = s) \<or> (r = Inr NeedsConfirmation \<and> t = s) \<or>
    (\<exists>h d psbt p. holding_repo_get s (po_holding_id po)
          (descriptor_ids_for_holding s (po_holding_id po)) None = Inr (Some h) \<and>
       \<not> cannot_send h \<and> \<not> needs_long_term_confirmation h po \<and>
       \<not> has_in_flight_for_holding s (po_holding_id po) \<and>
       list_descriptors_for_holding s (po_holding_id po) = Inr [d] \<and>
       compose_psbt env po s d = Inr psbt \<and>
       p = new_payment_request rid now po psbt \<and> PaymentRequest p = Inr p \<and>
       r = Inr (Built p) \<and> t = payment_requests_update (\<lambda>ps. ps @ [p]) s)"
proof (cases "holding_repo_get s (po_holding_id po)
    (descriptor_ids_for_holding s (po_holding_id po)) None")
  case (Inl e)
  then show ?thesis using assms by (auto simp: build_payment_request_def Let_def svc_defs)
next
  case (Inr found)
  show ?thesis
  proof (cases found)
    case None
    then show ?thesis using assms Inr by (auto simp: build_payment_request_def Let_def svc_defs)
  next
    case (Some h)
    show ?thesis
    proof (cases "cannot_send h \<or> needs_long_term_confirmation h po \<or>
        has_in_flight_for_holding s (po_holding_id po)")
      case True
      then show ?thesis
        using assms Inr Some by (auto simp: build_payment_request_def Let_def svc_defs split: if_splits)
    next
      case False
      then show ?thesis
        using assms Inr Some
        by (auto simp: build_payment_request_def Let_def svc_defs pr_insert_def bnd_def
            split: sum.splits list.splits dest!: PaymentRequest_id)
    qed
  qed
qed

end
