(* ===== verification/Invoices.thy ===== *)
theory Invoices
  imports Descriptors Amounts Ledger
begin

text \<open>
  Incoming payments: the invoice repository (\<^verbatim>\<open>repositories/invoice.py\<close>), \<open>create_invoice\<close> of
  \<^verbatim>\<open>services/banking_service.py\<close> and the invoice handlers of \<^verbatim>\<open>api/v1/banking.py\<close>.  An invoice
  reserves the lowest unused receive address of the holding's first descriptor; the reservation
  is the open invoice itself.  The percent-encoding of the label (\<^verbatim>\<open>urllib.parse.quote\<close>) is
  written out.
\<close>

section \<open>Repository\<close>

definition inv_get :: "db \<Rightarrow> uuid \<Rightarrow> exn + invoice option" where
  "inv_get s iid = row_get Invoice (find_row i_id iid (invoices s))"

definition inv_insert :: "invoice \<Rightarrow> db \<Rightarrow> db" where
  "inv_insert i = invoices_update (\<lambda>is. is @ [i])"

definition get_open_by_address :: "db \<Rightarrow> string \<Rightarrow> exn + invoice option" where
  "get_open_by_address s addr =
     (case sort_key (\<lambda>i. - i_created_at i)
        (filter (\<lambda>i. i_receiving_address i = Some addr \<and> i_status i = IS_OPEN) (invoices s)) of
        [] \<Rightarrow> Inr None
      | i # _ \<Rightarrow> rbind (Invoice i) (\<lambda>i. Inr (Some i)))"

definition inv_list_filtered ::
  "db \<Rightarrow> uuid option \<Rightarrow> invoice_status option \<Rightarrow> int \<Rightarrow> int \<Rightarrow> exn + invoice list" where
  "inv_list_filtered s holding_id status limit offset =
     rmap Invoice (page limit offset (sort_key (\<lambda>i. - i_created_at i)
       (filter (\<lambda>i. (holding_id = None \<or> holding_id = Some (i_holding_id i)) \<and>
                    (status = None \<or> status = Some (i_status i))) (invoices s))))"

definition paid_row :: "uuid \<Rightarrow> bool \<Rightarrow> invoice \<Rightarrow> invoice" where
  "paid_row eid overpaid i =
     i\<lparr>i_resulting_ledger_entry_id := Some eid,
       i_status := (if overpaid then IS_OVERPAID else IS_PAID)\<rparr>"

definition inv_write :: "uuid \<Rightarrow> (invoice \<Rightarrow> invoice) \<Rightarrow> invoice option service" where
  "inv_write iid f s =
     (case find_row i_id iid (invoices s) of
        None \<Rightarrow> (Inr None, s)
      | Some i \<Rightarrow>
          (rbind (Invoice (f i)) (\<lambda>i. Inr (Some i)),
           invoices_update (update_rows i_id iid f) s))"

definition mark_paid :: "uuid \<Rightarrow> uuid \<Rightarrow> bool \<Rightarrow> invoice option service" where
  "mark_paid iid eid overpaid = inv_write iid (paid_row eid overpaid)"

definition inv_cancel :: "uuid \<Rightarrow> invoice option service" where
  "inv_cancel iid s =
     (case find_row i_id iid (invoices s) of
        None \<Rightarrow> (Inr None, s)
      | Some i \<Rightarrow>
          if i_status i \<noteq> IS_OPEN then (Inl (ValueError V_Cannot_cancel), s)
          else inv_write iid (\<lambda>i. i\<lparr>i_status := IS_CANCELLED\<rparr>) s)"

section \<open>BIP21 with a label\<close>

text \<open>\<^verbatim>\<open>quote\<close> keeps letters, digits and \<^verbatim>\<open>_.-~/\<close> and writes every other byte as \<^verbatim>\<open>%XX\<close>.\<close>

definition hex_digit :: "nat \<Rightarrow> char" where
  "hex_digit d = (if d < 10 then char_of (48 + d) else char_of (55 + d))"

definition quote_safe :: "char \<Rightarrow> bool" where
  "quote_safe c \<longleftrightarrow> (let n = of_char c :: nat in
     (48 \<le> n \<and> n \<le> 57) \<or> (65 \<le> n \<and> n \<le> 90) \<or> (97 \<le> n \<and> n \<le> 122) \<or> c \<in> set ''_.-~/'')"

definition quote :: "string \<Rightarrow> string" where
  "quote s = concat (map (\<lambda>c. if quote_safe c then [c]
     else [CHR ''%'', hex_digit (of_char c div 16), hex_digit (of_char c mod 16)]) s)"

definition invoice_bip21 :: "string \<Rightarrow> sats option \<Rightarrow> string option \<Rightarrow> string" where
  "invoice_bip21 addr amount description =
     ''bitcoin:'' @ addr @
     (case amount of
        Some a \<Rightarrow> ''?amount='' @ bip21_amount a @
          (case description of None \<Rightarrow> [] | Some d \<Rightarrow> if d = [] then [] else ''&label='' @ quote d)
      | None \<Rightarrow>
          (case description of None \<Rightarrow> [] | Some d \<Rightarrow> if d = [] then [] else ''?label='' @ quote d))"

section \<open>Service\<close>

definition new_invoice ::
  "uuid \<Rightarrow> timestamp \<Rightarrow> uuid \<Rightarrow> sats option \<Rightarrow> string option \<Rightarrow> address \<Rightarrow> invoice" where
  "new_invoice iid now hid amount description a =
     \<lparr>i_id = iid, i_holding_id = hid, i_invoice_type = PT_ONCHAIN, i_amount_sats = amount,
      i_description = description, i_status = IS_OPEN, i_expires_at = None, i_created_at = now,
      i_receiving_address = Some (a_address a), i_receiving_address_id = Some (a_id a),
      i_bip21_uri = Some (invoice_bip21 (a_address a) amount description), i_bolt11 = None,
      i_payment_hash = None, i_resulting_ledger_entry_id = None\<rparr>"

text \<open>\<open>label\<close> is the text \<^verbatim>\<open>f"Invoice (reserved {date})"\<close> for the date of the call.\<close>

definition create_invoice ::
  "uuid \<Rightarrow> timestamp \<Rightarrow> string \<Rightarrow> uuid \<Rightarrow> sats option \<Rightarrow> string option \<Rightarrow> invoice service" where
  "create_invoice iid now label hid amount description =
     bnd (readr (\<lambda>s. holding_repo_get s hid (descriptor_ids_for_holding s hid) None)) (\<lambda>found.
     case found of
       None \<Rightarrow> raise HoldingNotFound
     | Some holding \<Rightarrow>
         if h_holding_type holding = HT_ACCOUNT then raise HoldingCannotReceive
         else
         bnd (readr (\<lambda>s. list_descriptors_for_holding s hid)) (\<lambda>ds.
         case ds of
           [] \<Rightarrow> raise InvoiceError
         | primary # _ \<Rightarrow>
             bnd (readr (\<lambda>s. next_unused_address s (d_id primary) False)) (\<lambda>next_addr.
             case next_addr of
               None \<Rightarrow> raise NoUnusedAddress
             | Some a \<Rightarrow>
                 bnd (update_address_label (a_id a) (Some label)) (\<lambda>_.
                 bnd (lift_result (Invoice (new_invoice iid now hid amount description a))) (\<lambda>inv.
                 bnd (modify (inv_insert inv)) (\<lambda>_. ret inv))))))"

section \<open>Request handlers\<close>

definition api_create_invoice ::
  "uuid \<Rightarrow> timestamp \<Rightarrow> string \<Rightarrow> uuid \<Rightarrow> sats option \<Rightarrow> string option \<Rightarrow> invoice service" where
  "api_create_invoice iid now label hid amount description =
     commit_on_success (create_invoice iid now label hid amount description)"

text \<open>The cancel handler turns the repository's \<^verbatim>\<open>ValueError\<close> into a 409 and a missing row into a
  404 before it commits.\<close>

definition api_cancel_invoice :: "uuid \<Rightarrow> db \<Rightarrow> (int + invoice) \<times> db" where
  "api_cancel_invoice iid s =
     (case inv_cancel iid s of
        (Inl (ValueError _), _) \<Rightarrow> (Inl 409, s)
      | (Inl _, _) \<Rightarrow> (Inl 500, s)
      | (Inr None, _) \<Rightarrow> (Inl 404, s)
      | (Inr (Some i), t) \<Rightarrow> (Inr i, t))"

section \<open>Effects\<close>

lemma create_invoice_effect:
  assumes "create_invoice iid now label hid amount description s = (Inr i, t)"
  shows "\<exists>d ds a. list_descriptors_for_holding s hid = Inr (d # ds) \<and>
    next_unused_address s (d_id d) False = Inr (Some a) \<and>
    i = new_invoice iid now hid amount description a \<and> Invoice i = Inr i \<and>
    t = inv_insert i (addresses_update (update_rows a_id (a_id a) (\<lambda>a. a\<lparr>a_label := Some label\<rparr>)) s)"
proof -
  obtain h where h: "holding_repo_get s hid (descriptor_ids_for_holding s hid) None = Inr (Some h)"
    "h_holding_type h \<noteq> HT_ACCOUNT"
    using assms by (auto simp: create_invoice_def svc_defs split: sum.splits option.splits if_splits)
  obtain d ds where ds: "list_descriptors_for_holding s hid = Inr (d # ds)"
    using assms h by (auto simp: create_invoice_def svc_defs split: sum.splits list.splits)
  obtain a where a: "next_unused_address s (d_id d) False = Inr (Some a)"
    using assms h ds by (auto simp: create_invoice_def svc_defs split: sum.splits option.splits)
  have row: "find_row a_id (a_id a) (addresses s) \<noteq> None"
    using next_unused_address_SomeD [OF a] by (auto simp: find_row_None_iff)
  obtain inv where "Invoice (new_invoice iid now hid amount description a) = Inr inv"
    using assms h ds a row
    by (auto simp: create_invoice_def svc_defs bnd_def update_address_label_def
        split: sum.splits option.splits)
  moreover from this have "inv = new_invoice iid now hid amount description a"
    by (rule Invoice_id)
  ultimately show ?thesis
    using assms h ds a row
    by (auto simp: create_invoice_def svc_defs bnd_def update_address_label_def
        split: sum.splits option.splits)
qed

lemma inv_write_effect:
  assumes "inv_write iid f s = (r, t)" "\<And>i. i_id (f i) = i_id i"
  shows "t = invoices_update (update_rows i_id iid f) s"
proof (cases "find_row i_id iid (invoices s)")
  case None
  then have "update_rows i_id iid f (invoices s) = invoices s"
    by (simp add: find_row_None_iff update_rows_absent)
  then have "invoices_update (update_rows i_id iid f) s = s" by (cases s) simp
  then show ?thesis using assms None by (simp add: inv_write_def)
next
  case (Some i)
  then show ?thesis using assms by (simp add: inv_write_def)
qed

section \<open>Reservations\<close>

definition reservation_inv :: "db \<Rightarrow> bool" where
  "reservation_inv s \<longleftrightarrow> distinct (map i_id (invoices s)) \<and> distinct (reserved_address_ids s)"

declare reservation_inv_def [inv_defs]

lemma reserved_insert:
  "i_status i = IS_OPEN \<Longrightarrow> i_receiving_address_id i = Some k \<Longrightarrow>
   reserved_address_ids (invoices_update (\<lambda>is. is @ [i]) s) = reserved_address_ids s @ [k]"
  by (simp add: reserved_address_ids_def List.map_filter_def)

text \<open>Closing an invoice can only remove reservations.\<close>

lemma reserved_close:
  assumes "\<And>i. i_status (f i) \<noteq> IS_OPEN"
  shows "distinct (reserved_address_ids s) \<Longrightarrow>
      distinct (reserved_address_ids (invoices_update (update_rows i_id iid f) s))"
    "set (reserved_address_ids (invoices_update (update_rows i_id iid f) s)) \<subseteq>
      set (reserved_address_ids s)"
proof -
  define r where "r is = List.map_filter i_receiving_address_id (filter (\<lambda>i. i_status i = IS_OPEN) is)"
    for "is" :: "invoice list"
  have r_simps: "r [] = []" "r (i # is) = (if i_status i = IS_OPEN
      then case i_receiving_address_id i of None \<Rightarrow> r is | Some k \<Rightarrow> k # r is else r is)" for i "is"
    by (simp_all add: r_def List.map_filter_def split: option.split)
  have sub: "set (r (update_rows i_id iid f is)) \<subseteq> set (r is)" for "is"
    using assms by (induction "is") (auto simp: r_simps split: option.split)
  have "distinct (r is) \<Longrightarrow> distinct (r (update_rows i_id iid f is))" for "is"
  proof (induction "is")
    case Nil
    then show ?case by (simp add: r_simps)
  next
    case (Cons i "is")
    then show ?case
      using assms sub [of "is"] by (auto simp: r_simps split: if_splits option.splits)
  qed
  then show "distinct (reserved_address_ids s) \<Longrightarrow>
      distinct (reserved_address_ids (invoices_update (update_rows i_id iid f) s))"
    by (simp add: reserved_address_ids_def r_def)
  show "set (reserved_address_ids (invoices_update (update_rows i_id iid f) s)) \<subseteq>
      set (reserved_address_ids s)"
    using sub by (simp add: reserved_address_ids_def r_def)
qed

lemma create_keeps_reservations:
  assumes inv: "reservation_inv s" and fresh: "iid \<notin> i_id ` set (invoices s)"
    and run: "create_invoice iid now label hid amount description s = (Inr i, t)"
  shows "reservation_inv t"
proof -
  obtain d :: descriptor and a where a: "next_unused_address s (d_id d) False = Inr (Some a)"
    and i: "i = new_invoice iid now hid amount description a"
    and t: "t = inv_insert i (addresses_update
        (update_rows a_id (a_id a) (\<lambda>a. a\<lparr>a_label := Some label\<rparr>)) s)"
    using create_invoice_effect [OF run] by blast
  let ?s = "addresses_update (update_rows a_id (a_id a) (\<lambda>a. a\<lparr>a_label := Some label\<rparr>)) s"
  have "reserved_address_ids ?s = reserved_address_ids s"
    by (simp add: reserved_address_ids_def)
  moreover have "a_id a \<notin> set (reserved_address_ids s)"
    using next_unused_address_SomeD [OF a] by (simp add: unused_candidate_def)
  moreover have "reserved_address_ids t = reserved_address_ids ?s @ [a_id a]"
    unfolding t inv_insert_def by (rule reserved_insert) (simp_all add: i new_invoice_def)
  ultimately show ?thesis
    using inv fresh by (auto simp: reservation_inv_def t inv_insert_def i new_invoice_def)
qed

lemma close_keeps_reservations:
  assumes "reservation_inv s" "\<And>i. i_id (f i) = i_id i" "\<And>i. i_status (f i) \<noteq> IS_OPEN"
    and "inv_write iid f s = (r, t)"
  shows "reservation_inv t"
  using assms(1) reserved_close(1) [of f, OF assms(3)]
  by (simp add: inv_write_effect [OF assms(4,2)] reservation_inv_def map_key_update_rows assms(2))

text \<open>The invoice operations as steps of one database: the two handlers and the listener's payment
  mark.\<close>

inductive invoice_step :: "db \<Rightarrow> db \<Rightarrow> bool" where
  create: "iid \<notin> i_id ` set (invoices s) \<Longrightarrow>
    api_create_invoice iid now label hid amount description s = (r, t) \<Longrightarrow> invoice_step s t"
| cancel: "api_cancel_invoice iid s = (r', t) \<Longrightarrow> invoice_step s t"
| pay: "mark_paid iid eid overpaid s = (r'', t) \<Longrightarrow> invoice_step s t"

inductive_cases invoice_stepE: "invoice_step s t"

lemma inv_cancel_keeps:
  assumes "reservation_inv s" "inv_cancel iid s = (r, t)"
  shows "reservation_inv t"
proof (cases "\<exists>i. find_row i_id iid (invoices s) = Some i \<and> i_status i = IS_OPEN")
  case True
  then have "inv_write iid (\<lambda>i. i\<lparr>i_status := IS_CANCELLED\<rparr>) s = (r, t)"
    using assms(2) by (auto simp: inv_cancel_def)
  then show ?thesis
    using assms(1) by (rule close_keeps_reservations [rotated -1]) simp_all
next
  case False
  then show ?thesis using assms by (auto simp: inv_cancel_def split: option.splits if_splits)
qed

lemma invoice_step_keeps: "reservation_inv s \<Longrightarrow> invoice_step s t \<Longrightarrow> reservation_inv t"
proof (erule invoice_stepE)
  fix iid now label hid amount description r
  assume inv: "reservation_inv s" and fresh: "iid \<notin> i_id ` set (invoices s)"
    and run: "api_create_invoice iid now label hid amount description s = (r, t)"
  show "reservation_inv t"
  proof (cases r)
    case (Inl e)
    then show ?thesis
      using inv run commit_on_success_InlD by (fastforce simp: api_create_invoice_def)
  next
    case (Inr i)
    then show ?thesis
      using inv fresh run create_keeps_reservations
      by (auto simp: api_create_invoice_def commit_on_success_Inr_iff)
  qed
next
  fix iid r'
  assume inv: "reservation_inv s" and run: "api_cancel_invoice iid s = (r', t)"
  obtain r u where u: "inv_cancel iid s = (r, u)" by fastforce
  then have "t = s \<or> t = u"
    using run by (auto simp: api_cancel_invoice_def split: sum.splits option.splits exn.splits)
  then show "reservation_inv t" using inv inv_cancel_keeps [OF inv u] by auto
next
  fix iid eid overpaid r''
  assume "reservation_inv s" "mark_paid iid eid overpaid s = (r'', t)"
  then show "reservation_inv t"
    unfolding mark_paid_def by (elim close_keeps_reservations [rotated -1]) (simp_all add: paid_row_def)
qed

interpretation reservations: invariant_system invoice_step reservation_inv
  by unfold_locales (rule invoice_step_keeps)

section \<open>Handing addresses out again\<close>

lemma sort_key_map: "sort_key k (map f xs) = map f (sort_key (\<lambda>x. k (f x)) xs)"
proof -
  have "insort_key k (f x) (map f ys) = map f (insort_key (\<lambda>x. k (f x)) x ys)" for x ys
    by (induction ys) simp_all
  then show ?thesis by (induction xs) simp_all
qed

text \<open>Which address is handed out depends on the reservations and on the columns no invoice
  operation writes; a label does not matter.\<close>

lemma next_unused_address_label:
  assumes nxt: "next_unused_address s did False = Inr (Some a)"
    and res: "set (reserved_address_ids t) \<inter> a_id ` set (addresses s) =
              set (reserved_address_ids s) \<inter> a_id ` set (addresses s)"
    and addr: "addresses t = update_rows a_id k (\<lambda>a. a\<lparr>a_label := l\<rparr>) (addresses s)"
  shows "\<exists>b. next_unused_address t did False = Inr (Some b) \<and> a_id b = a_id a \<and>
    a_address b = a_address a"
proof -
  define f where "f a = (if a_id a = k then a\<lparr>a_label := l\<rparr> else a)" for a :: address
  have keep: "a_id (f a) = a_id a" "a_descriptor_id (f a) = a_descriptor_id a"
    "a_is_change (f a) = a_is_change a" "a_first_seen_height (f a) = a_first_seen_height a"
    "a_derivation_index (f a) = a_derivation_index a" "a_address (f a) = a_address a" for a
    by (simp_all add: f_def)
  have "unused_candidate t did False (f a) = unused_candidate s did False a"
    if "a \<in> set (addresses s)" for a
    using that res by (auto simp: unused_candidate_def keep)
  then have "filter (unused_candidate t did False) (addresses t) =
      map f (filter (unused_candidate s did False) (addresses s))"
    by (simp add: addr update_rows_def f_def [symmetric] filter_map comp_def cong: filter_cong)
  then have "sort_key a_derivation_index (filter (unused_candidate t did False) (addresses t)) =
      map f (sort_key a_derivation_index (filter (unused_candidate s did False) (addresses s)))"
    by (simp add: sort_key_map keep)
  moreover obtain rest where
    "sort_key a_derivation_index (filter (unused_candidate s did False) (addresses s)) = a # rest"
    and "0 \<le> a_derivation_index a"
    using nxt by (auto simp: next_unused_address_def rbind_eq_Inr_iff Address_Inr_iff split: list.splits)
  ultimately have "next_unused_address t did False = Inr (Some (f a))"
    by (simp add: next_unused_address_def Address_Inr_iff [of "f a" "f a", THEN iffD2] keep)
  then show ?thesis by (auto simp: keep)
qed

section \<open>Properties\<close>

text \<open>A created invoice is open, holds the lowest-index receive address of the holding's first
  descriptor that no transaction was recorded for and no open invoice held, and from then on
  that address is not offered to another invoice.\<close>

theorem create_invoice_reserves_lowest:
  assumes "create_invoice iid now label hid amount description s = (Inr i, t)"
  shows "\<exists>d ds a. list_descriptors_for_holding s hid = Inr (d # ds) \<and> a \<in> set (addresses s) \<and>
    unused_candidate s (d_id d) False a \<and>
    (\<forall>b \<in> set (addresses s). unused_candidate s (d_id d) False b \<longrightarrow>
       a_derivation_index a \<le> a_derivation_index b) \<and>
    i_receiving_address i = Some (a_address a) \<and> i_receiving_address_id i = Some (a_id a) \<and>
    i_status i = IS_OPEN \<and> i \<in> set (invoices t) \<and>
    (\<forall>did b. next_unused_address t did False = Inr (Some b) \<longrightarrow> a_id b \<noteq> a_id a)"
proof -
  obtain d ds a where ds: "list_descriptors_for_holding s hid = Inr (d # ds)"
    and a: "next_unused_address s (d_id d) False = Inr (Some a)"
    and i: "i = new_invoice iid now hid amount description a"
    and t: "t = inv_insert i (addresses_update
        (update_rows a_id (a_id a) (\<lambda>a. a\<lparr>a_label := Some label\<rparr>)) s)"
    using create_invoice_effect [OF assms] by blast
  have "a_id a \<in> set (reserved_address_ids t)"
    by (auto simp: reserved_address_ids_iff t inv_insert_def i new_invoice_def)
  then have "\<forall>did b. next_unused_address t did False = Inr (Some b) \<longrightarrow> a_id b \<noteq> a_id a"
    using next_unused_address_SomeD by (fastforce simp: unused_candidate_def)
  then show ?thesis
    using ds next_unused_address_SomeD [OF a] i t
    by (intro exI [of _ d] exI [of _ ds] exI [of _ a]) (simp add: inv_insert_def new_invoice_def)
qed

text \<open>C17. However invoices are created, cancelled and paid, two open invoices never hold the same
  receive address.\<close>

theorem open_invoices_never_share:
  assumes "invoice_step\<^sup>*\<^sup>* s t" "reservation_inv s"
  shows "distinct (reserved_address_ids t)"
  using reservations.inv_run [OF assms] by (simp add: reservation_inv_def)

text \<open>Paying an invoice releases its address: the next invoice is handed the same address, and a
  second payer pays to an address that has been used.  (Nothing records that the address was
  paid: \<^verbatim>\<open>first_seen_height\<close> is never written.)\<close>

theorem paid_invoice_frees_address:
  assumes "create_invoice iid now label hid amount description s = (Inr i, t)"
    and "iid \<notin> i_id ` set (invoices s)"
    and "mark_paid iid eid overpaid t = (Inr (Some j), u)"
    and "list_descriptors_for_holding s hid = Inr (d # ds)"
  shows "\<exists>b. next_unused_address u (d_id d) False = Inr (Some b) \<and>
    i_receiving_address j = Some (a_address b) \<and> i_status j \<noteq> IS_OPEN"
proof -
  obtain a where a: "next_unused_address s (d_id d) False = Inr (Some a)"
    and i: "i = new_invoice iid now hid amount description a"
    and t: "t = inv_insert i (addresses_update
        (update_rows a_id (a_id a) (\<lambda>a. a\<lparr>a_label := Some label\<rparr>)) s)"
    using create_invoice_effect [OF assms(1)] assms(4) by auto
  have u: "u = invoices_update (update_rows i_id iid (paid_row eid overpaid)) t"
    using assms(3) unfolding mark_paid_def by (rule inv_write_effect) (simp add: paid_row_def)
  have old: "update_rows i_id iid (paid_row eid overpaid) (invoices s) = invoices s"
    using assms(2) by (rule update_rows_absent)
  have invs: "invoices u = invoices s @ [paid_row eid overpaid i]"
    using old by (simp add: u t inv_insert_def update_rows_def i new_invoice_def)
  have "set (reserved_address_ids u) = set (reserved_address_ids s)"
    by (auto simp: reserved_address_ids_iff invs paid_row_def split: if_splits)
  then obtain b where b: "next_unused_address u (d_id d) False = Inr (Some b)"
    "a_address b = a_address a"
    using next_unused_address_label [OF a, of u "a_id a" "Some label"] by (auto simp: u t inv_insert_def)
  have "find_row i_id iid (invoices t) = Some i"
    using assms(2) by (auto simp: t inv_insert_def find_row_append find_row_None_iff i new_invoice_def
        split: option.split dest: find_row_SomeD)
  then have "j = paid_row eid overpaid i"
    using assms(3) Invoice_id by (auto simp: mark_paid_def inv_write_def rbind_eq_Inr_iff)
  then show ?thesis
    using b by (auto simp: i paid_row_def new_invoice_def)
qed

end
