(* ===== verification/Sweeps.thy ===== *)
theory Sweeps
  imports Descriptors
begin

text \<open>
  The repositories behind sweeps: providers (\<^verbatim>\<open>repositories/custodial_provider.py\<close>), policies
  (\<^verbatim>\<open>repositories/sweep_policy.py\<close>) and executions (\<^verbatim>\<open>repositories/sweep_execution.py\<close>).  Every
  update of a single row returns the rebuilt dataclass and so runs its checks; the two bulk
  updates of policies do not.
\<close>

section \<open>Custodial provider repository\<close>

definition cp_get :: "db \<Rightarrow> uuid \<Rightarrow> exn + custodial_provider option" where
  "cp_get s pid = row_get CustodialProvider (find_row cp_id pid (custodial_providers s))"

definition cp_get_by_holding_id :: "db \<Rightarrow> uuid \<Rightarrow> exn + custodial_provider option" where
  "cp_get_by_holding_id s hid =
     row_one CustodialProvider (one_or_none (\<lambda>p. cp_holding_id p = hid) (custodial_providers s))"

definition cp_list_active :: "db \<Rightarrow> exn + custodial_provider list" where
  "cp_list_active s = rmap CustodialProvider (filter cp_is_active (custodial_providers s))"

definition cp_create :: "custodial_provider \<Rightarrow> db \<Rightarrow> db" where
  "cp_create p = custodial_providers_update (\<lambda>ps. ps @ [p])"

definition cp_write ::
  "uuid \<Rightarrow> (custodial_provider \<Rightarrow> custodial_provider) \<Rightarrow> custodial_provider option service" where
  "cp_write pid f s =
     (case find_row cp_id pid (custodial_providers s) of
        None \<Rightarrow> (Inr None, s)
      | Some p \<Rightarrow>
          (rbind (CustodialProvider (f p)) (\<lambda>p. Inr (Some p)),
           custodial_providers_update (update_rows cp_id pid f) s))"

definition cp_update_credentials ::
  "timestamp \<Rightarrow> uuid \<Rightarrow> string \<Rightarrow> string \<Rightarrow> string option \<Rightarrow> custodial_provider option service" where
  "cp_update_credentials now pid cred secret pass =
     cp_write pid (\<lambda>p. p\<lparr>cp_api_credential_reference := cred, cp_api_secret_reference := secret,
       cp_api_passphrase_reference := pass, cp_updated_at := now\<rparr>)"

definition cp_update_balance ::
  "timestamp \<Rightarrow> uuid \<Rightarrow> sats \<Rightarrow> timestamp \<Rightarrow> custodial_provider option service" where
  "cp_update_balance now pid balance polled_at =
     cp_write pid (\<lambda>p. p\<lparr>cp_last_known_balance_sats := Some balance,
       cp_last_polled_at := Some polled_at, cp_last_error := None, cp_updated_at := now\<rparr>)"

definition cp_update_error ::
  "timestamp \<Rightarrow> uuid \<Rightarrow> string \<Rightarrow> timestamp \<Rightarrow> custodial_provider option service" where
  "cp_update_error now pid err polled_at =
     cp_write pid (\<lambda>p. p\<lparr>cp_last_error := Some err, cp_last_polled_at := Some polled_at,
       cp_updated_at := now\<rparr>)"

definition cp_set_whitelist_verified ::
  "timestamp \<Rightarrow> uuid \<Rightarrow> bool \<Rightarrow> custodial_provider option service" where
  "cp_set_whitelist_verified now pid v =
     cp_write pid (\<lambda>p. p\<lparr>cp_whitelist_verified := v, cp_updated_at := now\<rparr>)"

definition cp_set_active :: "timestamp \<Rightarrow> uuid \<Rightarrow> bool \<Rightarrow> custodial_provider option service" where
  "cp_set_active now pid v = cp_write pid (\<lambda>p. p\<lparr>cp_is_active := v, cp_updated_at := now\<rparr>)"

definition connection_row ::
  "timestamp \<Rightarrow> string \<Rightarrow> int \<Rightarrow> timestamp \<Rightarrow> string option \<Rightarrow> custodial_provider \<Rightarrow> custodial_provider" where
  "connection_row now status errors polled_at err p =
     p\<lparr>cp_connection_status := status, cp_consecutive_error_count := errors,
       cp_last_polled_at := Some polled_at,
       cp_last_error := (case err of None \<Rightarrow> cp_last_error p | Some e \<Rightarrow> Some e),
       cp_updated_at := now\<rparr>"

definition cp_update_connection_status ::
  "timestamp \<Rightarrow> uuid \<Rightarrow> string \<Rightarrow> int \<Rightarrow> timestamp \<Rightarrow> string option \<Rightarrow> (string \<times> string) option service" where
  "cp_update_connection_status now pid status errors polled_at err s =
     (case find_row cp_id pid (custodial_providers s) of
        None \<Rightarrow> (Inr None, s)
      | Some p \<Rightarrow>
          (Inr (Some (cp_connection_status p, status)),
           custodial_providers_update
             (update_rows cp_id pid (connection_row now status errors polled_at err)) s))"

definition cp_update_ledger_cursor :: "timestamp \<Rightarrow> uuid \<Rightarrow> timestamp \<Rightarrow> db \<Rightarrow> db" where
  "cp_update_ledger_cursor now pid at =
     custodial_providers_update (update_rows cp_id pid
       (\<lambda>p. p\<lparr>cp_ledger_cursor_at := Some at, cp_updated_at := now\<rparr>))"

definition cp_get_ledger_cursor :: "db \<Rightarrow> uuid \<Rightarrow> timestamp option" where
  "cp_get_ledger_cursor s pid =
     (case find_row cp_id pid (custodial_providers s) of None \<Rightarrow> None | Some p \<Rightarrow> cp_ledger_cursor_at p)"

definition cp_update_non_btc_balances ::
  "timestamp \<Rightarrow> uuid \<Rightarrow> (string \<times> string) list \<Rightarrow> db \<Rightarrow> db" where
  "cp_update_non_btc_balances now pid balances =
     custodial_providers_update (update_rows cp_id pid
       (\<lambda>p. p\<lparr>cp_non_btc_balances := balances, cp_updated_at := now\<rparr>))"

definition cp_update_polling_interval ::
  "timestamp \<Rightarrow> uuid \<Rightarrow> int \<Rightarrow> custodial_provider option service" where
  "cp_update_polling_interval now pid n =
     cp_write pid (\<lambda>p. p\<lparr>cp_polling_interval_seconds := n, cp_updated_at := now\<rparr>)"

definition cp_update_observation_key_last_four ::
  "timestamp \<Rightarrow> uuid \<Rightarrow> string option \<Rightarrow> db \<Rightarrow> db" where
  "cp_update_observation_key_last_four now pid last_four =
     custodial_providers_update (update_rows cp_id pid
       (\<lambda>p. p\<lparr>cp_observation_key_last_four := last_four, cp_updated_at := now\<rparr>))"

text \<open>Deleting a provider cascades to its ledger rows.\<close>

definition cp_delete_by_holding_id :: "uuid \<Rightarrow> bool service" where
  "cp_delete_by_holding_id hid s =
     (case one_or_none (\<lambda>p. cp_holding_id p = hid) (custodial_providers s) of
        SelMany \<Rightarrow> (Inl MultipleResultsFound, s)
      | SelNone \<Rightarrow> (Inr False, s)
      | SelOne p \<Rightarrow> (Inr True,
          custodial_ledger_update (delete_where (\<lambda>c. cle_custodial_provider_id c = cp_id p))
            (custodial_providers_update (delete_where (\<lambda>q. cp_id q = cp_id p)) s)))"

section \<open>Sweep policy repository\<close>

definition sp_get :: "db \<Rightarrow> uuid \<Rightarrow> exn + sweep_policy option" where
  "sp_get s pid = row_get SweepPolicy (find_row sp_id pid (sweep_policies s))"

definition list_policies :: "db \<Rightarrow> uuid option \<Rightarrow> bool option \<Rightarrow> exn + sweep_policy list" where
  "list_policies s source enabled =
     rmap SweepPolicy (filter (\<lambda>p. (source = None \<or> source = Some (sp_source_holding_id p)) \<and>
       (enabled = None \<or> enabled = Some (sp_is_enabled p))) (sweep_policies s))"

definition sp_create :: "sweep_policy \<Rightarrow> db \<Rightarrow> db" where
  "sp_create p = sweep_policies_update (\<lambda>ps. ps @ [p])"

record policy_patch =
  pp_name :: "string option"
  pp_trigger_type :: "sweep_trigger_type option"
  pp_trigger_configuration :: "(string \<times> int) list option"
  pp_minimum_balance_sats :: "sats option"
  pp_maximum_per_period_sats :: "sats option"
  pp_requires_user_confirmation :: "bool option"
  pp_is_dry_run :: "bool option"

definition given :: "'a option \<Rightarrow> 'a \<Rightarrow> 'a" where
  "given new old = (case new of None \<Rightarrow> old | Some x \<Rightarrow> x)"

definition patch_policy ::
  "timestamp \<Rightarrow> policy_patch \<Rightarrow> safety_warning list option \<Rightarrow> sweep_policy \<Rightarrow> sweep_policy" where
  "patch_policy now f ws p =
     p\<lparr>sp_name := given (pp_name f) (sp_name p),
       sp_trigger_type := given (pp_trigger_type f) (sp_trigger_type p),
       sp_trigger_configuration := given (pp_trigger_configuration f) (sp_trigger_configuration p),
       sp_minimum_balance_sats := given (pp_minimum_balance_sats f) (sp_minimum_balance_sats p),
       sp_maximum_per_period_sats :=
         (case pp_maximum_per_period_sats f of None \<Rightarrow> sp_maximum_per_period_sats p | Some m \<Rightarrow> Some m),
       sp_requires_user_confirmation :=
         given (pp_requires_user_confirmation f) (sp_requires_user_confirmation p),
       sp_is_dry_run := given (pp_is_dry_run f) (sp_is_dry_run p),
       sp_safety_warnings := given ws (sp_safety_warnings p), sp_updated_at := now\<rparr>"

definition sp_write :: "uuid \<Rightarrow> (sweep_policy \<Rightarrow> sweep_policy) \<Rightarrow> sweep_policy option service" where
  "sp_write pid f s =
     (case find_row sp_id pid (sweep_policies s) of
        None \<Rightarrow> (Inr None, s)
      | Some p \<Rightarrow>
          (rbind (SweepPolicy (f p)) (\<lambda>p. Inr (Some p)),
           sweep_policies_update (update_rows sp_id pid f) s))"

definition update_policy ::
  "timestamp \<Rightarrow> uuid \<Rightarrow> policy_patch \<Rightarrow> safety_warning list option \<Rightarrow> sweep_policy option service" where
  "update_policy now pid f ws = sp_write pid (patch_policy now f ws)"

definition set_enabled :: "timestamp \<Rightarrow> uuid \<Rightarrow> bool \<Rightarrow> sweep_policy option service" where
  "set_enabled now pid b = sp_write pid (\<lambda>p. p\<lparr>sp_is_enabled := b, sp_updated_at := now\<rparr>)"

text \<open>Executions reference their policy with a restricting foreign key.\<close>

definition sp_delete :: "uuid \<Rightarrow> bool service" where
  "sp_delete pid s =
     (case find_row sp_id pid (sweep_policies s) of
        None \<Rightarrow> (Inr False, s)
      | Some _ \<Rightarrow>
          if pid \<in> se_sweep_policy_id ` set (sweep_executions s) then (Inl IntegrityError, s)
          else (Inr True, sweep_policies_update (delete_where (\<lambda>p. sp_id p = pid)) s))"

definition acknowledge :: "safety_warning \<Rightarrow> safety_warning" where
  "acknowledge w = w\<lparr>sw_user_acknowledged := True\<rparr>"

definition acknowledge_all_warnings :: "timestamp \<Rightarrow> uuid \<Rightarrow> sweep_policy option service" where
  "acknowledge_all_warnings now pid =
     sp_write pid (\<lambda>p. p\<lparr>sp_safety_warnings := map acknowledge (sp_safety_warnings p),
       sp_updated_at := now\<rparr>)"

text \<open>The two bulk updates write the column directly and never rebuild a dataclass.\<close>

definition pause_all :: "timestamp \<Rightarrow> nat service" where
  "pause_all now s =
     (Inr (length (filter sp_is_enabled (sweep_policies s))),
      sweep_policies_update (update_where sp_is_enabled
        (\<lambda>p. p\<lparr>sp_is_enabled := False, sp_updated_at := now\<rparr>)) s)"

definition resume_all :: "timestamp \<Rightarrow> nat service" where
  "resume_all now s =
     (Inr (length (filter (\<lambda>p. \<not> sp_is_enabled p) (sweep_policies s))),
      sweep_policies_update (update_where (\<lambda>p. \<not> sp_is_enabled p)
        (\<lambda>p. p\<lparr>sp_is_enabled := True, sp_updated_at := now\<rparr>)) s)"

section \<open>Sweep execution repository\<close>

definition se_get :: "db \<Rightarrow> uuid \<Rightarrow> exn + sweep_execution option" where
  "se_get s eid = row_get SweepExecution (find_row se_id eid (sweep_executions s))"

definition get_by_expected_txid :: "db \<Rightarrow> string \<Rightarrow> exn + sweep_execution option" where
  "get_by_expected_txid s txid =
     row_one SweepExecution
       (one_or_none (\<lambda>e. se_expected_txid e = Some txid) (sweep_executions s))"

definition list_executions ::
  "db \<Rightarrow> uuid option \<Rightarrow> sweep_execution_status option \<Rightarrow> nat \<Rightarrow> exn + sweep_execution list" where
  "list_executions s pid status limit =
     rmap SweepExecution (take limit (sort_key (\<lambda>e. - se_triggered_at e)
       (filter (\<lambda>e. (pid = None \<or> pid = Some (se_sweep_policy_id e)) \<and>
                    (status = None \<or> status = Some (se_status e))) (sweep_executions s))))"

definition se_create :: "sweep_execution \<Rightarrow> db \<Rightarrow> db" where
  "se_create e = sweep_executions_update (\<lambda>es. es @ [e])"

record execution_fields =
  ef_provider_withdrawal_id :: "string option"
  ef_expected_txid :: "string option"
  ef_confirmed_txid :: "string option"
  ef_error_message :: "string option"
  ef_completed_at :: "timestamp option"

definition no_fields :: execution_fields where
  "no_fields = \<lparr>ef_provider_withdrawal_id = None, ef_expected_txid = None,
     ef_confirmed_txid = None, ef_error_message = None, ef_completed_at = None\<rparr>"

definition or_old :: "'a option \<Rightarrow> 'a option \<Rightarrow> 'a option" where
  "or_old new old = (case new of None \<Rightarrow> old | Some x \<Rightarrow> Some x)"

definition status_row ::
  "sweep_execution_status \<Rightarrow> execution_fields \<Rightarrow> sweep_execution \<Rightarrow> sweep_execution" where
  "status_row status f e =
     e\<lparr>se_status := status,
       se_provider_withdrawal_id := or_old (ef_provider_withdrawal_id f) (se_provider_withdrawal_id e),
       se_expected_txid := or_old (ef_expected_txid f) (se_expected_txid e),
       se_confirmed_txid := or_old (ef_confirmed_txid f) (se_confirmed_txid e),
       se_error_message := or_old (ef_error_message f) (se_error_message e),
       se_completed_at := or_old (ef_completed_at f) (se_completed_at e)\<rparr>"

definition update_status ::
  "uuid \<Rightarrow> sweep_execution_status \<Rightarrow> execution_fields \<Rightarrow> sweep_execution option service" where
  "update_status eid status f s =
     (case find_row se_id eid (sweep_executions s) of
        None \<Rightarrow> (Inr None, s)
      | Some e \<Rightarrow>
          (rbind (SweepExecution (status_row status f e)) (\<lambda>e. Inr (Some e)),
           sweep_executions_update (update_rows se_id eid (status_row status f)) s))"

end
