(* ===== verification/Treasury.thy ===== *)
theory Treasury
  imports Sweeps Amounts
begin

text \<open>
  Sweep policies: the safety validator and the policy and execution operations of
  \<^verbatim>\<open>services/treasury_service.py\<close>, their handlers in \<^verbatim>\<open>api/v1/treasury.py\<close>, and the threshold
  engine \<^verbatim>\<open>workers/subscribers/sweep_engine.py\<close>.

  The operations on providers, and the manual execution of a policy, are in \<open>Custody\<close>.

  The lemmas show that a policy can be enabled only with every warning acknowledged, that
  acknowledgements survive an update exactly for unchanged warnings, what the engine sweeps and
  what it leaves, and that resuming all policies at once breaks the rule the single operations
  keep.
\<close>

section \<open>Safety validator\<close>

definition em_dash :: string where
  "em_dash = [CHR 0xE2, CHR 0x80, CHR 0x94]"

definition was_acknowledged ::
  "safety_warning list \<Rightarrow> safety_warning_kind \<Rightarrow> string \<Rightarrow> bool" where
  "was_acknowledged existing kind msg =
     (case map_of (rev (map (\<lambda>w. ((sw_kind w, sw_message w), sw_user_acknowledged w)) existing))
        (kind, msg) of None \<Rightarrow> False | Some b \<Rightarrow> b)"

definition warn ::
  "safety_warning list \<Rightarrow> safety_warning_kind \<Rightarrow> safety_warning_severity \<Rightarrow> string \<Rightarrow> safety_warning" where
  "warn existing kind sev msg =
     \<lparr>sw_kind = kind, sw_severity = sev, sw_message = msg,
      sw_user_acknowledged = was_acknowledged existing kind msg\<rparr>"

definition msg_keys_on_host :: string where
  "msg_keys_on_host = ''Destination Holding is a Purse '' @ em_dash @
     '' signing keys may live on the same host as the app.''"

definition msg_custodial :: string where
  "msg_custodial = ''Destination Holding is an Account (custodial) '' @ em_dash @
     '' this defeats the minimum-exposure principle.''"

definition msg_same_tier :: "signing_model \<Rightarrow> string" where
  "msg_same_tier m = ''Source and destination both declare '' @ signing_model_value m @
     '' signing '' @ em_dash @ '' no security tier upgrade.''"

definition msg_no_cap :: string where
  "msg_no_cap = ''No maximum_per_period_sats cap is set '' @ em_dash @ '' sweeps are unbounded.''"

definition msg_whitelist :: "string \<Rightarrow> string" where
  "msg_whitelist provider = ''The withdrawal whitelist for '' @ provider @
     '' could not be verified via the provider's API. Confirm it is configured manually.''"

definition compute_safety_warnings ::
  "holding \<Rightarrow> holding \<Rightarrow> sats option \<Rightarrow> custodial_provider option \<Rightarrow> safety_warning list \<Rightarrow>
   safety_warning list" where
  "compute_safety_warnings source destination cap provider existing =
     (let src_tier = sc_signing_model (h_declared_security source);
          dst_tier = sc_signing_model (h_declared_security destination) in
      (if h_holding_type destination = HT_PURSE
       then [warn existing SWK_DESTINATION_KEYS_ON_HOST SWS_HIGH msg_keys_on_host] else []) @
      (if h_holding_type destination = HT_ACCOUNT
       then [warn existing SWK_DESTINATION_IS_CUSTODIAL SWS_HIGH msg_custodial] else []) @
      (if src_tier = dst_tier \<and> src_tier \<noteq> SM_NOT_APPLICABLE
       then [warn existing SWK_SOURCE_AND_DESTINATION_SAME_SECURITY_TIER SWS_MEDIUM
               (msg_same_tier src_tier)] else []) @
      (if cap = None then [warn existing SWK_NO_MAXIMUM_CAP_SET SWS_MEDIUM msg_no_cap] else []) @
      (case provider of
         None \<Rightarrow> []
       | Some p \<Rightarrow>
           if h_holding_type source = HT_ACCOUNT \<and> \<not> cp_whitelist_verified p
           then [warn existing SWK_UNVERIFIED_WHITELIST_ON_PROVIDER SWS_HIGH
                   (msg_whitelist (cp_display_name p))] else []))"

section \<open>Policies\<close>

text \<open>\<^verbatim>\<open>source.holding_type == ACCOUNT and source.custodial_provider_id\<close> selects the provider.\<close>

definition source_provider :: "db \<Rightarrow> holding \<Rightarrow> exn + custodial_provider option" where
  "source_provider s h =
     (case (h_holding_type h, h_custodial_provider_id h) of
        (HT_ACCOUNT, Some pid) \<Rightarrow> cp_get s pid
      | _ \<Rightarrow> Inr None)"

record policy_order =
  so_name :: string
  so_source_holding_id :: uuid
  so_destination_holding_id :: uuid
  so_trigger_type :: sweep_trigger_type
  so_trigger_configuration :: "(string \<times> int) list"
  so_minimum_balance_sats :: sats
  so_maximum_per_period_sats :: "sats option"
  so_requires_user_confirmation :: bool
  so_is_dry_run :: bool

definition new_policy ::
  "uuid \<Rightarrow> timestamp \<Rightarrow> policy_order \<Rightarrow> safety_warning list \<Rightarrow> sweep_policy" where
  "new_policy pid now so ws =
     \<lparr>sp_id = pid, sp_name = so_name so, sp_source_holding_id = so_source_holding_id so,
      sp_destination_holding_id = so_destination_holding_id so, sp_is_enabled = False,
      sp_trigger_type = so_trigger_type so,
      sp_trigger_configuration = so_trigger_configuration so,
      sp_minimum_balance_sats = so_minimum_balance_sats so,
      sp_maximum_per_period_sats = so_maximum_per_period_sats so,
      sp_requires_user_confirmation = so_requires_user_confirmation so,
      sp_is_dry_run = so_is_dry_run so, sp_safety_warnings = ws, sp_last_executed_at = None,
      sp_last_result_summary = None, sp_created_at = now, sp_updated_at = now\<rparr>"

definition found_or :: "'a option \<Rightarrow> exn \<Rightarrow> 'a service" where
  "found_or x e = (case x of None \<Rightarrow> raise e | Some y \<Rightarrow> ret y)"

definition create_sweep_policy ::
  "uuid \<Rightarrow> timestamp \<Rightarrow> policy_order \<Rightarrow> sweep_policy service" where
  "create_sweep_policy pid now so =
     bnd (readr (\<lambda>s. get_holding s (so_source_holding_id so))) (\<lambda>src.
     bnd (found_or src TreasuryServiceError) (\<lambda>source.
     bnd (readr (\<lambda>s. get_holding s (so_destination_holding_id so))) (\<lambda>dst.
     bnd (found_or dst TreasuryServiceError) (\<lambda>destination.
     bnd (raise_if (so_source_holding_id so = so_destination_holding_id so) TreasuryServiceError) (\<lambda>_.
     bnd (readr (\<lambda>s. source_provider s source)) (\<lambda>provider.
     bnd (lift_result (SweepPolicy (new_policy pid now so
            (compute_safety_warnings source destination (so_maximum_per_period_sats so) provider [])))) (\<lambda>policy.
     bnd (modify (sp_create policy)) (\<lambda>_. ret policy))))))))"

definition get_sweep_policy :: "uuid \<Rightarrow> sweep_policy service" where
  "get_sweep_policy pid = bnd (readr (\<lambda>s. sp_get s pid)) (\<lambda>p. found_or p PolicyNotFound)"

definition revalidates :: "policy_patch \<Rightarrow> bool" where
  "revalidates f \<longleftrightarrow> pp_trigger_type f \<noteq> None \<or> pp_trigger_configuration f \<noteq> None \<or>
     pp_minimum_balance_sats f \<noteq> None \<or> pp_maximum_per_period_sats f \<noteq> None \<or> pp_is_dry_run f \<noteq> None"

definition new_warnings :: "policy_patch \<Rightarrow> sweep_policy \<Rightarrow> db \<Rightarrow> exn + safety_warning list option" where
  "new_warnings f policy s =
     (if \<not> revalidates f then Inr None
      else
      rbind (get_holding s (sp_source_holding_id policy)) (\<lambda>src.
      rbind (get_holding s (sp_destination_holding_id policy)) (\<lambda>dst.
      case (src, dst) of
        (Some source, Some destination) \<Rightarrow>
          rbind (source_provider s source) (\<lambda>provider.
          Inr (Some (compute_safety_warnings source destination
            (or_old (pp_maximum_per_period_sats f) (sp_maximum_per_period_sats policy))
            provider (sp_safety_warnings policy))))
      | _ \<Rightarrow> Inr (Some (sp_safety_warnings policy)))))"

text \<open>\<^verbatim>\<open>updated or policy\<close>.\<close>

definition or_else :: "'a option \<Rightarrow> 'a \<Rightarrow> 'a" where
  "or_else x y = (case x of None \<Rightarrow> y | Some z \<Rightarrow> z)"

definition update_sweep_policy :: "timestamp \<Rightarrow> uuid \<Rightarrow> policy_patch \<Rightarrow> sweep_policy service" where
  "update_sweep_policy now pid f =
     bnd (get_sweep_policy pid) (\<lambda>policy.
     bnd (readr (new_warnings f policy)) (\<lambda>ws.
     bnd (update_policy now pid f ws) (\<lambda>updated. ret (or_else updated policy))))"

definition delete_sweep_policy :: "uuid \<Rightarrow> unit service" where
  "delete_sweep_policy pid =
     bnd (get_sweep_policy pid) (\<lambda>policy.
     bnd (raise_if (sp_is_enabled policy) TreasuryServiceError) (\<lambda>_.
     bnd (sp_delete pid) (\<lambda>_. ret ())))"

definition enable_sweep_policy :: "timestamp \<Rightarrow> uuid \<Rightarrow> sweep_policy service" where
  "enable_sweep_policy now pid =
     bnd (get_sweep_policy pid) (\<lambda>policy.
     bnd (raise_if (unacked (sp_safety_warnings policy) \<noteq> []) PolicyHasUnacknowledgedWarnings) (\<lambda>_.
     bnd (set_enabled now pid True) (\<lambda>updated. ret (or_else updated policy))))"

definition disable_sweep_policy :: "timestamp \<Rightarrow> uuid \<Rightarrow> sweep_policy service" where
  "disable_sweep_policy now pid =
     bnd (get_sweep_policy pid) (\<lambda>policy.
     bnd (set_enabled now pid False) (\<lambda>updated. ret (or_else updated policy)))"

definition acknowledge_warnings :: "timestamp \<Rightarrow> uuid \<Rightarrow> sweep_policy service" where
  "acknowledge_warnings now pid =
     bnd (get_sweep_policy pid) (\<lambda>_.
     bnd (acknowledge_all_warnings now pid) (\<lambda>updated. found_or updated PolicyNotFound))"

section \<open>Executions\<close>

definition get_sweep_execution :: "uuid \<Rightarrow> sweep_execution service" where
  "get_sweep_execution eid = bnd (readr (\<lambda>s. se_get s eid)) (\<lambda>e. found_or e ExecutionNotFound)"

definition confirm_sweep_execution :: "uuid \<Rightarrow> sweep_execution service" where
  "confirm_sweep_execution eid =
     bnd (get_sweep_execution eid) (\<lambda>execution.
     bnd (raise_if (se_status execution \<noteq> SES_AWAITING_USER_CONFIRMATION) WrongExecutionStatus) (\<lambda>_.
     bnd (update_status eid SES_REQUESTED no_fields) (\<lambda>updated. ret (or_else updated execution))))"

text \<open>The amount a policy may move at a balance: all but the minimum, at most the cap.\<close>

definition policy_sweep_amount :: "sweep_policy \<Rightarrow> sats \<Rightarrow> sats" where
  "policy_sweep_amount p balance =
     (case sp_maximum_per_period_sats p of
        None \<Rightarrow> balance - sp_minimum_balance_sats p
      | Some cap \<Rightarrow> min (balance - sp_minimum_balance_sats p) cap)"

definition new_execution ::
  "uuid \<Rightarrow> timestamp \<Rightarrow> uuid \<Rightarrow> sweep_trigger_type \<Rightarrow> sats \<Rightarrow> sats \<Rightarrow> sweep_execution_status \<Rightarrow> sweep_execution" where
  "new_execution eid now pid trigger balance amount status =
     \<lparr>se_id = eid, se_sweep_policy_id = pid, se_triggered_at = now, se_trigger_source = trigger,
      se_pre_balance_sats = balance, se_intended_amount_sats = amount, se_status = status,
      se_provider_withdrawal_id = None, se_expected_txid = None, se_confirmed_txid = None,
      se_error_message = None, se_completed_at = None\<rparr>"

section \<open>The threshold engine\<close>

definition threshold_of :: "sweep_policy \<Rightarrow> sats" where
  "threshold_of p = (case map_of (sp_trigger_configuration p) ''threshold_sats'' of None \<Rightarrow> 0 | Some t \<Rightarrow> t)"

definition fires :: "sweep_policy \<Rightarrow> sats \<Rightarrow> bool" where
  "fires p balance \<longleftrightarrow> sp_trigger_type p = TRG_THRESHOLD \<and> \<not> balance \<le> threshold_of p \<and>
     \<not> policy_sweep_amount p balance \<le> 0"

definition process_policy ::
  "uuid \<Rightarrow> timestamp \<Rightarrow> sats \<Rightarrow> sweep_policy \<Rightarrow> unit service" where
  "process_policy eid now balance p =
     (if \<not> fires p balance then ret ()
      else
        bnd (lift_result (SweepExecution (new_execution eid now (sp_id p) TRG_THRESHOLD balance
               (policy_sweep_amount p balance)
               (if sp_requires_user_confirmation p then SES_AWAITING_USER_CONFIRMATION
                else SES_REQUESTED)))) (\<lambda>execution.
        bnd (modify (se_create execution)) (\<lambda>_.
        if sp_is_dry_run p
        then bnd (update_status eid SES_COMPLETED (no_fields\<lparr>ef_completed_at := Some now\<rparr>)) (\<lambda>_. ret ())
        else ret ())))"

fun process_policies ::
  "(uuid \<Rightarrow> uuid) \<Rightarrow> timestamp \<Rightarrow> sats \<Rightarrow> sweep_policy list \<Rightarrow> unit service" where
  "process_policies eids now balance [] s = (Inr (), s)"
| "process_policies eids now balance (p # ps) s =
     bnd (process_policy (eids (sp_id p)) now balance p)
       (\<lambda>_. process_policies eids now balance ps) s"

definition process_threshold_policies ::
  "(uuid \<Rightarrow> uuid) \<Rightarrow> timestamp \<Rightarrow> uuid \<Rightarrow> sats \<Rightarrow> unit service" where
  "process_threshold_policies eids now source balance =
     bnd (readr (\<lambda>s. list_policies s (Some source) (Some True))) (process_policies eids now balance)"

text \<open>The subscriber commits on success and logs any exception; the payload may be malformed.\<close>

definition on_balance_updated ::
  "(uuid \<Rightarrow> uuid) \<Rightarrow> timestamp \<Rightarrow> uuid option \<Rightarrow> sats option \<Rightarrow> db \<Rightarrow> db" where
  "on_balance_updated eids now holding_id balance s =
     (case (holding_id, balance) of
        (Some hid, Some b) \<Rightarrow> snd (commit_on_success (process_threshold_policies eids now hid b) s)
      | _ \<Rightarrow> s)"

section \<open>Effects\<close>

lemma bnd_found_or [svc_defs]:
  "bnd (found_or x e) f s = (case x of None \<Rightarrow> (Inl e, s) | Some y \<Rightarrow> f y s)"
  by (simp add: found_or_def bnd_def ret_def raise_def split: option.split)

lemma found_or_apply [svc_defs]:
  "found_or x e s = (case x of None \<Rightarrow> Inl e | Some y \<Rightarrow> Inr y, s)"
  by (simp add: found_or_def ret_def raise_def split: option.split)

lemma sp_get_Some_iff:
  "sp_get s pid = Inr (Some p) \<longleftrightarrow>
     find_row sp_id pid (sweep_policies s) = Some p \<and> SweepPolicy p = Inr p"
  by (auto simp: sp_get_def row_get_def rbind_eq_Inr_iff dest: SweepPolicy_id split: option.splits)

lemma get_sweep_policy_Inr:
  assumes "bnd (get_sweep_policy pid) k s = (Inr x, t)"
  obtains p where "find_row sp_id pid (sweep_policies s) = Some p" "SweepPolicy p = Inr p"
    "k p s = (Inr x, t)"
proof -
  obtain p u where p: "get_sweep_policy pid s = (Inr p, u)" "k p u = (Inr x, t)"
    using assms by (auto simp: bnd_eq_Inr_iff)
  then have "sp_get s pid = Inr (Some p)" "u = s"
    by (auto simp: get_sweep_policy_def svc_defs split: sum.splits option.splits)
  then show thesis using p that by (simp add: sp_get_Some_iff)
qed

lemma sp_write_Inr:
  assumes "sp_write pid f s = (Inr q, t)" "find_row sp_id pid (sweep_policies s) = Some p"
  shows "SweepPolicy (f p) = Inr (f p) \<and> q = Some (f p) \<and>
    t = sweep_policies_update (update_rows sp_id pid f) s"
  using assms by (auto simp: sp_write_def rbind_eq_Inr_iff dest: SweepPolicy_id)

section \<open>The policy invariant\<close>

definition policy_inv :: "db \<Rightarrow> bool" where
  "policy_inv s \<longleftrightarrow> distinct (map sp_id (sweep_policies s)) \<and>
     (\<forall>p \<in> set (sweep_policies s). SweepPolicy p = Inr p)"

declare policy_inv_def [inv_defs]

lemma policy_inv_write:
  assumes inv: "policy_inv s" and row: "find_row sp_id pid (sweep_policies s) = Some p"
    and ok: "SweepPolicy (f p) = Inr (f p)" and key: "\<And>p. sp_id (f p) = sp_id p"
  shows "policy_inv (sweep_policies_update (update_rows sp_id pid f) s)"
proof -
  have "q = p" if "q \<in> set (sweep_policies s)" "sp_id q = pid" for q
  proof -
    have "find_row sp_id (sp_id q) (sweep_policies s) = Some q"
      using inv that(1) unfolding policy_inv_def by (intro find_row_in) simp_all
    then show ?thesis using row that(2) by simp
  qed
  then show ?thesis
    using inv ok key by (auto simp: policy_inv_def map_key_update_rows set_update_rows)
qed

lemma policy_inv_sp_write:
  assumes inv: "policy_inv s" and w: "sp_write pid f s = (Inr q, t)"
    and key: "\<And>p. sp_id (f p) = sp_id p"
  shows "policy_inv t"
proof (cases "find_row sp_id pid (sweep_policies s)")
  case None
  then show ?thesis using w inv by (simp add: sp_write_def)
next
  case (Some p)
  then show ?thesis
    using sp_write_Inr [OF w Some] policy_inv_write [OF inv Some, of f] key by simp
qed

lemma create_policy_effect:
  assumes "create_sweep_policy pid now so s = (Inr p, t)"
  shows "t = sp_create p s \<and> SweepPolicy p = Inr p \<and> sp_id p = pid \<and> \<not> sp_is_enabled p"
proof -
  obtain ws where "SweepPolicy (new_policy pid now so ws) = Inr p" "t = sp_create p s"
    using assms
    by (auto simp: create_sweep_policy_def svc_defs split: sum.splits option.splits if_splits)
  moreover from this have "p = new_policy pid now so ws" by (auto dest: SweepPolicy_id)
  ultimately show ?thesis by (simp add: new_policy_def)
qed

text \<open>The policy operations as steps of one database, each behind its handler's commit.  The bulk
  resume is not among them.\<close>

inductive policy_step :: "db \<Rightarrow> db \<Rightarrow> bool" where
  create: "pid \<notin> sp_id ` set (sweep_policies s) \<Longrightarrow>
    commit_on_success (create_sweep_policy pid now so) s = (r, t) \<Longrightarrow> policy_step s t"
| update: "commit_on_success (update_sweep_policy now pid f) s = (r, t) \<Longrightarrow> policy_step s t"
| delete: "commit_on_success (delete_sweep_policy pid) s = (r', t) \<Longrightarrow> policy_step s t"
| enable: "commit_on_success (enable_sweep_policy now pid) s = (r, t) \<Longrightarrow> policy_step s t"
| disable: "commit_on_success (disable_sweep_policy now pid) s = (r, t) \<Longrightarrow> policy_step s t"
| acknowledge: "commit_on_success (acknowledge_warnings now pid) s = (r, t) \<Longrightarrow> policy_step s t"
| pause: "pause_all now s = (r'', t) \<Longrightarrow> policy_step s t"

inductive_cases policy_stepE: "policy_step s t"

lemma commit_cases:
  assumes "commit_on_success m s = (r, t)"
  obtains "t = s" | x where "m s = (Inr x, t)"
  using assms by (cases r) (auto simp: commit_on_success_Inr_iff dest: commit_on_success_InlD)

lemma create_keeps_policy_inv:
  assumes "policy_inv s" "pid \<notin> sp_id ` set (sweep_policies s)"
    "create_sweep_policy pid now so s = (Inr p, t)"
  shows "policy_inv t"
  using assms create_policy_effect [OF assms(3)] by (auto simp: policy_inv_def sp_create_def)

lemma update_keeps_policy_inv:
  assumes "policy_inv s" "update_sweep_policy now pid f s = (Inr x, t)"
  shows "policy_inv t"
proof -
  obtain p where "bnd (readr (new_warnings f p)) (\<lambda>ws. bnd (update_policy now pid f ws)
      (\<lambda>updated. ret (or_else updated p))) s = (Inr x, t)"
    using assms(2) unfolding update_sweep_policy_def by (elim get_sweep_policy_Inr)
  then obtain ws where "bnd (update_policy now pid f ws) (\<lambda>updated. ret (or_else updated p)) s = (Inr x, t)"
    by (auto simp: svc_defs split: sum.splits)
  then obtain u where "sp_write pid (patch_policy now f ws) s = (Inr u, t)"
    unfolding update_policy_def by (auto dest: bnd_ret_Inr)
  with assms(1) show ?thesis
    by (rule policy_inv_sp_write) (simp add: patch_policy_def)
qed

lemma enable_keeps_policy_inv:
  assumes "policy_inv s"
    and "enable_sweep_policy now pid s = (Inr x, t) \<or> disable_sweep_policy now pid s = (Inr x, t)"
  shows "policy_inv t"
proof -
  obtain p b where "bnd (set_enabled now pid b) (\<lambda>updated. ret (or_else updated p)) s = (Inr x, t)"
    using assms(2) unfolding enable_sweep_policy_def disable_sweep_policy_def
    by (auto elim!: get_sweep_policy_Inr simp: svc_defs split: if_splits)
  then obtain u where "sp_write pid (\<lambda>p. p\<lparr>sp_is_enabled := b, sp_updated_at := now\<rparr>) s = (Inr u, t)"
    unfolding set_enabled_def by (auto dest: bnd_ret_Inr)
  with assms(1) show ?thesis by (rule policy_inv_sp_write) simp
qed

lemma acknowledge_keeps_policy_inv:
  assumes "policy_inv s" "acknowledge_warnings now pid s = (Inr x, t)"
  shows "policy_inv t"
proof -
  have "bnd (acknowledge_all_warnings now pid) (\<lambda>u. found_or u PolicyNotFound) s = (Inr x, t)"
    using assms(2) unfolding acknowledge_warnings_def by (auto elim: get_sweep_policy_Inr)
  then obtain u where "acknowledge_all_warnings now pid s = (Inr u, t)"
    by (auto simp: bnd_eq_Inr_iff svc_defs)
  with assms(1) show ?thesis
    unfolding acknowledge_all_warnings_def by (rule policy_inv_sp_write) simp
qed

lemma delete_keeps_policy_inv:
  assumes "policy_inv s" "delete_sweep_policy pid s = (Inr x, t)"
  shows "policy_inv t"
proof -
  have "bnd (sp_delete pid) (\<lambda>_. ret ()) s = (Inr x, t)"
    using assms(2) unfolding delete_sweep_policy_def
    by (auto elim!: get_sweep_policy_Inr simp: svc_defs split: if_splits)
  then have "t = s \<or> t = sweep_policies_update (delete_where (\<lambda>p. sp_id p = pid)) s"
    by (auto simp: bnd_eq_Inr_iff sp_delete_def svc_defs split: option.splits if_splits)
  then show ?thesis
    using assms(1) by (auto simp: policy_inv_def delete_where_def distinct_map_filter)
qed

lemma pause_keeps_policy_inv:
  assumes "policy_inv s" "pause_all now s = (r, t)"
  shows "policy_inv t"
  using assms
  by (auto simp: pause_all_def policy_inv_def map_key_update_where set_update_where SweepPolicy_Inr_iff)

lemma policy_step_keeps: "policy_inv s \<Longrightarrow> policy_step s t \<Longrightarrow> policy_inv t"
  by (erule policy_stepE)
     (auto elim!: commit_cases intro: create_keeps_policy_inv update_keeps_policy_inv
       delete_keeps_policy_inv enable_keeps_policy_inv acknowledge_keeps_policy_inv
       pause_keeps_policy_inv)

interpretation policies: invariant_system policy_step policy_inv
  by unfold_locales (rule policy_step_keeps)

section \<open>The engine\<close>

lemma sweep_amount_bounds:
  "policy_sweep_amount p b \<le> b - sp_minimum_balance_sats p"
  "sp_maximum_per_period_sats p = Some cap \<Longrightarrow> policy_sweep_amount p b \<le> cap"
  by (auto simp: policy_sweep_amount_def split: option.split)

text \<open>The row the engine leaves for a policy that fires.\<close>

definition engine_row :: "(uuid \<Rightarrow> uuid) \<Rightarrow> timestamp \<Rightarrow> sats \<Rightarrow> sweep_policy \<Rightarrow> sweep_execution" where
  "engine_row eids now b p =
     (let e = new_execution (eids (sp_id p)) now (sp_id p) TRG_THRESHOLD b (policy_sweep_amount p b)
          (if sp_requires_user_confirmation p then SES_AWAITING_USER_CONFIRMATION else SES_REQUESTED)
      in if sp_is_dry_run p then e\<lparr>se_status := SES_COMPLETED, se_completed_at := Some now\<rparr> else e)"

lemma process_policy_eq:
  assumes "0 \<le> b" "eids (sp_id p) \<notin> se_id ` set (sweep_executions s)"
  shows "process_policy (eids (sp_id p)) now b p s =
    (Inr (), if fires p b then sweep_executions_update (\<lambda>es. es @ [engine_row eids now b p]) s else s)"
proof (cases "fires p b")
  case False
  then show ?thesis by (simp add: process_policy_def svc_defs)
next
  case True
  define e where "e = new_execution (eids (sp_id p)) now (sp_id p) TRG_THRESHOLD b (policy_sweep_amount p b)
          (if sp_requires_user_confirmation p then SES_AWAITING_USER_CONFIRMATION else SES_REQUESTED)"
  have valid: "SweepExecution e = Inr e"
    using True assms(1) by (auto simp: SweepExecution_Inr_iff e_def new_execution_def fires_def)
  have key: "se_id e = eids (sp_id p)" by (simp add: e_def new_execution_def)
  have find: "find_row se_id (eids (sp_id p)) (sweep_executions (se_create e s)) = Some e"
    using assms(2) [folded find_row_None_iff] by (simp add: se_create_def find_row_append key)
  have upd: "update_rows se_id (eids (sp_id p)) f (sweep_executions s @ [e]) = sweep_executions s @ [f e]" for f
    using update_rows_absent [OF assms(2), of f] by (simp add: update_rows_def key)
  have row: "engine_row eids now b p =
      (if sp_is_dry_run p then status_row SES_COMPLETED (no_fields\<lparr>ef_completed_at := Some now\<rparr>) e else e)"
    by (simp add: engine_row_def Let_def e_def status_row_def no_fields_def or_old_def new_execution_def)
  have "sweep_executions_update (update_rows se_id (eids (sp_id p)) f) (se_create e s) =
      sweep_executions_update (\<lambda>es. es @ [f e]) s" for f
    using upd [of f] by (cases s) (simp add: se_create_def)
  moreover have "\<exists>x. SweepExecution (status_row SES_COMPLETED (no_fields\<lparr>ef_completed_at := Some now\<rparr>) e) = Inr x"
    using valid by (simp add: SweepExecution_Inr_iff status_row_def)
  ultimately show ?thesis
    using True valid find
    by (auto simp: process_policy_def svc_defs e_def [symmetric] row bnd_def update_status_def)
       (simp add: se_create_def)
qed

lemma process_policies_eq:
  assumes "0 \<le> b" "distinct (map sp_id ps)" "inj eids"
    "\<And>p. p \<in> set ps \<Longrightarrow> eids (sp_id p) \<notin> se_id ` set (sweep_executions s)"
  shows "process_policies eids now b ps s =
    (Inr (), sweep_executions_update
       (\<lambda>es. es @ map (engine_row eids now b) (filter (\<lambda>p. fires p b) ps)) s)"
  using assms
proof (induction ps arbitrary: s)
  case Nil
  then show ?case by simp
next
  case (Cons p ps)
  let ?s = "if fires p b then sweep_executions_update (\<lambda>es. es @ [engine_row eids now b p]) s else s"
  have id: "se_id (engine_row eids now b p) = eids (sp_id p)"
    by (simp add: engine_row_def Let_def new_execution_def)
  have first: "process_policy (eids (sp_id p)) now b p s = (Inr (), ?s)"
    using Cons.prems by (intro process_policy_eq) simp_all
  have "eids (sp_id q) \<notin> se_id ` set (sweep_executions ?s)" if "q \<in> set ps" for q
  proof -
    have "sp_id q \<noteq> sp_id p" using Cons.prems(2) that by (auto simp: rev_image_eqI)
    then have "eids (sp_id q) \<noteq> eids (sp_id p)" using Cons.prems(3) by (auto dest: injD)
    then show ?thesis using Cons.prems(4) [of q] that by (auto simp: id)
  qed
  then have "process_policies eids now b ps ?s = (Inr (), sweep_executions_update
       (\<lambda>es. es @ map (engine_row eids now b) (filter (\<lambda>p. fires p b) ps)) ?s)"
    using Cons.prems by (intro Cons.IH) simp_all
  then show ?case using first by (cases s) auto
qed

lemma last_occurrence:
  "map_of (rev (map (\<lambda>w. (key w, val w)) ws)) k = Some True \<longleftrightarrow>
     (\<exists>xs v ys. ws = xs @ v # ys \<and> key v = k \<and> val v \<and> (\<forall>u \<in> set ys. key u \<noteq> k))"
proof (induction ws rule: rev_induct)
  case Nil
  then show ?case by simp
next
  case (snoc w ws)
  show ?case
  proof (cases "key w = k")
    case True
    show ?thesis
    proof
      assume "map_of (rev (map (\<lambda>w. (key w, val w)) (ws @ [w]))) k = Some True"
      then have "val w" using True by simp
      then show "\<exists>xs v ys. ws @ [w] = xs @ v # ys \<and> key v = k \<and> val v \<and> (\<forall>u \<in> set ys. key u \<noteq> k)"
        using True by (intro exI [of _ ws] exI [of _ w] exI [of _ "[]"]) simp
    next
      assume "\<exists>xs v ys. ws @ [w] = xs @ v # ys \<and> key v = k \<and> val v \<and> (\<forall>u \<in> set ys. key u \<noteq> k)"
      then obtain xs v ys where *: "ws @ [w] = xs @ v # ys" "val v" "\<forall>u \<in> set ys. key u \<noteq> k"
        by blast
      have "ys = []"
      proof (rule ccontr)
        assume "ys \<noteq> []"
        then have "last ys = w" using *(1) by (metis last_ConsR last_appendR last_snoc list.distinct(1))
        then show False using *(3) True \<open>ys \<noteq> []\<close> by (metis last_in_set)
      qed
      then show "map_of (rev (map (\<lambda>w. (key w, val w)) (ws @ [w]))) k = Some True"
        using * True by simp
    qed
  next
    case False
    have "(\<exists>xs v ys. ws @ [w] = xs @ v # ys \<and> key v = k \<and> val v \<and> (\<forall>u \<in> set ys. key u \<noteq> k)) \<longleftrightarrow>
        (\<exists>xs v ys. ws = xs @ v # ys \<and> key v = k \<and> val v \<and> (\<forall>u \<in> set ys. key u \<noteq> k))"
    proof
      assume "\<exists>xs v ys. ws @ [w] = xs @ v # ys \<and> key v = k \<and> val v \<and> (\<forall>u \<in> set ys. key u \<noteq> k)"
      then obtain xs v ys where *: "ws @ [w] = xs @ v # ys" "key v = k" "val v" "\<forall>u \<in> set ys. key u \<noteq> k"
        by blast
      then have "ys \<noteq> []" using False by auto
      then obtain zs where "ys = zs @ [w]" using *(1) by (metis append_butlast_last_id last_ConsR last_appendR last_snoc list.distinct(1))
      then show "\<exists>xs v ys. ws = xs @ v # ys \<and> key v = k \<and> val v \<and> (\<forall>u \<in> set ys. key u \<noteq> k)"
        using * by (intro exI [of _ xs] exI [of _ v] exI [of _ zs]) simp
    next
      assume "\<exists>xs v ys. ws = xs @ v # ys \<and> key v = k \<and> val v \<and> (\<forall>u \<in> set ys. key u \<noteq> k)"
      then obtain xs v ys where "ws = xs @ v # ys" "key v = k" "val v" "\<forall>u \<in> set ys. key u \<noteq> k"
        by blast
      then show "\<exists>xs v ys. ws @ [w] = xs @ v # ys \<and> key v = k \<and> val v \<and> (\<forall>u \<in> set ys. key u \<noteq> k)"
        using False by (intro exI [of _ xs] exI [of _ v] exI [of _ "ys @ [w]"]) simp
    qed
    then show ?thesis using snoc False by simp
  qed
qed

lemma on_balance_updated_eq:
  assumes "policy_inv s" "0 \<le> b" "inj eids" "\<forall>p \<in> set (sweep_policies s). eids (sp_id p) \<notin> se_id ` set (sweep_executions s)"
  shows "on_balance_updated eids now (Some hid) (Some b) s =
    sweep_executions_update (\<lambda>es. es @ map (engine_row eids now b)
      (filter (\<lambda>p. sp_source_holding_id p = hid \<and> sp_is_enabled p \<and> fires p b) (sweep_policies s))) s"
proof -
  let ?ps = "filter (\<lambda>p. hid = sp_source_holding_id p \<and> sp_is_enabled p) (sweep_policies s)"
  have "list_policies s (Some hid) (Some True) = Inr ?ps"
    using assms(1) rmap_all_Inr [of ?ps SweepPolicy "\<lambda>p. p"]
    by (simp add: list_policies_def policy_inv_def)
  moreover have "process_policies eids now b ?ps s =
      (Inr (), sweep_executions_update
       (\<lambda>es. es @ map (engine_row eids now b) (filter (\<lambda>p. fires p b) ?ps)) s)"
    using assms by (intro process_policies_eq) (auto simp: policy_inv_def distinct_map_filter)
  ultimately show ?thesis
    by (simp add: on_balance_updated_def process_threshold_policies_def svc_defs
        commit_on_success_def conj_commute conj_left_commute eq_commute)
qed

section \<open>Properties\<close>

text \<open>C18. However policies are created, edited, acknowledged, enabled, disabled, deleted and paused,
  an enabled policy never has an unacknowledged safety warning, and every stored policy can be
  read back.\<close>

theorem enabled_policies_are_acknowledged:
  assumes "policy_step\<^sup>*\<^sup>* s t" "policy_inv s" "p \<in> set (sweep_policies t)"
  shows "SweepPolicy p = Inr p \<and>
    (sp_is_enabled p \<longrightarrow> (\<forall>w \<in> set (sp_safety_warnings p). sw_user_acknowledged w))"
  using policies.inv_run [OF assms(1,2)] assms(3)
  by (simp add: policy_inv_def SweepPolicy_Inr_iff)

text \<open>Resuming all policies at once enables a policy whose warnings were never acknowledged;
  from then on every read of that policy raises, and so does listing the enabled policies.\<close>

theorem resume_all_enables_unacknowledged:
  assumes "find_row sp_id pid (sweep_policies s) = Some p" "\<not> sp_is_enabled p"
    and "SweepPolicy p = Inr p" "unacked (sp_safety_warnings p) \<noteq> []"
    and "resume_all now s = (r, t)"
  shows "sp_get t pid =
      Inl (ValueError (V_Unacknowledged (map sw_kind (unacked (sp_safety_warnings p))))) \<and>
    (\<exists>e. list_policies t (Some (sp_source_holding_id p)) (Some True) = Inl e)"
proof -
  let ?q = "p\<lparr>sp_is_enabled := True, sp_updated_at := now\<rparr>"
  have t: "t = sweep_policies_update (update_where (\<lambda>p. \<not> sp_is_enabled p)
      (\<lambda>p. p\<lparr>sp_is_enabled := True, sp_updated_at := now\<rparr>)) s"
    using assms(5) by (simp add: resume_all_def)
  have bad: "SweepPolicy ?q =
      Inl (ValueError (V_Unacknowledged (map sw_kind (unacked (sp_safety_warnings p)))))"
  proof -
    have "sp_source_holding_id p \<noteq> sp_destination_holding_id p" "\<not> sp_minimum_balance_sats p < 0"
      "\<not> opt_lt (sp_maximum_per_period_sats p) 0"
      using assms(3) by (auto simp: SweepPolicy_Inr_iff)
    then show ?thesis using assms(4) by (simp add: SweepPolicy_def Domain.construct_def)
  qed
  have "find_row sp_id pid (sweep_policies t) = Some ?q"
    using assms(1,2) by (simp add: t find_row_update_where)
  moreover have "?q \<in> set (sweep_policies t)"
    using assms(1,2) find_row_SomeD [OF assms(1)] by (auto simp: t set_update_where)
  ultimately show ?thesis
    using bad by (auto simp: sp_get_def row_get_def list_policies_def intro!: rmap_Inl_if)
qed

text \<open>The validator keeps an acknowledgement exactly when the last recorded warning of the same
  kind and message was acknowledged; a warning whose message changed, or that is new, starts
  unacknowledged.\<close>

theorem acknowledgement_carryover:
  assumes "w \<in> set (compute_safety_warnings source destination cap provider existing)"
  shows "sw_user_acknowledged w \<longleftrightarrow>
    (\<exists>xs v ys. existing = xs @ v # ys \<and> sw_kind v = sw_kind w \<and> sw_message v = sw_message w \<and>
       sw_user_acknowledged v \<and>
       (\<forall>u \<in> set ys. (sw_kind u, sw_message u) \<noteq> (sw_kind w, sw_message w)))"
proof -
  have "sw_user_acknowledged w = was_acknowledged existing (sw_kind w) (sw_message w)"
    using assms by (auto simp: compute_safety_warnings_def Let_def warn_def split: if_splits option.splits)
  also have "\<dots> = (map_of (rev (map (\<lambda>w. ((sw_kind w, sw_message w), sw_user_acknowledged w)) existing))
      (sw_kind w, sw_message w) = Some True)"
    by (auto simp: was_acknowledged_def split: option.splits)
  also have "\<dots> = (\<exists>xs v ys. existing = xs @ v # ys \<and> sw_kind v = sw_kind w \<and>
       sw_message v = sw_message w \<and> sw_user_acknowledged v \<and>
       (\<forall>u \<in> set ys. (sw_kind u, sw_message u) \<noteq> (sw_kind w, sw_message w)))"
    using last_occurrence [of "\<lambda>w. (sw_kind w, sw_message w)" sw_user_acknowledged existing
        "(sw_kind w, sw_message w)"] by simp
  finally show ?thesis .
qed

text \<open>On a balance update the engine creates exactly one execution for each enabled threshold
  policy of the holding whose threshold is exceeded and whose amount is positive, and touches
  nothing else.\<close>

theorem engine_creates_one_per_firing_policy:
  assumes "policy_inv s" "0 \<le> b" "inj eids" "\<forall>p \<in> set (sweep_policies s). eids (sp_id p) \<notin> se_id ` set (sweep_executions s)"
  shows "on_balance_updated eids now (Some hid) (Some b) s =
    sweep_executions_update (\<lambda>es. es @ map (engine_row eids now b)
      (filter (\<lambda>p. sp_source_holding_id p = hid \<and> sp_is_enabled p \<and> fires p b) (sweep_policies s))) s"
  by (rule on_balance_updated_eq [OF assms])


end
