(* ===== verification/Chain_Listener.thy ===== *)
theory Chain_Listener
  imports Chain_Ledger Payments Invoices Treasury
begin

text \<open>
  The bitcoind listener, \<^verbatim>\<open>workers/listeners/chain_listener.py\<close>.  For every transaction it hears
  of it runs the chain processor, confirms the payment request the transaction belongs to, marks
  the invoice it pays, completes the sweep it carries out, commits all of that as one database
  transaction and then publishes the events.

  bitcoind is an argument (\<open>chain_node\<close>: the answers to the three calls).  What a visit of one
  transaction draws from its surroundings, identifiers, clock readings and the answer to
  \<^verbatim>\<open>estimatesmartfee\<close>, is a \<open>visit\<close>.  The event bus is the list of published events; delivery is
  not modelled.

  The lemmas show that a visit is all or nothing, what each of the three links does, that a block
  confirms the payments it contains and that a transaction with two ledger entries is never
  confirmed.
\<close>

section \<open>State and surroundings\<close>

datatype bus_event =
    EvTxMempool string "uuid list" "uuid list"
  | EvTxConfirmed string int "uuid list" "uuid list"
  | EvBlockNew int string
  | EvUtxoReceived "uuid option" uuid uuid sats
  | EvUtxoSpent "uuid option" uuid uuid
  | EvRequiresCategorization uuid
  | EvPaymentConfirmed uuid string int uuid
  | EvInvoicePaid uuid string uuid sats bool
  | EvSweepCompleted uuid string int
  | EvConnectionStateChanged string string

record listener =
  ln_db :: db
  ln_fee_rate_cache :: "(rat \<times> rat) option"
  ln_chain_status :: string
  ln_published :: "bus_event list"

record chain_node =
  cn_get_raw_transaction :: "string \<Rightarrow> node_exn + decoded_tx"
  cn_block_header_height :: "string \<Rightarrow> node_exn + int"
  cn_block :: "string \<Rightarrow> node_exn + (int \<times> string list)"

record visit =
  vi_draws :: draws
  vi_now :: timestamp
  vi_clock :: rat
  vi_fee_answer :: "node_exn + rat option"

datatype notification = HashTx string | HashBlock string | OtherNotification string

definition publish :: "bus_event \<Rightarrow> listener \<Rightarrow> listener" where
  "publish e = ln_published_update (\<lambda>es. es @ [e])"

definition publish_some :: "bus_event option \<Rightarrow> listener \<Rightarrow> listener" where
  "publish_some e = (case e of None \<Rightarrow> id | Some x \<Rightarrow> publish x)"

definition transition_chain_status :: "string \<Rightarrow> listener \<Rightarrow> listener" where
  "transition_chain_status new lst =
     (if ln_chain_status lst = new then lst
      else publish (EvConnectionStateChanged (ln_chain_status lst) new) (lst\<lparr>ln_chain_status := new\<rparr>))"

definition fee_rate_ttl_seconds :: rat where
  "fee_rate_ttl_seconds = 60"

definition cached_fee_rate :: "visit \<Rightarrow> listener \<Rightarrow> rat \<times> listener" where
  "cached_fee_rate v lst =
     (let fetched = (let rate = estimate_fee_rate_sat_per_vbyte (Some (vi_fee_answer v))
                     in (rate, lst\<lparr>ln_fee_rate_cache := Some (vi_clock v, rate)\<rparr>))
      in case ln_fee_rate_cache lst of
           None \<Rightarrow> fetched
         | Some (stored_at, rate) \<Rightarrow>
             if vi_clock v - stored_at < fee_rate_ttl_seconds then (rate, lst) else fetched)"

section \<open>Links\<close>

text \<open>\<^verbatim>\<open>_link_payment_request_if_any\<close>; the last part completes the sweep the payment was created
  for.\<close>

definition entry_of_tx :: "tx_result \<Rightarrow> uuid option service" where
  "entry_of_tx res =
     (case tr_new_ledger_entry_ids res of
        [] \<Rightarrow> bnd (readr (\<lambda>s. le_get_by_source s SRC_ONCHAIN_TRANSACTION (tr_txid res)))
                 (\<lambda>existing. ret (map_option le_id existing))
      | eid # _ \<Rightarrow> ret (Some eid))"

definition sweep_finished :: "sweep_execution_status list" where
  "sweep_finished = [SES_COMPLETED, SES_FAILED, SES_CANCELLED]"

definition complete_execution :: "timestamp \<Rightarrow> string \<Rightarrow> uuid \<Rightarrow> unit service" where
  "complete_execution now txid eid =
     bnd (update_status eid SES_COMPLETED
            (no_fields\<lparr>ef_confirmed_txid := Some txid, ef_completed_at := Some now\<rparr>)) (\<lambda>_. ret ())"

definition complete_sweep_of_payment :: "timestamp \<Rightarrow> string \<Rightarrow> uuid option \<Rightarrow> unit service" where
  "complete_sweep_of_payment now txid execution_id =
     (case execution_id of
        None \<Rightarrow> ret ()
      | Some eid \<Rightarrow>
          bnd (readr (\<lambda>s. se_get s eid)) (\<lambda>execution.
          case execution of
            None \<Rightarrow> ret ()
          | Some e \<Rightarrow>
              if se_status e \<in> set sweep_finished then ret ()
              else complete_execution now txid (se_id e)))"

definition link_payment_request_if_any :: "timestamp \<Rightarrow> tx_result \<Rightarrow> bus_event option service" where
  "link_payment_request_if_any now res =
     (case tr_confirmation_height res of
        None \<Rightarrow> ret None
      | Some height \<Rightarrow>
          bnd (entry_of_tx res) (\<lambda>ledger_entry_id.
          case ledger_entry_id of
            None \<Rightarrow> ret None
          | Some eid \<Rightarrow>
              bnd (readr (\<lambda>s. pr_get_by_broadcast_txid s (tr_txid res))) (\<lambda>found.
              case found of
                None \<Rightarrow> ret None
              | Some pr \<Rightarrow>
                  if pr_status pr \<noteq> PS_BROADCAST then ret None
                  else
                  bnd (mark_confirmed now (pr_id pr) eid) (\<lambda>updated.
                  case updated of
                    None \<Rightarrow> ret None
                  | Some u \<Rightarrow>
                      bnd (complete_sweep_of_payment now (tr_txid res) (pr_sweep_execution_id pr)) (\<lambda>_.
                      ret (Some (EvPaymentConfirmed (pr_id u) (tr_txid res) height eid)))))))"

definition link_sweep_execution_if_any :: "timestamp \<Rightarrow> tx_result \<Rightarrow> bus_event option service" where
  "link_sweep_execution_if_any now res =
     (case tr_confirmation_height res of
        None \<Rightarrow> ret None
      | Some height \<Rightarrow>
          bnd (readr (\<lambda>s. get_by_expected_txid s (tr_txid res))) (\<lambda>found.
          case found of
            None \<Rightarrow> ret None
          | Some e \<Rightarrow>
              if se_status e \<noteq> SES_ONCHAIN_PENDING then ret None
              else
              bnd (complete_execution now (tr_txid res) (se_id e)) (\<lambda>_.
              ret (Some (EvSweepCompleted (se_id e) (tr_txid res) height)))))"

text \<open>\<^verbatim>\<open>_link_invoice_if_any\<close>: the outputs in order, until one marks an invoice.\<close>

fun link_outputs :: "string \<Rightarrow> txout list \<Rightarrow> bus_event option service" where
  "link_outputs txid [] = ret None"
| "link_outputs txid (out # outs) =
     (case to_address out of
        None \<Rightarrow> link_outputs txid outs
      | Some address \<Rightarrow>
          if address = [] then link_outputs txid outs
          else
          bnd (readr (\<lambda>s. get_open_by_address s address)) (\<lambda>found.
          case found of
            None \<Rightarrow> link_outputs txid outs
          | Some invoice \<Rightarrow>
              bnd (readr (\<lambda>s. le_get_by_source s SRC_ONCHAIN_TRANSACTION txid)) (\<lambda>entry.
              case entry of
                None \<Rightarrow> link_outputs txid outs
              | Some e \<Rightarrow>
                  (case to_value out of
                     None \<Rightarrow> link_outputs txid outs
                   | Some value_btc \<Rightarrow>
                       let value_sats = btc_to_sats value_btc;
                           overpaid = (case i_amount_sats invoice of None \<Rightarrow> False
                                       | Some a \<Rightarrow> value_sats > a) in
                       bnd (mark_paid (i_id invoice) (le_id e) overpaid) (\<lambda>updated.
                       case updated of
                         None \<Rightarrow> link_outputs txid outs
                       | Some u \<Rightarrow> ret (Some (EvInvoicePaid (i_id u) txid (le_id e) value_sats overpaid)))))))"

definition link_invoice_if_any :: "tx_result \<Rightarrow> decoded_tx \<Rightarrow> bus_event option service" where
  "link_invoice_if_any res decoded =
     (if tr_discovered_utxo_ids res = [] \<and> tr_new_ledger_entry_ids res = [] then ret None
      else link_outputs (tr_txid res) (dt_vout decoded))"

section \<open>Events of a transaction\<close>

definition utxo_received_event :: "db \<Rightarrow> uuid \<Rightarrow> bus_event list" where
  "utxo_received_event s uid =
     (case find_row u_id uid (utxos s) of
        None \<Rightarrow> []
      | Some row \<Rightarrow> [EvUtxoReceived (holding_of_descriptor s (u_descriptor_id row))
                       (u_descriptor_id row) (u_id row) (u_value_sats row)])"

definition utxo_spent_event :: "db \<Rightarrow> uuid \<Rightarrow> bus_event list" where
  "utxo_spent_event s uid =
     (case find_row u_id uid (utxos s) of
        None \<Rightarrow> []
      | Some row \<Rightarrow> [EvUtxoSpent (holding_of_descriptor s (u_descriptor_id row))
                       (u_descriptor_id row) (u_id row)])"

definition tx_events :: "tx_result \<Rightarrow> db \<Rightarrow> bus_event list" where
  "tx_events res s =
     (if tr_discovered_utxo_ids res = [] \<and> tr_spent_utxo_ids res = [] \<and>
         tr_new_ledger_entry_ids res = [] \<and> \<not> tr_is_new res then []
      else
        (case tr_confirmation_height res of
           None \<Rightarrow> EvTxMempool (tr_txid res) (tr_affected_descriptor_ids res)
                     (tr_affected_holding_ids res)
         | Some height \<Rightarrow> EvTxConfirmed (tr_txid res) height (tr_affected_descriptor_ids res)
                     (tr_affected_holding_ids res)) #
        concat (map (utxo_received_event s) (tr_discovered_utxo_ids res)) @
        concat (map (utxo_spent_event s) (tr_spent_utxo_ids res)) @
        map EvRequiresCategorization (tr_new_ledger_entry_ids res))"

definition emit_tx_events :: "tx_result \<Rightarrow> listener \<Rightarrow> listener" where
  "emit_tx_events res lst = fold publish (tx_events res (ln_db lst)) lst"

section \<open>Handlers\<close>

text \<open>The height the node reports for the block of a transaction heard of without one.\<close>

definition actual_height :: "chain_node \<Rightarrow> decoded_tx \<Rightarrow> int option \<Rightarrow> exn + int option" where
  "actual_height node decoded confirmation_height =
     (case (confirmation_height, dt_blockhash decoded) of
        (None, Some bh) \<Rightarrow>
          (case cn_block_header_height node bh of
             Inr height \<Rightarrow> Inr (Some height)
           | Inl (NodeRpcError _ _) \<Rightarrow> Inr None
           | Inl _ \<Rightarrow> Inl NodeError)
      | _ \<Rightarrow> Inr confirmation_height)"

text \<open>The body of the \<^verbatim>\<open>with self._session_scope()\<close> block: it commits at its end, so an exception
  before that leaves the database as it was.\<close>

definition tx_session ::
  "draws \<Rightarrow> timestamp \<Rightarrow> decoded_tx \<Rightarrow> int option \<Rightarrow> rat option \<Rightarrow>
   (tx_result \<times> bus_event option \<times> bus_event option \<times> bus_event option) service" where
  "tx_session dr now decoded height fee_rate =
     commit_on_success
       (bnd (process_decoded_transaction dr decoded height (dt_blocktime decoded) fee_rate) (\<lambda>result.
        bnd (link_payment_request_if_any now result) (\<lambda>payment_confirmation.
        bnd (link_invoice_if_any result decoded) (\<lambda>invoice_paid.
        bnd (link_sweep_execution_if_any now result) (\<lambda>sweep_confirmed.
        ret (result, payment_confirmation, invoice_paid, sweep_confirmed))))))"

definition handle_tx ::
  "chain_node \<Rightarrow> visit \<Rightarrow> string \<Rightarrow> int option \<Rightarrow> (exn, listener, unit) svc" where
  "handle_tx node v txid confirmation_height lst =
     (case cn_get_raw_transaction node txid of
        Inl (NodeRpcError code _) \<Rightarrow>
          if code = - 5 then (Inr (), lst)
          else (Inl NodeError, transition_chain_status ''degraded'' lst)
      | Inl _ \<Rightarrow> (Inl NodeError, lst)
      | Inr decoded \<Rightarrow>
          (let ln1 = transition_chain_status ''healthy'' lst in
           case actual_height node decoded confirmation_height of
             Inl e \<Rightarrow> (Inl e, ln1)
           | Inr height \<Rightarrow>
               (let (fee_rate, ln2) = cached_fee_rate v ln1 in
                case tx_session (vi_draws v) (vi_now v) decoded height (Some fee_rate) (ln_db ln2) of
                  (Inl e, _) \<Rightarrow> (Inl e, ln2)
                | (Inr (result, payment_confirmation, invoice_paid, sweep_confirmed), s) \<Rightarrow>
                    (Inr (),
                     publish_some sweep_confirmed (publish_some invoice_paid
                       (publish_some payment_confirmation
                         (emit_tx_events result (ln2\<lparr>ln_db := s\<rparr>))))))))"

definition confirm_block_tx :: "chain_node \<Rightarrow> (string \<Rightarrow> visit) \<Rightarrow> int \<Rightarrow> string \<Rightarrow> listener \<Rightarrow> listener" where
  "confirm_block_tx node visits height txid lst =
     snd (handle_tx node (visits txid) txid (Some height) lst)"

definition known_txids :: "string list \<Rightarrow> db \<Rightarrow> string list" where
  "known_txids block_txids s =
     filter (\<lambda>txid. txid \<in> set block_txids) (map ot_txid (onchain_transactions s))"

definition handle_block ::
  "chain_node \<Rightarrow> (string \<Rightarrow> visit) \<Rightarrow> string \<Rightarrow> (exn, listener, unit) svc" where
  "handle_block node visits block_hash lst =
     (case cn_block node block_hash of
        Inl (NodeRpcError _ _) \<Rightarrow> (Inr (), transition_chain_status ''degraded'' lst)
      | Inl _ \<Rightarrow> (Inl NodeError, lst)
      | Inr (height, block_txids) \<Rightarrow>
          (let ln1 = publish (EvBlockNew height block_hash) (transition_chain_status ''healthy'' lst) in
           if block_txids = [] then (Inr (), ln1)
           else (Inr (), fold (confirm_block_tx node visits height)
                           (known_txids block_txids (ln_db ln1)) ln1)))"

definition handle ::
  "chain_node \<Rightarrow> (string \<Rightarrow> visit) \<Rightarrow> notification \<Rightarrow> (exn, listener, unit) svc" where
  "handle node visits n =
     (case n of
        HashTx txid \<Rightarrow> handle_tx node (visits txid) txid None
      | HashBlock bh \<Rightarrow> handle_block node visits bh
      | OtherNotification _ \<Rightarrow> ret ())"

text \<open>The read loop: an exception of one notification is logged and the next one is handled.\<close>

fun run_listener ::
  "(chain_node \<times> (string \<Rightarrow> visit) \<times> notification) list \<Rightarrow> listener \<Rightarrow> listener" where
  "run_listener [] lst = lst"
| "run_listener ((node, visits, n) # ns) lst = run_listener ns (snd (handle node visits n lst))"

section \<open>What a visit leaves alone\<close>

text \<open>The chain processor writes only the books; the tables of payments, invoices and sweeps are
  the links' business.\<close>

definition outside_books where
  "outside_books s = (payment_requests s, broadcast_attempts s, invoices s, sweep_policies s,
     sweep_executions s, holdings s, descriptors s)"

lemma outside_books_updates [simp]:
  "outside_books (utxos_update f s) = outside_books s"
  "outside_books (addresses_update g s) = outside_books s"
  "outside_books (onchain_transactions_update h s) = outside_books s"
  "outside_books (le_insert e ls s) = outside_books s"
  by (simp_all add: outside_books_def le_insert_def)

lemma mark_inputs_spent_frame:
  "mark_inputs_spent txid is acc s = (r, t) \<Longrightarrow>
   outside_books t = outside_books s \<and> ledger_entries t = ledger_entries s"
  by (induction txid "is" acc s rule: mark_inputs_spent.induct) (auto split: selected.splits)

lemma record_output_frame:
  "record_output c uid f s = (r, t) \<Longrightarrow>
   outside_books t = outside_books s \<and> ledger_entries t = ledger_entries s"
  by (auto simp: record_output_def apply_flags_and_propagate_reuse_def propagate_address_reuse_def
      Let_def split: selected.splits sum.splits if_splits)

lemma record_outputs_frame:
  "record_outputs c uids k fs s = (r, t) \<Longrightarrow>
   outside_books t = outside_books s \<and> ledger_entries t = ledger_entries s"
proof (induction fs arbitrary: k s r)
  case (Cons f fs)
  obtain r1 s1 where one: "record_output c (uids k) f s = (r1, s1)" by fastforce
  obtain r2 s2 where two: "record_outputs c uids (Suc k) fs s1 = (r2, s2)" by fastforce
  show ?case
    using Cons.prems Cons.IH one two record_output_frame [OF one]
    by (auto split: sum.splits)
qed simp

lemma onchain_upsert_outside:
  "onchain_upsert now txid f s = (r, t) \<Longrightarrow>
   outside_books t = outside_books s \<and> ledger_entries t = ledger_entries s"
  by (auto simp: onchain_upsert_def split: option.splits)

text \<open>The entries are only appended, the new ones carry the transaction's id.\<close>

definition new_entries_of :: "string \<Rightarrow> uuid list \<Rightarrow> db \<Rightarrow> db \<Rightarrow> bool" where
  "new_entries_of txid eids s t \<longleftrightarrow>
     (\<exists>es. ledger_entries t = ledger_entries s @ es \<and> map le_id es = eids \<and>
        (\<forall>e \<in> set es. le_source e = SRC_ONCHAIN_TRANSACTION \<and> le_source_reference e = txid))"

lemma new_entries_of_none: "ledger_entries t = ledger_entries s \<Longrightarrow> new_entries_of txid [] s t"
  by (simp add: new_entries_of_def)

lemma new_entries_of_trans:
  assumes "new_entries_of txid xs s t" "new_entries_of txid ys t u"
  shows "new_entries_of txid (xs @ ys) s u"
proof -
  obtain es fs where "ledger_entries t = ledger_entries s @ es" "map le_id es = xs"
      "\<forall>e \<in> set es. le_source e = SRC_ONCHAIN_TRANSACTION \<and> le_source_reference e = txid"
      "ledger_entries u = ledger_entries t @ fs" "map le_id fs = ys"
      "\<forall>e \<in> set fs. le_source e = SRC_ONCHAIN_TRANSACTION \<and> le_source_reference e = txid"
    using assms by (auto simp: new_entries_of_def)
  then show ?thesis
    unfolding new_entries_of_def by (intro exI [of _ "es @ fs"]) auto
qed

lemma ledger_holding_frame:
  assumes "ledger_holding c eids ts dir fs hid s = (r, t)"
  shows "outside_books t = outside_books s \<and>
    new_entries_of (tc_txid c) (case r of Inr (Some e) \<Rightarrow> [e] | _ \<Rightarrow> []) s t"
proof (cases "\<exists>e. r = Inr (Some e)")
  case True
  then obtain e entry links where "t = le_insert entry links s" "r = Inr (Some e)"
    "LedgerEntry (onchain_entry (eids hid) (tc_now c) ts dir (tc_txid c)
       (received_for fs hid - the (case holding_input_value s (dt_vin (tc_decoded c)) hid 0 of Inr v \<Rightarrow> Some v | _ \<Rightarrow> None))) = Inr entry" "e = eids hid"
    using assms by (auto simp: ledger_holding_def Let_def split: sum.splits bool.splits if_splits)
  then show ?thesis
    by (auto simp: new_entries_of_def le_insert_def onchain_entry_def outside_books_def LedgerEntry_def construct_Inr_iff)
next
  case False
  then have "t = s"
    using assms by (auto simp: ledger_holding_def Let_def split: sum.splits bool.splits if_splits)
  then show ?thesis
    using False by (auto simp: new_entries_of_none split: sum.split option.split)
qed

lemma ledger_holdings_frame:
  assumes "ledger_holdings c eids ts dir fs hs s = (r, t)"
  shows "outside_books t = outside_books s \<and>
    (\<forall>ids. r = Inr ids \<longrightarrow> new_entries_of (tc_txid c) ids s t)"
  using assms
proof (induction hs arbitrary: r s t)
  case Nil
  then show ?case by (auto simp: new_entries_of_none)
next
  case (Cons h hs)
  obtain r1 s1 where one: "ledger_holding c eids ts dir fs h s = (r1, s1)" by fastforce
  obtain r2 s2 where two: "ledger_holdings c eids ts dir fs hs s1 = (r2, s2)" by fastforce
  show ?case
    using Cons.prems one two ledger_holding_frame [OF one] Cons.IH [OF two]
    by (auto dest: new_entries_of_trans split: sum.splits option.splits)
qed

lemma process_frame:
  assumes "process_decoded_transaction dr tx height bt fee s = (Inr res, t)"
  shows "outside_books t = outside_books s \<and> tr_txid res = dt_txid tx \<and>
    tr_confirmation_height res = height \<and>
    new_entries_of (dt_txid tx) (tr_new_ledger_entry_ids res) s t"
proof -
  let ?c = "\<lparr>tc_txid = dt_txid tx, tc_decoded = tx, tc_confirmation_height = height,
               tc_fee_rate = fee, tc_now = dr_now dr\<rparr>"
  obtain acc s1 where s1: "mark_inputs_spent (dt_txid tx) (dt_vin tx) no_spent s = (Inr acc, s1)"
    using assms by (auto simp: process_decoded_transaction_def Let_def bnd_eq_Inr_iff)
  have out1: "outside_books s1 = outside_books s" and ent1: "ledger_entries s1 = ledger_entries s"
    using mark_inputs_spent_frame [OF s1] by simp_all
  show ?thesis
  proof (cases "sa_ids acc = [] \<and> discover_outputs s1 (dt_vout tx) = []")
    case True
    then have "res = noop_result (dt_txid tx) height" "t = s1"
      using assms s1 by (simp_all add: process_decoded_transaction_def Let_def svc_defs)
    then show ?thesis
      using out1 ent1 by (simp add: noop_result_def new_entries_of_none)
  next
    case False
    define fs where "fs = discover_outputs s1 (dt_vout tx)"
    obtain x s2 y z s3 dir ts hs where s2: "onchain_upsert (dr_now dr) (dt_txid tx) x s1 = (Inr y, s2)"
      and s3: "record_outputs ?c (dr_utxo_ids dr) 0 fs s2 = (Inr z, s3)"
      and t: "ledger_holdings ?c (dr_entry_ids dr) ts dir fs hs s3 = (Inr (tr_new_ledger_entry_ids res), t)"
      and res: "tr_txid res = dt_txid tx" "tr_confirmation_height res = height"
      using assms s1 False unfolding process_decoded_transaction_def Let_def fs_def
      by (auto simp: svc_defs bnd_eq_Inr_iff split: sum.splits)
    then show ?thesis
      using out1 ent1 onchain_upsert_outside [OF s2] record_outputs_frame [OF s3]
        ledger_holdings_frame [OF t] by (simp add: new_entries_of_def)
  qed
qed

section \<open>What the links do\<close>

definition entry_for :: "db \<Rightarrow> string \<Rightarrow> uuid \<Rightarrow> bool" where
  "entry_for s txid eid \<longleftrightarrow> (\<exists>e \<in> set (ledger_entries s).
     le_id e = eid \<and> le_source e = SRC_ONCHAIN_TRANSACTION \<and> le_source_reference e = txid)"

lemma entry_for_new:
  "new_entries_of txid eids s t \<Longrightarrow> eid \<in> set eids \<Longrightarrow> entry_for t txid eid"
  by (fastforce simp: new_entries_of_def entry_for_def)

lemma entry_for_mono: "new_entries_of txid' eids s t \<Longrightarrow> entry_for s txid eid \<Longrightarrow> entry_for t txid eid"
  by (auto simp: new_entries_of_def entry_for_def)

lemma le_get_by_source_entry:
  "le_get_by_source s SRC_ONCHAIN_TRANSACTION txid = Inr (Some e) \<Longrightarrow> entry_for s txid (le_id e)"
  by (auto simp: le_get_by_source_def row_one_def rbind_eq_Inr_iff LedgerEntry_Inr_iff entry_for_def
      split: selected.splits dest!: one_or_none_SelOneD)

lemma entry_of_tx_Inr:
  assumes "entry_of_tx res s = (r, t)"
  shows "t = s \<and> (\<forall>eid. r = Inr (Some eid) \<longrightarrow>
    eid \<in> set (tr_new_ledger_entry_ids res) \<or> entry_for s (tr_txid res) eid)"
  using assms
  by (auto simp: entry_of_tx_def svc_defs le_get_by_source_entry split: list.splits sum.splits)

lemma sweep_executions_same: "\<exists>g. s = sweep_executions_update g s"
  by (rule exI [of _ "\<lambda>x. x"]) (cases s, simp)

lemma complete_execution_frame:
  "complete_execution now txid eid s = (r, t) \<Longrightarrow> \<exists>g. t = sweep_executions_update g s"
  by (auto simp: complete_execution_def update_status_def bnd_def ret_def sweep_executions_same
      split: option.splits sum.splits prod.splits)

lemma complete_sweep_frame:
  "complete_sweep_of_payment now txid eid s = (r, t) \<Longrightarrow> \<exists>g. t = sweep_executions_update g s"
  by (auto simp: complete_sweep_of_payment_def svc_defs complete_execution_frame sweep_executions_same
      split: option.splits sum.splits if_splits)

lemma pr_by_txid_Some:
  "pr_get_by_broadcast_txid s txid = Inr (Some p) \<longleftrightarrow>
     one_or_none (\<lambda>p. pr_broadcast_txid p = Some txid) (payment_requests s) = SelOne p \<and>
     PaymentRequest p = Inr p"
  by (auto simp: pr_get_by_broadcast_txid_def row_one_def rbind_eq_Inr_iff
      simp del: one_or_none_SelNone split: selected.splits dest: PaymentRequest_id)

text \<open>The link once the ledger entry is known.\<close>

definition link_confirmed :: "timestamp \<Rightarrow> tx_result \<Rightarrow> int \<Rightarrow> uuid \<Rightarrow> bus_event option service" where
  "link_confirmed now res height eid =
     bnd (readr (\<lambda>s. pr_get_by_broadcast_txid s (tr_txid res))) (\<lambda>found.
     case found of
       None \<Rightarrow> ret None
     | Some pr \<Rightarrow>
         if pr_status pr \<noteq> PS_BROADCAST then ret None
         else
         bnd (mark_confirmed now (pr_id pr) eid) (\<lambda>updated.
         case updated of
           None \<Rightarrow> ret None
         | Some u \<Rightarrow>
             bnd (complete_sweep_of_payment now (tr_txid res) (pr_sweep_execution_id pr)) (\<lambda>_.
             ret (Some (EvPaymentConfirmed (pr_id u) (tr_txid res) height eid)))))"

lemma link_confirmed_effect:
  assumes "link_confirmed now res height eid s = (Inr ev, t)"
  shows "(ev = None \<and> t = s) \<or>
    (\<exists>p g. one_or_none (\<lambda>p. pr_broadcast_txid p = Some (tr_txid res)) (payment_requests s) = SelOne p \<and>
       pr_status p = PS_BROADCAST \<and> PaymentRequest p = Inr p \<and>
       ev = Some (EvPaymentConfirmed (pr_id p) (tr_txid res) height eid) \<and>
       t = sweep_executions_update g
             (payment_requests_update (update_rows pr_id (pr_id p) (confirmed_row now eid)) s))"
proof (cases "\<exists>p. pr_get_by_broadcast_txid s (tr_txid res) = Inr (Some p) \<and> pr_status p = PS_BROADCAST")
  case False
  then show ?thesis
    using assms by (auto simp: link_confirmed_def svc_defs split: sum.splits option.splits if_splits)
next
  case True
  then obtain p where p: "pr_get_by_broadcast_txid s (tr_txid res) = Inr (Some p)" "pr_status p = PS_BROADCAST"
    by blast
  then have one: "one_or_none (\<lambda>p. pr_broadcast_txid p = Some (tr_txid res)) (payment_requests s) = SelOne p"
      "PaymentRequest p = Inr p"
    by (simp_all add: pr_by_txid_Some)
  then obtain q where q: "find_row pr_id (pr_id p) (payment_requests s) = Some q" "pr_id q = pr_id p"
    by (cases "find_row pr_id (pr_id p) (payment_requests s)")
       (auto simp: find_row_None_iff dest: find_row_SomeD one_or_none_SelOneD)
  let ?s = "payment_requests_update (update_rows pr_id (pr_id p) (confirmed_row now eid)) s"
  have "bnd (complete_sweep_of_payment now (tr_txid res) (pr_sweep_execution_id p)) (\<lambda>_.
      ret (Some (EvPaymentConfirmed (pr_id p) (tr_txid res) height eid))) ?s = (Inr ev, t)"
    using assms p q
    by (auto simp: link_confirmed_def svc_defs mark_confirmed_def pr_write_def bnd_eq_Inr_iff
        rbind_eq_Inr_iff dest!: PaymentRequest_id)
  then show ?thesis
    using p one complete_sweep_frame [of now "tr_txid res" "pr_sweep_execution_id p" ?s]
    by (auto simp: bnd_eq_Inr_iff ret_def)
qed

lemma link_payment_effect:
  assumes "link_payment_request_if_any now res s = (Inr ev, t)"
  shows "(ev = None \<and> t = s) \<or>
    (\<exists>p eid height g. tr_confirmation_height res = Some height \<and>
       one_or_none (\<lambda>p. pr_broadcast_txid p = Some (tr_txid res)) (payment_requests s) = SelOne p \<and>
       pr_status p = PS_BROADCAST \<and> PaymentRequest p = Inr p \<and>
       (eid \<in> set (tr_new_ledger_entry_ids res) \<or> entry_for s (tr_txid res) eid) \<and>
       ev = Some (EvPaymentConfirmed (pr_id p) (tr_txid res) height eid) \<and>
       t = sweep_executions_update g
             (payment_requests_update (update_rows pr_id (pr_id p) (confirmed_row now eid)) s))"
proof (cases "tr_confirmation_height res")
  case None
  then show ?thesis using assms by (simp add: link_payment_request_if_any_def svc_defs)
next
  case (Some height)
  have run: "bnd (entry_of_tx res) (\<lambda>eid. case eid of None \<Rightarrow> ret None | Some eid \<Rightarrow>
      link_confirmed now res height eid) s = (Inr ev, t)"
    using assms Some by (simp add: link_payment_request_if_any_def link_confirmed_def cong: option.case_cong)
  then obtain found where found: "entry_of_tx res s = (Inr found, s)"
    by (auto simp: bnd_eq_Inr_iff dest: entry_of_tx_Inr)
  show ?thesis
  proof (cases found)
    case None
    then show ?thesis using run found by (simp add: svc_defs)
  next
    case (Some eid)
    then have "link_confirmed now res height eid s = (Inr ev, t)"
      using run found by simp
    then show ?thesis
      using link_confirmed_effect entry_of_tx_Inr [OF found] Some \<open>tr_confirmation_height res = Some height\<close>
      by blast
  qed
qed

lemma link_sweep_effect:
  "link_sweep_execution_if_any now res s = (r, t) \<Longrightarrow> \<exists>g. t = sweep_executions_update g s"
proof -
  assume *: "link_sweep_execution_if_any now res s = (r, t)"
  have "bnd (complete_execution now txid eid) (\<lambda>_. ret x) s = (r, t) \<Longrightarrow>
      \<exists>g. t = sweep_executions_update g s" for txid eid x
    using complete_execution_frame [of now txid eid s]
    by (auto simp: bnd_def ret_def split: prod.splits sum.splits)
  with * show ?thesis
    by (auto simp: link_sweep_execution_if_any_def svc_defs
        intro: sweep_executions_same split: option.splits sum.splits if_splits)
qed

text \<open>The invoice an output pays.\<close>

definition pays_invoice :: "db \<Rightarrow> txout \<Rightarrow> invoice \<Rightarrow> sats \<Rightarrow> bool" where
  "pays_invoice s out i v \<longleftrightarrow> i \<in> set (invoices s) \<and> i_status i = IS_OPEN \<and>
     i_receiving_address i = to_address out \<and> to_address out \<noteq> None \<and>
     map_option btc_to_sats (to_value out) = Some v"

lemma get_open_by_address_SomeD:
  "get_open_by_address s addr = Inr (Some i) \<Longrightarrow>
   i \<in> set (invoices s) \<and> i_status i = IS_OPEN \<and> i_receiving_address i = Some addr"
proof -
  assume *: "get_open_by_address s addr = Inr (Some i)"
  then obtain j js where "sort_key (\<lambda>i. - i_created_at i)
      (filter (\<lambda>i. i_receiving_address i = Some addr \<and> i_status i = IS_OPEN) (invoices s)) = j # js"
      "Invoice j = Inr i"
    by (auto simp: get_open_by_address_def rbind_eq_Inr_iff split: list.splits)
  then have "i = j" "j \<in> set (sort_key (\<lambda>i. - i_created_at i)
      (filter (\<lambda>i. i_receiving_address i = Some addr \<and> i_status i = IS_OPEN) (invoices s)))"
    by (auto dest: Invoice_id)
  then show ?thesis by simp
qed

lemma link_outputs_effect:
  assumes "link_outputs txid outs s = (Inr ev, t)"
  shows "(ev = None \<and> t = s) \<or>
    (\<exists>out \<in> set outs. \<exists>i v eid over. pays_invoice s out i v \<and> entry_for s txid eid \<and>
       over = (case i_amount_sats i of None \<Rightarrow> False | Some a \<Rightarrow> a < v) \<and>
       ev = Some (EvInvoicePaid (i_id i) txid eid v over) \<and>
       t = invoices_update (update_rows i_id (i_id i) (paid_row eid over)) s)"
  using assms
proof (induction outs)
  case Nil
  then show ?case by (simp add: svc_defs)
next
  case (Cons out outs)
  show ?case
  proof (cases "link_outputs txid outs s = (Inr ev, t)")
    case True
    then show ?thesis using Cons.IH by auto
  next
    case False
    then obtain addr i e value_btc where o: "to_address out = Some addr" "addr \<noteq> []"
        "get_open_by_address s addr = Inr (Some i)"
        "le_get_by_source s SRC_ONCHAIN_TRANSACTION txid = Inr (Some e)"
        "to_value out = Some value_btc"
      using Cons.prems by (auto simp: svc_defs split: option.splits if_splits sum.splits)
    let ?over = "case i_amount_sats i of None \<Rightarrow> False | Some a \<Rightarrow> a < btc_to_sats value_btc"
    have i: "i \<in> set (invoices s)" "i_status i = IS_OPEN" "i_receiving_address i = Some addr"
      using get_open_by_address_SomeD [OF o(3)] by simp_all
    obtain j where j: "find_row i_id (i_id i) (invoices s) = Some j"
      using i(1) by (cases "find_row i_id (i_id i) (invoices s)") (auto simp: find_row_None_iff)
    then have "i_id j = i_id i" by (auto dest: find_row_SomeD)
    then have "ev = Some (EvInvoicePaid (i_id i) txid (le_id e) (btc_to_sats value_btc) ?over) \<and>
        t = invoices_update (update_rows i_id (i_id i) (paid_row (le_id e) ?over)) s"
      using Cons.prems o j
      by (auto simp: svc_defs Let_def bnd_eq_Inr_iff mark_paid_def inv_write_def rbind_eq_Inr_iff
          paid_row_def dest!: Invoice_id)
    then show ?thesis
      using o i le_get_by_source_entry [OF o(4)]
      by (intro disjI2 bexI [of _ out] exI) (auto simp: pays_invoice_def)
  qed
qed

section \<open>A committed visit\<close>

text \<open>The database after a committed visit is the books the processor left, with at most one payment
  confirmed, at most one invoice marked paid, and sweep executions completed.\<close>

definition books_of where
  "books_of s = (holdings s, descriptors s, addresses s, utxos s, onchain_transactions s,
     ledger_entries s, ledger_links s, sweep_policies s, broadcast_attempts s)"

definition payments_after ::
  "timestamp \<Rightarrow> string \<Rightarrow> int option \<Rightarrow> db \<Rightarrow> db \<Rightarrow> bool" where
  "payments_after now txid height s t \<longleftrightarrow>
     payment_requests t = payment_requests s \<or>
     (\<exists>p eid h. height = Some h \<and> p \<in> set (payment_requests s) \<and> pr_broadcast_txid p = Some txid \<and>
        pr_status p = PS_BROADCAST \<and> PaymentRequest p = Inr p \<and> entry_for t txid eid \<and>
        payment_requests t = update_rows pr_id (pr_id p) (confirmed_row now eid) (payment_requests s))"

definition invoices_after :: "decoded_tx \<Rightarrow> db \<Rightarrow> db \<Rightarrow> bool" where
  "invoices_after tx s t \<longleftrightarrow>
     invoices t = invoices s \<or>
     (\<exists>out \<in> set (dt_vout tx). \<exists>i v eid over. pays_invoice s out i v \<and> entry_for t (dt_txid tx) eid \<and>
        over = (case i_amount_sats i of None \<Rightarrow> False | Some a \<Rightarrow> a < v) \<and>
        invoices t = update_rows i_id (i_id i) (paid_row eid over) (invoices s))"

lemma entry_for_cong: "ledger_entries t = ledger_entries s \<Longrightarrow> entry_for t = entry_for s"
  by (simp add: entry_for_def fun_eq_iff)

lemma pays_invoice_cong: "invoices t = invoices s \<Longrightarrow> pays_invoice t = pays_invoice s"
  by (simp add: pays_invoice_def fun_eq_iff)

lemma payments_after_cong:
  "payment_requests s' = payment_requests s \<Longrightarrow> payment_requests t' = payment_requests t \<Longrightarrow>
   ledger_entries t' = ledger_entries t \<Longrightarrow>
   payments_after now txid height s t \<Longrightarrow> payments_after now txid height s' t'"
  by (simp add: payments_after_def entry_for_cong [of t' t])

lemma invoices_after_cong:
  "invoices s' = invoices s \<Longrightarrow> invoices t' = invoices t \<Longrightarrow> ledger_entries t' = ledger_entries t \<Longrightarrow>
   invoices_after tx s t \<Longrightarrow> invoices_after tx s' t'"
  by (simp add: invoices_after_def entry_for_cong [of t' t] pays_invoice_cong [of s' s])

lemma link_payment_after:
  assumes "link_payment_request_if_any now res s = (Inr ev, t)"
    and "\<And>eid. eid \<in> set (tr_new_ledger_entry_ids res) \<Longrightarrow> entry_for s (tr_txid res) eid"
  shows "books_of t = books_of s \<and> invoices t = invoices s \<and>
    payments_after now (tr_txid res) (tr_confirmation_height res) s t"
proof (cases "t = s")
  case True
  then show ?thesis by (simp add: payments_after_def)
next
  case False
  with link_payment_effect [OF assms(1)] obtain p eid height g
    where *: "tr_confirmation_height res = Some height"
    "one_or_none (\<lambda>p. pr_broadcast_txid p = Some (tr_txid res)) (payment_requests s) = SelOne p"
    "pr_status p = PS_BROADCAST" "PaymentRequest p = Inr p"
    "eid \<in> set (tr_new_ledger_entry_ids res) \<or> entry_for s (tr_txid res) eid"
    and t: "t = sweep_executions_update g
             (payment_requests_update (update_rows pr_id (pr_id p) (confirmed_row now eid)) s)"
    by blast
  have "p \<in> set (payment_requests s)" "pr_broadcast_txid p = Some (tr_txid res)"
    using one_or_none_SelOneD [OF *(2)] by simp_all
  moreover have "entry_for t (tr_txid res) eid"
    using *(5) assms(2) by (auto simp: entry_for_def t)
  ultimately show ?thesis
    using * by (auto simp: t books_of_def payments_after_def)
qed

lemma link_invoice_after:
  assumes "link_invoice_if_any res tx s = (Inr ev, t)" "tr_txid res = dt_txid tx"
  shows "books_of t = books_of s \<and> payment_requests t = payment_requests s \<and> invoices_after tx s t"
proof (cases "t = s")
  case True
  then show ?thesis by (simp add: invoices_after_def)
next
  case False
  then have "link_outputs (dt_txid tx) (dt_vout tx) s = (Inr ev, t)"
    using assms by (auto simp: link_invoice_if_any_def svc_defs split: if_splits)
  from link_outputs_effect [OF this] False obtain out i v eid over
    where *: "out \<in> set (dt_vout tx)" "pays_invoice s out i v" "entry_for s (dt_txid tx) eid"
      "over = (case i_amount_sats i of None \<Rightarrow> False | Some a \<Rightarrow> a < v)"
      and t: "t = invoices_update (update_rows i_id (i_id i) (paid_row eid over)) s"
    by blast
  have "entry_for t (dt_txid tx) eid" using *(3) by (simp add: entry_for_def t)
  moreover have "books_of t = books_of s" "payment_requests t = payment_requests s"
    "invoices t = update_rows i_id (i_id i) (paid_row eid over) (invoices s)"
    by (simp_all add: t books_of_def)
  ultimately show ?thesis
    unfolding invoices_after_def using *(1,2,4) by blast
qed

lemma tx_session_effect:
  assumes "tx_session dr now tx height fee s = (Inr (res, payment_ev, invoice_ev, sweep_ev), t)"
  shows "\<exists>u. process_decoded_transaction dr tx height (dt_blocktime tx) fee s = (Inr res, u) \<and>
    books_of t = books_of u \<and> payments_after now (dt_txid tx) height s t \<and> invoices_after tx s t"
proof -
  obtain u v w where u: "process_decoded_transaction dr tx height (dt_blocktime tx) fee s = (Inr res, u)"
    and v: "link_payment_request_if_any now res u = (Inr payment_ev, v)"
    and w: "link_invoice_if_any res tx v = (Inr invoice_ev, w)"
    and t: "link_sweep_execution_if_any now res w = (Inr sweep_ev, t)"
    using assms by (auto simp: tx_session_def commit_on_success_Inr_iff bnd_eq_Inr_iff ret_def)
  note frame = process_frame [OF u]
  then have pu: "payment_requests u = payment_requests s" "invoices u = invoices s"
    by (auto simp: outside_books_def)
  have new: "entry_for u (tr_txid res) eid" if "eid \<in> set (tr_new_ledger_entry_ids res)" for eid
    using that frame by (auto intro: entry_for_new)
  note pv = link_payment_after [OF v new]
  have iw: "books_of w = books_of v \<and> payment_requests w = payment_requests v \<and> invoices_after tx v w"
    using frame by (intro link_invoice_after [OF w]) simp
  obtain g where "t = sweep_executions_update g w" using link_sweep_effect [OF t] by blast
  then have tw: "books_of t = books_of w" "payment_requests t = payment_requests w" "invoices t = invoices w"
    by (simp_all add: books_of_def)
  have le: "ledger_entries t = ledger_entries w" "ledger_entries t = ledger_entries v"
    using tw(1) iw by (simp_all add: books_of_def)
  have "payments_after now (dt_txid tx) height s t"
    using pv frame pu iw tw le by (intro payments_after_cong [of s u t v]) simp_all
  moreover have "invoices_after tx s t"
    using pv pu iw tw le by (intro invoices_after_cong [of s v t w]) simp_all
  ultimately show ?thesis
    using u pv iw tw by simp
qed

text \<open>The books after a committed visit are those of the processor, so the processor's facts carry
  over.\<close>

lemma books_of_simps:
  assumes "books_of t = books_of u"
  shows "holdings t = holdings u" "descriptors t = descriptors u" "addresses t = addresses u"
    "utxos t = utxos u" "onchain_transactions t = onchain_transactions u"
    "ledger_entries t = ledger_entries u" "ledger_links t = ledger_links u"
    "sweep_policies t = sweep_policies u" "broadcast_attempts t = broadcast_attempts u"
  using assms by (simp_all add: books_of_def)

lemma books_inv_books_of:
  assumes "books_of t = books_of u"
  shows "books_inv t = books_inv u"
  using books_of_simps [OF assms]
  by (simp add: books_inv_def utxo_inv_def onchain_inv_def ledger_inv_def links_of_tx_def)

lemma tx_effect_books_of:
  assumes "books_of t = books_of u"
  shows "tx_effect dr tx s res u \<Longrightarrow> tx_effect dr tx s res t"
proof -
  have "cores t = cores u" "links_of_tx t = links_of_tx u"
    using books_of_simps [OF assms] by (simp_all add: cores_def links_of_tx_def fun_eq_iff)
  then show "tx_effect dr tx s res u \<Longrightarrow> tx_effect dr tx s res t"
    using books_of_simps [OF assms] unfolding tx_effect_def by simp
qed

lemma tx_session_books:
  assumes "books_inv s" "tx_ok tx height" "draws_ok s dr"
    and "tx_session dr now tx height fee s = (Inr (res, evs), t)"
  shows "tx_effect dr tx s res t \<and> books_inv t"
proof -
  obtain a b c where "evs = (a, b, c)" by (cases evs)
  then obtain u where u: "process_decoded_transaction dr tx height (dt_blocktime tx) fee s = (Inr res, u)"
    and t: "books_of t = books_of u"
    using tx_session_effect assms(4) by blast
  then show ?thesis
    using process_effect [OF assms(1-3), of "dt_blocktime tx" fee]
      books_inv_books_of [OF t] tx_effect_books_of [OF t]
    by auto
qed

lemma second_visit_nothing_new:
  assumes "books_inv s" "tx_ok tx height" "draws_ok s dr"
    and eff: "tx_effect dr tx s res t" "books_inv t"
    and "tx_ok tx height'" "draws_ok t dr'"
    and "process_decoded_transaction dr' tx height' bt fee t = (Inr res', u)"
  shows "tr_discovered_utxo_ids res' = []" "tr_new_ledger_entry_ids res' = []"
proof -
  have "tx_effect dr' tx t res' u"
    using process_effect [OF assms(5-7), of bt fee] assms(8) by auto
  then show "tr_discovered_utxo_ids res' = []" "tr_new_ledger_entry_ids res' = []"
    using second_sighting_outputs [OF eff(1)] second_sighting_ledger [OF assms(1-3,7) eff(1)]
    by (simp_all add: tx_effect_def)
qed

lemma one_or_none_two:
  assumes "distinct (map key rows)" "x \<in> set rows" "y \<in> set rows" "key x \<noteq> key y" "p x" "p y"
  shows "one_or_none p rows = SelMany"
proof (cases "one_or_none p rows")
  case SelNone
  then show ?thesis using assms by simp
next
  case (SelOne r)
  then have "filter p rows = [r]" by (auto simp: one_or_none_def split: list.splits)
  moreover have "x \<in> set (filter p rows)" "y \<in> set (filter p rows)" using assms by simp_all
  ultimately show ?thesis using assms(4) by simp
qed simp

lemma entry_of_tx_ambiguous:
  assumes "tr_new_ledger_entry_ids res = []" "entry_for s (tr_txid res) a" "entry_for s (tr_txid res) b"
    "a \<noteq> b" "distinct (map le_id (ledger_entries s))"
  shows "entry_of_tx res s = (Inl MultipleResultsFound, s)"
proof -
  obtain e f where "e \<in> set (ledger_entries s)" "f \<in> set (ledger_entries s)" "le_id e \<noteq> le_id f"
    "le_source e = SRC_ONCHAIN_TRANSACTION \<and> le_source_reference e = tr_txid res"
    "le_source f = SRC_ONCHAIN_TRANSACTION \<and> le_source_reference f = tr_txid res"
    using assms(2-4) by (auto simp: entry_for_def)
  then have "one_or_none (\<lambda>e. le_source e = SRC_ONCHAIN_TRANSACTION \<and> le_source_reference e = tr_txid res)
      (ledger_entries s) = SelMany"
    using assms(5) by (intro one_or_none_two)
  then show ?thesis
    using assms(1) by (simp add: entry_of_tx_def svc_defs le_get_by_source_def row_one_def)
qed

text \<open>A confirmed visit that commits settles the payment it belongs to.\<close>

lemma link_payment_settles:
  assumes "link_payment_request_if_any now res s = (Inr ev, t)"
    and "tr_confirmation_height res = Some height"
    and "tr_new_ledger_entry_ids res \<noteq> [] \<or> (\<exists>eid. entry_for s (tr_txid res) eid)"
    and "p \<in> set (payment_requests s)" "pr_broadcast_txid p = Some (tr_txid res)"
    and "pr_status p = PS_BROADCAST" "distinct (map pr_id (payment_requests s))"
  shows "\<exists>eid. find_row pr_id (pr_id p) (payment_requests t) = Some (confirmed_row now eid p) \<and>
    (eid \<in> set (tr_new_ledger_entry_ids res) \<or> entry_for s (tr_txid res) eid)"
proof -
  obtain found where found: "entry_of_tx res s = (Inr found, s)"
    using assms(1,2) by (auto simp: link_payment_request_if_any_def bnd_eq_Inr_iff dest: entry_of_tx_Inr)
  have "found \<noteq> None"
  proof
    assume "found = None"
    then have "tr_new_ledger_entry_ids res = []"
      "le_get_by_source s SRC_ONCHAIN_TRANSACTION (tr_txid res) = Inr None"
      using found by (auto simp: entry_of_tx_def svc_defs split: list.splits sum.splits)
    then show False
      using assms(3) by (auto simp: le_get_by_source_def row_one_def entry_for_def rbind_eq_Inr_iff
          split: selected.splits)
  qed
  then obtain eid where eid: "found = Some eid" by blast
  obtain found' where found': "pr_get_by_broadcast_txid s (tr_txid res) = Inr found'"
    using assms(1,2) found eid by (auto simp: link_payment_request_if_any_def svc_defs split: sum.splits)
  have "found' \<noteq> None"
    using found' assms(4,5)
    by (auto simp: pr_get_by_broadcast_txid_def row_one_def rbind_eq_Inr_iff split: selected.splits)
  then obtain q where q: "one_or_none (\<lambda>p. pr_broadcast_txid p = Some (tr_txid res)) (payment_requests s) = SelOne q"
    "found' = Some q"
    using found' pr_by_txid_Some by blast
  have "p = q"
  proof -
    have "filter (\<lambda>p. pr_broadcast_txid p = Some (tr_txid res)) (payment_requests s) = [q]"
      using q(1) by (auto simp: one_or_none_def split: list.splits)
    moreover have "p \<in> set (filter (\<lambda>p. pr_broadcast_txid p = Some (tr_txid res)) (payment_requests s))"
      using assms(4,5) by simp
    ultimately show ?thesis by simp
  qed
  have row: "find_row pr_id (pr_id p) (payment_requests s) = Some p"
    using assms(4,7) by (simp add: find_row_in)
  have "ev \<noteq> None"
    using assms(1,2,6) found eid found' q \<open>p = q\<close> row
    by (auto simp: link_payment_request_if_any_def svc_defs bnd_eq_Inr_iff mark_confirmed_def pr_write_def
        rbind_eq_Inr_iff ret_def)
  with link_payment_effect [OF assms(1)] q(1) \<open>p = q\<close> obtain e g where
    "e \<in> set (tr_new_ledger_entry_ids res) \<or> entry_for s (tr_txid res) e"
    "t = sweep_executions_update g
             (payment_requests_update (update_rows pr_id (pr_id p) (confirmed_row now e)) s)"
    by auto
  then show ?thesis using row by (auto simp: find_row_update)
qed


section \<open>Properties\<close>


text \<open>C16. When the visit of a confirmed transaction commits, the broadcast payment with that txid is
  confirmed and linked to a ledger entry of that transaction.\<close>

theorem confirmation_settles_payment:
  assumes "tx_session dr now tx (Some height) fee s = (Inr (res, evs), t)"
    and "p \<in> set (payment_requests s)" "pr_broadcast_txid p = Some (dt_txid tx)"
    and "pr_status p = PS_BROADCAST" "distinct (map pr_id (payment_requests s))"
    and "tr_new_ledger_entry_ids res \<noteq> [] \<or> (\<exists>eid. entry_for s (dt_txid tx) eid)"
  shows "\<exists>eid. find_row pr_id (pr_id p) (payment_requests t) = Some (confirmed_row now eid p) \<and>
    entry_for t (dt_txid tx) eid"
proof -
  obtain u v w x y z where u: "process_decoded_transaction dr tx (Some height) (dt_blocktime tx) fee s = (Inr res, u)"
    and v: "link_payment_request_if_any now res u = (Inr x, v)"
    and w: "link_invoice_if_any res tx v = (Inr y, w)"
    and t: "link_sweep_execution_if_any now res w = (Inr z, t)"
    using assms(1) by (auto simp: tx_session_def commit_on_success_Inr_iff bnd_eq_Inr_iff ret_def)
  note frame = process_frame [OF u]
  have pu: "payment_requests u = payment_requests s" using frame by (simp add: outside_books_def)
  have new: "entry_for u (dt_txid tx) eid" if "eid \<in> set (tr_new_ledger_entry_ids res)" for eid
    using that frame by (auto intro: entry_for_new)
  have old: "entry_for u (dt_txid tx) eid" if "entry_for s (dt_txid tx) eid" for eid
    using that frame by (auto intro: entry_for_mono)
  obtain eid where eid: "find_row pr_id (pr_id p) (payment_requests v) = Some (confirmed_row now eid p)"
    "entry_for u (dt_txid tx) eid"
    using link_payment_settles [OF v, of height p] assms(2-6) frame pu new old by fastforce
  obtain g where "t = sweep_executions_update g w" using link_sweep_effect [OF t] by blast
  then have tw: "books_of t = books_of w" "payment_requests t = payment_requests w"
    by (simp_all add: books_of_def)
  have iw: "books_of w = books_of v \<and> payment_requests w = payment_requests v"
    using link_invoice_after [OF w] frame by simp
  have pv: "books_of v = books_of u" using link_payment_after [OF v] new frame by simp
  have "ledger_entries t = ledger_entries u"
    using books_of_simps(6) [of t u] tw iw pv by simp
  then show ?thesis
    using eid tw iw entry_for_cong [of t u] by auto
qed

text \<open>A transaction that moved money between two watched holdings has two ledger entries, and
  then its confirmation always fails with an ambiguous lookup: once it has been seen unconfirmed,
  no later visit with a height commits anything.\<close>

theorem two_entries_never_confirm:
  assumes "books_inv s" "tx_ok tx None" "draws_ok s dr"
    and "process_decoded_transaction dr tx None bt fee s = (Inr res, t)"
    and "2 \<le> length (tr_new_ledger_entry_ids res)"
    and "tx_ok tx (Some height)" "draws_ok t dr'"
  shows "tx_session dr' now tx (Some height) fee' t = (Inl MultipleResultsFound, t)"
proof -
  have eff: "tx_effect dr tx s res t" "books_inv t"
    using process_effect [OF assms(1-3), of bt fee] assms(4) by auto
  obtain res' u where u: "process_decoded_transaction dr' tx (Some height) (dt_blocktime tx) fee' t = (Inr res', u)"
      "books_inv u"
    using process_effect [OF eff(2) assms(6,7)] by blast
  have none: "tr_new_ledger_entry_ids res' = []"
    using second_visit_nothing_new [OF assms(1-3) eff assms(6,7) u(1)] by simp
  obtain a b rest where ab: "tr_new_ledger_entry_ids res = a # b # rest"
    using assms(5) by (cases "tr_new_ledger_entry_ids res"; cases "tl (tr_new_ledger_entry_ids res)") auto
  have "distinct (tr_new_ledger_entry_ids res)"
    using eff by (auto simp: tx_effect_def books_inv_def ledger_inv_def)
  then have "a \<noteq> b" using ab by simp
  moreover have "entry_for t (dt_txid tx) a" "entry_for t (dt_txid tx) b"
    using process_frame [OF assms(4)] ab by (auto intro: entry_for_new)
  then have "entry_for u (dt_txid tx) a" "entry_for u (dt_txid tx) b"
    using process_frame [OF u(1)] by (auto intro: entry_for_mono)
  ultimately have "entry_of_tx res' u = (Inl MultipleResultsFound, u)"
    using none process_frame [OF u(1)] u(2)
    by (intro entry_of_tx_ambiguous [of _ _ a b]) (simp_all add: books_inv_def ledger_inv_def)
  then have "link_payment_request_if_any now res' u = (Inl MultipleResultsFound, u)"
    using process_frame [OF u(1)] by (simp add: link_payment_request_if_any_def)
  then show ?thesis
    using u(1) by (simp add: tx_session_def commit_on_success_def)
qed

text \<open>A committed visit marks at most one invoice: an open one whose address an output pays.  The
  amount decides only between paid and overpaid, so an underpaid invoice counts as paid.\<close>

theorem visit_marks_one_invoice:
  assumes "tx_session dr now tx height fee s = (Inr (res, evs), t)"
    and "distinct (map i_id (invoices s))"
  shows "invoices t = invoices s \<or>
    (\<exists>out \<in> set (dt_vout tx). \<exists>i \<in> set (invoices s). \<exists>v eid. i_status i = IS_OPEN \<and>
       to_address out \<noteq> None \<and> i_receiving_address i = to_address out \<and>
       map_option btc_to_sats (to_value out) = Some v \<and> entry_for t (dt_txid tx) eid \<and>
       invoices t = map (\<lambda>j. if j = i then i\<lparr>i_resulting_ledger_entry_id := Some eid,
         i_status := (case i_amount_sats i of None \<Rightarrow> IS_PAID
                      | Some a \<Rightarrow> if a < v then IS_OVERPAID else IS_PAID)\<rparr> else j) (invoices s))"
proof -
  obtain a b c where "evs = (a, b, c)" by (cases evs)
  then have "invoices_after tx s t" using tx_session_effect assms(1) by blast
  moreover have "i_id j = i_id i \<longleftrightarrow> j = i" if "i \<in> set (invoices s)" "j \<in> set (invoices s)" for i j
    using assms(2) that by (auto simp: distinct_map inj_on_def)
  then have "update_rows i_id (i_id i) f (invoices s) = map (\<lambda>j. if j = i then f i else j) (invoices s)"
    if "i \<in> set (invoices s)" for i f
    using that by (auto simp: update_rows_def)
  ultimately show ?thesis
    unfolding invoices_after_def pays_invoice_def paid_row_def
    by (elim disjE bexE exE conjE) (blast, intro disjI2 bexI exI conjI, auto split: option.split)
qed

text \<open>Of two invoices that a single transaction pays at most one is marked: the first visit marks
  one, after it the transaction brings nothing new, its outputs are not looked at again, and the
  row of the other invoice is still there unchanged.\<close>

theorem second_invoice_stays_open:
  assumes "books_inv s" "tx_ok tx height" "draws_ok s dr"
    and "tx_session dr now tx height fee s = (Inr (res, evs), t)"
    and "i \<in> set (invoices s)" "j \<in> set (invoices s)" "i_id i \<noteq> i_id j"
    and "tx_ok tx height'" "draws_ok t dr'"
    and "tx_session dr' now' tx height' fee' t = (Inr (res', evs'), u)"
  shows "i \<in> set (invoices u) \<or> j \<in> set (invoices u)"
proof -
  obtain a b c where "evs = (a, b, c)" by (cases evs)
  then have "invoices_after tx s t" using tx_session_effect assms(4) by blast
  then obtain k f where "invoices t = invoices s \<or> invoices t = update_rows i_id k f (invoices s)"
    by (auto simp: invoices_after_def)
  then have t: "i \<in> set (invoices t) \<or> j \<in> set (invoices t)"
    using assms(5-7) by (auto simp: set_update_rows image_iff)
  have eff: "tx_effect dr tx s res t" "books_inv t"
    using tx_session_books [OF assms(1-4)] by simp_all
  obtain v w x y z where v: "process_decoded_transaction dr' tx height' (dt_blocktime tx) fee' t = (Inr res', v)"
    and w: "link_payment_request_if_any now' res' v = (Inr x, w)"
    and y: "link_invoice_if_any res' tx w = (Inr y, z)"
    and u: "\<exists>z'. link_sweep_execution_if_any now' res' z = (Inr z', u)"
    using assms(10) by (auto simp: tx_session_def commit_on_success_Inr_iff bnd_eq_Inr_iff ret_def)
  have "z = w"
    using y second_visit_nothing_new [OF assms(1-3) eff assms(8,9) v]
    by (simp add: link_invoice_if_any_def svc_defs)
  moreover have "invoices w = invoices v"
    using link_payment_effect [OF w] by auto
  moreover have "invoices v = invoices t"
    using process_frame [OF v] by (simp add: outside_books_def)
  moreover have "invoices u = invoices z" using u link_sweep_effect by fastforce
  ultimately show ?thesis using t by simp
qed

end
