(* ===== verification/Payment_Lifecycle.thy ===== *)
theory Payment_Lifecycle
  imports Chain_Listener
begin

text \<open>
  The life of a payment request across the four request handlers of \<^verbatim>\<open>api/v1/banking.py\<close> and the
  chain listener.  The handlers and the listener's visits are the steps of one database; the
  invariant says which columns are filled in which status, that a broadcast request has an
  accepted attempt on record, that a confirmed one is linked to a ledger entry of its
  transaction, and that a holding has at most one request in flight.  The abstract machine
  \<open>lifecycle_move\<close> on the statuses alone is refined by the steps.
\<close>

section \<open>Steps\<close>

inductive payment_step :: "'p bdk_api \<Rightarrow> db \<Rightarrow> db \<Rightarrow> bool" for bdk where
  create: "rid \<notin> pr_id ` set (payment_requests s) \<Longrightarrow> env_bdk env = bdk \<Longrightarrow>
    api_create_payment_request env rid now po s = (r, t) \<Longrightarrow> payment_step bdk s t"
| submit: "api_submit_signed_payment bdk now rid psbt hex s = (r', t) \<Longrightarrow> payment_step bdk s t"
| broadcast: "aid \<notin> ba_id ` set (broadcast_attempts s) \<Longrightarrow>
    api_broadcast_payment node bdk aid now rid s = (r', t) \<Longrightarrow> payment_step bdk s t"
| cancel: "api_cancel_payment_request now rid s = (r', t) \<Longrightarrow> payment_step bdk s t"
| visit: "tx_session dr now tx height fee s = (r'', t) \<Longrightarrow> payment_step bdk s t"

inductive_cases payment_stepE: "payment_step bdk s t"

section \<open>Invariant\<close>

definition lifecycle_ok :: "payment_request \<Rightarrow> bool" where
  "lifecycle_ok p \<longleftrightarrow> PaymentRequest p = Inr p \<and> pr_payment_type p = PT_ONCHAIN \<and>
     pr_psbt_base64 p \<noteq> None \<and>
     (case pr_status p of
        PS_AWAITING_SIGNATURE \<Rightarrow> pr_signed_transaction_hex p = None \<and> pr_broadcast_txid p = None \<and>
          pr_resulting_ledger_entry_id p = None
      | PS_AWAITING_BROADCAST \<Rightarrow> pr_signed_transaction_hex p \<noteq> None \<and> pr_broadcast_txid p = None \<and>
          pr_resulting_ledger_entry_id p = None
      | PS_BROADCAST \<Rightarrow> pr_signed_transaction_hex p \<noteq> None \<and> pr_broadcast_txid p \<noteq> None \<and>
          pr_resulting_ledger_entry_id p = None
      | PS_CONFIRMED \<Rightarrow> pr_signed_transaction_hex p \<noteq> None \<and> pr_broadcast_txid p \<noteq> None \<and>
          pr_resulting_ledger_entry_id p \<noteq> None
      | PS_CANCELLED \<Rightarrow> pr_broadcast_txid p = None \<and> pr_resulting_ledger_entry_id p = None
      | _ \<Rightarrow> False)"

definition audited :: "db \<Rightarrow> payment_request \<Rightarrow> bool" where
  "audited s p \<longleftrightarrow> pr_status p \<in> {PS_BROADCAST, PS_CONFIRMED} \<longrightarrow>
     (\<exists>a \<in> set (broadcast_attempts s). ba_payment_request_id a = pr_id p \<and>
        ba_status a = ''accepted'' \<and> pr_signed_transaction_hex p = Some (ba_transaction_hex a))"

definition settled :: "db \<Rightarrow> payment_request \<Rightarrow> bool" where
  "settled s p \<longleftrightarrow> pr_status p = PS_CONFIRMED \<longrightarrow>
     (\<exists>txid eid. pr_broadcast_txid p = Some txid \<and> pr_resulting_ledger_entry_id p = Some eid \<and>
        entry_for s txid eid)"

definition flying :: "payment_request \<Rightarrow> bool" where
  "flying p \<longleftrightarrow> pr_status p \<in> set in_flight"

definition payments_inv :: "db \<Rightarrow> bool" where
  "payments_inv s \<longleftrightarrow> distinct (map pr_id (payment_requests s)) \<and>
     (\<forall>p \<in> set (payment_requests s). lifecycle_ok p \<and> audited s p \<and> settled s p) \<and>
     (\<forall>p \<in> set (payment_requests s). \<forall>q \<in> set (payment_requests s).
        flying p \<longrightarrow> flying q \<longrightarrow> pr_holding_id p = pr_holding_id q \<longrightarrow> p = q)"

declare payments_inv_def [inv_defs]

text \<open>Attempts and ledger entries are only added.\<close>

definition keeps_records :: "db \<Rightarrow> db \<Rightarrow> bool" where
  "keeps_records s t \<longleftrightarrow> set (broadcast_attempts s) \<subseteq> set (broadcast_attempts t) \<and>
     (\<forall>txid eid. entry_for s txid eid \<longrightarrow> entry_for t txid eid)"

lemma keeps_records_refl [simp]: "keeps_records s s"
  by (simp add: keeps_records_def)

lemma keeps_records_mono:
  "keeps_records s t \<Longrightarrow> audited s p \<Longrightarrow> audited t p" "keeps_records s t \<Longrightarrow> settled s p \<Longrightarrow> settled t p"
  by (auto simp: keeps_records_def audited_def settled_def)

lemma payments_inv_same:
  assumes "payments_inv s" "payment_requests t = payment_requests s" "keeps_records s t"
  shows "payments_inv t"
  using assms by (auto simp: payments_inv_def intro: keeps_records_mono)

lemma payments_inv_append:
  assumes inv: "payments_inv s" and t: "payment_requests t = payment_requests s @ [p]"
    and keep: "keeps_records s t" and fresh: "pr_id p \<notin> pr_id ` set (payment_requests s)"
    and p: "lifecycle_ok p" "audited t p" "settled t p"
    and free: "\<not> has_in_flight_for_holding s (pr_holding_id p)"
  shows "payments_inv t"
proof -
  have free': False if "q \<in> set (payment_requests s)" "flying q" "pr_holding_id q = pr_holding_id p" for q
    using free that by (auto simp: has_in_flight_for_holding_def flying_def)
  show ?thesis
    using inv fresh p keeps_records_mono [OF keep]
    unfolding payments_inv_def t by (auto dest: free' free' [OF _ _ sym])
qed

lemma payments_inv_update:
  assumes inv: "payments_inv s"
    and t: "payment_requests t = update_rows pr_id (pr_id p) f (payment_requests s)"
    and p: "p \<in> set (payment_requests s)"
    and keep: "keeps_records s t"
    and f: "pr_id (f p) = pr_id p" "pr_holding_id (f p) = pr_holding_id p" "flying (f p) \<longrightarrow> flying p"
    and ok: "lifecycle_ok (f p)" "audited t (f p)" "settled t (f p)"
  shows "payments_inv t"
proof -
  have dist: "distinct (map pr_id (payment_requests s))" using inv by (simp add: payments_inv_def)
  have only: "q = p" if "q \<in> set (payment_requests s)" "pr_id q = pr_id p" for q
    using dist p that by (auto simp: distinct_map inj_on_def)
  then have rows: "payment_requests t = map (\<lambda>q. if q = p then f p else q) (payment_requests s)"
    by (auto simp: t update_rows_def)
  have "map pr_id (payment_requests t) = map pr_id (payment_requests s)"
    by (simp add: rows f(1))
  moreover have "lifecycle_ok q \<and> audited t q \<and> settled t q" if "q \<in> set (payment_requests t)" for q
    using that inv ok keeps_records_mono [OF keep] by (auto simp: rows payments_inv_def)
  moreover have "x = y" if xy: "x \<in> set (payment_requests t)" "y \<in> set (payment_requests t)" "flying x"
    "flying y" "pr_holding_id x = pr_holding_id y" for x y
  proof -
    obtain x' y' where o: "x' \<in> set (payment_requests s)" "x = (if x' = p then f p else x')"
      "y' \<in> set (payment_requests s)" "y = (if y' = p then f p else y')"
      using xy(1,2) by (auto simp: rows)
    then have "flying x'" "flying y'" "pr_holding_id x' = pr_holding_id y'"
      using xy(3-5) f by (cases "x' = p"; cases "y' = p"; simp)+
    then have "x' = y'" using inv o by (auto simp: payments_inv_def)
    then show ?thesis using o by simp
  qed
  ultimately show ?thesis
    using dist by (auto simp: payments_inv_def)
qed

section \<open>Every step is one change\<close>

inductive payment_change :: "db \<Rightarrow> db \<Rightarrow> bool" where
  unchanged: "payment_requests t = payment_requests s \<Longrightarrow> keeps_records s t \<Longrightarrow> payment_change s t"
| opened: "payment_requests t = payment_requests s @ [p] \<Longrightarrow> keeps_records s t \<Longrightarrow>
    pr_id p \<notin> pr_id ` set (payment_requests s) \<Longrightarrow> pr_status p = PS_AWAITING_SIGNATURE \<Longrightarrow>
    lifecycle_ok p \<Longrightarrow> \<not> has_in_flight_for_holding s (pr_holding_id p) \<Longrightarrow> payment_change s t"
| signed: "p \<in> set (payment_requests s) \<Longrightarrow> pr_status p = PS_AWAITING_SIGNATURE \<Longrightarrow>
    payment_requests t = update_rows pr_id (pr_id p) (signed_row now hex psbt) (payment_requests s) \<Longrightarrow>
    keeps_records s t \<Longrightarrow> payment_change s t"
| broadcast: "p \<in> set (payment_requests s) \<Longrightarrow> pr_status p = PS_AWAITING_BROADCAST \<Longrightarrow>
    payment_requests t = update_rows pr_id (pr_id p) (broadcast_row now txid) (payment_requests s) \<Longrightarrow>
    keeps_records s t \<Longrightarrow> a \<in> set (broadcast_attempts t) \<Longrightarrow> ba_payment_request_id a = pr_id p \<Longrightarrow>
    ba_status a = ''accepted'' \<Longrightarrow> pr_signed_transaction_hex p = Some (ba_transaction_hex a) \<Longrightarrow>
    payment_change s t"
| confirmed: "p \<in> set (payment_requests s) \<Longrightarrow> pr_status p = PS_BROADCAST \<Longrightarrow>
    pr_broadcast_txid p = Some txid \<Longrightarrow> entry_for t txid eid \<Longrightarrow>
    payment_requests t = update_rows pr_id (pr_id p) (confirmed_row now eid) (payment_requests s) \<Longrightarrow>
    keeps_records s t \<Longrightarrow> payment_change s t"
| cancelled: "p \<in> set (payment_requests s) \<Longrightarrow> pr_status p \<in> set cancellable \<Longrightarrow>
    payment_requests t = update_rows pr_id (pr_id p) (cancelled_row now) (payment_requests s) \<Longrightarrow>
    keeps_records s t \<Longrightarrow> payment_change s t"

lemma lifecycle_ok_rows:
  assumes "lifecycle_ok p"
  shows "pr_status p = PS_AWAITING_SIGNATURE \<Longrightarrow> lifecycle_ok (signed_row now hex psbt p)"
    and "pr_status p = PS_AWAITING_BROADCAST \<Longrightarrow> lifecycle_ok (broadcast_row now txid p)"
    and "pr_status p = PS_BROADCAST \<Longrightarrow> lifecycle_ok (confirmed_row now eid p)"
    and "pr_status p \<in> set cancellable \<Longrightarrow> lifecycle_ok (cancelled_row now p)"
proof -
  have *: "PaymentRequest p = Inr p" "pr_payment_type p = PT_ONCHAIN"
    using assms by (simp_all add: lifecycle_ok_def)
  show "pr_status p = PS_AWAITING_SIGNATURE \<Longrightarrow> lifecycle_ok (signed_row now hex psbt p)"
    using assms PaymentRequest_rows(1) [OF *]
    by (auto simp: lifecycle_ok_def) (simp_all add: signed_row_def split: option.split)
  show "pr_status p = PS_AWAITING_BROADCAST \<Longrightarrow> lifecycle_ok (broadcast_row now txid p)"
    using assms PaymentRequest_rows(2) [OF *]
    by (auto simp: lifecycle_ok_def) (simp_all add: broadcast_row_def)
  show "pr_status p = PS_BROADCAST \<Longrightarrow> lifecycle_ok (confirmed_row now eid p)"
    using assms PaymentRequest_rows_any(1) [OF *(1)]
    by (auto simp: lifecycle_ok_def) (simp_all add: confirmed_row_def)
  show "pr_status p \<in> set cancellable \<Longrightarrow> lifecycle_ok (cancelled_row now p)"
    using assms PaymentRequest_rows_any(2) [OF *(1)]
    by (auto simp: lifecycle_ok_def cancellable_def) (simp_all add: cancelled_row_def)
qed

lemma payment_change_keeps:
  assumes "payments_inv s" "payment_change s t"
  shows "payments_inv t"
  using assms(2,1)
proof cases
  case unchanged
  then show ?thesis using assms(1) by (blast intro: payments_inv_same)
next
  case (opened p)
  then have "audited t p" "settled t p" by (simp_all add: audited_def settled_def)
  then show ?thesis using assms(1) opened by (blast intro: payments_inv_append)
next
  case (signed p now hex psbt)
  have "lifecycle_ok p" using assms(1) signed(1) by (simp add: payments_inv_def)
  then show ?thesis
    using signed
    by (intro payments_inv_update [OF assms(1) signed(3) signed(1) signed(4)])
       (simp_all add: lifecycle_ok_rows audited_def settled_def flying_def in_flight_def)
next
  case (broadcast p now txid a)
  have "lifecycle_ok p" using assms(1) broadcast(1) by (simp add: payments_inv_def)
  moreover have "audited t (broadcast_row now txid p)"
    using broadcast by (auto simp: audited_def broadcast_row_def)
  ultimately show ?thesis
    using broadcast
    by (intro payments_inv_update [OF assms(1) broadcast(3) broadcast(1) broadcast(4)])
       (simp_all add: lifecycle_ok_rows settled_def flying_def in_flight_def)
next
  case (confirmed p txid eid now)
  have "lifecycle_ok p" "audited s p" using assms(1) confirmed(1) by (simp_all add: payments_inv_def)
  moreover from this have "audited t (confirmed_row now eid p)"
    using confirmed keeps_records_mono(1) by (fastforce simp: audited_def confirmed_row_def)
  moreover have "settled t (confirmed_row now eid p)"
    using confirmed by (simp add: settled_def confirmed_row_def)
  ultimately show ?thesis
    using confirmed
    by (intro payments_inv_update [OF assms(1) confirmed(5) confirmed(1) confirmed(6)])
       (simp_all add: lifecycle_ok_rows flying_def in_flight_def)
next
  case (cancelled p now)
  have "lifecycle_ok p" using assms(1) cancelled(1) by (simp add: payments_inv_def)
  then show ?thesis
    using cancelled
    by (intro payments_inv_update [OF assms(1) cancelled(3) cancelled(1) cancelled(4)])
       (simp_all add: lifecycle_ok_rows audited_def settled_def flying_def in_flight_def)
qed

section \<open>The handlers and the listener\<close>

lemma keeps_records_payments [simp]: "keeps_records s (payment_requests_update f s)"
  by (simp add: keeps_records_def entry_for_def)

lemma create_change:
  assumes fresh: "rid \<notin> pr_id ` set (payment_requests s)"
    and run: "api_create_payment_request env rid now po s = (r, t)"
  shows "payment_change s t"
proof (cases r)
  case (Inl e)
  then have "t = s" using run by (auto simp: api_create_payment_request_def dest: commit_on_success_InlD)
  then show ?thesis by (simp add: payment_change.unchanged)
next
  case (Inr x)
  then have "build_payment_request env rid now po s = (Inr x, t)"
    using run by (simp add: api_create_payment_request_def commit_on_success_Inr_iff)
  from build_effect [OF this] consider "t = s"
    | psbt where "t = payment_requests_update (\<lambda>ps. ps @ [new_payment_request rid now po psbt]) s"
        "\<not> has_in_flight_for_holding s (po_holding_id po)"
        "PaymentRequest (new_payment_request rid now po psbt) = Inr (new_payment_request rid now po psbt)"
    by auto
  then show ?thesis
  proof cases
    case 1
    then show ?thesis by (simp add: payment_change.unchanged)
  next
    case 2
    then show ?thesis
      using fresh
      by (intro payment_change.opened [of t s "new_payment_request rid now po psbt"])
         (simp_all add: lifecycle_ok_def, simp_all add: new_payment_request_def)
  qed
qed

lemma submit_change:
  assumes "api_submit_signed_payment bdk now rid psbt hex s = (r, t)"
  shows "payment_change s t"
proof (cases r)
  case (Inl e)
  then have "t = s"
    using assms by (auto simp: api_submit_signed_payment_def raise_def split: if_splits dest: commit_on_success_InlD)
  then show ?thesis by (simp add: payment_change.unchanged)
next
  case (Inr x)
  then have "submit_signed_payment_request bdk now rid psbt hex s = (Inr x, t)"
    using assms by (auto simp: api_submit_signed_payment_def raise_def commit_on_success_Inr_iff split: if_splits)
  from submit_effect [OF this] obtain p signed stored where
    "find_row pr_id rid (payment_requests s) = Some p" "pr_status p = PS_AWAITING_SIGNATURE"
    "t = payment_requests_update (update_rows pr_id rid (signed_row now signed stored)) s"
    by auto
  then show ?thesis
    using find_row_SomeD [of pr_id rid "payment_requests s" p]
    by (intro payment_change.signed [of p s t now signed stored]) auto
qed

lemma cancel_change:
  assumes "api_cancel_payment_request now rid s = (r, t)"
  shows "payment_change s t"
proof (cases r)
  case (Inl e)
  then have "t = s" using assms by (auto simp: api_cancel_payment_request_def dest: commit_on_success_InlD)
  then show ?thesis by (simp add: payment_change.unchanged)
next
  case (Inr x)
  then have "cancel_payment_request now rid s = (Inr x, t)"
    using assms by (simp add: api_cancel_payment_request_def commit_on_success_Inr_iff)
  from cancel_effect [OF this] obtain p where
    "find_row pr_id rid (payment_requests s) = Some p" "pr_status p \<in> set cancellable"
    "t = payment_requests_update (update_rows pr_id rid (cancelled_row now)) s"
    by auto
  then show ?thesis
    using find_row_SomeD [of pr_id rid "payment_requests s" p]
    by (intro payment_change.cancelled [of p s t now]) auto
qed

lemma keeps_records_attempts [simp]:
  "keeps_records s (broadcast_attempts_update (\<lambda>as. as @ xs) s)"
  "keeps_records s (payment_requests_update f (broadcast_attempts_update (\<lambda>as. as @ xs) s))"
  by (auto simp: keeps_records_def entry_for_def)

lemma broadcast_change:
  assumes fresh: "aid \<notin> ba_id ` set (broadcast_attempts s)"
    and run: "api_broadcast_payment node bdk aid now rid s = (r, t)"
  shows "payment_change s t"
proof -
  obtain r0 t0 where run0: "broadcast_payment_request node bdk aid now rid s = (r0, t0)" by fastforce
  have r: "r = r0" and t: "t = (case r0 of Inr _ \<Rightarrow> t0 | Inl e \<Rightarrow> if e = BroadcastRejected then t0 else s)"
    using run run0 by (auto simp: api_broadcast_payment_def split: sum.splits)
  show ?thesis
  proof (cases "t = s")
    case True
    then show ?thesis by (simp add: payment_change.unchanged)
  next
    case False
    with broadcast_effect [OF fresh run0] t obtain p hex txid where
      p: "find_row pr_id rid (payment_requests s) = Some p" "pr_status p = PS_AWAITING_BROADCAST"
         "pr_signed_transaction_hex p = Some hex" and
      out: "case broadcast_outcome_of (send_raw_transaction node hex) of
          Accepted b \<Rightarrow> r0 = Inr (broadcast_row now b p) \<and>
            t0 = payment_requests_update (update_rows pr_id rid (broadcast_row now b))
              (broadcast_attempts_update (\<lambda>as. as @
                 [attempt_row aid rid hex txid ''accepted'' None (Some now)]) s)
        | Rejected code msg \<Rightarrow> r0 = Inl BroadcastRejected \<and>
            t0 = broadcast_attempts_update (\<lambda>as. as @
                 [attempt_row aid rid hex txid ''rejected'' (Some (rejection_text code msg))
                   (Some now)]) s
        | Unreachable \<Rightarrow> r0 = Inl BankingError \<and>
            t0 = broadcast_attempts_update (\<lambda>as. as @
                 [attempt_row aid rid hex txid ''submitted'' None None]) s
        | Refused \<Rightarrow> False"
      by (elim disjE exE conjE) (auto split: if_splits)
    have t': "(\<exists>b. t = payment_requests_update (update_rows pr_id rid (broadcast_row now b))
              (broadcast_attempts_update (\<lambda>as. as @
                 [attempt_row aid rid hex txid ''accepted'' None (Some now)]) s)) \<or>
           (\<exists>x. t = broadcast_attempts_update (\<lambda>as. as @ x) s)"
      using out t False by (cases "broadcast_outcome_of (send_raw_transaction node hex)") auto
    have row: "p \<in> set (payment_requests s)" "pr_id p = rid"
      using find_row_SomeD [OF p(1)] by simp_all
    from t' show ?thesis
    proof (elim disjE exE)
      fix b
      assume t: "t = payment_requests_update (update_rows pr_id rid (broadcast_row now b))
              (broadcast_attempts_update (\<lambda>as. as @
                 [attempt_row aid rid hex txid ''accepted'' None (Some now)]) s)"
      show ?thesis
        using row p
        by (intro payment_change.broadcast [of p s t now b "attempt_row aid rid hex txid ''accepted'' None (Some now)"])
           (simp_all add: t attempt_row_def)
    next
      fix x
      assume "t = broadcast_attempts_update (\<lambda>as. as @ x) s"
      then show ?thesis by (intro payment_change.unchanged) simp_all
    qed
  qed
qed

lemma visit_change:
  assumes "tx_session dr now tx height fee s = (r, t)"
  shows "payment_change s t"
proof (cases r)
  case (Inl e)
  then have "t = s" using assms by (auto simp: tx_session_def dest: commit_on_success_InlD)
  then show ?thesis by (simp add: payment_change.unchanged)
next
  case (Inr x)
  obtain res a b c where x: "x = (res, a, b, c)" by (cases x)
  obtain u where u: "process_decoded_transaction dr tx height (dt_blocktime tx) fee s = (Inr res, u)"
    "books_of t = books_of u" "payments_after now (dt_txid tx) height s t"
    using tx_session_effect assms Inr x by blast
  have "broadcast_attempts u = broadcast_attempts s"
    using process_frame [OF u(1)] by (simp add: outside_books_def)
  moreover have "entry_for t txid eid" if "entry_for s txid eid" for txid eid
    using entry_for_mono [of "dt_txid tx" _ s u] process_frame [OF u(1)] that
      entry_for_cong [of t u] books_of_simps(6) [OF u(2)] by auto
  ultimately have keep: "keeps_records s t"
    using books_of_simps(9) [OF u(2)] by (simp add: keeps_records_def)
  from u(3) show ?thesis
    unfolding payments_after_def
    by (elim disjE exE conjE) (blast intro: keep payment_change.intros)+
qed

lemma payment_step_change: "payment_step bdk s t \<Longrightarrow> payment_change s t"
  by (erule payment_stepE)
     (blast intro: create_change submit_change broadcast_change cancel_change visit_change)+

section \<open>The abstract lifecycle\<close>

definition statuses :: "db \<Rightarrow> uuid \<Rightarrow> payment_status option" where
  "statuses s rid = map_option pr_status (find_row pr_id rid (payment_requests s))"

inductive lifecycle_move ::
  "(uuid \<Rightarrow> payment_status option) \<Rightarrow> (uuid \<Rightarrow> payment_status option) \<Rightarrow> bool" where
  starting: "m rid = None \<Longrightarrow> lifecycle_move m (m(rid \<mapsto> PS_AWAITING_SIGNATURE))"
| signing: "m rid = Some PS_AWAITING_SIGNATURE \<Longrightarrow> lifecycle_move m (m(rid \<mapsto> PS_AWAITING_BROADCAST))"
| sending: "m rid = Some PS_AWAITING_BROADCAST \<Longrightarrow> lifecycle_move m (m(rid \<mapsto> PS_BROADCAST))"
| settling: "m rid = Some PS_BROADCAST \<Longrightarrow> lifecycle_move m (m(rid \<mapsto> PS_CONFIRMED))"
| dropping: "m rid = Some st \<Longrightarrow> st \<in> {PS_AWAITING_SIGNATURE, PS_AWAITING_BROADCAST} \<Longrightarrow>
    lifecycle_move m (m(rid \<mapsto> PS_CANCELLED))"

lemma statuses_update:
  assumes "payments_inv s" "p \<in> set (payment_requests s)" "\<And>q. pr_id (f q) = pr_id q"
    and "payment_requests t = update_rows pr_id (pr_id p) f (payment_requests s)"
  shows "statuses s (pr_id p) = Some (pr_status p)"
    "statuses t = (statuses s)(pr_id p \<mapsto> pr_status (f p))"
proof -
  have row: "find_row pr_id (pr_id p) (payment_requests s) = Some p"
    using assms(1,2) by (simp add: payments_inv_def find_row_in)
  then show "statuses s (pr_id p) = Some (pr_status p)" by (simp add: statuses_def)
  show "statuses t = (statuses s)(pr_id p \<mapsto> pr_status (f p))"
    using row assms(3) by (auto simp: fun_eq_iff statuses_def assms(4) find_row_update)
qed

lemma statuses_append:
  assumes "pr_id p \<notin> pr_id ` set (payment_requests s)"
    and "payment_requests t = payment_requests s @ [p]"
  shows "statuses s (pr_id p) = None" "statuses t = (statuses s)(pr_id p \<mapsto> pr_status p)"
  using assms(1) [folded find_row_None_iff]
  by (auto simp: fun_eq_iff statuses_def assms(2) find_row_append split: option.split)

lemma payment_change_sim:
  assumes inv: "payments_inv s" and change: "payment_change s t"
  shows "statuses t = statuses s \<or> lifecycle_move (statuses s) (statuses t)"
  using change
proof cases
  case unchanged
  then show ?thesis by (simp add: statuses_def fun_eq_iff)
next
  case (opened p)
  then show ?thesis using statuses_append [of p s t] by (auto intro: lifecycle_move.starting)
next
  case (signed p now hex psbt)
  then show ?thesis
    using statuses_update [OF inv signed(1) _ signed(3)] by (auto intro: lifecycle_move.signing)
next
  case (broadcast p now txid a)
  then show ?thesis
    using statuses_update [OF inv broadcast(1) _ broadcast(3)] by (auto intro: lifecycle_move.sending)
next
  case (confirmed p txid eid now)
  then show ?thesis
    using statuses_update [OF inv confirmed(1) _ confirmed(5)] by (auto intro: lifecycle_move.settling)
next
  case (cancelled p now)
  have "lifecycle_ok p" using inv cancelled(1) by (simp add: payments_inv_def)
  then have "pr_status p \<in> {PS_AWAITING_SIGNATURE, PS_AWAITING_BROADCAST}"
    using cancelled(2) by (auto simp: cancellable_def lifecycle_ok_def)
  then show ?thesis
    using statuses_update [OF inv cancelled(1) _ cancelled(3)]
    by (auto intro: lifecycle_move.dropping)
qed

interpretation payments: simulation "payment_step bdk" payments_inv statuses lifecycle_move for bdk
proof unfold_locales
  show "payments_inv s \<Longrightarrow> payment_step bdk s t \<Longrightarrow> payments_inv t" for s t
    by (blast intro: payment_change_keeps payment_step_change)
  show "payments_inv s \<Longrightarrow> payment_step bdk s t \<Longrightarrow>
      statuses t = statuses s \<or> lifecycle_move (statuses s) (statuses t)" for s t
    by (rule payment_change_sim [OF _ payment_step_change])
qed

lemma terminal_move:
  "lifecycle_move m n \<Longrightarrow> m rid = Some st \<Longrightarrow> st \<in> {PS_CONFIRMED, PS_CANCELLED} \<Longrightarrow> n rid = Some st"
  by (erule lifecycle_move.cases) auto

lemma terminal_moves:
  "lifecycle_move\<^sup>*\<^sup>* m n \<Longrightarrow> m rid = Some st \<Longrightarrow> st \<in> {PS_CONFIRMED, PS_CANCELLED} \<Longrightarrow> n rid = Some st"
  by (induction rule: rtranclp_induct) (auto intro: terminal_move)

section \<open>What the PSBT builder is given\<close>

lemma resolve_fee_rate_pos: "resolve_fee_rate node strategy rate = Inr r \<Longrightarrow> 0 < r"
  by (auto simp: resolve_fee_rate_def split: option.splits sum.splits if_splits)

lemma utxos_for_build_same:
  assumes "utxos_for_build parents us = Inr xs"
  shows "map (\<lambda>x. (ub_txid x, ub_vout x, ub_value_sats x)) xs =
    map (\<lambda>u. (u_txid u, u_vout u, u_value_sats u)) us"
proof -
  have "list_all2 (\<lambda>u x. (ub_txid x, ub_vout x, ub_value_sats x) = (u_txid u, u_vout u, u_value_sats u)) us xs"
    using assms unfolding utxos_for_build_def rmap_eq_Inr_iff
    by (rule list_all2_mono) (auto split: option.splits)
  then show ?thesis by (induction rule: list_all2_induct) auto
qed

lemma compose_psbt_args:
  assumes "compose_psbt env po s d = Inr psbt"
  shows "\<exists>us args. gather_spendable_utxos s (d_id d) = Inr us \<and> us \<noteq> [] \<and>
    (case po_amount_sats po of None \<Rightarrow> True | Some a \<Rightarrow> a \<le> total_sats us) \<and>
    env_build_psbt env args = Some psbt \<and> bp_recipient_address args = po_destination_address po \<and>
    bp_amount_sats args = po_amount_sats po \<and> 0 < bp_fee_rate_sat_per_vbyte args \<and>
    map (\<lambda>x. (ub_txid x, ub_vout x, ub_value_sats x)) (bp_utxos args) =
      map (\<lambda>u. (u_txid u, u_vout u, u_value_sats u)) us"
proof -
  obtain us where us: "gather_spendable_utxos s (d_id d) = Inr us"
    using assms by (auto simp: compose_psbt_def rbind_eq_Inr_iff)
  have guards: "us \<noteq> []" "case po_amount_sats po of None \<Rightarrow> True | Some a \<Rightarrow> a \<le> total_sats us"
    using assms us by (auto simp: compose_psbt_def split: if_splits option.splits)
  obtain fee parents xs me mc where
    fee: "resolve_fee_rate (env_node env) (po_fee_strategy po) (po_fee_sat_per_vbyte po) = Inr fee"
    and xs: "utxos_for_build parents us = Inr xs"
    and build: "env_build_psbt env
       \<lparr>bp_external_descriptor = d_expression d, bp_change_descriptor = d_change_expression d,
        bp_network = d_network d, bp_utxos = xs,
        bp_recipient_address = po_destination_address po, bp_amount_sats = po_amount_sats po,
        bp_fee_rate_sat_per_vbyte = fee, bp_max_external_index = me,
        bp_max_change_index = mc\<rparr> = Some psbt"
    using assms us by (auto simp: compose_psbt_def rbind_eq_Inr_iff split: if_splits option.splits)
  show ?thesis
    using us guards build resolve_fee_rate_pos [OF fee] utxos_for_build_same [OF xs]
    by (intro exI conjI) (assumption | simp)+
qed

section \<open>Properties\<close>

text \<open>C2. Every run of the handlers and the listener, with any answers of bitcoind and of BDK,
  refines the status machine: open, sign, broadcast, confirm, with a cancel only before the
  broadcast.\<close>

theorem payment_lifecycle_refines:
  assumes "(payment_step bdk)\<^sup>*\<^sup>* s t" "payments_inv s"
  shows "lifecycle_move\<^sup>*\<^sup>* (statuses s) (statuses t)"
  by (rule payments.sim_run [OF assms])

text \<open>A confirmed or cancelled payment request keeps its status for ever.\<close>

theorem terminal_statuses_stay:
  assumes "(payment_step bdk)\<^sup>*\<^sup>* s t" "payments_inv s"
    and "statuses s rid = Some st" "st \<in> {PS_CONFIRMED, PS_CANCELLED}"
  shows "statuses t rid = Some st"
  by (rule terminal_moves [OF payments.sim_run [OF assms(1,2)] assms(3,4)])

text \<open>C5. At any time a holding has at most one payment request in flight, however requests are
  created, signed, broadcast, confirmed and cancelled.\<close>

theorem one_payment_in_flight:
  assumes "(payment_step bdk)\<^sup>*\<^sup>* s t" "payments_inv s"
    and "p \<in> set (payment_requests t)" "q \<in> set (payment_requests t)"
    and "pr_status p \<in> set in_flight" "pr_status q \<in> set in_flight"
    and "pr_holding_id p = pr_holding_id q"
  shows "p = q"
  using payments.inv_run [OF assms(1,2)] assms(3-7) by (simp add: payments_inv_def flying_def)

text \<open>C6. Money that left has a paper trail: a request that is broadcast or confirmed has a txid and
  an accepted broadcast attempt with exactly its signed transaction, and a confirmed one is
  linked to a ledger entry of that txid.\<close>

theorem broadcast_payments_are_recorded:
  assumes "(payment_step bdk)\<^sup>*\<^sup>* s t" "payments_inv s"
    and "p \<in> set (payment_requests t)" "pr_status p \<in> {PS_BROADCAST, PS_CONFIRMED}"
  shows "(\<exists>a \<in> set (broadcast_attempts t). ba_payment_request_id a = pr_id p \<and>
      ba_status a = ''accepted'' \<and> pr_signed_transaction_hex p = Some (ba_transaction_hex a)) \<and>
    (\<exists>txid. pr_broadcast_txid p = Some txid \<and>
      (pr_status p = PS_CONFIRMED \<longrightarrow>
         (\<exists>eid. pr_resulting_ledger_entry_id p = Some eid \<and> entry_for t txid eid)))"
proof -
  have p: "lifecycle_ok p" "audited t p" "settled t p"
    using payments.inv_run [OF assms(1,2)] assms(3) by (simp_all add: payments_inv_def)
  have "pr_broadcast_txid p \<noteq> None" using p(1) assms(4) by (auto simp: lifecycle_ok_def)
  then show ?thesis
    using p(2,3) assms(4) by (auto simp: audited_def settled_def)
qed


text \<open>The three outcomes of broadcasting a signed request.  Accepted: the request is broadcast
  under the txid the node returned and the attempt is recorded as accepted.  Rejected: the
  request keeps its status and the attempt and the node's reason are recorded.  Node not
  reachable: nothing is recorded, the attempt row is dropped with the session.\<close>

theorem broadcast_outcomes:
  assumes "find_row pr_id rid (payment_requests s) = Some p" "PaymentRequest p = Inr p"
    and "pr_status p = PS_AWAITING_BROADCAST" "pr_signed_transaction_hex p = Some hex"
    and "bdk_transaction_txid bdk hex = Some txid" "aid \<notin> ba_id ` set (broadcast_attempts s)"
  shows "api_broadcast_payment node bdk aid now rid s =
    (case send_raw_transaction node hex of
       Inr b \<Rightarrow> (Inr (broadcast_row now b p),
         payment_requests_update (update_rows pr_id rid (broadcast_row now b))
           (broadcast_attempts_update (\<lambda>as. as @
              [attempt_row aid rid hex txid ''accepted'' None (Some now)]) s))
     | Inl (NodeRpcError code msg) \<Rightarrow> (Inl BroadcastRejected,
         broadcast_attempts_update (\<lambda>as. as @
           [attempt_row aid rid hex txid ''rejected'' (Some (rejection_text code msg)) (Some now)]) s)
     | Inl _ \<Rightarrow> (Inl BankingError, s))"
proof -
  have onchain: "pr_payment_type p = PT_ONCHAIN"
    using PaymentRequest_onchain [OF assms(2)] assms(4) by simp
  have marked: "bnd (mark_broadcast now rid b) require u =
      (Inr (broadcast_row now b p), payment_requests_update (update_rows pr_id rid (broadcast_row now b)) u)"
    if "payment_requests u = payment_requests s" for b u
    unfolding mark_broadcast_def using assms(1) that PaymentRequest_rows(2) [OF assms(2) onchain]
    by (intro bnd_pr_write) simp_all
  have got: "pr_get s rid = Inr (Some p)" using assms(1,2) by (simp add: pr_get_Some_iff)
  show ?thesis
    using got assms(3-5)
    by (simp add: api_broadcast_payment_def broadcast_payment_request_def svc_defs
        attempt_insert_submitted attempt_insert_update [OF assms(6)] marked
        split: sum.split node_exn.split)
qed

text \<open>Any raw transaction BDK can parse is accepted for a request that awaits its signature and
  becomes the transaction that will be broadcast: it is not compared with the request's own
  PSBT, destination or amount.\<close>

theorem raw_submission_is_not_matched:
  assumes "find_row pr_id rid (payment_requests s) = Some p" "PaymentRequest p = Inr p"
    and "pr_status p = PS_AWAITING_SIGNATURE" "pr_psbt_base64 p = Some original"
    and "bdk_transaction_txid bdk hex = Some txid"
  shows "api_submit_signed_payment bdk now rid None (Some hex) s =
    (Inr (signed_row now hex None p),
     payment_requests_update (update_rows pr_id rid (signed_row now hex None)) s)"
proof -
  have onchain: "pr_payment_type p = PT_ONCHAIN"
    using PaymentRequest_onchain [OF assms(2)] assms(4) by simp
  have "bnd (mark_signed now rid hex None) require s = (Inr (signed_row now hex None p),
     payment_requests_update (update_rows pr_id rid (signed_row now hex None)) s)"
    unfolding mark_signed_def using assms(1) PaymentRequest_rows(1) [OF assms(2) onchain]
    by (rule bnd_pr_write)
  moreover have "pr_get s rid = Inr (Some p)" using assms(1,2) by (simp add: pr_get_Some_iff)
  ultimately show ?thesis
    using assms(3-5)
    by (simp add: api_submit_signed_payment_def commit_on_success_def submit_signed_payment_request_def
        svc_defs accept_submission_def)
qed

end
