(* ===== verification/Examples.thy ===== *)
theory Examples
  imports Payment_Lifecycle
begin

text \<open>
  A small concrete database with two wallets, and the properties of the other theories applied to
  it: one transaction that pays the first wallet, one that moves money between the two, a payment
  from request to confirmation, two invoices, one sweep policy.
\<close>

section \<open>Fixtures\<close>

definition ex_security :: security_claim where
  "ex_security = \<lparr>sc_custody_model = CM_SELF_SINGLE, sc_signing_model = SM_SOFTWARE_HOT,
     sc_geographic_distribution = False, sc_inheritance_configured = False, sc_notes = None\<rparr>"

definition ex_holding :: "uuid \<Rightarrow> holding" where
  "ex_holding k = \<lparr>h_id = k, h_holding_type = HT_PURSE, h_name = ''w'', h_description = None,
     h_purpose = PUR_SPENDING, h_declared_security = ex_security, h_display_color = ''c'',
     h_display_order = 0, h_created_at = 0, h_updated_at = 0, h_custodial_provider_id = None,
     h_descriptor_ids = [], h_purse_mode = None, h_signing_device_label = None, h_vendor = None,
     h_signing_metadata_present = None, h_required_signers = None, h_total_signers = None,
     h_timelock_kind = None, h_timelock_value = None, h_recovery_setup_notes = None\<rparr>"

definition ex_descriptor :: "uuid \<Rightarrow> uuid \<Rightarrow> descriptor" where
  "ex_descriptor k hid = \<lparr>d_id = k, d_holding_id = hid, d_name = ''d'', d_expression = ''wpkh'',
     d_change_expression = None, d_network = NET_REGTEST, d_address_type = AT_NATIVE_SEGWIT,
     d_gap_limit = 20, d_is_watch_only = True, d_last_scanned_height = 0, d_created_at = 0\<rparr>"

definition ex_address :: "uuid \<Rightarrow> uuid \<Rightarrow> string \<Rightarrow> int \<Rightarrow> address" where
  "ex_address k did addr i = \<lparr>a_id = k, a_descriptor_id = did, a_address = addr,
     a_derivation_path = ''0'', a_is_change = False, a_derivation_index = i, a_label = None,
     a_first_seen_height = None, a_is_reused = False, a_created_at = 0\<rparr>"

definition ex_db :: db where
  "ex_db = empty_db\<lparr>
     holdings := [ex_holding 1, ex_holding 2],
     descriptors := [ex_descriptor 11 1, ex_descriptor 12 2],
     addresses := [ex_address 21 11 ''a'' 0, ex_address 22 12 ''b'' 0, ex_address 23 11 ''c'' 1]\<rparr>"

definition ex_txid :: "char \<Rightarrow> string" where
  "ex_txid c = replicate 64 c"

text \<open>A payment of 0.5 to the first wallet.\<close>

definition ex_tx :: decoded_tx where
  "ex_tx = \<lparr>dt_txid = ex_txid (CHR ''1''), dt_hex = None, dt_vin = [\<lparr>ti_txid = None, ti_vout = None\<rparr>],
     dt_vout = [\<lparr>to_value = Some (1/2), to_n = Some 0, to_address = Some ''a''\<rparr>],
     dt_blockhash = None, dt_blocktime = None\<rparr>"

definition ex_draws :: draws where
  "ex_draws = \<lparr>dr_iter = (\<lambda>xs. xs), dr_utxo_ids = (\<lambda>n. 100 + n), dr_entry_ids = (\<lambda>h. 200 + h),
     dr_now = 0\<rparr>"

lemma ex_books_inv: "books_inv ex_db"
  by (simp add: ex_db_def empty_db_def books_inv_def utxo_inv_def onchain_inv_def ledger_inv_def
      links_of_tx_def)

lemma ex_tx_ok: "tx_ok ex_tx None"
  by (simp add: tx_ok_def ex_tx_def ex_txid_def opt_lt_def)

lemma ex_draws_ok: "draws_ok ex_db ex_draws"
  by (auto simp: draws_ok_def ex_draws_def ex_db_def empty_db_def fresh_from_def inj_def entry_ids_used_def)

text \<open>Fresh identifiers can always be drawn.\<close>

lemma draws_exist: "\<exists>dr. draws_ok s dr"
proof -
  define n where "n = Suc (Max (insert 0 (u_id ` set (utxos s))))"
  define m where "m = Suc (Max (insert 0 (entry_ids_used s)))"
  have fin: "finite (entry_ids_used s)" by (simp add: entry_ids_used_def)
  have "x < n" if "x \<in> u_id ` set (utxos s)" for x
    using that by (auto simp: n_def less_Suc_eq_le intro!: Max_ge)
  moreover have "x < m" if "x \<in> entry_ids_used s" for x
    using that fin by (auto simp: m_def less_Suc_eq_le intro!: Max_ge)
  ultimately have "draws_ok s \<lparr>dr_iter = (\<lambda>xs. xs), dr_utxo_ids = (\<lambda>k. n + k),
      dr_entry_ids = (\<lambda>h. m + h), dr_now = 0\<rparr>"
    by (fastforce simp: draws_ok_def fresh_from_def inj_def)
  then show ?thesis by blast
qed

section \<open>Books\<close>

lemma ex_half: "btc_to_sats (1 / 2) = 50000000"
  by (rule btc_to_sats_near) simp

lemma ex_first_sighting: "first_sighting ex_db ex_tx"
  by (simp add: first_sighting_def ex_db_def empty_db_def ex_tx_def links_of_tx_def input_rows_def
      List.map_filter_def discover_outputs_def found_at_def addressed_outputs_def ex_address_def
      ex_descriptor_def holding_of_descriptor_def)

theorem process_keeps_books_witness:
  "\<exists>res t. process_decoded_transaction ex_draws ex_tx None None None ex_db = (Inr res, t) \<and> books_inv t"
  by (rule process_keeps_books [OF ex_books_inv ex_tx_ok ex_draws_ok])


lemma ex_tx_ok_confirmed: "tx_ok ex_tx (Some 7)"
  by (simp add: tx_ok_def ex_tx_def ex_txid_def opt_lt_def)

theorem second_sighting_adds_nothing_witness:
  "\<exists>res t dr res' u. process_decoded_transaction ex_draws ex_tx None None None ex_db = (Inr res, t) \<and>
    process_decoded_transaction dr ex_tx (Some 7) None None t = (Inr res', u) \<and>
    tr_new_ledger_entry_ids res' = [] \<and> holding_balance u 1 = holding_balance t 1"
proof -
  obtain res t where t: "process_decoded_transaction ex_draws ex_tx None None None ex_db = (Inr res, t)"
    using process_effect [OF ex_books_inv ex_tx_ok ex_draws_ok] by blast
  obtain dr where dr: "draws_ok t dr" using draws_exist by blast
  have "distinct (map d_id (descriptors ex_db))" by (simp add: ex_db_def ex_descriptor_def)
  from second_sighting_adds_nothing [OF ex_books_inv ex_tx_ok ex_tx_ok_confirmed ex_draws_ok this t dr]
  show ?thesis using t by blast
qed

section \<open>Invoices\<close>

definition ex_new_invoice :: "uuid \<Rightarrow> uuid \<Rightarrow> string \<Rightarrow> invoice" where
  "ex_new_invoice iid aid addr = new_invoice iid 0 1 None None (ex_address aid 11 addr 0)"

definition ex_invoiced :: db where
  "ex_invoiced = ex_db\<lparr>
     addresses := [(ex_address 21 11 ''a'' 0)\<lparr>a_label := Some ''r''\<rparr>, ex_address 22 12 ''b'' 0,
       ex_address 23 11 ''c'' 1],
     invoices := [ex_new_invoice 31 21 ''a'']\<rparr>"

lemma ex_create_invoice:
  "create_invoice 31 0 ''r'' 1 None None ex_db = (Inr (ex_new_invoice 31 21 ''a''), ex_invoiced)"
  by code_simp

theorem create_invoice_reserves_lowest_witness:
  "\<exists>d ds a. list_descriptors_for_holding ex_db 1 = Inr (d # ds) \<and>
    i_receiving_address_id (ex_new_invoice 31 21 ''a'') = Some (a_id a) \<and>
    unused_candidate ex_db (d_id d) False a"
  using create_invoice_reserves_lowest [OF ex_create_invoice] by blast

lemma ex_invoice_step: "invoice_step\<^sup>*\<^sup>* ex_db ex_invoiced"
proof (rule r_into_rtranclp, rule invoice_step.create [of 31])
  show "31 \<notin> i_id ` set (invoices ex_db)" by (simp add: ex_db_def empty_db_def)
  show "api_create_invoice 31 0 ''r'' 1 None None ex_db =
      (Inr (ex_new_invoice 31 21 ''a''), ex_invoiced)"
    unfolding api_create_invoice_def commit_on_success_Inr_iff by (rule ex_create_invoice)
qed

lemma ex_reservation_inv: "reservation_inv ex_db"
  by (simp add: reservation_inv_def ex_db_def empty_db_def reserved_address_ids_def List.map_filter_def)

theorem open_invoices_never_share_witness: "distinct (reserved_address_ids ex_invoiced)"
  by (rule open_invoices_never_share [OF ex_invoice_step ex_reservation_inv])

definition ex_paid :: db where
  "ex_paid = ex_invoiced\<lparr>invoices := [paid_row 41 False (ex_new_invoice 31 21 ''a'')]\<rparr>"

lemma ex_mark_paid:
  "mark_paid 31 41 False ex_invoiced = (Inr (Some (paid_row 41 False (ex_new_invoice 31 21 ''a''))), ex_paid)"
  by code_simp

lemma ex_list_descriptors: "list_descriptors_for_holding ex_db 1 = Inr [ex_descriptor 11 1]"
  by code_simp

theorem paid_invoice_frees_address_witness:
  "\<exists>b. next_unused_address ex_paid 11 False = Inr (Some b) \<and> a_address b = ''a''"
proof -
  have "31 \<notin> i_id ` set (invoices ex_db)" by (simp add: ex_db_def empty_db_def)
  from paid_invoice_frees_address [OF ex_create_invoice this ex_mark_paid ex_list_descriptors]
  show ?thesis by (auto simp: ex_descriptor_def paid_row_def ex_new_invoice_def new_invoice_def ex_address_def)
qed

section \<open>Payments\<close>

definition ex_utxo :: utxo where
  "ex_utxo = \<lparr>u_id = 51, u_descriptor_id = 11, u_address_id = 21, u_txid = ''t'', u_vout = 0,
     u_value_sats = 1000, u_confirmation_height = Some 3, u_is_frozen = False, u_is_spent = False,
     u_spent_in_txid = None, u_hygiene_flags = [], u_created_at = 0\<rparr>"

definition ex_funded :: db where
  "ex_funded = ex_db\<lparr>utxos := [ex_utxo]\<rparr>"

definition ex_node :: node_api where
  "ex_node = \<lparr>estimate_smart_fee = (\<lambda>_. Inr None), get_raw_transaction = (\<lambda>_. Inr (RpcStr ''f'')),
     send_raw_transaction = (\<lambda>_. Inr (ex_txid (CHR ''1'')))\<rparr>"

text \<open>A BDK in which every text is a finalised PSBT and its own transaction.\<close>

definition ex_bdk :: "string bdk_api" where
  "ex_bdk = \<lparr>bdk_address_ok = (\<lambda>_ _. True), bdk_psbt = Some, bdk_input = (\<lambda>_. [(True, False)]),
     bdk_extract_tx = Some, bdk_combine = (\<lambda>x _. Some x), bdk_finalize = (\<lambda>x. Some (True, x)),
     bdk_serialize = (\<lambda>x. x), bdk_transaction_txid = Some\<rparr>"

definition ex_env :: "string banking_env" where
  "ex_env = \<lparr>env_node = ex_node, env_bdk = ex_bdk, env_build_psbt = (\<lambda>_. Some ''p'')\<rparr>"

definition ex_order :: payment_order where
  "ex_order = \<lparr>po_holding_id = 1, po_destination_address = ''z'', po_amount_sats = None,
     po_fee_strategy = None, po_fee_sat_per_vbyte = Some 1, po_description = None,
     po_confirmed_long_term = False\<rparr>"

definition ex_request :: payment_request where
  "ex_request = new_payment_request 61 0 ex_order ''p''"

definition ex_with :: "payment_request \<Rightarrow> db" where
  "ex_with p = ex_funded\<lparr>payment_requests := [p]\<rparr>"

lemma ex_create_payment:
  "api_create_payment_request ex_env 61 0 ex_order ex_funded = (Inr (Built ex_request), ex_with ex_request)"
  by code_simp

lemma ex_payments_inv: "payments_inv ex_funded"
  by (simp add: payments_inv_def ex_funded_def ex_db_def empty_db_def)

lemma ex_fresh_payment: "61 \<notin> pr_id ` set (payment_requests ex_funded)"
  by (simp add: ex_funded_def ex_db_def empty_db_def)

lemma ex_created: "payment_step ex_bdk ex_funded (ex_with ex_request)"
  by (rule payment_step.create [OF ex_fresh_payment _ ex_create_payment]) (simp add: ex_env_def)

definition ex_signed :: payment_request where
  "ex_signed = signed_row 0 ''h'' None ex_request"

lemma ex_request_row:
  "find_row pr_id 61 (payment_requests (ex_with ex_request)) = Some ex_request"
  "PaymentRequest ex_request = Inr ex_request" "pr_status ex_request = PS_AWAITING_SIGNATURE"
  "pr_psbt_base64 ex_request = Some ''p''" "bdk_transaction_txid ex_bdk ''h'' = Some ''h''"
  by code_simp+

theorem raw_submission_is_not_matched_witness:
  "api_submit_signed_payment ex_bdk 0 61 None (Some ''h'') (ex_with ex_request) =
    (Inr ex_signed,
     payment_requests_update (update_rows pr_id 61 (signed_row 0 ''h'' None)) (ex_with ex_request))"
  unfolding ex_signed_def by (rule raw_submission_is_not_matched [OF ex_request_row])

lemma ex_submit: "api_submit_signed_payment ex_bdk 0 61 None (Some ''h'') (ex_with ex_request) =
    (Inr ex_signed, ex_with ex_signed)"
  by code_simp

lemma ex_submitted: "payment_step ex_bdk (ex_with ex_request) (ex_with ex_signed)"
  by (rule payment_step.submit [OF ex_submit])

lemma ex_signed_row:
  "find_row pr_id 61 (payment_requests (ex_with ex_signed)) = Some ex_signed"
  "PaymentRequest ex_signed = Inr ex_signed" "pr_status ex_signed = PS_AWAITING_BROADCAST"
  "pr_signed_transaction_hex ex_signed = Some ''h''" "bdk_transaction_txid ex_bdk ''h'' = Some ''h''"
  "71 \<notin> ba_id ` set (broadcast_attempts (ex_with ex_signed))"
  by code_simp+

definition ex_sent :: payment_request where
  "ex_sent = broadcast_row 0 (ex_txid (CHR ''1'')) ex_signed"

definition ex_sent_db :: db where
  "ex_sent_db = (ex_with ex_sent)\<lparr>broadcast_attempts :=
     [attempt_row 71 61 ''h'' ''h'' ''accepted'' None (Some 0)]\<rparr>"

theorem broadcast_outcomes_witness:
  "fst (api_broadcast_payment ex_node ex_bdk 71 0 61 (ex_with ex_signed)) = Inr ex_sent"
  unfolding broadcast_outcomes [OF ex_signed_row] by (simp add: ex_node_def ex_sent_def)

lemma ex_broadcast:
  "api_broadcast_payment ex_node ex_bdk 71 0 61 (ex_with ex_signed) = (Inr ex_sent, ex_sent_db)"
  by code_simp

lemma ex_broadcasted: "payment_step ex_bdk (ex_with ex_signed) ex_sent_db"
  by (rule payment_step.broadcast [OF ex_signed_row(6) ex_broadcast])

lemma ex_payment_run: "(payment_step ex_bdk)\<^sup>*\<^sup>* ex_funded ex_sent_db"
  using ex_created ex_submitted ex_broadcasted
  by (meson rtranclp.rtrancl_into_rtrancl rtranclp.rtrancl_refl)

theorem payment_lifecycle_refines_witness:
  "lifecycle_move\<^sup>*\<^sup>* (statuses ex_funded) (statuses ex_sent_db) \<and>
   statuses ex_funded 61 = None \<and> statuses ex_sent_db 61 = Some PS_BROADCAST"
  using payment_lifecycle_refines [OF ex_payment_run ex_payments_inv]
  by (simp add: statuses_def ex_funded_def ex_db_def empty_db_def ex_sent_db_def ex_with_def ex_sent_def
      broadcast_row_def ex_signed_def signed_row_def ex_request_def new_payment_request_def)

lemma ex_sent_row: "ex_sent \<in> set (payment_requests ex_sent_db)" "pr_status ex_sent = PS_BROADCAST"
  by (simp_all add: ex_sent_db_def ex_with_def ex_sent_def)

theorem one_payment_in_flight_witness: "ex_sent = hd (payment_requests ex_sent_db)"
  by (rule one_payment_in_flight [OF ex_payment_run ex_payments_inv])
     (simp_all add: ex_sent_db_def ex_with_def ex_sent_def in_flight_def)

theorem broadcast_payments_are_recorded_witness:
  "\<exists>a \<in> set (broadcast_attempts ex_sent_db). ba_payment_request_id a = pr_id ex_sent \<and>
     ba_status a = ''accepted''"
  using broadcast_payments_are_recorded [OF ex_payment_run ex_payments_inv ex_sent_row(1)] ex_sent_row(2)
  by auto


definition ex_cancelled :: payment_request where
  "ex_cancelled = cancelled_row 0 ex_request"

lemma ex_cancel: "api_cancel_payment_request 0 61 (ex_with ex_request) = (Inr ex_cancelled, ex_with ex_cancelled)"
  by code_simp

lemma ex_cancel_run: "(payment_step ex_bdk)\<^sup>*\<^sup>* ex_funded (ex_with ex_cancelled)"
  using ex_created payment_step.cancel [OF ex_cancel]
  by (meson rtranclp.rtrancl_into_rtrancl rtranclp.rtrancl_refl)

lemma ex_cancel_again: "(payment_step ex_bdk)\<^sup>*\<^sup>* (ex_with ex_cancelled) (ex_with ex_cancelled)"
proof (rule r_into_rtranclp, rule payment_step.cancel)
  show "api_cancel_payment_request 1 61 (ex_with ex_cancelled) = (Inl WrongStatusForOperation, ex_with ex_cancelled)"
    by code_simp
qed

theorem terminal_statuses_stay_witness: "statuses (ex_with ex_cancelled) 61 = Some PS_CANCELLED"
proof (rule terminal_statuses_stay [OF ex_cancel_again])
  show "payments_inv (ex_with ex_cancelled)"
    by (rule payments.inv_run [OF ex_cancel_run ex_payments_inv])
  show "statuses (ex_with ex_cancelled) 61 = Some PS_CANCELLED" by code_simp
qed simp

section \<open>The listener\<close>

definition ex_dead_node :: chain_node where
  "ex_dead_node = \<lparr>cn_get_raw_transaction = (\<lambda>_. Inl (NodeRpcError 1 ''x'')),
     cn_block_header_height = (\<lambda>_. Inl NodeUnavailable), cn_block = (\<lambda>_. Inl NodeUnavailable)\<rparr>"

definition ex_listener :: "db \<Rightarrow> listener" where
  "ex_listener s = \<lparr>ln_db = s, ln_fee_rate_cache = None, ln_chain_status = ''healthy'', ln_published = []\<rparr>"

definition ex_visit :: visit where
  "ex_visit = \<lparr>vi_draws = ex_draws, vi_now = 0, vi_clock = 0, vi_fee_answer = Inr None\<rparr>"


text \<open>The transaction of the broadcast payment, which also pays back to the first wallet, confirms.\<close>

lemma ex_sent_books: "books_inv ex_sent_db" "draws_ok ex_sent_db ex_draws"
proof -
  have u: "utxos ex_sent_db = [ex_utxo]" "onchain_transactions ex_sent_db = []"
    "ledger_entries ex_sent_db = []" "ledger_links ex_sent_db = []"
    "descriptors ex_sent_db = [ex_descriptor 11 1, ex_descriptor 12 2]"
    by (simp_all add: ex_sent_db_def ex_with_def ex_funded_def ex_db_def empty_db_def)
  show "books_inv ex_sent_db"
    by (simp add: u books_inv_def utxo_inv_def utxo_row_ok_iff onchain_inv_def ledger_inv_def
        links_of_tx_def ex_utxo_def ex_descriptor_def)
  show "draws_ok ex_sent_db ex_draws"
    by (auto simp: u draws_ok_def ex_draws_def fresh_from_def inj_def entry_ids_used_def ex_utxo_def)
qed

lemma ex_discover:
  "discover_outputs ex_sent_db (dt_vout ex_tx) =
     [\<lparr>fo_vout = 0, fo_value_sats = 50000000, fo_address = ''a'', fo_address_id = 21,
       fo_descriptor_id = 11, fo_holding_id = 1\<rparr>]"
  by (simp add: discover_outputs_def ex_sent_db_def ex_with_def ex_funded_def ex_db_def ex_tx_def
      addressed_outputs_def List.map_filter_def found_at_def holding_of_descriptor_def
      ex_address_def ex_descriptor_def ex_half)

lemma ex_ledgered: "ledgered_holdings ex_draws ex_tx ex_sent_db = [1]"
proof -
  have "input_rows ex_sent_db (dt_vin ex_tx) = []"
    by (simp add: input_rows_def ex_tx_def List.map_filter_def names_outpoint_def find_None_iff)
  moreover have "ledger_links ex_sent_db = []"
    by (simp add: ex_sent_db_def ex_with_def ex_funded_def ex_db_def empty_db_def)
  ultimately show ?thesis
    by (simp add: ledgered_holdings_def ex_discover needs_entry_def affected_holdings_def spent_by_def
        no_spent_def links_of_tx_def received_for_def ex_draws_def)
qed

lemma ex_session:
  "\<exists>res evs t. tx_session ex_draws 0 ex_tx (Some 7) None ex_sent_db = (Inr (res, evs), t) \<and>
     tr_new_ledger_entry_ids res = [201]"
proof -
  obtain res u where u: "process_decoded_transaction ex_draws ex_tx (Some 7) (dt_blocktime ex_tx) None ex_sent_db = (Inr res, u)"
    and eff: "tx_effect ex_draws ex_tx ex_sent_db res u"
    using process_effect [OF ex_sent_books(1) ex_tx_ok_confirmed ex_sent_books(2)] by blast
  have ids: "tr_new_ledger_entry_ids res = [201]"
  proof -
    have "tr_new_ledger_entry_ids res = map (dr_entry_ids ex_draws) [1]"
      using eff by (simp add: tx_effect_def ex_ledgered)
    then show ?thesis by (simp add: ex_draws_def)
  qed
  note frame = process_frame [OF u]
  have tables: "payment_requests u = [ex_sent]" "invoices u = []" "sweep_executions u = []"
    using frame by (simp_all add: outside_books_def ex_sent_db_def ex_with_def ex_funded_def ex_db_def empty_db_def)
  have row: "PaymentRequest ex_sent = Inr ex_sent" "pr_status ex_sent = PS_BROADCAST"
    "pr_sweep_execution_id ex_sent = None" "pr_broadcast_txid ex_sent = Some (dt_txid ex_tx)"
    by code_simp+
  let ?v = "payment_requests_update (update_rows pr_id (pr_id ex_sent) (confirmed_row 0 201)) u"
  have "link_payment_request_if_any 0 res u =
      (Inr (Some (EvPaymentConfirmed (pr_id ex_sent) (dt_txid ex_tx) 7 201)), ?v)"
    using frame ids row tables PaymentRequest_rows_any(1) [OF row(1), of 0 201]
    by (simp add: link_payment_request_if_any_def entry_of_tx_def svc_defs pr_get_by_broadcast_txid_def
        one_or_none_def row_one_def mark_confirmed_def pr_write_def bnd_def complete_sweep_of_payment_def)
  moreover have "link_invoice_if_any res ex_tx ?v = (Inr None, ?v)"
    using ids tables by (simp add: link_invoice_if_any_def ex_tx_def svc_defs get_open_by_address_def)
  moreover have "link_sweep_execution_if_any 0 res ?v = (Inr None, ?v)"
    using frame tables
    by (simp add: link_sweep_execution_if_any_def svc_defs get_by_expected_txid_def one_or_none_def row_one_def)
  ultimately have "tx_session ex_draws 0 ex_tx (Some 7) None ex_sent_db =
      (Inr (res, Some (EvPaymentConfirmed (pr_id ex_sent) (dt_txid ex_tx) 7 201), None, None), ?v)"
    using u by (simp add: tx_session_def commit_on_success_def svc_defs)
  then show ?thesis using ids by blast
qed

theorem confirmation_settles_payment_witness:
  "\<exists>t eid. find_row pr_id 61 (payment_requests t) = Some (confirmed_row 0 eid ex_sent) \<and>
     entry_for t (dt_txid ex_tx) eid"
proof -
  obtain res evs t where t: "tx_session ex_draws 0 ex_tx (Some 7) None ex_sent_db = (Inr (res, evs), t)"
    "tr_new_ledger_entry_ids res = [201]"
    using ex_session by blast
  have "distinct (map pr_id (payment_requests ex_sent_db))" "pr_id ex_sent = 61"
    "pr_broadcast_txid ex_sent = Some (dt_txid ex_tx)"
    by code_simp+
  with confirmation_settles_payment [OF t(1) ex_sent_row(1) _ ex_sent_row(2)] t(2) show ?thesis by auto
qed

text \<open>A transaction that pays both wallets.\<close>

definition ex_tx2 :: decoded_tx where
  "ex_tx2 = ex_tx\<lparr>dt_vout := [\<lparr>to_value = Some (1/2), to_n = Some 0, to_address = Some ''a''\<rparr>,
     \<lparr>to_value = Some (1/2), to_n = Some 1, to_address = Some ''b''\<rparr>]\<rparr>"

lemma ex_tx2_ok: "tx_ok ex_tx2 None" "tx_ok ex_tx2 (Some 7)"
  by (simp_all add: tx_ok_def ex_tx2_def ex_tx_def ex_txid_def opt_lt_def)

lemma ex_ledgered2: "ledgered_holdings ex_draws ex_tx2 ex_db = [1, 2] \<or>
    ledgered_holdings ex_draws ex_tx2 ex_db = [2, 1]"
proof -
  have fs: "discover_outputs ex_db (dt_vout ex_tx2) =
     [\<lparr>fo_vout = 0, fo_value_sats = 50000000, fo_address = ''a'', fo_address_id = 21,
       fo_descriptor_id = 11, fo_holding_id = 1\<rparr>,
      \<lparr>fo_vout = 1, fo_value_sats = 50000000, fo_address = ''b'', fo_address_id = 22,
       fo_descriptor_id = 12, fo_holding_id = 2\<rparr>]"
    by (simp add: discover_outputs_def ex_db_def ex_tx2_def
        addressed_outputs_def List.map_filter_def found_at_def holding_of_descriptor_def
        ex_address_def ex_descriptor_def ex_half)
  have "input_rows ex_db (dt_vin ex_tx2) = []"
    by (simp add: input_rows_def ex_tx2_def ex_tx_def List.map_filter_def names_outpoint_def find_None_iff)
  moreover have "ledger_links ex_db = []" by (simp add: ex_db_def empty_db_def)
  ultimately show ?thesis
    by (simp add: ledgered_holdings_def fs needs_entry_def affected_holdings_def spent_by_def
        no_spent_def links_of_tx_def received_for_def ex_draws_def)
qed

theorem two_entries_never_confirm_witness:
  "\<exists>t dr. tx_session dr 0 ex_tx2 (Some 7) None t = (Inl MultipleResultsFound, t)"
proof -
  obtain res t where t: "process_decoded_transaction ex_draws ex_tx2 None None None ex_db = (Inr res, t)"
    and eff: "tx_effect ex_draws ex_tx2 ex_db res t"
    using process_effect [OF ex_books_inv ex_tx2_ok(1) ex_draws_ok] by blast
  have "2 \<le> length (tr_new_ledger_entry_ids res)"
    using eff ex_ledgered2 by (auto simp: tx_effect_def)
  moreover obtain dr where dr: "draws_ok t dr" using draws_exist by blast
  ultimately show ?thesis
    using two_entries_never_confirm [OF ex_books_inv ex_tx2_ok(1) ex_draws_ok t _ ex_tx2_ok(2) dr]
    by blast
qed

text \<open>Two invoices of the first wallet, and a transaction that pays both.\<close>

definition ex_two_invoices :: db where
  "ex_two_invoices = ex_db\<lparr>invoices := [ex_new_invoice 31 21 ''a'', ex_new_invoice 32 23 ''c'']\<rparr>"

definition ex_tx3 :: decoded_tx where
  "ex_tx3 = ex_tx\<lparr>dt_vout := [\<lparr>to_value = Some (1/2), to_n = Some 0, to_address = Some ''a''\<rparr>,
     \<lparr>to_value = Some (1/2), to_n = Some 1, to_address = Some ''c''\<rparr>]\<rparr>"

lemma ex_tx3_ok: "tx_ok ex_tx3 None"
  by (simp add: tx_ok_def ex_tx3_def ex_tx_def ex_txid_def opt_lt_def)

lemma ex_two_tables:
  "utxos ex_two_invoices = []" "ledger_entries ex_two_invoices = []" "ledger_links ex_two_invoices = []"
  "onchain_transactions ex_two_invoices = []" "sweep_executions ex_two_invoices = []"
  "invoices ex_two_invoices = [ex_new_invoice 31 21 ''a'', ex_new_invoice 32 23 ''c'']"
  by (simp_all add: ex_two_invoices_def ex_db_def empty_db_def)

lemma ex_two_books: "books_inv ex_two_invoices" "draws_ok ex_two_invoices ex_draws"
  by (auto simp: ex_two_tables books_inv_def utxo_inv_def onchain_inv_def ledger_inv_def links_of_tx_def
      draws_ok_def ex_draws_def fresh_from_def inj_def entry_ids_used_def)

lemma ex_ledgered3: "ledgered_holdings ex_draws ex_tx3 ex_two_invoices = [1]"
proof -
  have fs: "discover_outputs ex_two_invoices (dt_vout ex_tx3) =
     [\<lparr>fo_vout = 0, fo_value_sats = 50000000, fo_address = ''a'', fo_address_id = 21,
       fo_descriptor_id = 11, fo_holding_id = 1\<rparr>,
      \<lparr>fo_vout = 1, fo_value_sats = 50000000, fo_address = ''c'', fo_address_id = 23,
       fo_descriptor_id = 11, fo_holding_id = 1\<rparr>]"
    by (simp add: discover_outputs_def ex_two_invoices_def ex_db_def ex_tx3_def
        addressed_outputs_def List.map_filter_def found_at_def holding_of_descriptor_def
        ex_address_def ex_descriptor_def ex_half)
  have "input_rows ex_two_invoices (dt_vin ex_tx3) = []"
    by (simp add: input_rows_def ex_tx3_def ex_tx_def List.map_filter_def names_outpoint_def find_None_iff)
  then show ?thesis
    by (simp add: ledgered_holdings_def fs needs_entry_def affected_holdings_def spent_by_def
        no_spent_def links_of_tx_def received_for_def ex_draws_def ex_two_tables)
qed

lemma ex_invoice_session:
  "\<exists>res evs t. tx_session ex_draws 0 ex_tx3 None None ex_two_invoices = (Inr (res, evs), t) \<and>
     i_status (hd (invoices t)) = IS_PAID \<and> sweep_executions t = []"
proof -
  obtain res u where u: "process_decoded_transaction ex_draws ex_tx3 None (dt_blocktime ex_tx3) None ex_two_invoices = (Inr res, u)"
    and eff: "tx_effect ex_draws ex_tx3 ex_two_invoices res u" and inv: "books_inv u"
    using process_effect [OF ex_two_books(1) ex_tx3_ok ex_two_books(2)] by blast
  have ids: "tr_new_ledger_entry_ids res = [dr_entry_ids ex_draws 1]"
    using eff by (simp add: tx_effect_def ex_ledgered3)
  note frame = process_frame [OF u]
  have tables: "invoices u = [ex_new_invoice 31 21 ''a'', ex_new_invoice 32 23 ''c'']" "sweep_executions u = []"
    using frame by (simp_all add: outside_books_def ex_two_tables)
  obtain e where e: "ledger_entries u = [e]" "le_source e = SRC_ONCHAIN_TRANSACTION"
      "le_source_reference e = dt_txid ex_tx3"
    using frame ids by (auto simp: new_entries_of_def ex_two_tables)
  have le: "LedgerEntry e = Inr e" using inv e by (simp add: books_inv_def ledger_inv_def)
  let ?i = "ex_new_invoice 31 21 ''a''"
  have opened: "get_open_by_address u ''a'' = Inr (Some ?i)"
    by (simp add: get_open_by_address_def tables ex_new_invoice_def new_invoice_def ex_address_def
        Invoice_def Domain.construct_def opt_le_def)
  have valid: "Invoice (paid_row (le_id e) False ?i) = Inr (paid_row (le_id e) False ?i)"
    by (simp add: Invoice_def construct_Inr_iff paid_row_def ex_new_invoice_def new_invoice_def opt_le_def)
  let ?v = "invoices_update (update_rows i_id 31 (paid_row (le_id e) False)) u"
  have pay: "mark_paid 31 (le_id e) False u = (Inr (Some (paid_row (le_id e) False ?i)), ?v)"
    using valid by (simp add: mark_paid_def inv_write_def tables, simp add: ex_new_invoice_def new_invoice_def)
  have out: "dt_vout ex_tx3 = \<lparr>to_value = Some (1/2), to_n = Some 0, to_address = Some ''a''\<rparr> #
      [\<lparr>to_value = Some (1/2), to_n = Some 1, to_address = Some ''c''\<rparr>]"
    by (simp add: ex_tx3_def)
  have id: "i_id ?i = 31" "i_amount_sats ?i = None" by (simp_all add: ex_new_invoice_def new_invoice_def)
  have "\<exists>ev. link_invoice_if_any res ex_tx3 u = (Inr ev, ?v)"
    using ids frame opened le pay id
    by (simp add: link_invoice_if_any_def out Let_def svc_defs le_get_by_source_def one_or_none_def row_one_def e)
  then obtain ev where "link_invoice_if_any res ex_tx3 u = (Inr ev, ?v)" by blast
  moreover have "link_payment_request_if_any 0 res u = (Inr None, u)"
    using frame by (simp add: link_payment_request_if_any_def svc_defs)
  moreover have "link_sweep_execution_if_any 0 res ?v = (Inr None, ?v)"
    using frame by (simp add: link_sweep_execution_if_any_def svc_defs)
  ultimately have "tx_session ex_draws 0 ex_tx3 None None ex_two_invoices = (Inr (res, None, ev, None), ?v)"
    using u by (simp add: tx_session_def commit_on_success_def svc_defs)
  moreover have "i_status (hd (invoices ?v)) = IS_PAID" "sweep_executions ?v = []"
    by (simp_all add: tables id paid_row_def)
  ultimately show ?thesis by blast
qed

lemma ex_two_ids: "distinct (map i_id (invoices ex_two_invoices))"
  by (simp add: ex_two_tables ex_new_invoice_def new_invoice_def)

theorem visit_marks_one_invoice_witness:
  "\<exists>res evs t out i. tx_session ex_draws 0 ex_tx3 None None ex_two_invoices = (Inr (res, evs), t) \<and>
     out \<in> set (dt_vout ex_tx3) \<and> i \<in> set (invoices ex_two_invoices) \<and>
     i_receiving_address i = to_address out \<and> invoices t \<noteq> invoices ex_two_invoices"
proof -
  obtain res evs t where t: "tx_session ex_draws 0 ex_tx3 None None ex_two_invoices = (Inr (res, evs), t)"
    "i_status (hd (invoices t)) = IS_PAID"
    using ex_invoice_session by blast
  have "invoices t \<noteq> invoices ex_two_invoices"
    using t(2) by (auto simp: ex_two_tables ex_new_invoice_def new_invoice_def)
  with visit_marks_one_invoice [OF t(1) ex_two_ids] t(1) show ?thesis by blast
qed

theorem second_invoice_stays_open_witness:
  "\<exists>res evs t dr res' evs' u.
     tx_session ex_draws 0 ex_tx3 None None ex_two_invoices = (Inr (res, evs), t) \<and>
     tx_session dr 0 ex_tx3 None None t = (Inr (res', evs'), u) \<and>
     (ex_new_invoice 31 21 ''a'' \<in> set (invoices u) \<or> ex_new_invoice 32 23 ''c'' \<in> set (invoices u))"
proof -
  obtain res evs t where t: "tx_session ex_draws 0 ex_tx3 None None ex_two_invoices = (Inr (res, evs), t)"
    "sweep_executions t = []"
    using ex_invoice_session by blast
  have eff: "tx_effect ex_draws ex_tx3 ex_two_invoices res t" "books_inv t"
    using tx_session_books [OF ex_two_books(1) ex_tx3_ok ex_two_books(2) t(1)] by simp_all
  obtain dr where dr: "draws_ok t dr" using draws_exist by blast
  obtain res' u where u: "process_decoded_transaction dr ex_tx3 None (dt_blocktime ex_tx3) None t = (Inr res', u)"
    using process_effect [OF eff(2) ex_tx3_ok dr] by blast
  have "link_payment_request_if_any 0 res' u = (Inr None, u)" "link_sweep_execution_if_any 0 res' u = (Inr None, u)"
    using process_frame [OF u] by (simp_all add: link_payment_request_if_any_def link_sweep_execution_if_any_def svc_defs)
  moreover have "link_invoice_if_any res' ex_tx3 u = (Inr None, u)"
    using second_visit_nothing_new [OF ex_two_books(1) ex_tx3_ok ex_two_books(2) eff ex_tx3_ok dr u]
    by (simp add: link_invoice_if_any_def svc_defs)
  ultimately have again: "tx_session dr 0 ex_tx3 None None t = (Inr (res', None, None, None), u)"
    using u by (simp add: tx_session_def commit_on_success_def svc_defs)
  have "ex_new_invoice 31 21 ''a'' \<in> set (invoices ex_two_invoices)"
    "ex_new_invoice 32 23 ''c'' \<in> set (invoices ex_two_invoices)"
    "i_id (ex_new_invoice 31 21 ''a'') \<noteq> i_id (ex_new_invoice 32 23 ''c'')"
    by (simp_all add: ex_two_tables ex_new_invoice_def new_invoice_def)
  from second_invoice_stays_open [OF ex_two_books(1) ex_tx3_ok ex_two_books(2) t(1) this ex_tx3_ok dr again]
  show ?thesis using t(1) again by blast
qed

section \<open>Sweep policies\<close>

definition ex_policy :: "bool \<Rightarrow> safety_warning list \<Rightarrow> sweep_policy" where
  "ex_policy enabled ws = \<lparr>sp_id = 81, sp_name = ''s'', sp_source_holding_id = 1,
     sp_destination_holding_id = 2, sp_is_enabled = enabled, sp_trigger_type = TRG_THRESHOLD,
     sp_trigger_configuration = [(''threshold_sats'', 100)], sp_minimum_balance_sats = 10,
     sp_maximum_per_period_sats = Some 50, sp_requires_user_confirmation = True,
     sp_is_dry_run = False, sp_safety_warnings = ws, sp_last_executed_at = None,
     sp_last_result_summary = None, sp_created_at = 0, sp_updated_at = 0\<rparr>"

definition ex_warning :: "bool \<Rightarrow> safety_warning" where
  "ex_warning acked = \<lparr>sw_kind = SWK_DESTINATION_KEYS_ON_HOST, sw_severity = SWS_HIGH,
     sw_message = msg_keys_on_host, sw_user_acknowledged = acked\<rparr>"

definition ex_policies :: "sweep_policy \<Rightarrow> db" where
  "ex_policies p = ex_db\<lparr>sweep_policies := [p]\<rparr>"

lemma ex_policy_inv: "policy_inv (ex_policies (ex_policy False [ex_warning False]))"
  by (simp add: policy_inv_def ex_policies_def ex_policy_def SweepPolicy_Inr_iff opt_lt_def)

lemma ex_policy_run:
  "policy_step\<^sup>*\<^sup>* (ex_policies (ex_policy False [ex_warning False])) (ex_policies (ex_policy True [ex_warning True]))"
proof -
  have "commit_on_success (acknowledge_warnings 0 81) (ex_policies (ex_policy False [ex_warning False])) =
      (Inr (ex_policy False [ex_warning True]), ex_policies (ex_policy False [ex_warning True]))"
    by code_simp
  moreover have "commit_on_success (enable_sweep_policy 0 81) (ex_policies (ex_policy False [ex_warning True])) =
      (Inr (ex_policy True [ex_warning True]), ex_policies (ex_policy True [ex_warning True]))"
    by code_simp
  ultimately show ?thesis
    by (meson policy_step.intros rtranclp.rtrancl_into_rtrancl rtranclp.rtrancl_refl)
qed

theorem enabled_policies_are_acknowledged_witness:
  "sp_is_enabled (ex_policy True [ex_warning True]) \<and> sw_user_acknowledged (ex_warning True)"
proof -
  have "ex_policy True [ex_warning True] \<in>
      set (sweep_policies (ex_policies (ex_policy True [ex_warning True])))"
    by (simp add: ex_policies_def)
  from enabled_policies_are_acknowledged [OF ex_policy_run ex_policy_inv this]
  show ?thesis by (simp add: ex_policy_def)
qed

theorem resume_all_enables_unacknowledged_witness:
  "sp_get (snd (resume_all 0 (ex_policies (ex_policy False [ex_warning False])))) 81 =
     Inl (ValueError (V_Unacknowledged [SWK_DESTINATION_KEYS_ON_HOST]))"
proof -
  let ?p = "ex_policy False [ex_warning False]"
  have "find_row sp_id 81 (sweep_policies (ex_policies ?p)) = Some ?p" "\<not> sp_is_enabled ?p"
    "SweepPolicy ?p = Inr ?p" "unacked (sp_safety_warnings ?p) \<noteq> []"
    by (simp_all add: ex_policies_def ex_policy_def SweepPolicy_Inr_iff opt_lt_def unacked_def ex_warning_def)
  from resume_all_enables_unacknowledged [OF this prod.collapse [symmetric]]
  show ?thesis by (simp add: ex_policy_def unacked_def ex_warning_def)
qed

theorem acknowledgement_carryover_witness:
  "ex_warning True \<in> set (compute_safety_warnings (ex_holding 1) (ex_holding 2) (Some 5) None [ex_warning True]) \<and>
   (\<exists>xs v ys. [ex_warning True] = xs @ v # ys \<and> sw_kind v = sw_kind (ex_warning True) \<and> sw_user_acknowledged v)"
proof -
  have w: "ex_warning True \<in> set (compute_safety_warnings (ex_holding 1) (ex_holding 2) (Some 5) None [ex_warning True])"
    by (simp add: compute_safety_warnings_def Let_def ex_holding_def warn_def was_acknowledged_def ex_warning_def)
  moreover have "sw_user_acknowledged (ex_warning True)" by (simp add: ex_warning_def)
  ultimately show ?thesis using acknowledgement_carryover [OF w] by blast
qed

lemma ex_engine:
  "policy_inv (ex_policies (ex_policy True []))" "0 \<le> (200 :: int)" "inj (\<lambda>k. 90 + k :: nat)"
  "\<forall>p \<in> set (sweep_policies (ex_policies (ex_policy True []))).
     90 + sp_id p \<notin> se_id ` set (sweep_executions (ex_policies (ex_policy True [])))"
  by (simp_all add: policy_inv_def ex_policies_def ex_policy_def SweepPolicy_Inr_iff opt_lt_def unacked_def
      ex_db_def empty_db_def inj_def)

theorem engine_creates_one_per_firing_policy_witness:
  "length (sweep_executions (on_balance_updated (\<lambda>k. 90 + k) 0 (Some 1) (Some 200) (ex_policies (ex_policy True [])))) = 1"
  unfolding engine_creates_one_per_firing_policy [OF ex_engine]
  by (simp add: ex_policies_def ex_policy_def fires_def threshold_of_def policy_sweep_amount_def
      ex_db_def empty_db_def)


end
