(* ===== verification/Doubles.thy ===== *)
theory Doubles
  imports Amounts "HOL-Library.Log_Nat"
begin

text \<open>
  IEEE double arithmetic as far as the program uses it on amounts: the result of a float operation is
  the exact rational result rounded to 53 significant bits, half to even.  Exponents are not bounded;
  amounts, timestamps and fractions stay far inside the range of a double.

  \<open>sats_of_float\<close> is the \<^verbatim>\<open>round(float(btc) * 100_000_000)\<close> of the exchange adapters and of the custodial
  ledger.  The lemmas bound the relative error of a rounding and show that every amount up to
  the coin supply survives the conversion from the double nearest to it.
\<close>

section \<open>Rounding to a double\<close>

text \<open>The exponent of the leading bit, from the bit lengths of numerator and denominator.\<close>

definition exponent :: "rat \<Rightarrow> int" where
  "exponent x =
     (case quotient_of \<bar>x\<bar> of (n, d) \<Rightarrow>
        let e = bitlen n - bitlen d in if 2 powi e \<le> \<bar>x\<bar> then e else e - 1)"

definition double :: "rat \<Rightarrow> rat" where
  "double x =
     (if x = 0 then 0
      else let u = 2 powi (exponent x - 52) in of_int (round_half_even (x / u)) * u)"

text \<open>\<^verbatim>\<open>int(x)\<close> of a float.\<close>

definition trunc :: "rat \<Rightarrow> int" where
  "trunc x = (if x < 0 then - \<lfloor>- x\<rfloor> else \<lfloor>x\<rfloor>)"

definition sats_of_float :: "rat \<Rightarrow> int" where
  "sats_of_float btc = round_half_even (double (btc * 100000000))"

section \<open>Bounds\<close>

lemma powi_Suc: "(2 :: rat) powi (e + 1) = 2 * 2 powi e"
  by (simp add: power_int_add)

lemma powi_pos: "0 < (2 :: rat) powi e"
  by simp

lemma bitlen_powi:
  assumes "0 < (n :: int)"
  shows "(2 :: rat) powi (bitlen n - 1) \<le> of_int n" "(of_int n :: rat) < 2 powi bitlen n"
proof -
  have "1 \<le> bitlen n" using assms bitlen_eq_zero_iff [of n] bitlen_nonneg [of n] by linarith
  then have e: "int (nat (bitlen n - 1)) = bitlen n - 1" "int (nat (bitlen n)) = bitlen n" by simp_all
  have pow: "(2 :: rat) powi (bitlen n - 1) = of_int (2 ^ nat (bitlen n - 1))" "(2 :: rat) powi bitlen n = of_int (2 ^ nat (bitlen n))"
    using power_int_of_nat [of "2 :: rat" "nat (bitlen n - 1)"] power_int_of_nat [of "2 :: rat" "nat (bitlen n)"]
    unfolding e by simp_all
  show "(2 :: rat) powi (bitlen n - 1) \<le> of_int n" "(of_int n :: rat) < 2 powi bitlen n"
    unfolding pow of_int_le_iff of_int_less_iff using bitlen_bounds [OF assms] by simp_all
qed

lemma exponent_bounds:
  assumes "x \<noteq> 0"
  shows "2 powi exponent x \<le> \<bar>x\<bar>" "\<bar>x\<bar> < 2 powi (exponent x + 1)"
proof -
  obtain n d where q: "quotient_of \<bar>x\<bar> = (n, d)" by fastforce
  have d: "0 < d" using quotient_of_denom_pos [OF q] .
  have x: "\<bar>x\<bar> = of_int n / of_int d" using quotient_of_div [OF q] .
  have "0 < (of_int n :: rat)" using assms d x by (metis abs_of_nonpos less_le_not_le linorder_not_less
      of_int_0_less_iff zero_less_abs_iff zero_less_divide_iff)
  then have n: "0 < n" by simp
  define k where "k = bitlen n - bitlen d"
  have "\<bar>x\<bar> < 2 powi bitlen n / 2 powi (bitlen d - 1)"
    unfolding x using bitlen_powi(2) [OF n] bitlen_powi(1) [OF d] n d
    by (intro frac_less) simp_all
  also have "\<dots> = 2 powi (k + 1)" by (simp add: k_def power_int_diff powi_Suc)
  finally have up: "\<bar>x\<bar> < 2 powi (k + 1)" .
  have "2 powi (bitlen n - 1) / 2 powi bitlen d < \<bar>x\<bar>"
    unfolding x using bitlen_powi(1) [OF n] bitlen_powi(2) [OF d] n d
    by (intro frac_less2) simp_all
  then have lo: "2 powi (k - 1) < \<bar>x\<bar>" by (simp add: k_def power_int_diff)
  have e: "exponent x = (if 2 powi k \<le> \<bar>x\<bar> then k else k - 1)"
    by (simp add: exponent_def q k_def Let_def)
  show "2 powi exponent x \<le> \<bar>x\<bar>" "\<bar>x\<bar> < 2 powi (exponent x + 1)"
    using up lo by (auto simp: e)
qed

lemma round_half_even_error: "\<bar>of_int (round_half_even x) - x\<bar> \<le> 1 / 2"
proof -
  have "of_int \<lfloor>x\<rfloor> \<le> x" "x < of_int \<lfloor>x\<rfloor> + 1" by linarith+
  then show ?thesis by (auto simp: round_half_even_def Let_def abs_le_iff split: if_splits)
qed

lemma abs_scale:
  fixes u :: "'a :: linordered_field"
  assumes "0 < u"
  shows "\<bar>a * u - b\<bar> = \<bar>a - b / u\<bar> * u"
proof -
  have "a * u - b = (a - b / u) * u" using assms by (simp add: left_diff_distrib)
  then show ?thesis using assms by (simp add: abs_mult)
qed

lemma double_error: "\<bar>double x - x\<bar> \<le> \<bar>x\<bar> / 2 ^ 53"
proof (cases "x = 0")
  case False
  define u :: rat where "u = 2 powi (exponent x - 52)"
  have u: "0 < u" "u * 2 ^ 52 \<le> \<bar>x\<bar>"
    using exponent_bounds(1) [OF False] by (simp_all add: u_def power_int_diff)
  have "\<bar>double x - x\<bar> = \<bar>of_int (round_half_even (x / u)) - x / u\<bar> * u"
    using False abs_scale [OF u(1)] by (simp add: double_def Let_def u_def [symmetric])
  also have "\<dots> \<le> 1 / 2 * u" using round_half_even_error [of "x / u"] u(1) by (intro mult_right_mono) simp_all
  also have "\<dots> \<le> \<bar>x\<bar> / 2 ^ 53" using u(2) by simp
  finally show ?thesis .
qed (simp add: double_def)

lemma double_between:
  assumes "0 \<le> x"
  shows "0 \<le> double x" "double x \<le> 2 * x"
proof -
  have "\<bar>x\<bar> / 2 ^ 53 \<le> x" using assms by simp
  then have "\<bar>double x - x\<bar> \<le> x" using double_error [of x] by (rule order_trans [rotated])
  then show "0 \<le> double x" "double x \<le> 2 * x" by (auto simp: abs_le_iff)
qed

text \<open>Amounts up to the coin supply, reported as the nearest double or anything as close.\<close>

lemma sats_of_float_near:
  assumes "\<bar>btc - of_int n / 100000000\<bar> \<le> \<bar>of_int n / 100000000\<bar> / 2 ^ 53" "\<bar>n\<bar> \<le> 2100000000000000"
  shows "sats_of_float btc = n"
proof -
  define y where "y = btc * 100000000"
  have s: "(\<bar>of_int n\<bar> :: rat) \<le> 2100000000000000" using assms(2) by (metis of_int_abs of_int_le_iff of_int_numeral)
  have "\<bar>y - of_int n\<bar> = \<bar>btc - of_int n / 100000000\<bar> * 100000000"
    unfolding y_def by (rule abs_scale) simp
  also have "\<dots> \<le> \<bar>of_int n\<bar> / 2 ^ 53" using assms(1) by simp
  finally have y: "\<bar>y - of_int n\<bar> \<le> \<bar>of_int n\<bar> / 2 ^ 53" .
  have y': "\<bar>y\<bar> \<le> \<bar>of_int n\<bar> + \<bar>of_int n\<bar> / 2 ^ 53" using y abs_triangle_ineq [of "y - of_int n" "of_int n"] by simp
  have "\<bar>double y - of_int n\<bar> \<le> \<bar>double y - y\<bar> + \<bar>y - of_int n\<bar>" using abs_triangle_ineq [of "double y - y" "y - of_int n"] by simp
  also have "\<dots> \<le> (\<bar>of_int n\<bar> + \<bar>of_int n\<bar> / 2 ^ 53) / 2 ^ 53 + \<bar>of_int n\<bar> / 2 ^ 53"
    using double_error [of y] y y' by (meson add_mono divide_right_mono order_trans zero_le_numeral zero_le_power)
  also have "\<dots> < 1 / 2" using s by simp
  finally show ?thesis unfolding sats_of_float_def y_def [symmetric] by (rule round_half_even_near)
qed

end
