(* ===== verification/Regex.thy ===== *)
theory Regex
  imports TK_Prelude
begin

text \<open>
  Python's \<^verbatim>\<open>re\<close> as far as the descriptor code uses it: character classes, alternation, greedy
  repetition, groups, word boundaries and anchors.  The matcher enumerates all matches at a
  position in the order the backtracking engine tries them, so the first element is the match
  Python reports; \<open>re_match\<close>, \<open>re_search\<close> and \<open>re_findall\<close> are the calls of the same name.
  Text is ASCII, so \<^verbatim>\<open>\d\<close>, \<^verbatim>\<open>\s\<close> and \<^verbatim>\<open>\b\<close> are their ASCII classes.

  The lemmas show that a match never gives characters back and that searching for a literal
  text is the substring test.
\<close>

section \<open>Patterns and the matcher\<close>

datatype re =
    Eps
  | Cls "char \<Rightarrow> bool"
  | Cat re re
  | Alt re re
  | Star re
  | Group re
  | Word_Boundary
  | Line_Start
  | Line_End

text \<open>A position: the character before it, the text from it on, the groups captured so far.\<close>

type_synonym re_pos = "char option \<times> string \<times> string list"

definition rest :: "re_pos \<Rightarrow> string" where
  "rest p = fst (snd p)"

definition is_digit :: "char \<Rightarrow> bool" where
  "is_digit c \<longleftrightarrow> c \<in> set ''0123456789''"

definition is_lower :: "char \<Rightarrow> bool" where
  "is_lower c \<longleftrightarrow> c \<in> set ''abcdefghijklmnopqrstuvwxyz''"

definition is_upper :: "char \<Rightarrow> bool" where
  "is_upper c \<longleftrightarrow> c \<in> set ''ABCDEFGHIJKLMNOPQRSTUVWXYZ''"

definition is_alpha :: "char \<Rightarrow> bool" where
  "is_alpha c \<longleftrightarrow> is_lower c \<or> is_upper c"

definition is_word :: "char \<Rightarrow> bool" where
  "is_word c \<longleftrightarrow> is_alpha c \<or> is_digit c \<or> c = CHR ''_''"

definition is_space :: "char \<Rightarrow> bool" where
  "is_space c \<longleftrightarrow> c \<in> {CHR '' '', CHR 0x09, CHR 0x0A, CHR 0x0B, CHR 0x0C, CHR 0x0D,
     CHR 0x1C, CHR 0x1D, CHR 0x1E, CHR 0x1F}"

definition word_before :: "char option \<Rightarrow> bool" where
  "word_before p \<longleftrightarrow> (case p of None \<Rightarrow> False | Some c \<Rightarrow> is_word c)"

definition word_after :: "string \<Rightarrow> bool" where
  "word_after s \<longleftrightarrow> (case s of [] \<Rightarrow> False | c # _ \<Rightarrow> is_word c)"

function matches :: "re \<Rightarrow> re_pos \<Rightarrow> re_pos list" where
  "matches Eps p = [p]"
| "matches (Cls f) (prev, s, caps) =
     (case s of [] \<Rightarrow> [] | c # cs \<Rightarrow> if f c then [(Some c, cs, caps)] else [])"
| "matches (Cat a b) p = concat (map (matches b) (matches a p))"
| "matches (Alt a b) p = matches a p @ matches b p"
| "matches (Star a) p =
     concat (map (\<lambda>q. if length (rest q) < length (rest p) then matches (Star a) q else [])
       (matches a p)) @ [p]"
| "matches (Group a) (prev, s, caps) =
     map (\<lambda>(prev', s', caps'). (prev', s', caps' @ [take (length s - length s') s]))
       (matches a (prev, s, caps))"
| "matches Word_Boundary (prev, s, caps) =
     (if word_before prev \<noteq> word_after s then [(prev, s, caps)] else [])"
| "matches Line_Start (prev, s, caps) = (if prev = None then [(prev, s, caps)] else [])"
| "matches Line_End (prev, s, caps) =
     (if s = [] \<or> s = [CHR 0x0A] then [(prev, s, caps)] else [])"
  by pat_completeness auto
termination
  by (relation "measures [\<lambda>(r, p). size r, \<lambda>(r, p). length (rest p)]") auto

declare matches.simps(5) [simp del]

text \<open>\<^verbatim>\<open>pattern.match\<close> at the start of a text; \<^verbatim>\<open>pattern.search\<close> at the first position that
  matches; \<^verbatim>\<open>pattern.findall\<close> over the non-overlapping matches from the left (an empty match
  moves on by one character).  Each gives the matched text's groups and what follows.\<close>

definition re_match :: "re \<Rightarrow> string \<Rightarrow> re_pos option" where
  "re_match r s = (case matches r (None, s, []) of [] \<Rightarrow> None | q # _ \<Rightarrow> Some q)"

fun search_from :: "re \<Rightarrow> char option \<Rightarrow> string \<Rightarrow> re_pos option" where
  "search_from r prev [] =
     (case matches r (prev, [], []) of [] \<Rightarrow> None | q # _ \<Rightarrow> Some q)"
| "search_from r prev (c # cs) =
     (case matches r (prev, c # cs, []) of [] \<Rightarrow> search_from r (Some c) cs | q # _ \<Rightarrow> Some q)"

definition re_search :: "re \<Rightarrow> string \<Rightarrow> re_pos option" where
  "re_search r s = search_from r None s"

definition re_test :: "re \<Rightarrow> string \<Rightarrow> bool" where
  "re_test r s \<longleftrightarrow> re_search r s \<noteq> None"

definition group1 :: "re_pos \<Rightarrow> string" where
  "group1 p = (case snd (snd p) of [] \<Rightarrow> [] | g # _ \<Rightarrow> g)"

text \<open>The whole match and the first group of every match; \<^verbatim>\<open>findall\<close> returns the groups when
  the pattern has one and the whole matches otherwise.\<close>

function findall_from :: "re \<Rightarrow> char option \<Rightarrow> string \<Rightarrow> (string \<times> string) list" where
  "findall_from r prev [] =
     (case matches r (prev, [], []) of [] \<Rightarrow> [] | q # _ \<Rightarrow> [([], group1 q)])"
| "findall_from r prev (c # cs) =
     (case matches r (prev, c # cs, []) of
        [] \<Rightarrow> findall_from r (Some c) cs
      | q # _ \<Rightarrow>
          if length (rest q) < length (c # cs)
          then (take (length (c # cs) - length (rest q)) (c # cs), group1 q) #
                 findall_from r (fst q) (rest q)
          else ([], group1 q) # findall_from r (Some c) cs)"
  by pat_completeness auto
termination
  by (relation "measure (\<lambda>(r, prev, s). length s)") auto

definition re_findall :: "re \<Rightarrow> string \<Rightarrow> string list" where
  "re_findall r s = map fst (findall_from r None s)"

definition re_findall_group :: "re \<Rightarrow> string \<Rightarrow> string list" where
  "re_findall_group r s = map snd (findall_from r None s)"

section \<open>Derived patterns\<close>

definition Chr :: "char \<Rightarrow> re" where
  "Chr c = Cls (\<lambda>x. x = c)"

fun Lit :: "string \<Rightarrow> re" where
  "Lit [] = Eps"
| "Lit (c # cs) = Cat (Chr c) (Lit cs)"

definition Opt :: "re \<Rightarrow> re" where
  "Opt r = Alt r Eps"

definition Plus :: "re \<Rightarrow> re" where
  "Plus r = Cat r (Star r)"

text \<open>\<open>r{m,m+k}\<close>, greedy.\<close>

fun Upto :: "nat \<Rightarrow> re \<Rightarrow> re" where
  "Upto 0 r = Eps"
| "Upto (Suc k) r = Opt (Cat r (Upto k r))"

fun Repeat :: "nat \<Rightarrow> nat \<Rightarrow> re \<Rightarrow> re" where
  "Repeat 0 k r = Upto k r"
| "Repeat (Suc m) k r = Cat r (Repeat m k r)"

fun Cats :: "re list \<Rightarrow> re" where
  "Cats [] = Eps"
| "Cats (r # rs) = Cat r (Cats rs)"

fun Alts :: "re \<Rightarrow> re list \<Rightarrow> re" where
  "Alts r [] = r"
| "Alts r (x # xs) = Alt r (Alts x xs)"

definition Digit :: re where
  "Digit = Cls is_digit"

definition Space :: re where
  "Space = Cls is_space"

section \<open>Facts\<close>

text \<open>A match consumes a prefix of the text.\<close>

lemma matches_suffix: "q \<in> set (matches r p) \<Longrightarrow> \<exists>u. rest p = u @ rest q"
proof (induction r p arbitrary: q rule: matches.induct)
  case (5 a p)
  show ?case
  proof (cases "q = p")
    case False
    then obtain m where m: "m \<in> set (matches a p)" "length (rest m) < length (rest p)"
      "q \<in> set (matches (Star a) m)"
      using 5(3) by (subst (asm) matches.simps(5)) (auto split: if_splits)
    obtain u v where "rest p = u @ rest m" "rest m = v @ rest q"
      using 5(1) [OF m(1)] 5(2) [OF m] by blast
    then show ?thesis by simp
  qed simp
next
  case (3 a b p)
  then obtain m where m: "m \<in> set (matches a p)" "q \<in> set (matches b m)" by auto
  then obtain u v where "rest p = u @ rest m" "rest m = v @ rest q"
    using 3 by blast
  then show ?case by simp
qed (fastforce simp: rest_def split: list.splits if_splits)+

text \<open>A literal matches exactly where the text starts with it.\<close>

lemma matches_Lit:
  "(matches (Lit w) (prev, s, caps) = []) \<longleftrightarrow> take (length w) s \<noteq> w"
proof (induction w arbitrary: prev s)
  case Nil
  then show ?case by simp
next
  case (Cons c cs)
  then show ?case by (cases s) (auto simp: Chr_def)
qed

lemma search_from_None_iff:
  "search_from r prev s = None \<longleftrightarrow>
     (\<forall>u v. s = u @ v \<longrightarrow> matches r (if u = [] then prev else Some (last u), v, []) = [])"
proof (induction s arbitrary: prev)
  case Nil
  then show ?case by (auto split: list.split)
next
  case (Cons c cs)
  have split: "(\<forall>u v. c # cs = u @ v \<longrightarrow> P u v) \<longleftrightarrow> P [] (c # cs) \<and> (\<forall>u v. cs = u @ v \<longrightarrow> P (c # u) v)"
    for P by (auto simp: Cons_eq_append_conv)
  show ?case
  proof (cases "matches r (prev, c # cs, [])")
    case Nil
    then show ?thesis
      by (subst split) (simp add: Cons.IH cong: if_cong)
  next
    case (Cons q qs)
    then show ?thesis
      by (subst split) simp
  qed
qed

text \<open>Searching for a literal is the substring test.\<close>

lemma re_test_Lit: "re_test (Lit w) s \<longleftrightarrow> (\<exists>u v. s = u @ w @ v)"
proof -
  have "re_test (Lit w) s \<longleftrightarrow> (\<exists>u v. s = u @ v \<and> take (length w) v = w)"
    by (simp add: re_test_def re_search_def search_from_None_iff matches_Lit)
  also have "\<dots> \<longleftrightarrow> (\<exists>u v. s = u @ w @ v)"
    by (metis append_eq_conv_conj append_take_drop_id)
  finally show ?thesis .
qed

end
