(* ===== verification/Base58.thy ===== *)
theory Base58
  imports Domain "HOL-Library.Word"
begin

text \<open>
  Base58 text (\<^verbatim>\<open>_b58decode\<close> and \<^verbatim>\<open>_b58encode\<close> of \<^verbatim>\<open>adapters/descriptor_adapter.py\<close>).  Bytes are
  8-bit words; Python's \<^verbatim>\<open>int.from_bytes\<close> and \<^verbatim>\<open>int.to_bytes\<close> are positional numerals of base 256, the
  text one of base 58.  The locale \<open>radix\<close> has the positional arithmetic once for both bases.

  The lemmas show that the two functions are inverse to each other: on all bytes one way, on all
  texts over the alphabet the other way.
\<close>

section \<open>Positional numerals\<close>

text \<open>Horner's rule, most significant digit first.\<close>

definition horner :: "nat \<Rightarrow> nat list \<Rightarrow> nat" where
  "horner b ds = foldl (\<lambda>n d. n * b + d) 0 ds"

text \<open>The digits without leading zeros; zero has none.\<close>

function digits_of :: "nat \<Rightarrow> nat \<Rightarrow> nat list" where
  "digits_of b n = (if n = 0 \<or> b < 2 then [] else digits_of b (n div b) @ [n mod b])"
  by pat_completeness auto
termination
  by (relation "measure snd") auto

declare digits_of.simps [simp del]

lemma horner_Nil [simp]: "horner b [] = 0"
  by (simp add: horner_def)

lemma horner_snoc [simp]: "horner b (ds @ [d]) = horner b ds * b + d"
  by (simp add: horner_def)

lemma digits_of_0 [simp]: "digits_of b 0 = []"
  by (simp add: digits_of.simps)

locale radix =
  fixes b :: nat
  assumes base: "2 \<le> b"
begin

lemma digits_step: "0 < n \<Longrightarrow> digits_of b n = digits_of b (n div b) @ [n mod b]"
  using base by (subst digits_of.simps) simp

lemma horner_digits: "horner b (digits_of b n) = n"
proof (induction n rule: less_induct)
  case (less n)
  show ?case
  proof (cases "n = 0")
    case False
    then show ?thesis using less [of "n div b"] base by (simp add: digits_step)
  qed simp
qed

lemma digits_less: "d \<in> set (digits_of b n) \<Longrightarrow> d < b"
proof (induction n rule: less_induct)
  case (less n)
  show ?case
  proof (cases "n = 0")
    case False
    then show ?thesis using less.prems less.IH [of "n div b"] base by (auto simp: digits_step)
  qed (use less.prems in simp)
qed

lemma digits_of_snoc:
  assumes "d < b" "0 < n"
  shows "digits_of b (n * b + d) = digits_of b n @ [d]"
  using assms base by (subst digits_step) auto

lemma horner_zero_iff: "horner b ds = 0 \<longleftrightarrow> set ds \<subseteq> {0}"
  using base by (induction ds rule: rev_induct) auto

text \<open>Reading digits and writing them again drops the leading zeros only.\<close>

lemma digits_horner:
  assumes "\<And>d. d \<in> set ds \<Longrightarrow> d < b"
  shows "digits_of b (horner b ds) = dropWhile (\<lambda>d. d = 0) ds"
  using assms
proof (induction ds rule: rev_induct)
  case (snoc d ds)
  show ?case
  proof (cases "horner b ds = 0")
    case True
    then have "dropWhile (\<lambda>d. d = 0) ds = []" by (auto simp: horner_zero_iff)
    then show ?thesis
      using True snoc.prems [of d] digits_step [of d] horner_zero_iff [of ds]
      by (cases "d = 0") (auto simp: dropWhile_append)
  next
    case False
    then have "\<exists>x \<in> set ds. x \<noteq> 0" by (auto simp: horner_zero_iff)
    then show ?thesis
      using False snoc by (auto simp: digits_of_snoc dropWhile_append)
  qed
qed simp

lemma leading_zeros: "takeWhile (\<lambda>d. d = 0) (digits_of b n) = []"
proof -
  have "takeWhile P (dropWhile P xs) = []" for P and xs :: "nat list"
    by (induction xs) auto
  moreover have "dropWhile (\<lambda>d. d = 0) (digits_of b n) = digits_of b n"
    using digits_horner [of "digits_of b n"] digits_less by (simp add: horner_digits)
  ultimately show ?thesis by metis
qed

end

interpretation dec58: radix 58 by unfold_locales simp

interpretation dec256: radix 256 by unfold_locales simp

section \<open>Bytes and numbers\<close>

type_synonym bytes = "8 word list"

definition from_bytes :: "bytes \<Rightarrow> nat" where
  "from_bytes bs = horner 256 (map unat bs)"

fun bit_length :: "nat \<Rightarrow> nat" where
  "bit_length n = (if n = 0 then 0 else Suc (bit_length (n div 2)))"

declare bit_length.simps [simp del]

text \<open>\<^verbatim>\<open>n.to_bytes(k, 'big')\<close> for a length that is enough.\<close>

fun to_bytes :: "nat \<Rightarrow> nat \<Rightarrow> bytes" where
  "to_bytes 0 n = []"
| "to_bytes (Suc k) n = to_bytes k (n div 256) @ [of_nat (n mod 256)]"

lemma bit_length_0 [simp]: "bit_length 0 = 0"
  by (simp add: bit_length.simps)

lemma bit_length_shift: "256 \<le> n \<Longrightarrow> bit_length n = 8 + bit_length (n div 256)"
proof -
  assume n: "256 \<le> n"
  have step: "bit_length m = Suc (bit_length (m div 2))" if "0 < m" for m
    using that by (subst bit_length.simps) simp
  have shift: "bit_length m = k + bit_length (m div 2 ^ k)" if "2 ^ k \<le> m" for m k
    using that
  proof (induction k arbitrary: m)
    case (Suc k)
    then have "0 < m" "2 ^ k \<le> m div 2" by (auto intro: Nat.gr0I simp: less_eq_div_iff_mult_less_eq)
    then show ?case using Suc.IH [of "m div 2"] step [of m] by (simp add: div_mult2_eq)
  qed simp
  show ?thesis using shift [of 8 n] n by simp
qed

lemma bit_length_small: "0 < n \<Longrightarrow> n < 256 \<Longrightarrow> (bit_length n + 7) div 8 = 1"
proof -
  assume n: "0 < n" "n < 256"
  have ub: "bit_length m \<le> k" if "m < 2 ^ k" for m k
    using that
  proof (induction k arbitrary: m)
    case (Suc k)
    then show ?case using Suc.IH [of "m div 2"] by (subst bit_length.simps) auto
  qed simp
  have "bit_length n \<le> 8" using ub [of n 8] n by simp
  moreover have "1 \<le> bit_length n" using n by (subst bit_length.simps) simp
  ultimately show ?thesis by presburger
qed

lemma to_bytes_digits: "to_bytes ((bit_length n + 7) div 8) n = map of_nat (digits_of 256 n)"
proof (induction n rule: less_induct)
  case (less n)
  consider "n = 0" | "0 < n" "n < 256" | "256 \<le> n" by linarith
  then show ?case
  proof cases
    case 2
    then show ?thesis using bit_length_small [OF 2] dec256.digits_step [of n] by simp
  next
    case 3
    have "(bit_length n + 7) div 8 = Suc ((bit_length (n div 256) + 7) div 8)"
      using bit_length_shift [OF 3] by simp
    then show ?thesis using 3 less [of "n div 256"] dec256.digits_step [of n] by simp
  qed simp
qed

section \<open>Base58\<close>

definition b58_alphabet :: string where
  "b58_alphabet = ''123456789ABCDEFGHJKLMNPQRSTUVWXYZabcdefghijkmnopqrstuvwxyz''"

definition b58_lookup :: "char \<Rightarrow> nat option" where
  "b58_lookup c = map_of (zip b58_alphabet [0..<58]) c"

fun b58_value :: "nat \<Rightarrow> string \<Rightarrow> exn + nat" where
  "b58_value n [] = Inr n"
| "b58_value n (c # cs) =
     (case b58_lookup c of None \<Rightarrow> Inl KeyError | Some d \<Rightarrow> b58_value (n * 58 + d) cs)"

definition b58decode :: "string \<Rightarrow> exn + bytes" where
  "b58decode s =
     rbind (b58_value 0 s) (\<lambda>n.
     let lead = length s - length (dropWhile (\<lambda>c. c = CHR ''1'') s) in
     if n = 0 then Inr (replicate lead 0)
     else Inr (replicate lead 0 @ to_bytes ((bit_length n + 7) div 8) n))"

function b58_loop :: "nat \<Rightarrow> string \<Rightarrow> string" where
  "b58_loop n s = (if n > 0 then b58_loop (n div 58) (b58_alphabet ! (n mod 58) # s) else s)"
  by pat_completeness auto
termination
  by (relation "measure fst") auto

declare b58_loop.simps [simp del]

definition b58encode :: "bytes \<Rightarrow> string" where
  "b58encode bs =
     (let s = b58_loop (from_bytes bs) [];
          lead = length bs - length (dropWhile (\<lambda>b. b = 0) bs)
      in replicate lead (CHR ''1'') @ s)"

section \<open>Round trips\<close>

text \<open>The alphabet numbers its 58 distinct characters.\<close>

lemma b58_alphabet_facts: "length b58_alphabet = 58" "distinct b58_alphabet"
  by (simp_all add: b58_alphabet_def)

lemma b58_lookup_Some_iff: "b58_lookup c = Some d \<longleftrightarrow> d < 58 \<and> b58_alphabet ! d = c"
proof
  assume "b58_lookup c = Some d"
  then have "(c, d) \<in> set (zip b58_alphabet [0..<58])"
    by (simp add: b58_lookup_def map_of_SomeD)
  then show "d < 58 \<and> b58_alphabet ! d = c"
    by (auto simp: in_set_zip b58_alphabet_facts)
next
  assume "d < 58 \<and> b58_alphabet ! d = c"
  then show "b58_lookup c = Some d"
    using map_of_zip_nth [of b58_alphabet "[0..<58]" d] b58_alphabet_facts
    by (auto simp: b58_lookup_def)
qed

lemma b58_lookup_one: "b58_lookup c = Some 0 \<longleftrightarrow> c = CHR ''1''"
  by (auto simp: b58_lookup_Some_iff) (simp_all add: b58_alphabet_def)

lemma b58_value_iff:
  "b58_value n s = Inr m \<longleftrightarrow>
     (\<exists>ds. list_all2 (\<lambda>c d. b58_lookup c = Some d) s ds \<and> m = foldl (\<lambda>n d. n * 58 + d) n ds)"
proof (induction s arbitrary: n)
  case (Cons c cs)
  then show ?case
    by (cases "b58_lookup c") (auto simp: list_all2_Cons1)
qed auto

lemma b58_loop_digits: "b58_loop n s = map ((!) b58_alphabet) (digits_of 58 n) @ s"
proof (induction n arbitrary: s rule: less_induct)
  case (less n)
  show ?case
  proof (cases "n = 0")
    case False
    then show ?thesis
      using less [of "n div 58"] dec58.digits_step [of n] by (subst b58_loop.simps) simp
  qed (subst b58_loop.simps, simp)
qed

lemma lookup_digits:
  assumes "\<And>d. d \<in> set ds \<Longrightarrow> d < 58"
  shows "list_all2 (\<lambda>c d. b58_lookup c = Some d) (map ((!) b58_alphabet) ds) ds"
  using assms by (auto simp: list_all2_conv_all_nth b58_lookup_Some_iff)

lemma lookup_mono:
  "list_all2 (\<lambda>c d. b58_lookup c = Some d) s ds \<Longrightarrow>
   s = map ((!) b58_alphabet) ds \<and> (\<forall>d \<in> set ds. d < 58)"
  by (induction rule: list_all2_induct) (auto simp: b58_lookup_Some_iff)

lemma unat_byte: "unat (w :: 8 word) < 256"
  using unsigned_less [of w] by simp

text \<open>A leading \<open>1\<close> is a leading zero digit.\<close>

lemma lead_ones:
  "list_all2 (\<lambda>c d. b58_lookup c = Some d) s ds \<Longrightarrow>
   length (dropWhile (\<lambda>c. c = CHR ''1'') s) = length (dropWhile (\<lambda>d. d = 0) ds)"
proof (induction rule: list_all2_induct)
  case (Cons c cs d ds)
  then have "c = CHR ''1'' \<longleftrightarrow> d = 0" using b58_lookup_one [of c] by auto
  moreover have "length cs = length ds" using Cons(2) by (rule list_all2_lengthD)
  ultimately show ?case using Cons by simp
qed simp

lemma lead_zero_bytes:
  "length (dropWhile (\<lambda>b. b = 0) bs) = length (dropWhile (\<lambda>d. d = 0) (map unat (bs :: bytes)))"
  by (induction bs) (auto simp: unat_eq_zero)

lemma split_zeros:
  "replicate (length ds - length (dropWhile (\<lambda>d. d = 0) ds)) 0 @ dropWhile (\<lambda>d. d = 0) ds = (ds :: 'z :: zero list)"
proof (induction ds)
  case (Cons d ds)
  have "length (dropWhile (\<lambda>d. d = 0) ds) \<le> length ds" by (rule length_dropWhile_le)
  then show ?case using Cons by (auto simp: Suc_diff_le)
qed simp

lemma horner_zeros [simp]: "horner b (replicate k 0 @ ds) = horner b ds"
proof -
  have "foldl (\<lambda>n d. n * b + d) 0 (replicate k 0) = 0" by (induction k) simp_all
  then show ?thesis by (simp add: horner_def)
qed

text \<open>What decoding returns, over the digits of the text.\<close>

lemma b58decode_digits:
  assumes "list_all2 (\<lambda>c d. b58_lookup c = Some d) s ds"
  shows "b58decode s = Inr (replicate (length ds - length (dropWhile (\<lambda>d. d = 0) ds)) 0 @
    map of_nat (digits_of 256 (horner 58 ds)))"
proof -
  have "b58_value 0 s = Inr (horner 58 ds)"
    using assms by (auto simp: b58_value_iff horner_def)
  then show ?thesis
    using lead_ones [OF assms] list_all2_lengthD [OF assms]
    by (auto simp: b58decode_def Let_def to_bytes_digits)
qed

lemma b58encode_digits:
  "b58encode bs = map ((!) b58_alphabet)
     (replicate (length bs - length (dropWhile (\<lambda>b. b = 0) bs)) 0 @ digits_of 58 (from_bytes bs))"
  by (simp add: b58encode_def Let_def b58_loop_digits b58_alphabet_def)

lemma decode_encode: "b58decode (b58encode bs) = Inr bs"
proof -
  let ?k = "length bs - length (dropWhile (\<lambda>b. b = 0) bs)"
  let ?ds = "replicate ?k 0 @ digits_of 58 (from_bytes bs)"
  have "list_all2 (\<lambda>c d. b58_lookup c = Some d) (b58encode bs) ?ds"
    unfolding b58encode_digits by (rule lookup_digits) (auto dest: dec58.digits_less)
  moreover have "dropWhile (\<lambda>d. d = 0) ?ds = digits_of 58 (from_bytes bs)"
    using dec58.leading_zeros [of "from_bytes bs"]
    by (simp add: dropWhile_append) (metis append_Nil takeWhile_dropWhile_id)
  moreover have "map of_nat (digits_of 256 (from_bytes bs)) = dropWhile (\<lambda>b. b = 0) bs"
  proof -
    have "digits_of 256 (from_bytes bs) = dropWhile (\<lambda>d. d = 0) (map unat bs)"
      unfolding from_bytes_def by (rule dec256.digits_horner) (auto simp: unat_byte)
    then show ?thesis by (simp add: dropWhile_map o_def unat_eq_zero)
  qed
  ultimately have "b58decode (b58encode bs) = Inr (replicate ?k 0 @ dropWhile (\<lambda>b. b = 0) bs)"
    by (simp add: b58decode_digits dec58.horner_digits)
  moreover have "replicate ?k 0 @ dropWhile (\<lambda>b. b = 0) bs = bs"
    by (rule split_zeros)
  ultimately show ?thesis by simp
qed

lemma encode_decode:
  assumes "b58decode s = Inr bs"
  shows "b58encode bs = s"
proof -
  obtain ds where ds: "list_all2 (\<lambda>c d. b58_lookup c = Some d) s ds"
    using assms by (auto simp: b58decode_def rbind_eq_Inr_iff b58_value_iff)
  let ?k = "length ds - length (dropWhile (\<lambda>d. d = 0) ds)"
  let ?n = "horner 58 ds"
  let ?w = "map of_nat (digits_of 256 ?n) :: bytes"
  have bs: "bs = replicate ?k 0 @ ?w"
    using assms b58decode_digits [OF ds] by simp
  have unat_w: "map unat ?w = digits_of 256 ?n"
    by (auto simp: unat_of_nat intro!: map_idI dest: dec256.digits_less)
  then have num: "from_bytes bs = ?n"
    by (simp add: from_bytes_def bs dec256.horner_digits)
  have "takeWhile (\<lambda>b. b = 0) ?w = []"
    using dec256.leading_zeros [of ?n] unat_w lead_zero_bytes [of ?w]
    by (cases "digits_of 256 ?n") (auto split: if_splits)
  then have "dropWhile (\<lambda>b. b = 0) bs = ?w"
    by (cases ?w) (auto simp: bs dropWhile_append split: if_splits)
  then have "length bs - length (dropWhile (\<lambda>b. b = 0) bs) = ?k"
    by (simp add: bs)
  moreover have "digits_of 58 ?n = dropWhile (\<lambda>d. d = 0) ds"
    using lookup_mono [OF ds] by (intro dec58.digits_horner) auto
  ultimately have "b58encode bs = map ((!) b58_alphabet) ds"
    unfolding b58encode_digits num by (simp only: split_zeros)
  then show ?thesis using lookup_mono [OF ds] by simp
qed

end
