(* ===== verification/Descriptor_Adapter.thy ===== *)
theory Descriptor_Adapter
  imports Regex Base58 Sha256
begin

text \<open>
  The descriptor adapter (\<^verbatim>\<open>adapters/descriptor_adapter.py\<close>): its regular expressions, the recoding
  of SLIP-132 extended keys, the parser with its accept sets, address derivation and the
  classifier behind the import wizard.

  bdkpython is an argument: \<open>bdk_descriptor\<close> is the constructor \<^verbatim>\<open>bdk.Descriptor(expression,
  network)\<close>, \<open>None\<close> when it raises, and a \<open>bdk_descriptor\<close> record holds what the methods of the object
  answer.

  The lemmas relate the classifier to the parser: what the classifier offers as a Purse or a
  Strongbox the parser accepts as a single-key descriptor, what it offers as a Vault the parser
  accepts with \<^verbatim>\<open>allow_multisig\<close>; and they pin down where the two disagree.  A recoded key always
  carries a valid checksum, whatever the checksum of the key it was made from.
\<close>

section \<open>Patterns\<close>

definition is_alnum :: "char \<Rightarrow> bool" where
  "is_alnum c \<longleftrightarrow> is_alpha c \<or> is_digit c"

definition is_hex :: "char \<Rightarrow> bool" where
  "is_hex c \<longleftrightarrow> c \<in> set ''0123456789abcdefABCDEF''"

definition MULTISIG_THRESHOLD_RE :: re where
  "MULTISIG_THRESHOLD_RE =
     Cats [Opt (Lit ''sorted''), Lit ''multi'', Opt (Lit ''_a''), Chr (CHR ''(''), Star Space,
       Group (Plus Digit), Star Space, Chr (CHR '','')]"

definition XPUB_RE :: re where
  "XPUB_RE = Cats [Repeat 1 3 (Cls is_alpha), Lit ''pub'', Plus (Cls is_alnum)]"

definition TIMELOCK_AFTER_RE :: re where
  "TIMELOCK_AFTER_RE =
     Cats [Lit ''after('', Star Space, Group (Plus Digit), Star Space, Chr (CHR '')'')]"

definition TIMELOCK_OLDER_RE :: re where
  "TIMELOCK_OLDER_RE =
     Cats [Lit ''older('', Star Space, Group (Plus Digit), Star Space, Chr (CHR '')'')]"

definition FINGERPRINT_RE :: re where
  "FINGERPRINT_RE =
     Cats [Chr (CHR ''[''), Group (Repeat 8 0 (Cls is_hex)), Cls (\<lambda>c. c = CHR ''/'' \<or> c = CHR '']'')]"

definition TAPROOT_MULTISIG_RE :: re where
  "TAPROOT_MULTISIG_RE = Cats [Opt (Lit ''sorted''), Lit ''multi_a('']"

definition UNSUPPORTED_FRAGMENT_RE :: re where
  "UNSUPPORTED_FRAGMENT_RE =
     Alts (Cats [Word_Boundary, Lit ''or_'', Cls (\<lambda>c. c \<in> set ''idcb''), Chr (CHR ''('')])
       [Cat Word_Boundary (Lit ''thresh(''), Cat Word_Boundary (Lit ''sha256(''),
        Cat Word_Boundary (Lit ''hash256(''), Cat Word_Boundary (Lit ''ripemd160(''),
        Cat Word_Boundary (Lit ''hash160('')]"

definition LSP_PATTERN_RE :: re where
  "LSP_PATTERN_RE =
     (let key = [Star Space, Chr (CHR ''(''), Plus (Cls (\<lambda>c. c \<noteq> CHR '')'')), Chr (CHR '')'')];
          sp = Star Space;
          close = Chr (CHR '')'')
      in Cats ([Word_Boundary, Lit ''or_'', Cls (\<lambda>c. c \<in> set ''dcib''), sp, Chr (CHR ''(''), sp,
           Lit ''pk''] @ key @ [sp, Chr (CHR '',''), sp, Lit ''and_v'', sp, Chr (CHR ''(''), sp,
           Lit ''v:pk''] @ key @ [sp, Chr (CHR '',''), sp, Lit ''older'', sp, Chr (CHR ''(''), sp,
           Plus Digit, sp, close, sp, close, sp, close]))"

definition bech32_char :: "char \<Rightarrow> bool" where
  "bech32_char c \<longleftrightarrow> is_lower c \<or> is_digit c \<or> (is_upper c \<and> c \<noteq> CHR ''I'' \<and> c \<noteq> CHR ''O'')"

definition base58_char :: "char \<Rightarrow> bool" where
  "base58_char c \<longleftrightarrow> (is_lower c \<and> c \<noteq> CHR ''l'') \<or> (is_upper c \<and> c \<noteq> CHR ''I'' \<and> c \<noteq> CHR ''O'') \<or>
     (is_digit c \<and> c \<noteq> CHR ''0'')"

definition ADDRESS_PATTERN_CLASSIFIER :: re where
  "ADDRESS_PATTERN_CLASSIFIER =
     Cats [Line_Start,
       Alts (Cat (Lit ''bc1'') (Repeat 6 81 (Cls bech32_char)))
         [Cat (Lit ''tb1'') (Repeat 6 81 (Cls bech32_char)),
          Cat (Lit ''bcrt1'') (Repeat 6 81 (Cls bech32_char)),
          Cat (Cls (\<lambda>c. c \<in> set ''13mn2'')) (Repeat 24 10 (Cls base58_char))],
       Line_End]"

section \<open>Extended keys\<close>

definition XPUB_VERSION :: bytes where
  "XPUB_VERSION = [0x04, 0x88, 0xB2, 0x1E]"

definition TPUB_VERSION :: bytes where
  "TPUB_VERSION = [0x04, 0x35, 0x87, 0xCF]"

definition key_checksum :: "bytes \<Rightarrow> bytes" where
  "key_checksum payload = take 4 (sha256 (sha256 payload))"

definition recode_extended_key_version :: "string \<Rightarrow> bytes \<Rightarrow> exn + string" where
  "recode_extended_key_version key new_version =
     rbind (b58decode key) (\<lambda>decoded.
     if length decoded < 78 then Inl (ValueError V_Extended_key)
     else let payload = new_version @ take 74 (drop 4 decoded)
          in Inr (b58encode (payload @ key_checksum payload)))"

definition strip :: "string \<Rightarrow> string" where
  "strip s = rev (dropWhile is_space (rev (dropWhile is_space s)))"

definition lower_char :: "char \<Rightarrow> char" where
  "lower_char c = (if is_upper c then char_of (of_char c + (32 :: nat)) else c)"

definition starts_with :: "string \<Rightarrow> string \<Rightarrow> bool" where
  "starts_with s prefix \<longleftrightarrow> take (length prefix) s = prefix"

definition wpkh_pair :: "string \<Rightarrow> string \<times> string" where
  "wpkh_pair k = (''wpkh('' @ k @ ''/0/*)'', ''wpkh('' @ k @ ''/1/*)'')"

definition sh_wpkh_pair :: "string \<Rightarrow> string \<times> string" where
  "sh_wpkh_pair k = (''sh(wpkh('' @ k @ ''/0/*))'', ''sh(wpkh('' @ k @ ''/1/*))'')"

text \<open>\<^verbatim>\<open>except (ValueError, KeyError): pass\<close> around the recoding.\<close>

definition recoded :: "(string \<Rightarrow> string \<times> string) \<Rightarrow> string \<Rightarrow> bytes \<Rightarrow> (string \<times> string) option" where
  "recoded form s version =
     (case recode_extended_key_version s version of Inr k \<Rightarrow> Some (form k) | Inl _ \<Rightarrow> None)"

definition auto_wrap_bare_key :: "string \<Rightarrow> (string \<times> string) option" where
  "auto_wrap_bare_key expression =
     (let s = strip expression; lo = map lower_char s in
      if s = [] \<or> (\<exists>c \<in> set s. c \<in> set ''()[]/'') then None
      else if starts_with lo ''zpub'' then recoded wpkh_pair s XPUB_VERSION
      else if starts_with lo ''ypub'' then recoded sh_wpkh_pair s XPUB_VERSION
      else if starts_with lo ''xpub'' then Some (wpkh_pair s)
      else if starts_with lo ''vpub'' then recoded wpkh_pair s TPUB_VERSION
      else if starts_with lo ''upub'' then recoded sh_wpkh_pair s TPUB_VERSION
      else if starts_with lo ''tpub'' then Some (wpkh_pair s)
      else None)"

section \<open>What bdkpython answers\<close>

datatype desc_type = DT_BARE | DT_SH | DT_PKH | DT_WPKH | DT_WSH | DT_SH_WSH | DT_SH_WPKH
  | DT_WSH_SORTED_MULTI | DT_SH_SORTED_MULTI | DT_SH_WSH_SORTED_MULTI | DT_TR

record bdk_descriptor =
  bd_is_multipath :: bool
  bd_desc_type :: desc_type
  bd_str :: string
  bd_descriptor_id :: string
  bd_derive_address :: "int \<Rightarrow> string option"

type_synonym bdk_parser = "string \<Rightarrow> network \<Rightarrow> bdk_descriptor option"

definition SINGLE_KEY_TYPES :: "desc_type list" where
  "SINGLE_KEY_TYPES = [DT_PKH, DT_WPKH, DT_SH_WPKH, DT_TR]"

definition MULTISIG_TYPES :: "desc_type list" where
  "MULTISIG_TYPES = [DT_SH_SORTED_MULTI, DT_WSH_SORTED_MULTI, DT_SH_WSH_SORTED_MULTI]"

definition MINISCRIPT_TYPES :: "desc_type list" where
  "MINISCRIPT_TYPES = [DT_WSH, DT_SH]"

fun bdk_type_to_address_type :: "desc_type \<Rightarrow> address_type option" where
  "bdk_type_to_address_type DT_PKH = Some AT_LEGACY"
| "bdk_type_to_address_type DT_SH_WPKH = Some AT_NESTED_SEGWIT"
| "bdk_type_to_address_type DT_WPKH = Some AT_NATIVE_SEGWIT"
| "bdk_type_to_address_type DT_TR = Some AT_TAPROOT"
| "bdk_type_to_address_type DT_SH_SORTED_MULTI = Some AT_P2SH_MULTISIG"
| "bdk_type_to_address_type DT_WSH_SORTED_MULTI = Some AT_P2WSH"
| "bdk_type_to_address_type DT_SH_WSH_SORTED_MULTI = Some AT_P2SH_P2WSH"
| "bdk_type_to_address_type DT_WSH = Some AT_P2WSH"
| "bdk_type_to_address_type DT_SH = Some AT_P2SH_MULTISIG"
| "bdk_type_to_address_type _ = None"

section \<open>Parsing\<close>

record parsed_descriptor =
  pd_expression :: string
  pd_canonical_expression :: string
  pd_address_type :: address_type
  pd_descriptor_id :: string
  pd_is_multipath :: bool
  pd_is_multisig :: bool
  pd_required_signers :: "int option"
  pd_total_signers :: "int option"
  pd_timelock_kind :: "string option"
  pd_timelock_value :: "int option"
  pd_cosigner_fingerprints :: "string list"

definition digit_value :: "char \<Rightarrow> nat" where
  "digit_value c = of_char c - 48"

definition int_of_digits :: "string \<Rightarrow> int" where
  "int_of_digits s = int (horner 10 (map digit_value s))"

definition extract_multisig_params :: "string \<Rightarrow> bool \<Rightarrow> int option \<times> int option" where
  "extract_multisig_params expression is_taproot_multisig =
     (case re_search MULTISIG_THRESHOLD_RE expression of
        None \<Rightarrow> (None, None)
      | Some m \<Rightarrow>
          let required = int_of_digits (group1 m);
              total0 = int (length (re_findall XPUB_RE expression));
              total1 = (if is_taproot_multisig then total0 - 1 else total0)
          in (Some required, if total1 > 0 then Some total1 else None))"

definition extract_timelock :: "string \<Rightarrow> string option \<times> int option" where
  "extract_timelock expression =
     (case re_search TIMELOCK_AFTER_RE expression of
        Some m \<Rightarrow> (Some ''cltv'', Some (int_of_digits (group1 m)))
      | None \<Rightarrow>
          (case re_search TIMELOCK_OLDER_RE expression of
             Some m \<Rightarrow> (Some ''csv'', Some (int_of_digits (group1 m)))
           | None \<Rightarrow> (None, None)))"

fun unique_lower :: "string list \<Rightarrow> string list \<Rightarrow> string list" where
  "unique_lower seen [] = seen"
| "unique_lower seen (fp # fps) =
     (let fp_lower = map lower_char fp
      in unique_lower (if fp_lower \<in> set seen then seen else seen @ [fp_lower]) fps)"

definition extract_fingerprints :: "string \<Rightarrow> string list" where
  "extract_fingerprints expression = unique_lower [] (re_findall_group FINGERPRINT_RE expression)"

definition parsed ::
  "string \<Rightarrow> bdk_descriptor \<Rightarrow> address_type \<Rightarrow> bool \<Rightarrow> int option \<times> int option \<Rightarrow>
   string option \<times> int option \<Rightarrow> string list \<Rightarrow> parsed_descriptor" where
  "parsed expression d atype is_multisig signers timelock fps =
     \<lparr>pd_expression = expression, pd_canonical_expression = bd_str d, pd_address_type = atype,
      pd_descriptor_id = bd_descriptor_id d, pd_is_multipath = False, pd_is_multisig = is_multisig,
      pd_required_signers = fst signers, pd_total_signers = snd signers,
      pd_timelock_kind = fst timelock, pd_timelock_value = snd timelock,
      pd_cosigner_fingerprints = fps\<rparr>"

text \<open>A lookup in \<^verbatim>\<open>_BDK_TYPE_TO_ADDRESS_TYPE\<close> raises \<^verbatim>\<open>KeyError\<close> for a type it does not list.\<close>

definition address_type_of :: "desc_type \<Rightarrow> exn + address_type" where
  "address_type_of t = (case bdk_type_to_address_type t of None \<Rightarrow> Inl KeyError | Some a \<Rightarrow> Inr a)"

definition parse_multisig :: "string \<Rightarrow> bdk_descriptor \<Rightarrow> bool \<Rightarrow> exn + parsed_descriptor" where
  "parse_multisig expression d allow_multisig =
     (if \<not> allow_multisig then Inl UnsupportedDescriptorError
      else rbind (address_type_of (bd_desc_type d)) (\<lambda>atype.
        Inr (parsed expression d atype True (extract_multisig_params expression False)
               (extract_timelock expression) (extract_fingerprints expression))))"

definition parse_miniscript :: "string \<Rightarrow> bdk_descriptor \<Rightarrow> bool \<Rightarrow> exn + parsed_descriptor" where
  "parse_miniscript expression d allow_multisig =
     (if \<not> allow_multisig then Inl UnsupportedDescriptorError
      else if re_test UNSUPPORTED_FRAGMENT_RE expression then Inl UnsupportedDescriptorError
      else if bd_desc_type d = DT_SH \<and> \<not> re_test MULTISIG_THRESHOLD_RE expression
      then Inl UnsupportedDescriptorError
      else rbind (address_type_of (bd_desc_type d)) (\<lambda>atype.
        let is_multisig_expr = re_test MULTISIG_THRESHOLD_RE expression;
            signers = (if is_multisig_expr then extract_multisig_params expression False
                       else (Some 1, Some 1))
        in Inr (parsed expression d atype is_multisig_expr signers
                  (extract_timelock expression) (extract_fingerprints expression))))"

definition parse_taproot_vault :: "string \<Rightarrow> bdk_descriptor \<Rightarrow> bool \<Rightarrow> exn + parsed_descriptor" where
  "parse_taproot_vault expression d allow_multisig =
     (if \<not> allow_multisig then Inl UnsupportedDescriptorError
      else if re_test UNSUPPORTED_FRAGMENT_RE expression then Inl UnsupportedDescriptorError
      else
        let is_multisig_tr = re_test TAPROOT_MULTISIG_RE expression;
            signers = (if is_multisig_tr then extract_multisig_params expression True
                       else (Some 1, Some 1))
        in Inr (parsed expression d AT_TAPROOT is_multisig_tr signers
                  (extract_timelock expression) (extract_fingerprints expression)))"

definition is_vault_tr :: "string \<Rightarrow> bool" where
  "is_vault_tr expression \<longleftrightarrow>
     fst (extract_timelock expression) \<noteq> None \<or> re_test TAPROOT_MULTISIG_RE expression"

definition parse :: "bdk_parser \<Rightarrow> string \<Rightarrow> network \<Rightarrow> bool \<Rightarrow> exn + parsed_descriptor" where
  "parse bdk expression net allow_multisig =
     (if expression = [] \<or> length expression > 4096 then Inl DescriptorParseError
      else
        case bdk expression net of
          None \<Rightarrow> Inl DescriptorParseError
        | Some d \<Rightarrow>
            if bd_is_multipath d then Inl UnsupportedDescriptorError
            else if bd_desc_type d \<in> set MULTISIG_TYPES then parse_multisig expression d allow_multisig
            else if bd_desc_type d \<in> set MINISCRIPT_TYPES then parse_miniscript expression d allow_multisig
            else if bd_desc_type d \<notin> set SINGLE_KEY_TYPES then Inl UnsupportedDescriptorError
            else if bd_desc_type d = DT_TR \<and> is_vault_tr expression
            then parse_taproot_vault expression d allow_multisig
            else rbind (address_type_of (bd_desc_type d)) (\<lambda>atype.
              Inr (parsed expression d atype False (None, None) (None, None) [])))"

section \<open>Derivation\<close>

record derived_address =
  da_address :: string
  da_derivation_index :: int

definition derive_one :: "bdk_descriptor \<Rightarrow> int \<Rightarrow> exn + derived_address" where
  "derive_one d index =
     (case bd_derive_address d index of None \<Rightarrow> Inl BdkError
      | Some a \<Rightarrow> Inr \<lparr>da_address = a, da_derivation_index = index\<rparr>)"

definition derive_addresses ::
  "bdk_parser \<Rightarrow> string \<Rightarrow> network \<Rightarrow> int \<Rightarrow> int \<Rightarrow> bool \<Rightarrow> exn + derived_address list" where
  "derive_addresses bdk expression net start_index count allow_multisig =
     (if count < 0 then Inl (ValueError V_Count_negative)
      else if start_index < 0 then Inl (ValueError V_Start_index_negative)
      else
        rbind (parse bdk expression net allow_multisig) (\<lambda>_.
        case bdk expression net of
          None \<Rightarrow> Inl BdkError
        | Some d \<Rightarrow> rmap (derive_one d) (map (\<lambda>i. start_index + int i) [0..<nat count])))"

definition derive_address :: "bdk_parser \<Rightarrow> string \<Rightarrow> network \<Rightarrow> int \<Rightarrow> bool \<Rightarrow> exn + string" where
  "derive_address bdk expression net index allow_multisig =
     (if index < 0 then Inl (ValueError V_Index_negative)
      else
        rbind (parse bdk expression net allow_multisig) (\<lambda>_.
        case bdk expression net of
          None \<Rightarrow> Inl BdkError
        | Some d \<Rightarrow> rbind (derive_one d index) (\<lambda>a. Inr (da_address a))))"

section \<open>Classification\<close>

record classified_descriptor =
  cd_best_fit :: "string option"
  cd_rejection_category :: "string option"
  cd_canonical_expression :: "string option"
  cd_canonical_change_expression :: "string option"

definition rejected :: "(string \<times> string) option \<Rightarrow> string \<Rightarrow> classified_descriptor" where
  "rejected wrapped category =
     \<lparr>cd_best_fit = None, cd_rejection_category = Some category,
      cd_canonical_expression = map_option fst wrapped,
      cd_canonical_change_expression = map_option snd wrapped\<rparr>"

definition fits :: "(string \<times> string) option \<Rightarrow> string \<Rightarrow> classified_descriptor" where
  "fits wrapped holding =
     \<lparr>cd_best_fit = Some holding, cd_rejection_category = None,
      cd_canonical_expression = map_option fst wrapped,
      cd_canonical_change_expression = map_option snd wrapped\<rparr>"

text \<open>The expression the classifier works on: a bare key is wrapped first.\<close>

definition classified_expression :: "string \<Rightarrow> string" where
  "classified_expression raw =
     (case auto_wrap_bare_key (strip raw) of None \<Rightarrow> strip raw | Some w \<Rightarrow> fst w)"

definition single_key_fit :: "string \<Rightarrow> string" where
  "single_key_fit expression =
     (if re_test FINGERPRINT_RE expression then ''strongbox'' else ''purse'')"

definition classify_descriptor :: "bdk_parser \<Rightarrow> string \<Rightarrow> network \<Rightarrow> classified_descriptor" where
  "classify_descriptor bdk raw net =
     (let wrapped = auto_wrap_bare_key (strip raw);
          expression = classified_expression raw in
      if re_match ADDRESS_PATTERN_CLASSIFIER expression \<noteq> None
      then rejected wrapped ''single_address_input''
      else
        case bdk expression net of
          None \<Rightarrow> rejected wrapped ''unparseable''
        | Some d \<Rightarrow>
            if bd_is_multipath d then rejected wrapped ''unsupported_form''
            else if re_test LSP_PATTERN_RE expression then rejected wrapped ''lsp_coordinated_wallet''
            else if re_test UNSUPPORTED_FRAGMENT_RE expression
            then rejected wrapped ''multi_path_miniscript''
            else if bd_desc_type d = DT_TR then
              (if is_vault_tr expression then fits wrapped ''vault''
               else fits wrapped (single_key_fit expression))
            else if bd_desc_type d \<in> set SINGLE_KEY_TYPES
            then fits wrapped (single_key_fit expression)
            else if bd_desc_type d \<in> set MULTISIG_TYPES \<or> bd_desc_type d \<in> set MINISCRIPT_TYPES then
              (if bd_desc_type d = DT_SH \<and> \<not> re_test MULTISIG_THRESHOLD_RE expression
               then rejected wrapped ''unsupported_form''
               else fits wrapped ''vault'')
            else rejected wrapped ''unsupported_form'')"

section \<open>Lemmas\<close>

text \<open>An accepted descriptor was parsed by bdkpython, within the length bound, and is no multipath
  shorthand.\<close>

lemma parse_InrD:
  assumes "parse bdk e net allow = Inr p"
  obtains d where "bdk e net = Some d" "\<not> bd_is_multipath d" "e \<noteq> []" "length e \<le> 4096"
    "pd_expression p = e" "pd_canonical_expression p = bd_str d"
  using assms that
  by (auto simp: parse_def parse_multisig_def parse_miniscript_def parse_taproot_vault_def
      rbind_eq_Inr_iff parsed_def Let_def split: if_splits option.splits)

definition vault_shape :: "parsed_descriptor \<Rightarrow> bool" where
  "vault_shape p \<longleftrightarrow> pd_is_multisig p \<or> pd_timelock_kind p \<noteq> None"

text \<open>Without \<^verbatim>\<open>allow_multisig\<close> only plain single-key descriptors pass, without signer counts, timelock
  or fingerprints.\<close>

lemma parse_single_key:
  assumes "parse bdk e net False = Inr p"
  shows "\<not> vault_shape p" "pd_required_signers p = None" "pd_total_signers p = None"
    "pd_timelock_value p = None"
  using assms
  by (auto simp: parse_def parse_multisig_def parse_miniscript_def parse_taproot_vault_def
      rbind_eq_Inr_iff parsed_def vault_shape_def split: if_splits option.splits)

text \<open>A descriptor accepted for every holding type is accepted for Vaults, with the same result.\<close>

lemma parse_allow_mono: "parse bdk e net False = Inr p \<Longrightarrow> parse bdk e net True = Inr p"
  by (auto simp: parse_def parse_multisig_def parse_miniscript_def parse_taproot_vault_def
      split: if_splits option.splits)

text \<open>What only Vaults accept has the shape of a Vault, but for one kind: a \<^verbatim>\<open>wsh\<close> script with neither
  a multisig clause nor a timelock.\<close>

lemma parse_vault_only:
  assumes "parse bdk e net True = Inr p" "\<And>q. parse bdk e net False \<noteq> Inr q"
  shows "vault_shape p \<or>
    (\<exists>d. bdk e net = Some d \<and> bd_desc_type d = DT_WSH \<and> \<not> re_test MULTISIG_THRESHOLD_RE e \<and>
       fst (extract_timelock e) = None)"
  using assms
  by (auto simp: parse_def parse_multisig_def parse_miniscript_def parse_taproot_vault_def
      rbind_eq_Inr_iff parsed_def vault_shape_def is_vault_tr_def MULTISIG_TYPES_def MINISCRIPT_TYPES_def
      Let_def split: if_splits option.splits)

lemma single_key_fit_cases: "single_key_fit e = ''strongbox'' \<or> single_key_fit e = ''purse''"
  by (simp add: single_key_fit_def)

lemma fits_simps [simp]:
  "cd_best_fit (fits w h) = Some h" "cd_best_fit (rejected w c) = None"
  "cd_rejection_category (fits w h) = None" "cd_rejection_category (rejected w c) = Some c"
  by (simp_all add: fits_def rejected_def)

text \<open>The texts the classifier turns away before it looks at the descriptor type.\<close>

definition turned_away :: "string \<Rightarrow> bool" where
  "turned_away e \<longleftrightarrow> re_match ADDRESS_PATTERN_CLASSIFIER e \<noteq> None \<or> re_test LSP_PATTERN_RE e \<or>
     re_test UNSUPPORTED_FRAGMENT_RE e"

lemma parse_ok_iff:
  assumes "e \<noteq> []" "length e \<le> 4096" "bdk e net = Some d"
  shows "(\<exists>p. parse bdk e net allow = Inr p) \<longleftrightarrow>
    \<not> bd_is_multipath d \<and>
    (case bd_desc_type d of
       DT_BARE \<Rightarrow> False | DT_SH_WSH \<Rightarrow> False
     | DT_PKH \<Rightarrow> True | DT_WPKH \<Rightarrow> True | DT_SH_WPKH \<Rightarrow> True
     | DT_TR \<Rightarrow> is_vault_tr e \<longrightarrow> allow \<and> \<not> re_test UNSUPPORTED_FRAGMENT_RE e
     | DT_WSH \<Rightarrow> allow \<and> \<not> re_test UNSUPPORTED_FRAGMENT_RE e
     | DT_SH \<Rightarrow> allow \<and> \<not> re_test UNSUPPORTED_FRAGMENT_RE e \<and> re_test MULTISIG_THRESHOLD_RE e
     | _ \<Rightarrow> allow)"
  using assms
  by (cases "bd_desc_type d")
     (auto simp: parse_def parse_multisig_def parse_miniscript_def parse_taproot_vault_def Let_def
      address_type_of_def MULTISIG_TYPES_def MINISCRIPT_TYPES_def SINGLE_KEY_TYPES_def)

lemma classify_fit_iff:
  assumes "bdk (classified_expression raw) net = Some d"
  shows "cd_best_fit (classify_descriptor bdk raw net) =
    (let e = classified_expression raw in
     if turned_away e \<or> bd_is_multipath d then None
     else case bd_desc_type d of
       DT_BARE \<Rightarrow> None | DT_SH_WSH \<Rightarrow> None
     | DT_PKH \<Rightarrow> Some (single_key_fit e) | DT_WPKH \<Rightarrow> Some (single_key_fit e)
     | DT_SH_WPKH \<Rightarrow> Some (single_key_fit e)
     | DT_TR \<Rightarrow> Some (if is_vault_tr e then ''vault'' else single_key_fit e)
     | DT_SH \<Rightarrow> if re_test MULTISIG_THRESHOLD_RE e then Some ''vault'' else None
     | _ \<Rightarrow> Some ''vault'')"
  using assms
  by (cases "bd_desc_type d")
     (simp_all add: classify_descriptor_def turned_away_def Let_def
      MULTISIG_TYPES_def MINISCRIPT_TYPES_def SINGLE_KEY_TYPES_def)

lemma classify_unparseable:
  "bdk (classified_expression raw) net = None \<Longrightarrow> cd_best_fit (classify_descriptor bdk raw net) = None"
  by (simp add: classify_descriptor_def Let_def)

lemma parse_unparseable: "bdk e net = None \<Longrightarrow> parse bdk e net allow = Inl DescriptorParseError"
  by (simp add: parse_def)

lemma recode_InrD:
  assumes "b58decode key = Inr d" "78 \<le> length d"
  shows "recode_extended_key_version key v =
    Inr (b58encode ((v @ take 74 (drop 4 d)) @ key_checksum (v @ take 74 (drop 4 d))))"
  using assms by (simp add: recode_extended_key_version_def Let_def)

section \<open>Properties\<close>

text \<open>Base58 text and bytes correspond one to one: every byte sequence reads back from its text,
  and every text over the alphabet is the text of the bytes it decodes to.\<close>

theorem base58_round_trip:
  "b58decode (b58encode bs) = Inr bs \<and> (b58decode s = Inr cs \<longrightarrow> b58encode cs = s)"
  using decode_encode encode_decode by blast

text \<open>C22. The classifier of the import wizard and the parser agree: a descriptor is offered as a Purse
  or a Strongbox exactly when the parser takes it as a single-key descriptor, as a Vault exactly
  when the parser takes it for Vaults only, leaving aside the texts the classifier turns away first
  (addresses, LSP wallets, branching or hash-lock fragments).\<close>

theorem classifier_agrees_with_parser:
  assumes "classified_expression raw \<noteq> []" "length (classified_expression raw) \<le> 4096"
  shows
    "(cd_best_fit (classify_descriptor bdk raw net) \<in> {Some ''purse'', Some ''strongbox''} \<longleftrightarrow>
        \<not> turned_away (classified_expression raw) \<and>
        (\<exists>p. parse bdk (classified_expression raw) net False = Inr p)) \<and>
     (cd_best_fit (classify_descriptor bdk raw net) = Some ''vault'' \<longleftrightarrow>
        \<not> turned_away (classified_expression raw) \<and>
        (\<exists>p. parse bdk (classified_expression raw) net True = Inr p) \<and>
        \<not> (\<exists>p. parse bdk (classified_expression raw) net False = Inr p))"
proof (cases "bdk (classified_expression raw) net")
  case None
  then show ?thesis by (simp add: classify_unparseable parse_unparseable)
next
  case (Some d)
  show ?thesis
    unfolding parse_ok_iff [where bdk = bdk, OF assms Some]
    using single_key_fit_cases [of "classified_expression raw"]
    by (cases "bd_desc_type d")
       (auto simp: classify_fit_iff [where bdk = bdk, OF Some] Let_def turned_away_def)
qed

text \<open>A Taproot descriptor whose script tree branches (\<^verbatim>\<open>or_d\<close>, \<^verbatim>\<open>thresh\<close>, hash locks) but names
  neither a timelock nor \<^verbatim>\<open>multi_a\<close> is refused by the classifier and accepted by the parser as a
  plain single-key descriptor.\<close>

theorem branching_taproot_passes_as_single_key:
  assumes "bdk e net = Some d" "bd_desc_type d = DT_TR" "\<not> bd_is_multipath d"
    and "e \<noteq> []" "length e \<le> 4096" "classified_expression raw = e"
    and "re_test UNSUPPORTED_FRAGMENT_RE e" "\<not> is_vault_tr e"
  shows "cd_best_fit (classify_descriptor bdk raw net) = None \<and>
    (\<exists>p. parse bdk e net False = Inr p \<and> pd_address_type p = AT_TAPROOT \<and> \<not> pd_is_multisig p)"
proof -
  have "cd_best_fit (classify_descriptor bdk raw net) = None"
    using assms by (simp add: classify_fit_iff turned_away_def Let_def)
  moreover have "parse bdk e net False = Inr (parsed e d AT_TAPROOT False (None, None) (None, None) [])"
    using assms by (simp add: parse_def MULTISIG_TYPES_def MINISCRIPT_TYPES_def SINGLE_KEY_TYPES_def
        address_type_of_def)
  ultimately show ?thesis by (simp add: parsed_def)
qed

text \<open>Recoding an extended key writes a valid checksum over its 74 key bytes and never looks at
  the checksum it was given: two keys that differ only there are recoded to the same key.\<close>

theorem recoding_forges_the_checksum:
  assumes "b58decode key = Inr d" "78 \<le> length d"
    and "b58decode key' = Inr d'" "78 \<le> length d'" "take 74 (drop 4 d) = take 74 (drop 4 d')"
  shows "recode_extended_key_version key v = recode_extended_key_version key' v \<and>
    (\<exists>k. recode_extended_key_version key v = Inr k \<and>
       b58decode k = Inr ((v @ take 74 (drop 4 d)) @ key_checksum (v @ take 74 (drop 4 d))))"
  using assms by (simp add: recode_InrD decode_encode)

end
