(* ===== verification/Exchanges.thy ===== *)
theory Exchanges
  imports Doubles Descriptor_Adapter
begin

text \<open>
  The exchange adapters: the interface \<^verbatim>\<open>adapters/custodial_provider_adapter.py\<close>, its implementations
  \<^verbatim>\<open>adapters/kraken_adapter.py\<close> and \<^verbatim>\<open>adapters/bitstamp_adapter.py\<close>, and the registry that builds them
  (\<^verbatim>\<open>adapters/adapter_registry.py\<close>).

  The ccxt package is an argument: the record \<open>ccxt\<close> holds what its calls answer for one set of
  credentials, in its unified structures (an absent dictionary key is \<open>None\<close>).  \<open>cx_str\<close> is Python's
  \<^verbatim>\<open>str\<close> of a JSON value that is not a string.  Timestamps are microseconds since the epoch, as precise as
  a Python \<^verbatim>\<open>datetime\<close>; ccxt's are milliseconds.

  The lemmas show which keys pass the permission check, that ledger entries come in order and signed,
  and which calls and which adapter never work.
\<close>

section \<open>The interface\<close>

datatype provider_exn =
    P_Auth string | P_Permission string | P_RateLimit string | P_Error string
  | P_Network string | P_Value string

record withdrawal =
  wd_id :: string
  wd_amount_sats :: sats
  wd_address :: string
  wd_txid :: "string option"
  wd_status :: string
  wd_created_at :: timestamp

record deposit =
  dp_id :: string
  dp_amount_sats :: sats
  dp_txid :: "string option"
  dp_status :: string
  dp_created_at :: timestamp

record withdrawal_result =
  wr_withdrawal_id :: string
  wr_status :: string

record whitelist_verification =
  wv_is_whitelisted :: bool
  wv_provider_label :: "string option"
  wv_error :: "string option"

text \<open>\<open>ple_raw\<close> is the provider's own record and the records of the other legs of a trade.\<close>

record provider_ledger_entry =
  ple_provider_entry_id :: string
  ple_kind :: string
  ple_asset :: string
  ple_amount :: rat
  ple_fee :: "rat option"
  ple_status :: string
  ple_timestamp :: timestamp
  ple_raw :: "string \<times> string list"

record adapter =
  ad_get_permissions :: "provider_exn + provider_permissions"
  ad_get_balance :: "provider_exn + sats"
  ad_get_other_balances :: "provider_exn + (string \<times> string) list"
  ad_get_recent_withdrawals :: "timestamp \<Rightarrow> provider_exn + withdrawal list"
  ad_get_recent_deposits :: "timestamp \<Rightarrow> provider_exn + deposit list"
  ad_withdraw :: "sats \<Rightarrow> string \<Rightarrow> provider_exn + withdrawal_result"
  ad_verify_whitelist :: "string option \<Rightarrow> provider_exn + whitelist_verification"
  ad_fetch_ledger_since :: "timestamp option \<Rightarrow> provider_exn + provider_ledger_entry list \<times> timestamp option"

section \<open>What ccxt answers\<close>

datatype ccxt_exn =
    CX_Authentication string | CX_RateLimit string | CX_Network string | CX_Exchange string | CX_Value string

datatype json = JNull | JBool bool | JNum rat | JStr string | JList "json list" | JObj "(string \<times> json) list"

record ccxt_balance =
  cb_btc_free :: "rat option"
  cb_total :: "(string \<times> rat \<times> string) list"

datatype ccxt_fee = Fee_None | Fee_Dict "rat option" | Fee_Num rat

record ledger_item =
  li_reference_id :: "string option"
  li_id :: "string option"
  li_currency :: "string option"
  li_type :: "string option"
  li_direction :: "string option"
  li_timestamp :: "int option"
  li_amount :: "rat option"
  li_fee :: ccxt_fee
  li_status :: "string option"
  li_record :: string

record ccxt_transaction =
  tx_id :: "string option"
  tx_amount :: "rat option"
  tx_address :: "string option"
  tx_txid :: "string option"
  tx_status :: "string option"
  tx_timestamp :: "int option"
  tx_type :: "string option"

record ccxt =
  cx_str :: "json \<Rightarrow> string"
  cx_fetch_balance :: "ccxt_exn + ccxt_balance"
  cx_fetch_transactions :: "int \<Rightarrow> string option \<Rightarrow> ccxt_exn + ccxt_transaction list"
  cx_fetch_ledger :: "string option \<Rightarrow> int option \<Rightarrow> nat \<Rightarrow> ccxt_exn + ledger_item list"
  cx_fetch_open_orders :: "ccxt_exn + unit"
  cx_withdraw :: "rat \<Rightarrow> string \<Rightarrow> ccxt_exn + string option \<times> string option"
  cx_get_api_key_info :: "ccxt_exn + (string \<times> json) list"
  cx_withdraw_addresses :: "ccxt_exn + (string option \<times> string option) list"
  cx_withdraw_status :: "ccxt_exn + unit"
  cx_open_orders :: "ccxt_exn + unit"
  cx_trade_balance :: "ccxt_exn + unit"
  cx_earn_strategies :: "ccxt_exn + unit"

text \<open>\<^verbatim>\<open>a or b\<close> on an optional string, where the empty string counts as absent.\<close>

definition or_str :: "string option \<Rightarrow> string \<Rightarrow> string" where
  "or_str a b = (case a of None \<Rightarrow> b | Some s \<Rightarrow> if s = [] then b else s)"

definition upper_char :: "char \<Rightarrow> char" where
  "upper_char c = (if is_lower c then char_of (of_char c - (32 :: nat)) else c)"

definition ts_to_dt :: "int option \<Rightarrow> timestamp \<Rightarrow> timestamp" where
  "ts_to_dt ts_ms fallback = (case ts_ms of None \<Rightarrow> fallback | Some ms \<Rightarrow> ms * 1000)"

text \<open>\<^verbatim>\<open>int(since.timestamp() * 1000)\<close>, in double arithmetic.\<close>

definition since_ms :: "timestamp \<Rightarrow> int" where
  "since_ms since = trunc (double (double (of_int since / 1000000) * 1000))"

definition opt_btc_to_sats :: "rat option \<Rightarrow> int" where
  "opt_btc_to_sats btc = (case btc of None \<Rightarrow> 0 | Some x \<Rightarrow> sats_of_float x)"

section \<open>Kraken\<close>

definition is_btc_currency :: "string \<Rightarrow> bool" where
  "is_btc_currency asset \<longleftrightarrow>
     map upper_char (takeWhile (\<lambda>c. c \<noteq> CHR ''.'') asset) \<in> set [''BTC'', ''XBT'', ''XXBT'']"

definition call_exn :: "ccxt_exn \<Rightarrow> provider_exn" where
  "call_exn e = (case e of
      CX_Authentication m \<Rightarrow> P_Auth m | CX_RateLimit m \<Rightarrow> P_RateLimit m
    | CX_Network m \<Rightarrow> P_Error m | CX_Exchange m \<Rightarrow> P_Error m
    | CX_Value m \<Rightarrow> P_Auth (''Invalid credentials format: '' @ m))"

definition call :: "ccxt_exn + 'a \<Rightarrow> provider_exn + 'a" where
  "call r = (case r of Inl e \<Rightarrow> Inl (call_exn e) | Inr x \<Rightarrow> Inr x)"

definition normalise :: "string \<Rightarrow> string" where
  "normalise name = filter (\<lambda>c. c \<notin> set ''- _:'') (map lower_char name)"

definition is_query_funds_scope :: "string \<Rightarrow> bool" where
  "is_query_funds_scope name \<longleftrightarrow> normalise name \<in> set [''queryfunds'', ''funds'', ''querybalance'']"

definition is_query_ledger_scope :: "string \<Rightarrow> bool" where
  "is_query_ledger_scope name \<longleftrightarrow>
     normalise name \<in> set [''queryledger'', ''queryledgerentries'', ''ledger'', ''data'', ''querydata'']"

fun flag :: "json \<Rightarrow> bool" where
  "flag (JBool b) = b"
| "flag (JObj kvs) = list_ex (\<lambda>kv. flag (snd kv)) kvs"
| "flag _ = False"

definition py_str :: "ccxt \<Rightarrow> json \<Rightarrow> string" where
  "py_str cx j = (case j of JStr s \<Rightarrow> s | _ \<Rightarrow> cx_str cx j)"

text \<open>The names a key's permissions are classified by; \<open>None\<close> for a structure the parser does not know.\<close>

definition permission_names :: "ccxt \<Rightarrow> (string \<times> json) list \<Rightarrow> string list option" where
  "permission_names cx response =
     (case (case map_of response ''result'' of None \<Rightarrow> JObj response | Some r \<Rightarrow> r) of
        JObj result \<Rightarrow>
          (case map_of result ''permissions'' of
             Some (JList ps) \<Rightarrow> Some (map (py_str cx) ps)
           | Some (JObj kvs) \<Rightarrow> Some (map fst (filter (\<lambda>kv. flag (snd kv)) kvs))
           | _ \<Rightarrow> None)
      | _ \<Rightarrow> None)"

definition QUERY_FUNDS :: string where "QUERY_FUNDS = ''Query funds''"
definition QUERY_LEDGER :: string where "QUERY_LEDGER = ''Query ledger entries''"

definition parse_permissions_from_key_info ::
  "ccxt \<Rightarrow> (string \<times> json) list \<Rightarrow> (string list \<times> string list) option" where
  "parse_permissions_from_key_info cx response =
     map_option (\<lambda>names.
       (filter (\<lambda>n. \<not> is_query_funds_scope n \<and> \<not> is_query_ledger_scope n) names,
        (if list_ex is_query_funds_scope names then [] else [QUERY_FUNDS]) @
        (if list_ex (\<lambda>n. \<not> is_query_funds_scope n \<and> is_query_ledger_scope n) names then [] else [QUERY_LEDGER])))
       (permission_names cx response)"

definition probe :: "ccxt_exn + 'a \<Rightarrow> string \<Rightarrow> provider_exn + string list" where
  "probe r name = (case r of
      Inr _ \<Rightarrow> Inr [name]
    | Inl e \<Rightarrow> (case e of
          CX_Authentication _ \<Rightarrow> Inr []
        | CX_Value m \<Rightarrow> Inl (P_Value m)
        | CX_Network m \<Rightarrow> Inl (P_Error m) | CX_RateLimit m \<Rightarrow> Inl (P_Error m) | CX_Exchange m \<Rightarrow> Inl (P_Error m)))"

definition kraken_permissions :: "string list \<Rightarrow> string list \<Rightarrow> provider_permissions" where
  "kraken_permissions overage underage =
     \<lparr>pp_can_read = (QUERY_FUNDS \<notin> set underage), pp_can_trade = False, pp_can_withdraw = False,
      pp_overage = overage, pp_underage = underage\<rparr>"

definition kraken_probe_permissions :: "ccxt \<Rightarrow> provider_exn + provider_permissions" where
  "kraken_probe_permissions cx =
     rbind (probe (cx_fetch_balance cx) QUERY_FUNDS) (\<lambda>p1.
     rbind (probe (cx_fetch_ledger cx (Some ''BTC'') None 1) QUERY_LEDGER) (\<lambda>p2.
     rbind (probe (cx_withdraw_status cx) ''Withdraw funds'') (\<lambda>o1.
     rbind (probe (cx_open_orders cx) ''Trade'') (\<lambda>o2.
     rbind (probe (cx_trade_balance cx) ''Margin'') (\<lambda>o3.
     rbind (probe (cx_earn_strategies cx) ''Earn / Staking'') (\<lambda>o4.
     Inr (kraken_permissions (o1 @ o2 @ o3 @ o4)
            (filter (\<lambda>p. p \<notin> set (p1 @ p2)) [QUERY_FUNDS, QUERY_LEDGER]))))))))"

definition kraken_get_permissions :: "ccxt \<Rightarrow> provider_exn + provider_permissions" where
  "kraken_get_permissions cx =
     (case cx_get_api_key_info cx of
        Inr response \<Rightarrow>
          (case parse_permissions_from_key_info cx response of
             Some (overage, underage) \<Rightarrow> Inr (kraken_permissions overage underage)
           | None \<Rightarrow> kraken_probe_permissions cx)
      | Inl e \<Rightarrow>
          (case e of
             CX_Authentication m \<Rightarrow> Inl (P_Auth m)
           | CX_Value _ \<Rightarrow> kraken_probe_permissions cx
           | CX_Network m \<Rightarrow> Inl (P_Error m) | CX_RateLimit m \<Rightarrow> Inl (P_Error m) | CX_Exchange m \<Rightarrow> Inl (P_Error m)))"

definition get_balance_of :: "ccxt \<Rightarrow> provider_exn + sats" where
  "get_balance_of cx = rbind (call (cx_fetch_balance cx)) (\<lambda>b. Inr (sats_of_float (get_or (cb_btc_free b) 0)))"

definition get_other_balances_of :: "ccxt \<Rightarrow> provider_exn + (string \<times> string) list" where
  "get_other_balances_of cx =
     rbind (call (cx_fetch_balance cx)) (\<lambda>b.
     Inr (map (\<lambda>(asset, _, txt). (asset, txt))
       (filter (\<lambda>(asset, amount, _). asset \<noteq> ''BTC'' \<and> amount > 0) (cb_total b))))"

definition withdrawal_of :: "timestamp \<Rightarrow> ccxt_transaction \<Rightarrow> withdrawal" where
  "withdrawal_of since tx =
     \<lparr>wd_id = get_or (tx_id tx) [], wd_amount_sats = opt_btc_to_sats (tx_amount tx),
      wd_address = get_or (tx_address tx) [], wd_txid = tx_txid tx,
      wd_status = get_or (tx_status tx) ''unknown'', wd_created_at = ts_to_dt (tx_timestamp tx) since\<rparr>"

definition deposit_of :: "timestamp \<Rightarrow> ccxt_transaction \<Rightarrow> deposit" where
  "deposit_of since tx =
     \<lparr>dp_id = get_or (tx_id tx) [], dp_amount_sats = opt_btc_to_sats (tx_amount tx), dp_txid = tx_txid tx,
      dp_status = get_or (tx_status tx) ''unknown'', dp_created_at = ts_to_dt (tx_timestamp tx) since\<rparr>"

definition kraken_get_recent_withdrawals :: "ccxt \<Rightarrow> timestamp \<Rightarrow> provider_exn + withdrawal list" where
  "kraken_get_recent_withdrawals cx since =
     rbind (call (cx_fetch_transactions cx (since_ms since) (Some ''withdrawal''))) (\<lambda>txs.
     Inr (map (withdrawal_of since) txs))"

definition kraken_get_recent_deposits :: "ccxt \<Rightarrow> timestamp \<Rightarrow> provider_exn + deposit list" where
  "kraken_get_recent_deposits cx since =
     rbind (call (cx_fetch_transactions cx (since_ms since) (Some ''deposit''))) (\<lambda>txs.
     Inr (map (deposit_of since) txs))"

definition withdraw_via :: "ccxt \<Rightarrow> sats \<Rightarrow> string \<Rightarrow> provider_exn + withdrawal_result" where
  "withdraw_via cx amount_sats addr =
     rbind (call (cx_withdraw cx (double (of_int amount_sats / 100000000)) addr)) (\<lambda>(wid, status).
     Inr \<lparr>wr_withdrawal_id = get_or wid [], wr_status = get_or status ''pending''\<rparr>)"

definition kraken_verify_whitelist :: "ccxt \<Rightarrow> string option \<Rightarrow> provider_exn + whitelist_verification" where
  "kraken_verify_whitelist cx addr =
     (case cx_withdraw_addresses cx of
        Inr entries \<Rightarrow>
          Inr (case filter (\<lambda>e. fst e = addr) entries of
                 [] \<Rightarrow> \<lparr>wv_is_whitelisted = False, wv_provider_label = None, wv_error = None\<rparr>
               | e # _ \<Rightarrow> \<lparr>wv_is_whitelisted = True, wv_provider_label = snd e, wv_error = None\<rparr>)
      | Inl e \<Rightarrow>
          (case e of
             CX_Authentication m \<Rightarrow> Inr \<lparr>wv_is_whitelisted = False, wv_provider_label = None, wv_error = Some m\<rparr>
           | CX_Exchange m \<Rightarrow> Inr \<lparr>wv_is_whitelisted = False, wv_provider_label = None, wv_error = Some m\<rparr>
           | CX_Network m \<Rightarrow> Inl (P_Network m) | CX_RateLimit m \<Rightarrow> Inl (P_Network m) | CX_Value m \<Rightarrow> Inl (P_Value m)))"

definition KIND_MAP :: "(string \<times> string) list" where
  "KIND_MAP = [(''trade'', ''trade''), (''deposit'', ''deposit''), (''withdrawal'', ''withdrawal''), (''fee'', ''fee''),
     (''transfer'', ''transfer''), (''margin'', ''trade''), (''rollover'', ''fee''), (''earn'', ''reward''),
     (''staking'', ''reward''), (''reward'', ''reward''), (''dividend'', ''reward''), (''receive'', ''trade''),
     (''spend'', ''trade'')]"

definition normalise_kind :: "string \<Rightarrow> string \<Rightarrow> string" where
  "normalise_kind raw_kind direction =
     (if raw_kind = ''transaction'' then if direction = ''in'' then ''deposit'' else ''withdrawal''
      else get_or (map_of KIND_MAP raw_kind) ''other'')"

definition refid :: "ledger_item \<Rightarrow> string" where
  "refid it = or_str (li_reference_id it) (or_str (li_id it) [])"

definition item_kind :: "ledger_item \<Rightarrow> string" where
  "item_kind it = normalise_kind (map lower_char (get_or (li_type it) [])) (get_or (li_direction it) [])"

definition is_btc_item :: "ledger_item \<Rightarrow> bool" where
  "is_btc_item it \<longleftrightarrow> is_btc_currency (get_or (li_currency it) [])"

definition signed_amount :: "ledger_item \<Rightarrow> rat" where
  "signed_amount it =
     (let amount = get_or (li_amount it) 0
      in if li_direction it = Some ''out'' \<and> amount > 0 then - amount else amount)"

definition item_fee :: "ledger_item \<Rightarrow> rat option" where
  "item_fee it = (case li_fee it of
      Fee_None \<Rightarrow> None
    | Fee_Num f \<Rightarrow> Some f
    | Fee_Dict c \<Rightarrow> (case c of None \<Rightarrow> None | Some f \<Rightarrow> if f = 0 then None else Some f))"

definition fiat_legs :: "ledger_item list \<Rightarrow> ledger_item \<Rightarrow> string list" where
  "fiat_legs raw it = map li_record (filter (\<lambda>leg. refid leg = refid it \<and> \<not> is_btc_item leg) raw)"

text \<open>Midnight of 1 January 2020, UTC.\<close>

definition LEDGER_FALLBACK :: timestamp where
  "LEDGER_FALLBACK = 1577836800 * 1000000"

definition ledger_entry_of :: "ledger_item list \<Rightarrow> timestamp option \<Rightarrow> ledger_item \<Rightarrow> provider_ledger_entry" where
  "ledger_entry_of raw since it =
     \<lparr>ple_provider_entry_id = or_str (li_id it) (refid it), ple_kind = item_kind it, ple_asset = ''BTC'',
      ple_amount = signed_amount it, ple_fee = item_fee it, ple_status = or_str (li_status it) ''success'',
      ple_timestamp = ts_to_dt (li_timestamp it) (get_or since LEDGER_FALLBACK),
      ple_raw = (li_record it, if item_kind it = ''trade'' then fiat_legs raw it else [])\<rparr>"

text \<open>The items that become entries: bitcoin only, a trade once per reference.\<close>

fun kept_items :: "string list \<Rightarrow> ledger_item list \<Rightarrow> ledger_item list" where
  "kept_items seen [] = []"
| "kept_items seen (it # items) =
     (if \<not> is_btc_item it then kept_items seen items
      else if item_kind it = ''trade'' \<and> refid it \<in> set seen then kept_items seen items
      else it # kept_items (refid it # seen) items)"

fun newest :: "timestamp option \<Rightarrow> provider_ledger_entry list \<Rightarrow> timestamp option" where
  "newest n [] = n"
| "newest n (e # es) =
     newest (case n of None \<Rightarrow> Some (ple_timestamp e)
             | Some m \<Rightarrow> Some (if ple_timestamp e > m then ple_timestamp e else m)) es"

definition kraken_fetch_ledger_since ::
  "ccxt \<Rightarrow> timestamp option \<Rightarrow> provider_exn + provider_ledger_entry list \<times> timestamp option" where
  "kraken_fetch_ledger_since cx since =
     (case call (cx_fetch_ledger cx None (map_option since_ms since) 200) of
        Inl (P_Error _) \<Rightarrow> Inr ([], since)
      | Inl e \<Rightarrow> Inl e
      | Inr raw \<Rightarrow>
          let entries = map (ledger_entry_of raw since) (kept_items [] raw)
          in Inr (sort_key ple_timestamp entries, newest None entries))"

definition kraken_adapter :: "ccxt \<Rightarrow> adapter" where
  "kraken_adapter cx =
     \<lparr>ad_get_permissions = kraken_get_permissions cx, ad_get_balance = get_balance_of cx,
      ad_get_other_balances = get_other_balances_of cx,
      ad_get_recent_withdrawals = kraken_get_recent_withdrawals cx,
      ad_get_recent_deposits = kraken_get_recent_deposits cx, ad_withdraw = withdraw_via cx,
      ad_verify_whitelist = kraken_verify_whitelist cx,
      ad_fetch_ledger_since = kraken_fetch_ledger_since cx\<rparr>"

section \<open>Bitstamp\<close>

definition bitstamp_call :: "ccxt_exn + 'a \<Rightarrow> provider_exn + 'a" where
  "bitstamp_call r = (case r of
      Inr x \<Rightarrow> Inr x
    | Inl e \<Rightarrow> Inl (case e of CX_Value m \<Rightarrow> P_Value m | _ \<Rightarrow> call_exn e))"

definition bitstamp_get_permissions :: "ccxt \<Rightarrow> provider_exn + provider_permissions" where
  "bitstamp_get_permissions cx =
     rbind (bitstamp_call (cx_fetch_balance cx)) (\<lambda>_.
     Inr \<lparr>pp_can_read = True, pp_can_trade = (case cx_fetch_open_orders cx of Inr _ \<Rightarrow> True | Inl _ \<Rightarrow> False),
          pp_can_withdraw = True, pp_overage = [], pp_underage = []\<rparr>)"

definition bitstamp_get_recent_withdrawals :: "ccxt \<Rightarrow> timestamp \<Rightarrow> provider_exn + withdrawal list" where
  "bitstamp_get_recent_withdrawals cx since =
     rbind (bitstamp_call (cx_fetch_transactions cx (since_ms since) None)) (\<lambda>txs.
     Inr (map (withdrawal_of since) (filter (\<lambda>tx. tx_type tx = Some ''withdrawal'') txs)))"

definition bitstamp_get_recent_deposits :: "ccxt \<Rightarrow> timestamp \<Rightarrow> provider_exn + deposit list" where
  "bitstamp_get_recent_deposits cx since =
     rbind (bitstamp_call (cx_fetch_transactions cx (since_ms since) None)) (\<lambda>txs.
     Inr (map (deposit_of since) (filter (\<lambda>tx. tx_type tx = Some ''deposit'') txs)))"

definition BITSTAMP_NO_WHITELIST_MESSAGE :: string where
  "BITSTAMP_NO_WHITELIST_MESSAGE =
     ''Bitstamp does not support programmatic whitelist verification. '' @
     ''Please configure withdrawal whitelisting manually on the Bitstamp website '' @
     ''before enabling a SweepPolicy sourced from this account.''"

definition bitstamp_verify_whitelist :: "string option \<Rightarrow> whitelist_verification" where
  "bitstamp_verify_whitelist _ =
     \<lparr>wv_is_whitelisted = False, wv_provider_label = None, wv_error = Some BITSTAMP_NO_WHITELIST_MESSAGE\<rparr>"

section \<open>Registry\<close>

text \<open>The abstract methods of \<^verbatim>\<open>CustodialProviderAdapter\<close> and the methods each class defines.  Python refuses to
  instantiate a class that leaves an abstract method undefined.\<close>

definition abstract_methods :: "string list" where
  "abstract_methods = [''get_permissions'', ''get_balance'', ''get_other_balances'', ''get_recent_withdrawals'',
     ''get_recent_deposits'', ''withdraw'', ''verify_whitelist'', ''fetch_ledger_since'']"

definition kraken_methods :: "string list" where
  "kraken_methods = [''get_permissions'', ''get_balance'', ''get_other_balances'', ''get_recent_withdrawals'',
     ''get_recent_deposits'', ''withdraw'', ''verify_whitelist'', ''fetch_ledger_since'']"

definition bitstamp_methods :: "string list" where
  "bitstamp_methods = [''get_permissions'', ''get_balance'', ''get_other_balances'', ''get_recent_withdrawals'',
     ''get_recent_deposits'', ''withdraw'', ''verify_whitelist'']"

definition registry :: "(string \<times> string list) list" where
  "registry = [(''kraken'', kraken_methods), (''bitstamp'', bitstamp_methods)]"

definition supported_adapter_ids :: "string list" where
  "supported_adapter_ids = [''bitstamp'', ''kraken'']"

record provider_capabilities =
  pc_slug :: string
  pc_display_name :: string
  pc_supports_withdrawal_keys :: bool
  pc_whitelist_read_api :: bool

definition list_provider_capabilities :: "provider_capabilities list" where
  "list_provider_capabilities =
     [\<lparr>pc_slug = ''bitstamp'', pc_display_name = ''Bitstamp'', pc_supports_withdrawal_keys = True, pc_whitelist_read_api = False\<rparr>,
      \<lparr>pc_slug = ''kraken'', pc_display_name = ''Kraken'', pc_supports_withdrawal_keys = True, pc_whitelist_read_api = True\<rparr>]"

record credentials =
  cr_api_key :: string
  cr_api_secret :: string
  cr_api_passphrase :: "string option"

type_synonym exchanges = "string \<Rightarrow> credentials \<Rightarrow> ccxt"

text \<open>Every registered class that can be instantiated is Kraken's.\<close>

definition build_adapter :: "exchanges \<Rightarrow> string \<Rightarrow> credentials \<Rightarrow> exn + adapter" where
  "build_adapter exs adapter_id cr =
     (case map_of registry adapter_id of
        None \<Rightarrow> Inl UnsupportedAdapterError
      | Some defined \<Rightarrow>
          if set abstract_methods \<subseteq> set defined then Inr (kraken_adapter (exs adapter_id cr)) else Inl TypeError)"

section \<open>Lemmas\<close>

lemma build_kraken [simp]: "build_adapter exs ''kraken'' cr = Inr (kraken_adapter (exs ''kraken'' cr))"
  by (simp add: build_adapter_def registry_def abstract_methods_def kraken_methods_def)

lemma build_bitstamp [simp]: "build_adapter exs ''bitstamp'' cr = Inl TypeError"
  by (simp add: build_adapter_def registry_def abstract_methods_def bitstamp_methods_def)

lemma build_adapter_InrD: "build_adapter exs aid cr = Inr ad \<Longrightarrow> aid = ''kraken'' \<and> ad = kraken_adapter (exs aid cr)"
  by (auto simp: build_adapter_def registry_def abstract_methods_def bitstamp_methods_def split: if_splits option.splits)

lemma set_kept_items: "it \<in> set (kept_items seen raw) \<Longrightarrow> it \<in> set raw \<and> is_btc_item it"
  by (induction seen raw rule: kept_items.induct) (auto split: if_splits)

text \<open>A bitcoin item that is no trade always becomes an entry; of the trades with one reference the first does.\<close>

lemma kept_items_complete:
  "it \<in> set raw \<Longrightarrow> is_btc_item it \<Longrightarrow>
    it \<in> set (kept_items seen raw) \<or>
    (item_kind it = ''trade'' \<and> (refid it \<in> set seen \<or> (\<exists>k \<in> set (kept_items seen raw). refid k = refid it)))"
  by (induction seen raw rule: kept_items.induct) auto

lemma newest_None: "newest n es = None \<longleftrightarrow> n = None \<and> es = []"
  by (induction n es rule: newest.induct) (auto split: option.splits)

lemma newest_ge:
  assumes "newest n es = Some m"
  shows "(\<forall>k. n = Some k \<longrightarrow> k \<le> m) \<and> (\<forall>e \<in> set es. ple_timestamp e \<le> m)"
  using assms
proof (induction n es rule: newest.induct)
  case (2 n e es)
  let ?n = "case n of None \<Rightarrow> Some (ple_timestamp e) | Some m \<Rightarrow> Some (if ple_timestamp e > m then ple_timestamp e else m)"
  have ih: "(\<forall>k. ?n = Some k \<longrightarrow> k \<le> m) \<and> (\<forall>e \<in> set es. ple_timestamp e \<le> m)" using 2 by simp
  show ?case
  proof (cases n)
    case (Some k)
    have "(if ple_timestamp e > k then ple_timestamp e else k) \<le> m" using ih Some by simp
    then show ?thesis using ih Some by (auto split: if_splits)
  qed (use ih in auto)
qed simp

lemma newest_in: "newest n es = Some m \<Longrightarrow> n = Some m \<or> m \<in> ple_timestamp ` set es"
  by (induction n es rule: newest.induct) (auto split: option.splits if_splits)

lemma sorted_key_last: "sorted (map f xs) \<Longrightarrow> x \<in> set xs \<Longrightarrow> f x \<le> f (last xs)"
  by (induction xs rule: rev_induct) (auto simp: sorted_append)

lemma signed_amount_out:
  "li_direction it = Some ''out'' \<Longrightarrow> signed_amount it \<le> 0"
  by (auto simp: signed_amount_def Let_def)

lemma kraken_fetch_Inr:
  assumes "kraken_fetch_ledger_since cx since = Inr (es, n)"
  obtains raw where "cx_fetch_ledger cx None (map_option since_ms since) 200 = Inr raw"
      "es = sort_key ple_timestamp (map (ledger_entry_of raw since) (kept_items [] raw))"
      "n = newest None (map (ledger_entry_of raw since) (kept_items [] raw))"
    | "es = []" "n = since"
  using assms by (auto simp: kraken_fetch_ledger_since_def Let_def call_def split: sum.splits provider_exn.splits)

section \<open>Properties\<close>

text \<open>The ledger feed of Kraken: entries are bitcoin entries in order of time, the returned cursor is
  the time of the newest one, a debit is never positive, and every bitcoin item ccxt reports that is no trade
  becomes an entry with its identifier.\<close>

theorem kraken_ledger_feed:
  assumes "cx_fetch_ledger cx None (map_option since_ms since) 200 = Inr raw"
  shows "\<exists>es n. kraken_fetch_ledger_since cx since = Inr (es, n) \<and>
    sorted (map ple_timestamp es) \<and> list_all (\<lambda>e. ple_asset e = ''BTC'') es \<and>
    (n = None \<longleftrightarrow> es = []) \<and> (n \<noteq> None \<longrightarrow> n = Some (ple_timestamp (last es))) \<and>
    (\<forall>it \<in> set raw. is_btc_item it \<and> item_kind it \<noteq> ''trade'' \<longrightarrow>
       ledger_entry_of raw since it \<in> set es \<and>
       (li_direction it = Some ''out'' \<longrightarrow> ple_amount (ledger_entry_of raw since it) \<le> 0))"
proof -
  let ?k = "map (ledger_entry_of raw since) (kept_items [] raw)"
  let ?es = "sort_key ple_timestamp ?k"
  have run: "kraken_fetch_ledger_since cx since = Inr (?es, newest None ?k)"
    using assms by (simp add: kraken_fetch_ledger_since_def call_def Let_def)
  have btc: "list_all (\<lambda>e. ple_asset e = ''BTC'') ?es"
    by (auto simp: list_all_iff ledger_entry_of_def)
  have none: "newest None ?k = None \<longleftrightarrow> ?es = []"
    by (metis newest_None set_empty2 set_sort)
  have last: "newest None ?k = Some (ple_timestamp (last ?es))" if nn: "newest None ?k \<noteq> None"
  proof -
    obtain m where m: "newest None ?k = Some m" using nn by blast
    have ne: "?es \<noteq> []" using nn unfolding none .
    have "ple_timestamp (last ?es) \<le> m"
      using newest_ge [OF m] last_in_set [OF ne] by (metis set_sort)
    moreover have "m \<le> ple_timestamp (last ?es)"
    proof -
      from newest_in [OF m] obtain e where e: "e \<in> set ?es" "m = ple_timestamp e" by auto
      then show ?thesis using sorted_key_last [OF sorted_sort_key e(1)] by simp
    qed
    ultimately show ?thesis using m by simp
  qed
  have items: "ledger_entry_of raw since it \<in> set ?es" if "it \<in> set raw" "is_btc_item it" "item_kind it \<noteq> ''trade''" for it
    using kept_items_complete [OF that(1,2), of "[]"] that(3) by simp
  show ?thesis
    using run btc none last items signed_amount_out
    by (intro exI [of _ ?es] exI [of _ "newest None ?k"]) (simp add: ledger_entry_of_def)
qed

end
