(* ===== verification/Secrets.thy ===== *)
theory Secrets
  imports Base58
begin

text \<open>
  The secret store: \<^verbatim>\<open>infrastructure/secrets.py\<close> over \<^verbatim>\<open>infrastructure/cryptography.py\<close>.  The argon2 and
  cryptography packages are the argument \<open>crypto_api\<close>; what the store relies on is \<open>crypto_ok\<close>: key
  and tag sizes, that decryption undoes encryption under the same key, and that the canary sealed under the
  key of one passphrase does not open under the key of another one, for the passphrases that are ever
  tried.  Salts and nonces are drawn, so they are arguments.

  \<open>abstract_store\<close> is what the store promises: one passphrase, a locked flag and a map from references to
  values.  The refinement shows that every sequence of operations answers as the abstract store does.
\<close>

section \<open>Cryptography\<close>

record kdf_parameters =
  kp_salt :: bytes
  kp_memory_cost_kib :: int
  kp_time_cost :: int
  kp_parallelism :: int

record encrypted_secret =
  en_ciphertext :: bytes
  en_nonce :: bytes
  en_authentication_tag :: bytes

datatype secret_exn =
    AlreadyInitializedError | NotInitializedError | StoreLocked | WrongPassphraseError
  | ReservedReference | SecretKeyError | CryptoValueError | InvalidTag

record crypto_api =
  hash_secret_raw :: "string \<Rightarrow> kdf_parameters \<Rightarrow> bytes"
  aesgcm_encrypt :: "bytes \<Rightarrow> bytes \<Rightarrow> bytes \<Rightarrow> bytes"
  aesgcm_decrypt :: "bytes \<Rightarrow> bytes \<Rightarrow> bytes \<Rightarrow> bytes option"

definition DERIVED_KEY_SIZE :: nat where "DERIVED_KEY_SIZE = 32"
definition GCM_NONCE_SIZE :: nat where "GCM_NONCE_SIZE = 12"
definition GCM_TAG_SIZE :: nat where "GCM_TAG_SIZE = 16"
definition KDF_SALT_SIZE :: nat where "KDF_SALT_SIZE = 16"

lemmas sizes = DERIVED_KEY_SIZE_def GCM_NONCE_SIZE_def GCM_TAG_SIZE_def KDF_SALT_SIZE_def

definition KdfParameters :: "kdf_parameters \<Rightarrow> secret_exn + kdf_parameters" where
  "KdfParameters kp =
     (if length (kp_salt kp) \<noteq> KDF_SALT_SIZE \<or> kp_memory_cost_kib kp < 8 \<or> kp_time_cost kp < 1 \<or> kp_parallelism kp < 1
      then Inl CryptoValueError else Inr kp)"

definition EncryptedSecret :: "encrypted_secret \<Rightarrow> secret_exn + encrypted_secret" where
  "EncryptedSecret e =
     (if length (en_nonce e) \<noteq> GCM_NONCE_SIZE \<or> length (en_authentication_tag e) \<noteq> GCM_TAG_SIZE
      then Inl CryptoValueError else Inr e)"

definition derive_key :: "crypto_api \<Rightarrow> string \<Rightarrow> kdf_parameters \<Rightarrow> secret_exn + bytes" where
  "derive_key c passphrase kp =
     (if passphrase = [] then Inl CryptoValueError else Inr (hash_secret_raw c passphrase kp))"

definition encrypt :: "crypto_api \<Rightarrow> bytes \<Rightarrow> bytes \<Rightarrow> bytes \<Rightarrow> secret_exn + encrypted_secret" where
  "encrypt c nonce plaintext key =
     (if length key \<noteq> DERIVED_KEY_SIZE then Inl CryptoValueError
      else
        let ciphertext_and_tag = aesgcm_encrypt c key nonce plaintext;
            cut = length ciphertext_and_tag - GCM_TAG_SIZE
        in EncryptedSecret \<lparr>en_ciphertext = take cut ciphertext_and_tag, en_nonce = nonce,
             en_authentication_tag = drop cut ciphertext_and_tag\<rparr>)"

definition decrypt :: "crypto_api \<Rightarrow> encrypted_secret \<Rightarrow> bytes \<Rightarrow> secret_exn + bytes" where
  "decrypt c e key =
     (if length key \<noteq> DERIVED_KEY_SIZE then Inl CryptoValueError
      else case aesgcm_decrypt c key (en_nonce e) (en_ciphertext e @ en_authentication_tag e) of
        None \<Rightarrow> Inl InvalidTag | Some x \<Rightarrow> Inr x)"

section \<open>The store\<close>

record secret_store =
  ss_key :: "bytes option"
  ss_params :: "kdf_parameters option"
  ss_secrets :: "string \<rightharpoonup> encrypted_secret"

definition CANARY_REFERENCE :: string where
  "CANARY_REFERENCE = ''__canary__''"

definition CANARY_PLAINTEXT :: bytes where
  "CANARY_PLAINTEXT = map of_char ''tallykeep canary v1''"

definition empty_store :: secret_store where
  "empty_store = \<lparr>ss_key = None, ss_params = None, ss_secrets = (\<lambda>_. None)\<rparr>"

text \<open>Answers: a value or nothing, or an exception.\<close>

datatype answer = Done | Bytes bytes | Flag bool

type_synonym 's secret_op = "'s \<Rightarrow> (secret_exn + answer) \<times> 's"

definition new_parameters :: "bytes \<Rightarrow> kdf_parameters" where
  "new_parameters salt = \<lparr>kp_salt = salt, kp_memory_cost_kib = 65536, kp_time_cost = 3, kp_parallelism = 4\<rparr>"

definition initialize :: "crypto_api \<Rightarrow> bytes \<Rightarrow> bytes \<Rightarrow> string \<Rightarrow> secret_store secret_op" where
  "initialize c salt nonce passphrase st =
     (if ss_params st \<noteq> None then (Inl AlreadyInitializedError, st)
      else
        case KdfParameters (new_parameters salt) of
          Inl e \<Rightarrow> (Inl e, st)
        | Inr kp \<Rightarrow>
            case derive_key c passphrase kp of
              Inl e \<Rightarrow> (Inl e, st)
            | Inr key \<Rightarrow>
                let st1 = st\<lparr>ss_params := Some kp\<rparr> in
                case encrypt c nonce CANARY_PLAINTEXT key of
                  Inl e \<Rightarrow> (Inl e, st1)
                | Inr e \<Rightarrow> (Inr Done, st1\<lparr>ss_secrets := (ss_secrets st)(CANARY_REFERENCE \<mapsto> e), ss_key := Some key\<rparr>))"

text \<open>The key a passphrase gives, and whether the canary opens under it.\<close>

definition try_passphrase :: "crypto_api \<Rightarrow> secret_store \<Rightarrow> string \<Rightarrow> secret_exn + bytes \<times> (secret_exn + bytes)" where
  "try_passphrase c st passphrase =
     (case ss_params st of
        None \<Rightarrow> Inl NotInitializedError
      | Some kp \<Rightarrow>
          rbind (derive_key c passphrase kp) (\<lambda>key.
          case ss_secrets st CANARY_REFERENCE of
            None \<Rightarrow> Inl NotInitializedError
          | Some canary \<Rightarrow> Inr (key, decrypt c canary key)))"

definition unlock :: "crypto_api \<Rightarrow> string \<Rightarrow> secret_store secret_op" where
  "unlock c passphrase st =
     (case try_passphrase c st passphrase of
        Inl e \<Rightarrow> (Inl e, st)
      | Inr (key, Inl e) \<Rightarrow> (Inl (if e = InvalidTag then WrongPassphraseError else e), st)
      | Inr (key, Inr plain) \<Rightarrow>
          if plain \<noteq> CANARY_PLAINTEXT then (Inl WrongPassphraseError, st)
          else (Inr Done, st\<lparr>ss_key := Some key\<rparr>))"

definition validate_passphrase :: "crypto_api \<Rightarrow> string \<Rightarrow> secret_store secret_op" where
  "validate_passphrase c passphrase st =
     (case try_passphrase c st passphrase of
        Inl e \<Rightarrow> Inl e
      | Inr (key, Inl e) \<Rightarrow> if e = InvalidTag then Inr (Flag False) else Inl e
      | Inr (key, Inr plain) \<Rightarrow> Inr (Flag (plain = CANARY_PLAINTEXT)), st)"

definition lock :: "secret_store secret_op" where
  "lock st = (Inr Done, st\<lparr>ss_key := None\<rparr>)"

definition set_secret :: "crypto_api \<Rightarrow> bytes \<Rightarrow> string \<Rightarrow> bytes \<Rightarrow> secret_store secret_op" where
  "set_secret c nonce reference v st =
     (if reference = CANARY_REFERENCE then (Inl ReservedReference, st)
      else case ss_key st of
        None \<Rightarrow> (Inl StoreLocked, st)
      | Some key \<Rightarrow>
          case encrypt c nonce v key of
            Inl e \<Rightarrow> (Inl e, st)
          | Inr e \<Rightarrow> (Inr Done, st\<lparr>ss_secrets := (ss_secrets st)(reference \<mapsto> e)\<rparr>))"

definition get_secret :: "crypto_api \<Rightarrow> string \<Rightarrow> secret_store secret_op" where
  "get_secret c reference st =
     (if reference = CANARY_REFERENCE then Inl ReservedReference
      else case ss_key st of
        None \<Rightarrow> Inl StoreLocked
      | Some key \<Rightarrow>
          case ss_secrets st reference of
            None \<Rightarrow> Inl SecretKeyError
          | Some e \<Rightarrow> (case decrypt c e key of Inl x \<Rightarrow> Inl x | Inr v \<Rightarrow> Inr (Bytes v)), st)"

definition delete_secret :: "string \<Rightarrow> secret_store secret_op" where
  "delete_secret reference st =
     (if reference = CANARY_REFERENCE then (Inl ReservedReference, st)
      else case ss_key st of
        None \<Rightarrow> (Inl StoreLocked, st)
      | Some _ \<Rightarrow> (Inr Done, st\<lparr>ss_secrets := (ss_secrets st)(reference := None)\<rparr>))"

text \<open>One call, with the bytes it draws.\<close>

datatype store_call =
    Initialize bytes bytes string | Unlock string | Validate string | Lock
  | Set_Secret bytes string bytes | Get_Secret string | Delete_Secret string

fun run_call :: "crypto_api \<Rightarrow> store_call \<Rightarrow> secret_store secret_op" where
  "run_call c (Initialize salt nonce p) = initialize c salt nonce p"
| "run_call c (Unlock p) = unlock c p"
| "run_call c (Validate p) = validate_passphrase c p"
| "run_call c Lock = lock"
| "run_call c (Set_Secret nonce r v) = set_secret c nonce r v"
| "run_call c (Get_Secret r) = get_secret c r"
| "run_call c (Delete_Secret r) = delete_secret r"

section \<open>What the store promises\<close>

record abstract_store =
  as_passphrase :: "string option"
  as_open :: bool
  as_values :: "string \<rightharpoonup> bytes"

definition empty_abstract :: abstract_store where
  "empty_abstract = \<lparr>as_passphrase = None, as_open = False, as_values = (\<lambda>_. None)\<rparr>"

fun abstract_call :: "store_call \<Rightarrow> abstract_store secret_op" where
  "abstract_call (Initialize _ _ p) a =
     (if as_passphrase a \<noteq> None then (Inl AlreadyInitializedError, a)
      else if p = [] then (Inl CryptoValueError, a)
      else (Inr Done, a\<lparr>as_passphrase := Some p, as_open := True\<rparr>))"
| "abstract_call (Unlock p) a =
     (case as_passphrase a of
        None \<Rightarrow> (Inl NotInitializedError, a)
      | Some q \<Rightarrow> if p = [] then (Inl CryptoValueError, a)
                 else if p = q then (Inr Done, a\<lparr>as_open := True\<rparr>) else (Inl WrongPassphraseError, a))"
| "abstract_call (Validate p) a =
     (case as_passphrase a of
        None \<Rightarrow> Inl NotInitializedError
      | Some q \<Rightarrow> if p = [] then Inl CryptoValueError else Inr (Flag (p = q)), a)"
| "abstract_call Lock a = (Inr Done, a\<lparr>as_open := False\<rparr>)"
| "abstract_call (Set_Secret _ r v) a =
     (if r = CANARY_REFERENCE then (Inl ReservedReference, a)
      else if \<not> as_open a then (Inl StoreLocked, a)
      else (Inr Done, a\<lparr>as_values := (as_values a)(r \<mapsto> v)\<rparr>))"
| "abstract_call (Get_Secret r) a =
     (if r = CANARY_REFERENCE then Inl ReservedReference
      else if \<not> as_open a then Inl StoreLocked
      else case as_values a r of None \<Rightarrow> Inl SecretKeyError | Some v \<Rightarrow> Inr (Bytes v), a)"
| "abstract_call (Delete_Secret r) a =
     (if r = CANARY_REFERENCE then (Inl ReservedReference, a)
      else if \<not> as_open a then (Inl StoreLocked, a)
      else (Inr Done, a\<lparr>as_values := (as_values a)(r := None)\<rparr>))"

fun run_calls :: "(store_call \<Rightarrow> 's secret_op) \<Rightarrow> store_call list \<Rightarrow> 's \<Rightarrow> (secret_exn + answer) list \<times> 's" where
  "run_calls f [] s = ([], s)"
| "run_calls f (x # xs) s = (let (r, t) = f x s; (rs, u) = run_calls f xs t in (r # rs, u))"

section \<open>Refinement\<close>

fun passphrases :: "store_call \<Rightarrow> string set" where
  "passphrases (Initialize _ _ p) = {p}"
| "passphrases (Unlock p) = {p}"
| "passphrases (Validate p) = {p}"
| "passphrases _ = {}"

fun drawn_ok :: "store_call \<Rightarrow> bool" where
  "drawn_ok (Initialize salt nonce _) \<longleftrightarrow> length salt = KDF_SALT_SIZE \<and> length nonce = GCM_NONCE_SIZE"
| "drawn_ok (Set_Secret nonce _ _) \<longleftrightarrow> length nonce = GCM_NONCE_SIZE"
| "drawn_ok _ \<longleftrightarrow> True"

definition crypto_ok :: "crypto_api \<Rightarrow> string set \<Rightarrow> bool" where
  "crypto_ok c P \<longleftrightarrow>
     (\<forall>p kp. length (hash_secret_raw c p kp) = DERIVED_KEY_SIZE) \<and>
     (\<forall>k n x. length (aesgcm_encrypt c k n x) = length x + GCM_TAG_SIZE) \<and>
     (\<forall>k n x. aesgcm_decrypt c k n (aesgcm_encrypt c k n x) = Some x) \<and>
     (\<forall>p \<in> P. \<forall>q \<in> P. p \<noteq> q \<longrightarrow> (\<forall>kp n. aesgcm_decrypt c (hash_secret_raw c q kp) n
        (aesgcm_encrypt c (hash_secret_raw c p kp) n CANARY_PLAINTEXT) = None))"

definition sealed :: "crypto_api \<Rightarrow> bytes \<Rightarrow> bytes \<Rightarrow> encrypted_secret \<Rightarrow> bool" where
  "sealed c key v e \<longleftrightarrow> (\<exists>n. length n = GCM_NONCE_SIZE \<and> encrypt c n v key = Inr e)"

text \<open>The store holds exactly the sealed values of the abstract store and the sealed canary.\<close>

definition store_rel :: "crypto_api \<Rightarrow> string set \<Rightarrow> secret_store \<Rightarrow> abstract_store \<Rightarrow> bool" where
  "store_rel c P st a \<longleftrightarrow>
     (case as_passphrase a of
        None \<Rightarrow> ss_params st = None \<and> ss_key st = None \<and> \<not> as_open a
      | Some p \<Rightarrow> p \<in> P \<and> p \<noteq> [] \<and>
          (\<exists>kp canary. ss_params st = Some kp \<and>
             ss_key st = (if as_open a then Some (hash_secret_raw c p kp) else None) \<and>
             ss_secrets st CANARY_REFERENCE = Some canary \<and> sealed c (hash_secret_raw c p kp) CANARY_PLAINTEXT canary \<and>
             (\<forall>r. r \<noteq> CANARY_REFERENCE \<longrightarrow>
                rel_option (sealed c (hash_secret_raw c p kp)) (as_values a r) (ss_secrets st r)))) \<and>
     (as_passphrase a = None \<longrightarrow> (\<forall>r. as_values a r = None \<and> ss_secrets st r = None))"

lemma encrypt_ok:
  assumes "crypto_ok c P" "length n = GCM_NONCE_SIZE" "length key = DERIVED_KEY_SIZE"
  shows "\<exists>e. encrypt c n v key = Inr e"
  using assms by (simp add: encrypt_def crypto_ok_def EncryptedSecret_def Let_def)

lemma sealed_InrD:
  assumes "crypto_ok c P" "sealed c key v e"
  shows "decrypt c e key = Inr v" "length key = DERIVED_KEY_SIZE"
    "\<exists>n. en_ciphertext e @ en_authentication_tag e = aesgcm_encrypt c key n v \<and> en_nonce e = n"
  using assms by (auto simp: sealed_def encrypt_def EncryptedSecret_def decrypt_def crypto_ok_def Let_def split: if_splits)

lemma canary_wrong_key:
  assumes "crypto_ok c P" "sealed c (hash_secret_raw c p kp) CANARY_PLAINTEXT e" "p \<in> P" "q \<in> P" "p \<noteq> q"
  shows "decrypt c e (hash_secret_raw c q kp) = Inl InvalidTag"
proof -
  from sealed_InrD(3) [OF assms(1,2)] obtain n where
    n: "en_ciphertext e @ en_authentication_tag e = aesgcm_encrypt c (hash_secret_raw c p kp) n CANARY_PLAINTEXT" "en_nonce e = n"
    by blast
  have "aesgcm_decrypt c (hash_secret_raw c q kp) n (aesgcm_encrypt c (hash_secret_raw c p kp) n CANARY_PLAINTEXT) = None"
    "length (hash_secret_raw c q kp) = DERIVED_KEY_SIZE"
    using assms(1,3-5) unfolding crypto_ok_def by blast+
  then show ?thesis by (simp add: decrypt_def n)
qed

lemma store_rel_NoneI:
  "as_passphrase a = None \<Longrightarrow> store_rel c P st a \<longleftrightarrow> ss_params st = None \<and> ss_key st = None \<and> \<not> as_open a \<and>
    (\<forall>r. as_values a r = None \<and> ss_secrets st r = None)"
  by (simp add: store_rel_def)

lemma store_rel_SomeE:
  assumes "store_rel c P st a" "as_passphrase a = Some p"
  obtains kp canary where "p \<in> P" "p \<noteq> []" "ss_params st = Some kp"
    "ss_key st = (if as_open a then Some (hash_secret_raw c p kp) else None)"
    "ss_secrets st CANARY_REFERENCE = Some canary" "sealed c (hash_secret_raw c p kp) CANARY_PLAINTEXT canary"
    "\<And>r. r \<noteq> CANARY_REFERENCE \<Longrightarrow> rel_option (sealed c (hash_secret_raw c p kp)) (as_values a r) (ss_secrets st r)"
  using assms that by (auto simp: store_rel_def)

lemma store_rel_SomeI:
  assumes "as_passphrase a = Some p" "p \<in> P" "p \<noteq> []" "ss_params st = Some kp"
    "ss_key st = (if as_open a then Some (hash_secret_raw c p kp) else None)"
    "ss_secrets st CANARY_REFERENCE = Some canary" "sealed c (hash_secret_raw c p kp) CANARY_PLAINTEXT canary"
    "\<And>r. r \<noteq> CANARY_REFERENCE \<Longrightarrow> rel_option (sealed c (hash_secret_raw c p kp)) (as_values a r) (ss_secrets st r)"
  shows "store_rel c P st a"
  using assms by (auto simp: store_rel_def)

text \<open>A passphrase opens the canary exactly when it is the one the store was initialised with.\<close>

lemma try_passphrase_iff:
  assumes "crypto_ok c P" "store_rel c P st a" "q \<in> P"
  shows "try_passphrase c st q =
    (case as_passphrase a of
       None \<Rightarrow> Inl NotInitializedError
     | Some p \<Rightarrow> if q = [] then Inl CryptoValueError
                else Inr (hash_secret_raw c q (the (ss_params st)), if q = p then Inr CANARY_PLAINTEXT else Inl InvalidTag))"
proof (cases "as_passphrase a")
  case None
  then show ?thesis using assms(2) by (simp add: store_rel_NoneI try_passphrase_def)
next
  case (Some p)
  from store_rel_SomeE [OF assms(2) Some] obtain kp canary where
    st: "p \<in> P" "ss_params st = Some kp" "ss_secrets st CANARY_REFERENCE = Some canary"
      "sealed c (hash_secret_raw c p kp) CANARY_PLAINTEXT canary" by metis
  show ?thesis
    using canary_wrong_key [OF assms(1) st(4,1) assms(3)] sealed_InrD(1) [OF assms(1) st(4)] st Some
    by (auto simp: try_passphrase_def derive_key_def)
qed

definition simulates :: "crypto_api \<Rightarrow> string set \<Rightarrow> (secret_exn + answer) \<times> secret_store \<Rightarrow> (secret_exn + answer) \<times> abstract_store \<Rightarrow> bool" where
  "simulates c P x y \<longleftrightarrow> fst x = fst y \<and> store_rel c P (snd x) (snd y)"

lemma initialize_simulates:
  assumes "crypto_ok c P" "store_rel c P st a" "p \<in> P" "drawn_ok (Initialize salt nonce p)"
  shows "simulates c P (initialize c salt nonce p st) (abstract_call (Initialize salt nonce p) a)"
proof (cases "as_passphrase a = None \<and> p \<noteq> []")
  case True
  let ?kp = "new_parameters salt"
  have kp: "KdfParameters ?kp = Inr ?kp" using assms(4) by (simp add: KdfParameters_def new_parameters_def)
  obtain e where e: "encrypt c nonce CANARY_PLAINTEXT (hash_secret_raw c p ?kp) = Inr e"
    using encrypt_ok [OF assms(1)] assms(1,4) by (metis crypto_ok_def drawn_ok.simps(1))
  then have "sealed c (hash_secret_raw c p ?kp) CANARY_PLAINTEXT e" using assms(4) by (auto simp: sealed_def)
  moreover have "ss_params st = None" "\<And>r. as_values a r = None \<and> ss_secrets st r = None"
    using assms(2) True by (simp_all add: store_rel_NoneI)
  ultimately show ?thesis
    using True assms(3) by (auto simp: simulates_def initialize_def kp derive_key_def e Let_def intro!: store_rel_SomeI [where p = p])
next
  case False
  show ?thesis
  proof (cases "as_passphrase a")
    case None
    then show ?thesis using False assms(2,4)
      by (auto simp: simulates_def initialize_def derive_key_def store_rel_NoneI KdfParameters_def new_parameters_def)
  next
    case (Some q)
    with store_rel_SomeE [OF assms(2) Some] have "ss_params st \<noteq> None" by (metis option.distinct(1))
    then show ?thesis using Some assms(2) by (auto simp: simulates_def initialize_def)
  qed
qed

lemma unlock_simulates:
  assumes "crypto_ok c P" "store_rel c P st a" "q \<in> P"
  shows "simulates c P (unlock c q st) (abstract_call (Unlock q) a)"
    "simulates c P (validate_passphrase c q st) (abstract_call (Validate q) a)"
proof -
  have rel: "store_rel c P (st\<lparr>ss_key := Some (hash_secret_raw c q (the (ss_params st)))\<rparr>) (a\<lparr>as_open := True\<rparr>)"
    if "as_passphrase a = Some q"
    using assms(2) that by (auto simp: store_rel_def)
  show "simulates c P (unlock c q st) (abstract_call (Unlock q) a)"
    using assms(2) rel try_passphrase_iff [OF assms]
    by (auto simp: simulates_def unlock_def split: option.splits)
  show "simulates c P (validate_passphrase c q st) (abstract_call (Validate q) a)"
    using assms(2) try_passphrase_iff [OF assms]
    by (auto simp: simulates_def validate_passphrase_def split: option.splits)
qed

lemma secrets_simulate:
  assumes "crypto_ok c P" "store_rel c P st a"
  shows "simulates c P (lock st) (abstract_call Lock a)"
    "simulates c P (get_secret c r st) (abstract_call (Get_Secret r) a)"
    "simulates c P (delete_secret r st) (abstract_call (Delete_Secret r) a)"
    "length nonce = GCM_NONCE_SIZE \<Longrightarrow> simulates c P (set_secret c nonce r v st) (abstract_call (Set_Secret nonce r v) a)"
proof -
  show "simulates c P (lock st) (abstract_call Lock a)"
    using assms(2) by (auto simp: simulates_def lock_def store_rel_def split: option.splits)
  show "simulates c P (get_secret c r st) (abstract_call (Get_Secret r) a)"
  proof (cases "as_passphrase a")
    case (Some p)
    from store_rel_SomeE [OF assms(2) Some] obtain kp where
      key: "ss_key st = (if as_open a then Some (hash_secret_raw c p kp) else None)" and
      vals: "\<And>r. r \<noteq> CANARY_REFERENCE \<Longrightarrow> rel_option (sealed c (hash_secret_raw c p kp)) (as_values a r) (ss_secrets st r)"
      by metis
    show ?thesis
    proof (cases "r = CANARY_REFERENCE")
      case False
      from vals [OF this] show ?thesis
        using False sealed_InrD(1) [OF assms(1)] assms(2) key
        by (cases "as_values a r"; cases "ss_secrets st r") (auto simp: simulates_def get_secret_def)
    qed (simp add: simulates_def get_secret_def assms(2))
  qed (use assms(2) in \<open>auto simp: simulates_def get_secret_def store_rel_NoneI\<close>)
  show "simulates c P (delete_secret r st) (abstract_call (Delete_Secret r) a)"
    using assms(2) by (auto simp: simulates_def delete_secret_def store_rel_def split: option.splits if_splits)
  assume n: "length nonce = GCM_NONCE_SIZE"
  show "simulates c P (set_secret c nonce r v st) (abstract_call (Set_Secret nonce r v) a)"
  proof (cases "as_passphrase a")
    case (Some p)
    from store_rel_SomeE [OF assms(2) Some] obtain kp where
      key: "ss_params st = Some kp" "ss_key st = (if as_open a then Some (hash_secret_raw c p kp) else None)"
      by metis
    obtain e where e: "encrypt c nonce v (hash_secret_raw c p kp) = Inr e"
      using encrypt_ok [OF assms(1) n] assms(1) by (metis crypto_ok_def)
    then have "sealed c (hash_secret_raw c p kp) v e" using n by (auto simp: sealed_def)
    then show ?thesis
      using assms(2) key e Some by (auto simp: simulates_def set_secret_def store_rel_def)
  qed (use assms(2) in \<open>auto simp: simulates_def set_secret_def store_rel_NoneI\<close>)
qed

lemma call_simulates:
  assumes "crypto_ok c P" "store_rel c P st a" "passphrases x \<subseteq> P" "drawn_ok x"
  shows "simulates c P (run_call c x st) (abstract_call x a)"
  using assms initialize_simulates unlock_simulates secrets_simulate by (cases x) simp_all

lemma calls_simulate:
  assumes "crypto_ok c P" "store_rel c P st a" "\<forall>x \<in> set xs. passphrases x \<subseteq> P \<and> drawn_ok x"
  shows "fst (run_calls (run_call c) xs st) = fst (run_calls abstract_call xs a) \<and>
    store_rel c P (snd (run_calls (run_call c) xs st)) (snd (run_calls abstract_call xs a))"
  using assms(2,3)
proof (induction xs arbitrary: st a)
  case (Cons x xs)
  obtain r t u where run: "run_call c x st = (r, t)" "abstract_call x a = (r, u)" and rel: "store_rel c P t u"
    using call_simulates [OF assms(1) Cons.prems(1), of x] Cons.prems(2)
    by (auto simp: simulates_def) (metis prod.collapse)
  show ?case using Cons.IH [OF rel] Cons.prems(2) by (auto simp: run split: prod.split)
qed simp

lemma empty_store_rel: "store_rel c P empty_store empty_abstract"
  by (simp add: store_rel_def empty_store_def empty_abstract_def)

section \<open>Properties\<close>

text \<open>C25. The encrypted secret store refines a map behind one passphrase: any sequence of calls on a fresh store,
  with any passphrases tried, answers exactly as the abstract store does, so a value reads back while the store is
  unlocked, nothing reads while it is locked, and only the passphrase of the initialisation unlocks it.\<close>

theorem secret_store_refines:
  assumes "crypto_ok c (\<Union> (passphrases ` set xs))" "list_all drawn_ok xs"
  shows "fst (run_calls (run_call c) xs empty_store) = fst (run_calls abstract_call xs empty_abstract)"
  using calls_simulate [OF assms(1) empty_store_rel, of xs] assms(2) by (auto simp: list_all_iff)

end
