(* ===== verification/Holding_Deletion.thy ===== *)
theory Holding_Deletion
  imports Payments Treasury
begin

text \<open>
  Deleting a holding: \<^verbatim>\<open>delete_cascade\<close> of \<^verbatim>\<open>repositories/holding.py\<close> statement by statement, with
  what the schema's foreign keys of \<^verbatim>\<open>models/*.py\<close> do to each: \<^verbatim>\<open>RESTRICT\<close> refuses the statement,
  \<^verbatim>\<open>CASCADE\<close> deletes the referencing rows, \<^verbatim>\<open>SET NULL\<close> clears the column.  \<open>references_ok\<close> says that
  every foreign key of the schema points at a row.

  The lemmas show that every statement keeps the references, give the exact condition under
  which the database refuses the deletion, and say what a completed deletion leaves.
\<close>

section \<open>Foreign keys\<close>

definition refers :: "('r \<Rightarrow> 'k) \<Rightarrow> 'r list \<Rightarrow> ('t \<Rightarrow> 'k) \<Rightarrow> 't list \<Rightarrow> bool" where
  "refers col rows key targets \<longleftrightarrow> (\<forall>r \<in> set rows. col r \<in> key ` set targets)"

definition refers_opt :: "('r \<Rightarrow> 'k option) \<Rightarrow> 'r list \<Rightarrow> ('t \<Rightarrow> 'k) \<Rightarrow> 't list \<Rightarrow> bool" where
  "refers_opt col rows key targets \<longleftrightarrow>
     (\<forall>r \<in> set rows. case col r of None \<Rightarrow> True | Some k \<Rightarrow> k \<in> key ` set targets)"

definition holding_references :: "db \<Rightarrow> bool" where
  "holding_references s \<longleftrightarrow>
     refers d_holding_id (descriptors s) h_id (holdings s) \<and>
     refers ll_holding_id (ledger_links s) h_id (holdings s) \<and>
     refers pr_holding_id (payment_requests s) h_id (holdings s) \<and>
     refers i_holding_id (invoices s) h_id (holdings s) \<and>
     refers cp_holding_id (custodial_providers s) h_id (holdings s) \<and>
     refers cle_holding_id (custodial_ledger s) h_id (holdings s) \<and>
     refers_opt cle_linked_counterparty_holding_id (custodial_ledger s) h_id (holdings s) \<and>
     refers sp_source_holding_id (sweep_policies s) h_id (holdings s) \<and>
     refers sp_destination_holding_id (sweep_policies s) h_id (holdings s) \<and>
     refers tl_holding_id (type_change_logs s) h_id (holdings s) \<and>
     refers_opt hi_holding_id (health_items s) h_id (holdings s)"

definition chain_references :: "db \<Rightarrow> bool" where
  "chain_references s \<longleftrightarrow>
     refers a_descriptor_id (addresses s) d_id (descriptors s) \<and>
     refers u_descriptor_id (utxos s) d_id (descriptors s) \<and>
     refers u_address_id (utxos s) a_id (addresses s) \<and>
     refers_opt i_receiving_address_id (invoices s) a_id (addresses s) \<and>
     refers_opt cp_whitelist_address_descriptor_id (custodial_providers s) d_id (descriptors s)"

definition money_references :: "db \<Rightarrow> bool" where
  "money_references s \<longleftrightarrow>
     refers ll_ledger_entry_id (ledger_links s) le_id (ledger_entries s) \<and>
     refers_opt pr_resulting_ledger_entry_id (payment_requests s) le_id (ledger_entries s) \<and>
     refers_opt i_resulting_ledger_entry_id (invoices s) le_id (ledger_entries s) \<and>
     refers_opt cle_linked_chain_ledger_entry_id (custodial_ledger s) le_id (ledger_entries s) \<and>
     refers ba_payment_request_id (broadcast_attempts s) pr_id (payment_requests s) \<and>
     refers_opt pr_sweep_execution_id (payment_requests s) se_id (sweep_executions s) \<and>
     refers_opt cle_linked_sweep_execution_id (custodial_ledger s) se_id (sweep_executions s) \<and>
     refers se_sweep_policy_id (sweep_executions s) sp_id (sweep_policies s) \<and>
     refers cle_custodial_provider_id (custodial_ledger s) cp_id (custodial_providers s)"

definition references_ok :: "db \<Rightarrow> bool" where
  "references_ok s \<longleftrightarrow> holding_references s \<and> chain_references s \<and> money_references s"

declare holding_references_def [inv_defs] chain_references_def [inv_defs]
  money_references_def [inv_defs]

section \<open>Statements\<close>

text \<open>A delete that restricting references may refuse.\<close>

definition restricted :: "(db \<Rightarrow> bool) \<Rightarrow> (db \<Rightarrow> db) \<Rightarrow> unit service" where
  "restricted blocked f s = (if blocked s then (Inl IntegrityError, s) else (Inr (), f s))"

definition mentions :: "('r \<Rightarrow> 'k option) \<Rightarrow> 'r list \<Rightarrow> 'k set \<Rightarrow> bool" where
  "mentions col rows ks \<longleftrightarrow> (\<exists>r \<in> set rows. \<exists>k \<in> ks. col r = Some k)"

definition clear_where :: "('r \<Rightarrow> 'k option) \<Rightarrow> 'k set \<Rightarrow> ('r \<Rightarrow> 'r) \<Rightarrow> 'r list \<Rightarrow> 'r list" where
  "clear_where col ks f rows = update_where (\<lambda>r. case col r of None \<Rightarrow> False | Some k \<Rightarrow> k \<in> ks) f rows"

definition del_type_logs :: "uuid \<Rightarrow> db \<Rightarrow> db" where
  "del_type_logs hid = type_change_logs_update (delete_where (\<lambda>l. tl_holding_id l = hid))"

definition touches :: "uuid \<Rightarrow> sweep_policy \<Rightarrow> bool" where
  "touches hid p \<longleftrightarrow> sp_source_holding_id p = hid \<or> sp_destination_holding_id p = hid"

definition policies_of :: "uuid \<Rightarrow> db \<Rightarrow> uuid set" where
  "policies_of hid s = sp_id ` set (filter (touches hid) (sweep_policies s))"

definition executions_of :: "uuid \<Rightarrow> db \<Rightarrow> uuid set" where
  "executions_of hid s =
     se_id ` set (filter (\<lambda>e. se_sweep_policy_id e \<in> policies_of hid s) (sweep_executions s))"

definition unlink_executions :: "uuid \<Rightarrow> db \<Rightarrow> db" where
  "unlink_executions hid s =
     custodial_ledger_update (clear_where cle_linked_sweep_execution_id (executions_of hid s)
       (\<lambda>c. c\<lparr>cle_linked_sweep_execution_id := None\<rparr>)) s"

definition del_executions :: "uuid \<Rightarrow> unit service" where
  "del_executions hid =
     restricted (\<lambda>s. mentions cle_linked_sweep_execution_id (custodial_ledger s) (executions_of hid s))
       (\<lambda>s. payment_requests_update (clear_where pr_sweep_execution_id (executions_of hid s)
              (\<lambda>p. p\<lparr>pr_sweep_execution_id := None\<rparr>))
            (sweep_executions_update (delete_where (\<lambda>e. se_sweep_policy_id e \<in> policies_of hid s)) s))"

definition del_policies :: "uuid \<Rightarrow> unit service" where
  "del_policies hid =
     restricted (\<lambda>s. \<exists>e \<in> set (sweep_executions s). se_sweep_policy_id e \<in> policies_of hid s)
       (sweep_policies_update (delete_where (touches hid)))"

definition descriptors_of :: "uuid \<Rightarrow> db \<Rightarrow> uuid set" where
  "descriptors_of hid s = d_id ` set (filter (\<lambda>d. d_holding_id d = hid) (descriptors s))"

definition del_utxos :: "uuid \<Rightarrow> db \<Rightarrow> db" where
  "del_utxos hid s = utxos_update (delete_where (\<lambda>u. u_descriptor_id u \<in> descriptors_of hid s)) s"

definition addresses_of :: "uuid \<Rightarrow> db \<Rightarrow> uuid set" where
  "addresses_of hid s =
     a_id ` set (filter (\<lambda>a. a_descriptor_id a \<in> descriptors_of hid s) (addresses s))"

definition del_addresses :: "uuid \<Rightarrow> unit service" where
  "del_addresses hid =
     restricted (\<lambda>s. (\<exists>u \<in> set (utxos s). u_address_id u \<in> addresses_of hid s) \<or>
                     mentions i_receiving_address_id (invoices s) (addresses_of hid s))
       (\<lambda>s. addresses_update (delete_where (\<lambda>a. a_descriptor_id a \<in> descriptors_of hid s)) s)"

definition del_descriptors :: "uuid \<Rightarrow> unit service" where
  "del_descriptors hid =
     restricted (\<lambda>s. (\<exists>a \<in> set (addresses s). a_descriptor_id a \<in> descriptors_of hid s) \<or>
                     (\<exists>u \<in> set (utxos s). u_descriptor_id u \<in> descriptors_of hid s) \<or>
                     mentions cp_whitelist_address_descriptor_id (custodial_providers s)
                       (descriptors_of hid s))
       (descriptors_update (delete_where (\<lambda>d. d_holding_id d = hid)))"

definition payments_of :: "uuid \<Rightarrow> db \<Rightarrow> uuid set" where
  "payments_of hid s = pr_id ` set (filter (\<lambda>p. pr_holding_id p = hid) (payment_requests s))"

definition del_attempts :: "uuid \<Rightarrow> db \<Rightarrow> db" where
  "del_attempts hid s =
     broadcast_attempts_update (delete_where (\<lambda>b. ba_payment_request_id b \<in> payments_of hid s)) s"

definition del_payments :: "uuid \<Rightarrow> unit service" where
  "del_payments hid =
     restricted (\<lambda>s. \<exists>b \<in> set (broadcast_attempts s). ba_payment_request_id b \<in> payments_of hid s)
       (payment_requests_update (delete_where (\<lambda>p. pr_holding_id p = hid)))"

definition del_invoices :: "uuid \<Rightarrow> db \<Rightarrow> db" where
  "del_invoices hid = invoices_update (delete_where (\<lambda>i. i_holding_id i = hid))"

definition candidate_ids :: "uuid \<Rightarrow> db \<Rightarrow> uuid list" where
  "candidate_ids hid s =
     map ll_ledger_entry_id (filter (\<lambda>l. ll_holding_id l = hid) (ledger_links s))"

definition unlink_entries :: "uuid list \<Rightarrow> db \<Rightarrow> db" where
  "unlink_entries ids s =
     payment_requests_update (clear_where pr_resulting_ledger_entry_id (set ids)
       (\<lambda>p. p\<lparr>pr_resulting_ledger_entry_id := None\<rparr>))
     (custodial_ledger_update (clear_where cle_linked_chain_ledger_entry_id (set ids)
       (\<lambda>c. c\<lparr>cle_linked_chain_ledger_entry_id := None\<rparr>)) s)"

definition del_links :: "uuid \<Rightarrow> db \<Rightarrow> db" where
  "del_links hid = ledger_links_update (delete_where (\<lambda>l. ll_holding_id l = hid))"

definition orphaned :: "uuid list \<Rightarrow> db \<Rightarrow> ledger_entry \<Rightarrow> bool" where
  "orphaned ids s e \<longleftrightarrow> le_id e \<in> set ids \<and> le_id e \<notin> ll_ledger_entry_id ` set (ledger_links s)"

definition orphan_ids :: "uuid list \<Rightarrow> db \<Rightarrow> uuid set" where
  "orphan_ids ids s = le_id ` set (filter (orphaned ids s) (ledger_entries s))"

definition del_entries :: "uuid list \<Rightarrow> unit service" where
  "del_entries ids =
     restricted (\<lambda>s. (\<exists>l \<in> set (ledger_links s). ll_ledger_entry_id l \<in> orphan_ids ids s) \<or>
                     mentions pr_resulting_ledger_entry_id (payment_requests s) (orphan_ids ids s) \<or>
                     mentions i_resulting_ledger_entry_id (invoices s) (orphan_ids ids s) \<or>
                     mentions cle_linked_chain_ledger_entry_id (custodial_ledger s) (orphan_ids ids s))
       (\<lambda>s. ledger_entries_update (delete_where (orphaned ids s)) s)"

definition providers_of :: "uuid \<Rightarrow> db \<Rightarrow> uuid set" where
  "providers_of hid s = cp_id ` set (filter (\<lambda>p. cp_holding_id p = hid) (custodial_providers s))"

definition del_providers :: "uuid \<Rightarrow> db \<Rightarrow> db" where
  "del_providers hid s =
     custodial_ledger_update (delete_where (\<lambda>c. cle_custodial_provider_id c \<in> providers_of hid s))
     (custodial_providers_update (delete_where (\<lambda>p. cp_holding_id p = hid)) s)"

definition holding_in_use :: "uuid \<Rightarrow> db \<Rightarrow> bool" where
  "holding_in_use hid s \<longleftrightarrow>
     hid \<in> d_holding_id ` set (descriptors s) \<or> hid \<in> ll_holding_id ` set (ledger_links s) \<or>
     hid \<in> pr_holding_id ` set (payment_requests s) \<or> hid \<in> i_holding_id ` set (invoices s) \<or>
     hid \<in> cp_holding_id ` set (custodial_providers s) \<or>
     hid \<in> cle_holding_id ` set (custodial_ledger s) \<or>
     (\<exists>p \<in> set (sweep_policies s). touches hid p) \<or> hid \<in> tl_holding_id ` set (type_change_logs s)"

definition del_holding_row :: "uuid \<Rightarrow> unit service" where
  "del_holding_row hid =
     restricted (holding_in_use hid)
       (\<lambda>s. custodial_ledger_update (clear_where cle_linked_counterparty_holding_id {hid}
              (\<lambda>c. c\<lparr>cle_linked_counterparty_holding_id := None\<rparr>))
            (health_items_update (delete_where (\<lambda>i. hi_holding_id i = Some hid))
            (holdings_update (delete_where (\<lambda>h. h_id h = hid)) s)))"

section \<open>The cascade\<close>

text \<open>The numbered steps of the source: policies and executions (2), the chain side (3), payments and
  invoices (4), the ledger (5), the provider and the holding row (6, 7).\<close>

definition cascade_sweeps :: "uuid \<Rightarrow> unit service" where
  "cascade_sweeps hid =
     bnd (modify (unlink_executions hid)) (\<lambda>_. bnd (del_executions hid) (\<lambda>_. del_policies hid))"

definition cascade_chain :: "uuid \<Rightarrow> unit service" where
  "cascade_chain hid =
     bnd (modify (del_utxos hid)) (\<lambda>_. bnd (del_addresses hid) (\<lambda>_. del_descriptors hid))"

definition cascade_payments :: "uuid \<Rightarrow> unit service" where
  "cascade_payments hid =
     bnd (modify (del_attempts hid)) (\<lambda>_. bnd (del_payments hid) (\<lambda>_. modify (del_invoices hid)))"

definition cascade_ledger :: "uuid \<Rightarrow> unit service" where
  "cascade_ledger hid =
     bnd (gets (candidate_ids hid)) (\<lambda>ids.
     bnd (if ids = [] then ret () else modify (unlink_entries ids)) (\<lambda>_.
     bnd (modify (del_links hid)) (\<lambda>_.
     if ids = [] then ret () else del_entries ids)))"

definition cascade_owner :: "uuid \<Rightarrow> unit service" where
  "cascade_owner hid = bnd (modify (del_providers hid)) (\<lambda>_. del_holding_row hid)"

definition cascade :: "uuid \<Rightarrow> bool service" where
  "cascade hid =
     bnd (modify (del_type_logs hid)) (\<lambda>_.
     bnd (cascade_sweeps hid) (\<lambda>_.
     bnd (cascade_chain hid) (\<lambda>_.
     bnd (cascade_payments hid) (\<lambda>_.
     bnd (cascade_ledger hid) (\<lambda>_.
     bnd (cascade_owner hid) (\<lambda>_.
     ret True))))))"

definition delete_cascade :: "uuid \<Rightarrow> bool service" where
  "delete_cascade hid s =
     (case find_row h_id hid (holdings s) of None \<Rightarrow> (Inr False, s) | Some _ \<Rightarrow> cascade hid s)"

section \<open>Statements keep the references\<close>

lemma set_delete_where [simp]: "set (delete_where p rows) = {r \<in> set rows. \<not> p r}"
  by (auto simp: delete_where_def)

lemma refers_delete_rows: "refers col rows key ts \<Longrightarrow> refers col (delete_where p rows) key ts"
  by (simp add: refers_def)

lemma refers_opt_delete_rows: "refers_opt col rows key ts \<Longrightarrow> refers_opt col (delete_where p rows) key ts"
  by (simp add: refers_opt_def)

lemma refers_delete_targets:
  "refers col rows key ts \<Longrightarrow> (\<And>r. r \<in> set rows \<Longrightarrow> col r \<notin> key ` set (filter p ts)) \<Longrightarrow>
   refers col rows key (delete_where p ts)"
  unfolding refers_def by fastforce

lemma refers_opt_delete_targets:
  "refers_opt col rows key ts \<Longrightarrow> \<not> mentions col rows (key ` set (filter p ts)) \<Longrightarrow>
   refers_opt col rows key (delete_where p ts)"
  unfolding refers_opt_def mentions_def by (fastforce split: option.splits)

lemma clear_whereD: "r \<in> set (clear_where c ks f rows) \<Longrightarrow> \<exists>q \<in> set rows. r = f q \<or> r = q"
  by (auto simp: clear_where_def set_update_where split: if_splits)

lemma refers_clear_rows:
  "(\<And>r. col (f r) = col r) \<Longrightarrow> refers col rows key ts \<Longrightarrow> refers col (clear_where c ks f rows) key ts"
  unfolding refers_def by (fastforce dest: clear_whereD)

lemma refers_opt_clear_rows:
  "(\<And>r. col (f r) = col r \<or> col (f r) = None) \<Longrightarrow> refers_opt col rows key ts \<Longrightarrow>
   refers_opt col (clear_where c ks f rows) key ts"
  unfolding refers_opt_def by (metis (no_types, lifting) clear_whereD option.simps(4))

text \<open>Clearing a column takes the rows out of the way of a restricting delete.\<close>

lemma mentions_cleared: "(\<And>r. col (f r) = None) \<Longrightarrow> \<not> mentions col (clear_where col ks f rows) ks"
  by (auto simp: mentions_def clear_where_def set_update_where split: option.splits)

lemma clear_where_key: "(\<And>r. key (f r) = key r) \<Longrightarrow> key ` set (clear_where c ks f rows) = key ` set rows"
  by (metis clear_where_def list.set_map map_key_update_where)

lemma refers_clear_targets:
  "(\<And>r. key (f r) = key r) \<Longrightarrow> refers col rows key (clear_where c ks f ts) = refers col rows key ts"
  by (simp add: refers_def clear_where_key)

lemmas refers_intros = refers_delete_rows refers_opt_delete_rows refers_clear_rows refers_opt_clear_rows

definition keeps_references :: "'a service \<Rightarrow> bool" where
  "keeps_references m \<longleftrightarrow> (\<forall>s r t. references_ok s \<longrightarrow> m s = (r, t) \<longrightarrow> references_ok t)"

lemma keeps_referencesD: "keeps_references m \<Longrightarrow> references_ok s \<Longrightarrow> m s = (r, t) \<Longrightarrow> references_ok t"
  unfolding keeps_references_def by blast

lemma keeps_references_bnd:
  assumes "keeps_references m" "\<And>x. keeps_references (f x)"
  shows "keeps_references (bnd m f)"
  unfolding keeps_references_def
proof (intro allI impI)
  fix s r t
  assume ok: "references_ok s" and run: "bnd m f s = (r, t)"
  obtain x u where m: "m s = (x, u)" by fastforce
  then have "references_ok u" using assms(1) ok keeps_referencesD by blast
  then show "references_ok t"
    using run m keeps_referencesD [OF assms(2)] by (cases x) auto
qed

lemma keeps_references_modify:
  "(\<And>s. references_ok s \<Longrightarrow> references_ok (f s)) \<Longrightarrow> keeps_references (modify f)"
  by (simp add: keeps_references_def modify_def)

lemma keeps_references_restricted:
  "(\<And>s. references_ok s \<Longrightarrow> \<not> b s \<Longrightarrow> references_ok (f s)) \<Longrightarrow> keeps_references (restricted b f)"
  by (auto simp: keeps_references_def restricted_def)

lemma keeps_references_basic: "keeps_references (ret x)" "keeps_references (gets g)"
  by (simp_all add: keeps_references_def ret_def gets_def)

lemma references_okI:
  "holding_references s \<Longrightarrow> chain_references s \<Longrightarrow> money_references s \<Longrightarrow> references_ok s"
  by (simp add: references_ok_def)

lemma plain_deletes_keep:
  "references_ok s \<Longrightarrow> references_ok (del_type_logs hid s)"
  "references_ok s \<Longrightarrow> references_ok (unlink_executions hid s)"
  "references_ok s \<Longrightarrow> references_ok (del_utxos hid s)"
  "references_ok s \<Longrightarrow> references_ok (del_attempts hid s)"
  "references_ok s \<Longrightarrow> references_ok (del_invoices hid s)"
  "references_ok s \<Longrightarrow> references_ok (unlink_entries ids s)"
  "references_ok s \<Longrightarrow> references_ok (del_links hid s)"
  by (simp_all add: references_ok_def inv_defs del_type_logs_def unlink_executions_def del_utxos_def
      del_attempts_def del_invoices_def unlink_entries_def del_links_def refers_intros
      refers_clear_targets)

lemma del_providers_keeps:
  assumes "references_ok s"
  shows "references_ok (del_providers hid s)"
proof -
  have "refers cle_custodial_provider_id
      (delete_where (\<lambda>c. cle_custodial_provider_id c \<in> providers_of hid s) (custodial_ledger s)) cp_id
      (delete_where (\<lambda>p. cp_holding_id p = hid) (custodial_providers s))"
    using assms
    by (intro refers_delete_targets refers_delete_rows) (auto simp: references_ok_def inv_defs providers_of_def)
  then show ?thesis
    using assms by (simp add: references_ok_def inv_defs del_providers_def refers_intros)
qed

lemma del_executions_keeps: "keeps_references (del_executions hid)"
  unfolding del_executions_def
proof (rule keeps_references_restricted)
  fix s
  assume ok: "references_ok s"
    and free: "\<not> mentions cle_linked_sweep_execution_id (custodial_ledger s) (executions_of hid s)"
  let ?p = "\<lambda>e. se_sweep_policy_id e \<in> policies_of hid s"
  have cle: "refers_opt cle_linked_sweep_execution_id (custodial_ledger s) se_id
      (delete_where ?p (sweep_executions s))"
    using ok free by (intro refers_opt_delete_targets) (simp_all add: references_ok_def inv_defs executions_of_def)
  have "refers_opt pr_sweep_execution_id (clear_where pr_sweep_execution_id (executions_of hid s)
      (\<lambda>p. p\<lparr>pr_sweep_execution_id := None\<rparr>) (payment_requests s)) se_id (sweep_executions s)"
    using ok by (intro refers_opt_clear_rows) (simp_all add: references_ok_def inv_defs)
  moreover have "\<not> mentions pr_sweep_execution_id (clear_where pr_sweep_execution_id (executions_of hid s)
      (\<lambda>p. p\<lparr>pr_sweep_execution_id := None\<rparr>) (payment_requests s)) (executions_of hid s)"
    by (rule mentions_cleared) simp
  ultimately have pr: "refers_opt pr_sweep_execution_id (clear_where pr_sweep_execution_id (executions_of hid s)
      (\<lambda>p. p\<lparr>pr_sweep_execution_id := None\<rparr>) (payment_requests s)) se_id
      (delete_where ?p (sweep_executions s))"
    by (intro refers_opt_delete_targets) (simp_all add: executions_of_def)
  show "references_ok (payment_requests_update (clear_where pr_sweep_execution_id (executions_of hid s)
      (\<lambda>p. p\<lparr>pr_sweep_execution_id := None\<rparr>)) (sweep_executions_update (delete_where ?p) s))"
    using ok cle pr by (simp add: references_ok_def inv_defs refers_intros refers_clear_targets)
qed

lemma del_policies_keeps: "keeps_references (del_policies hid)"
  unfolding del_policies_def
proof (rule keeps_references_restricted)
  fix s
  assume ok: "references_ok s"
    and free: "\<not> (\<exists>e \<in> set (sweep_executions s). se_sweep_policy_id e \<in> policies_of hid s)"
  have "refers se_sweep_policy_id (sweep_executions s) sp_id (delete_where (touches hid) (sweep_policies s))"
    using ok free by (intro refers_delete_targets) (auto simp: references_ok_def inv_defs policies_of_def)
  then show "references_ok (sweep_policies_update (delete_where (touches hid)) s)"
    using ok by (simp add: references_ok_def inv_defs refers_intros)
qed

lemma del_addresses_keeps: "keeps_references (del_addresses hid)"
  unfolding del_addresses_def
proof (rule keeps_references_restricted)
  fix s
  assume ok: "references_ok s"
    and free: "\<not> ((\<exists>u \<in> set (utxos s). u_address_id u \<in> addresses_of hid s) \<or>
      mentions i_receiving_address_id (invoices s) (addresses_of hid s))"
  let ?as = "delete_where (\<lambda>a. a_descriptor_id a \<in> descriptors_of hid s) (addresses s)"
  have "refers u_address_id (utxos s) a_id ?as"
    using ok free by (intro refers_delete_targets) (auto simp: references_ok_def inv_defs addresses_of_def)
  moreover have "refers_opt i_receiving_address_id (invoices s) a_id ?as"
    using ok free by (intro refers_opt_delete_targets) (auto simp: references_ok_def inv_defs addresses_of_def)
  ultimately show "references_ok (addresses_update
      (delete_where (\<lambda>a. a_descriptor_id a \<in> descriptors_of hid s)) s)"
    using ok by (simp add: references_ok_def inv_defs refers_intros)
qed

lemma del_descriptors_keeps: "keeps_references (del_descriptors hid)"
  unfolding del_descriptors_def
proof (rule keeps_references_restricted)
  fix s
  assume ok: "references_ok s"
    and free: "\<not> ((\<exists>a \<in> set (addresses s). a_descriptor_id a \<in> descriptors_of hid s) \<or>
      (\<exists>u \<in> set (utxos s). u_descriptor_id u \<in> descriptors_of hid s) \<or>
      mentions cp_whitelist_address_descriptor_id (custodial_providers s) (descriptors_of hid s))"
  let ?ds = "delete_where (\<lambda>d. d_holding_id d = hid) (descriptors s)"
  have "refers a_descriptor_id (addresses s) d_id ?ds"
    using ok free by (intro refers_delete_targets) (auto simp: references_ok_def inv_defs descriptors_of_def)
  moreover have "refers u_descriptor_id (utxos s) d_id ?ds"
    using ok free by (intro refers_delete_targets) (auto simp: references_ok_def inv_defs descriptors_of_def)
  moreover have "refers_opt cp_whitelist_address_descriptor_id (custodial_providers s) d_id ?ds"
    using ok free by (intro refers_opt_delete_targets) (auto simp: references_ok_def inv_defs descriptors_of_def)
  ultimately show "references_ok (descriptors_update (delete_where (\<lambda>d. d_holding_id d = hid)) s)"
    using ok by (simp add: references_ok_def inv_defs refers_intros)
qed

lemma del_payments_keeps: "keeps_references (del_payments hid)"
  unfolding del_payments_def
proof (rule keeps_references_restricted)
  fix s
  assume ok: "references_ok s"
    and free: "\<not> (\<exists>b \<in> set (broadcast_attempts s). ba_payment_request_id b \<in> payments_of hid s)"
  have "refers ba_payment_request_id (broadcast_attempts s) pr_id
      (delete_where (\<lambda>p. pr_holding_id p = hid) (payment_requests s))"
    using ok free by (intro refers_delete_targets) (auto simp: references_ok_def inv_defs payments_of_def)
  then show "references_ok (payment_requests_update (delete_where (\<lambda>p. pr_holding_id p = hid)) s)"
    using ok by (simp add: references_ok_def inv_defs refers_intros)
qed

lemma del_entries_keeps: "keeps_references (del_entries ids)"
  unfolding del_entries_def
proof (rule keeps_references_restricted)
  fix s
  assume ok: "references_ok s"
    and free: "\<not> ((\<exists>l \<in> set (ledger_links s). ll_ledger_entry_id l \<in> orphan_ids ids s) \<or>
      mentions pr_resulting_ledger_entry_id (payment_requests s) (orphan_ids ids s) \<or>
      mentions i_resulting_ledger_entry_id (invoices s) (orphan_ids ids s) \<or>
      mentions cle_linked_chain_ledger_entry_id (custodial_ledger s) (orphan_ids ids s))"
  let ?es = "delete_where (orphaned ids s) (ledger_entries s)"
  have "refers ll_ledger_entry_id (ledger_links s) le_id ?es"
    using ok free by (intro refers_delete_targets) (auto simp: references_ok_def inv_defs orphan_ids_def)
  moreover have "refers_opt pr_resulting_ledger_entry_id (payment_requests s) le_id ?es"
    "refers_opt i_resulting_ledger_entry_id (invoices s) le_id ?es"
    "refers_opt cle_linked_chain_ledger_entry_id (custodial_ledger s) le_id ?es"
    using ok free
    by (auto intro!: refers_opt_delete_targets simp: references_ok_def inv_defs orphan_ids_def)
  ultimately show "references_ok (ledger_entries_update (delete_where (orphaned ids s)) s)"
    using ok by (simp add: references_ok_def inv_defs refers_intros)
qed

lemma del_holding_row_keeps: "keeps_references (del_holding_row hid)"
  unfolding del_holding_row_def
proof (rule keeps_references_restricted)
  fix s
  assume ok: "references_ok s" and free: "\<not> holding_in_use hid s"
  let ?hs = "delete_where (\<lambda>h. h_id h = hid) (holdings s)"
  let ?cs = "clear_where cle_linked_counterparty_holding_id {hid}
    (\<lambda>c. c\<lparr>cle_linked_counterparty_holding_id := None\<rparr>) (custodial_ledger s)"
  have fk: "refers d_holding_id (descriptors s) h_id ?hs" "refers ll_holding_id (ledger_links s) h_id ?hs"
    "refers pr_holding_id (payment_requests s) h_id ?hs" "refers i_holding_id (invoices s) h_id ?hs"
    "refers cp_holding_id (custodial_providers s) h_id ?hs" "refers cle_holding_id (custodial_ledger s) h_id ?hs"
    "refers sp_source_holding_id (sweep_policies s) h_id ?hs"
    "refers sp_destination_holding_id (sweep_policies s) h_id ?hs"
    "refers tl_holding_id (type_change_logs s) h_id ?hs"
    using ok free
    by (auto intro!: refers_delete_targets simp: references_ok_def inv_defs holding_in_use_def touches_def)
  moreover have "refers_opt cle_linked_counterparty_holding_id ?cs h_id ?hs"
  proof (rule refers_opt_delete_targets)
    show "refers_opt cle_linked_counterparty_holding_id ?cs h_id (holdings s)"
      using ok by (intro refers_opt_clear_rows) (simp_all add: references_ok_def inv_defs)
    have "\<not> mentions cle_linked_counterparty_holding_id ?cs {hid}" by (rule mentions_cleared) simp
    then show "\<not> mentions cle_linked_counterparty_holding_id ?cs (h_id ` set (filter (\<lambda>h. h_id h = hid) (holdings s)))"
      by (auto simp: mentions_def)
  qed
  moreover have "refers_opt hi_holding_id (delete_where (\<lambda>i. hi_holding_id i = Some hid) (health_items s)) h_id ?hs"
    using ok by (intro refers_opt_delete_targets refers_opt_delete_rows)
      (auto simp: references_ok_def inv_defs mentions_def)
  ultimately show "references_ok (custodial_ledger_update (clear_where cle_linked_counterparty_holding_id {hid}
      (\<lambda>c. c\<lparr>cle_linked_counterparty_holding_id := None\<rparr>))
      (health_items_update (delete_where (\<lambda>i. hi_holding_id i = Some hid))
      (holdings_update (delete_where (\<lambda>h. h_id h = hid)) s)))"
    using ok by (simp add: references_ok_def inv_defs refers_intros)
qed

lemmas statements_keep = del_executions_keeps del_policies_keeps del_addresses_keeps del_descriptors_keeps
  del_payments_keeps del_entries_keeps del_holding_row_keeps

lemma cascade_keeps: "keeps_references (cascade hid)"
  unfolding cascade_def cascade_sweeps_def cascade_chain_def cascade_payments_def cascade_ledger_def
    cascade_owner_def
  by (auto intro!: keeps_references_bnd keeps_references_modify keeps_references_basic statements_keep
      plain_deletes_keep del_providers_keeps)

lemma delete_cascade_references:
  "references_ok s \<Longrightarrow> delete_cascade hid s = (r, t) \<Longrightarrow> references_ok t"
  using keeps_referencesD [OF cascade_keeps] by (auto simp: delete_cascade_def split: option.splits)

section \<open>When the database refuses\<close>

lemma bnd_restricted [svc_defs]:
  "bnd (restricted b f) g s = (if b s then (Inl IntegrityError, s) else g () (f s))"
  by (simp add: bnd_def restricted_def)

lemma restricted_apply [svc_defs]:
  "restricted b f s = (if b s then (Inl IntegrityError, s) else (Inr (), f s))"
  by (simp add: restricted_def)

text \<open>The sweep tables never stand in the way.\<close>

definition sweeps_gone :: "uuid \<Rightarrow> db \<Rightarrow> db" where
  "sweeps_gone hid s =
     s\<lparr>custodial_ledger := clear_where cle_linked_sweep_execution_id (executions_of hid s)
         (\<lambda>c. c\<lparr>cle_linked_sweep_execution_id := None\<rparr>) (custodial_ledger s),
       sweep_executions := delete_where (\<lambda>e. se_sweep_policy_id e \<in> policies_of hid s) (sweep_executions s),
       payment_requests := clear_where pr_sweep_execution_id (executions_of hid s)
         (\<lambda>p. p\<lparr>pr_sweep_execution_id := None\<rparr>) (payment_requests s),
       sweep_policies := delete_where (touches hid) (sweep_policies s)\<rparr>"

lemma cascade_sweeps_eq: "cascade_sweeps hid s = (Inr (), sweeps_gone hid s)"
proof -
  let ?u = "unlink_executions hid s"
  have ids: "policies_of hid ?u = policies_of hid s" "executions_of hid ?u = executions_of hid s"
    by (simp_all add: policies_of_def executions_of_def unlink_executions_def)
  have "\<not> mentions cle_linked_sweep_execution_id (custodial_ledger ?u) (executions_of hid ?u)"
    unfolding ids by (simp add: unlink_executions_def mentions_cleared)
  then show ?thesis
    by (simp add: cascade_sweeps_def svc_defs del_executions_def del_policies_def ids)
       (simp add: sweeps_gone_def unlink_executions_def policies_of_def)
qed

text \<open>The chain tables.\<close>

definition chain_blocked :: "uuid \<Rightarrow> db \<Rightarrow> bool" where
  "chain_blocked hid s \<longleftrightarrow>
     mentions i_receiving_address_id (invoices s) (addresses_of hid s) \<or>
     (\<exists>u \<in> set (utxos s). u_address_id u \<in> addresses_of hid s \<and> u_descriptor_id u \<notin> descriptors_of hid s) \<or>
     mentions cp_whitelist_address_descriptor_id (custodial_providers s) (descriptors_of hid s)"

definition chain_gone :: "uuid \<Rightarrow> db \<Rightarrow> db" where
  "chain_gone hid s =
     s\<lparr>utxos := delete_where (\<lambda>u. u_descriptor_id u \<in> descriptors_of hid s) (utxos s),
       addresses := delete_where (\<lambda>a. a_descriptor_id a \<in> descriptors_of hid s) (addresses s),
       descriptors := delete_where (\<lambda>d. d_holding_id d = hid) (descriptors s)\<rparr>"

lemma cascade_chain_eq:
  "cascade_chain hid s = (r, t) \<Longrightarrow>
   (chain_blocked hid s \<and> r = Inl IntegrityError) \<or> (\<not> chain_blocked hid s \<and> r = Inr () \<and> t = chain_gone hid s)"
proof -
  assume run: "cascade_chain hid s = (r, t)"
  let ?u = "del_utxos hid s"
  let ?v = "addresses_update (delete_where (\<lambda>a. a_descriptor_id a \<in> descriptors_of hid s)) ?u"
  have ids: "descriptors_of hid ?u = descriptors_of hid s" "addresses_of hid ?u = addresses_of hid s"
    "descriptors_of hid ?v = descriptors_of hid s"
    by (simp_all add: descriptors_of_def addresses_of_def del_utxos_def)
  have "(\<exists>u \<in> set (utxos ?u). u_address_id u \<in> addresses_of hid s) \<longleftrightarrow>
      (\<exists>u \<in> set (utxos s). u_address_id u \<in> addresses_of hid s \<and> u_descriptor_id u \<notin> descriptors_of hid s)"
    by (auto simp: del_utxos_def)
  moreover have "\<not> (\<exists>u \<in> set (utxos ?u). u_descriptor_id u \<in> descriptors_of hid s)"
    by (auto simp: del_utxos_def)
  moreover have "invoices ?u = invoices s" "custodial_providers ?u = custodial_providers s"
    by (simp_all add: del_utxos_def)
  ultimately have "cascade_chain hid s =
      (if mentions i_receiving_address_id (invoices s) (addresses_of hid s) \<or>
          (\<exists>u \<in> set (utxos s). u_address_id u \<in> addresses_of hid s \<and> u_descriptor_id u \<notin> descriptors_of hid s)
       then (Inl IntegrityError, ?u)
       else if mentions cp_whitelist_address_descriptor_id (custodial_providers s) (descriptors_of hid s)
       then (Inl IntegrityError, ?v)
       else (Inr (), descriptors_update (delete_where (\<lambda>d. d_holding_id d = hid)) ?v))"
    using ids by (auto simp: cascade_chain_def svc_defs del_addresses_def del_descriptors_def)
  moreover have "descriptors_update (delete_where (\<lambda>d. d_holding_id d = hid)) ?v = chain_gone hid s"
    by (simp add: chain_gone_def del_utxos_def)
  ultimately show ?thesis using run by (auto simp: chain_blocked_def split: if_splits)
qed

text \<open>Payments and invoices.\<close>

definition payments_gone :: "uuid \<Rightarrow> db \<Rightarrow> db" where
  "payments_gone hid s =
     s\<lparr>broadcast_attempts := delete_where (\<lambda>b. ba_payment_request_id b \<in> payments_of hid s) (broadcast_attempts s),
       payment_requests := delete_where (\<lambda>p. pr_holding_id p = hid) (payment_requests s),
       invoices := delete_where (\<lambda>i. i_holding_id i = hid) (invoices s)\<rparr>"

lemma cascade_payments_eq: "cascade_payments hid s = (Inr (), payments_gone hid s)"
proof -
  let ?u = "del_attempts hid s"
  have ids: "payments_of hid ?u = payments_of hid s"
    by (simp add: payments_of_def del_attempts_def)
  have "\<not> (\<exists>b \<in> set (broadcast_attempts ?u). ba_payment_request_id b \<in> payments_of hid ?u)"
    unfolding ids by (simp add: del_attempts_def)
  then show ?thesis
    by (simp add: cascade_payments_def svc_defs del_payments_def)
       (simp add: payments_gone_def del_attempts_def del_invoices_def)
qed

text \<open>The ledger: an entry goes when the holding has its last link.\<close>

definition last_link :: "uuid \<Rightarrow> db \<Rightarrow> uuid \<Rightarrow> bool" where
  "last_link hid s k \<longleftrightarrow> k \<in> set (candidate_ids hid s) \<and>
     (\<forall>l \<in> set (ledger_links s). ll_ledger_entry_id l = k \<longrightarrow> ll_holding_id l = hid)"

definition ledger_blocked :: "uuid \<Rightarrow> db \<Rightarrow> bool" where
  "ledger_blocked hid s \<longleftrightarrow>
     (\<exists>e \<in> set (ledger_entries s). last_link hid s (le_id e) \<and>
        (\<exists>i \<in> set (invoices s). i_resulting_ledger_entry_id i = Some (le_id e)))"

definition ledger_gone :: "uuid \<Rightarrow> db \<Rightarrow> db" where
  "ledger_gone hid s =
     s\<lparr>custodial_ledger := clear_where cle_linked_chain_ledger_entry_id (set (candidate_ids hid s))
         (\<lambda>c. c\<lparr>cle_linked_chain_ledger_entry_id := None\<rparr>) (custodial_ledger s),
       payment_requests := clear_where pr_resulting_ledger_entry_id (set (candidate_ids hid s))
         (\<lambda>p. p\<lparr>pr_resulting_ledger_entry_id := None\<rparr>) (payment_requests s),
       ledger_links := delete_where (\<lambda>l. ll_holding_id l = hid) (ledger_links s),
       ledger_entries := delete_where (\<lambda>e. last_link hid s (le_id e)) (ledger_entries s)\<rparr>"

lemma clear_where_none [simp]: "clear_where col {} f rows = rows"
proof -
  have "(\<lambda>r. case col r of None \<Rightarrow> False | Some k \<Rightarrow> k \<in> {}) = (\<lambda>r. False)"
    by (auto split: option.split)
  then show ?thesis by (simp add: clear_where_def update_where_def)
qed

lemma delete_where_none [simp]: "delete_where (\<lambda>r. False) rows = rows"
  by (simp add: delete_where_def)

lemma cascade_ledger_eq:
  assumes "cascade_ledger hid s = (r, t)"
  shows "(ledger_blocked hid s \<and> r = Inl IntegrityError) \<or>
    (\<not> ledger_blocked hid s \<and> r = Inr () \<and> t = ledger_gone hid s)"
proof (cases "candidate_ids hid s = []")
  case True
  then have "\<not> last_link hid s k" for k by (simp add: last_link_def)
  then have "\<not> ledger_blocked hid s" "ledger_gone hid s = del_links hid s"
    using True by (simp_all add: ledger_blocked_def ledger_gone_def del_links_def)
  then show ?thesis using assms True by (simp add: cascade_ledger_def svc_defs)
next
  case False
  let ?ids = "candidate_ids hid s"
  let ?u = "del_links hid (unlink_entries ?ids s)"
  have tables: "ledger_entries ?u = ledger_entries s" "invoices ?u = invoices s"
    "ledger_links ?u = delete_where (\<lambda>l. ll_holding_id l = hid) (ledger_links s)"
    by (simp_all add: del_links_def unlink_entries_def)
  have orphan: "orphaned ?ids ?u e \<longleftrightarrow> last_link hid s (le_id e)" for e
    by (force simp: orphaned_def last_link_def tables)
  have ids: "orphan_ids ?ids ?u = le_id ` {e \<in> set (ledger_entries s). last_link hid s (le_id e)}"
    by (auto simp: orphan_ids_def orphan tables)
  have sub: "orphan_ids ?ids ?u \<subseteq> set ?ids" by (auto simp: ids last_link_def)
  have "\<not> mentions pr_resulting_ledger_entry_id (payment_requests ?u) (set ?ids)"
    "\<not> mentions cle_linked_chain_ledger_entry_id (custodial_ledger ?u) (set ?ids)"
    by (simp_all add: del_links_def unlink_entries_def mentions_cleared)
  then have "\<not> mentions pr_resulting_ledger_entry_id (payment_requests ?u) (orphan_ids ?ids ?u)"
    "\<not> mentions cle_linked_chain_ledger_entry_id (custodial_ledger ?u) (orphan_ids ?ids ?u)"
    using sub unfolding mentions_def by blast+
  moreover have "\<not> (\<exists>l \<in> set (ledger_links ?u). ll_ledger_entry_id l \<in> orphan_ids ?ids ?u)"
    unfolding orphan_ids_def orphaned_def by force
  moreover have "mentions i_resulting_ledger_entry_id (invoices ?u) (orphan_ids ?ids ?u) \<longleftrightarrow> ledger_blocked hid s"
    unfolding ids tables ledger_blocked_def mentions_def by blast
  ultimately have "cascade_ledger hid s = (if ledger_blocked hid s then (Inl IntegrityError, ?u)
      else (Inr (), ledger_entries_update (delete_where (orphaned ?ids ?u)) ?u))"
    using False by (simp add: cascade_ledger_def svc_defs del_entries_def)
  moreover have "ledger_entries_update (delete_where (orphaned ?ids ?u)) ?u = ledger_gone hid s"
    unfolding orphan by (simp add: ledger_gone_def del_links_def unlink_entries_def orphan)
  ultimately show ?thesis using assms by (auto split: if_splits)
qed

text \<open>The provider and the holding row.\<close>

definition owner_gone :: "uuid \<Rightarrow> db \<Rightarrow> db" where
  "owner_gone hid s =
     s\<lparr>custodial_ledger := clear_where cle_linked_counterparty_holding_id {hid}
         (\<lambda>c. c\<lparr>cle_linked_counterparty_holding_id := None\<rparr>)
         (delete_where (\<lambda>c. cle_custodial_provider_id c \<in> providers_of hid s) (custodial_ledger s)),
       custodial_providers := delete_where (\<lambda>p. cp_holding_id p = hid) (custodial_providers s),
       health_items := delete_where (\<lambda>i. hi_holding_id i = Some hid) (health_items s),
       holdings := delete_where (\<lambda>h. h_id h = hid) (holdings s)\<rparr>"

lemma cascade_owner_eq:
  "cascade_owner hid s =
    (if holding_in_use hid (del_providers hid s) then (Inl IntegrityError, del_providers hid s)
     else (Inr (), owner_gone hid s))"
  by (simp add: cascade_owner_def svc_defs del_holding_row_def)
     (simp add: owner_gone_def del_providers_def)

text \<open>All steps together, with the ways a deletion is refused read off the state it starts in.\<close>

definition cascade_result :: "uuid \<Rightarrow> db \<Rightarrow> db" where
  "cascade_result hid s =
     owner_gone hid (ledger_gone hid (payments_gone hid (chain_gone hid (sweeps_gone hid (del_type_logs hid s)))))"

definition undeletable :: "uuid \<Rightarrow> db \<Rightarrow> bool" where
  "undeletable hid s \<longleftrightarrow> chain_blocked hid s \<or>
     (\<exists>e \<in> set (ledger_entries s). last_link hid s (le_id e) \<and>
        (\<exists>i \<in> set (invoices s). i_holding_id i \<noteq> hid \<and> i_resulting_ledger_entry_id i = Some (le_id e))) \<or>
     (\<exists>c \<in> set (custodial_ledger s). cle_holding_id c = hid \<and>
        cle_custodial_provider_id c \<notin> providers_of hid s)"

abbreviation after_ledger :: "uuid \<Rightarrow> db \<Rightarrow> db" where
  "after_ledger hid s \<equiv>
     ledger_gone hid (payments_gone hid (chain_gone hid (sweeps_gone hid (del_type_logs hid s))))"

lemma chain_blocked_later:
  "chain_blocked hid (sweeps_gone hid (del_type_logs hid s)) = chain_blocked hid s"
  by (simp add: chain_blocked_def sweeps_gone_def del_type_logs_def addresses_of_def descriptors_of_def)

lemma ledger_blocked_later:
  "ledger_blocked hid (payments_gone hid (chain_gone hid (sweeps_gone hid (del_type_logs hid s)))) \<longleftrightarrow>
   (\<exists>e \<in> set (ledger_entries s). last_link hid s (le_id e) \<and>
      (\<exists>i \<in> set (invoices s). i_holding_id i \<noteq> hid \<and> i_resulting_ledger_entry_id i = Some (le_id e)))"
  by (auto simp: ledger_blocked_def last_link_def candidate_ids_def payments_gone_def chain_gone_def
      sweeps_gone_def del_type_logs_def)

lemma clear_where_ex:
  assumes "\<And>r. key (f r) = key r"
  shows "(\<exists>c \<in> set (clear_where col ks f rows). P (key c)) \<longleftrightarrow> (\<exists>c \<in> set rows. P (key c))"
proof -
  have "key ` set (clear_where col ks f rows) = key ` set rows" by (rule clear_where_key) (rule assms)
  then show ?thesis by (metis imageE imageI)
qed

lemma in_use_later:
  "holding_in_use hid (del_providers hid (after_ledger hid s)) \<longleftrightarrow>
   (\<exists>c \<in> set (custodial_ledger s). cle_holding_id c = hid \<and> cle_custodial_provider_id c \<notin> providers_of hid s)"
proof -
  let ?key = "\<lambda>c. (cle_holding_id c, cle_custodial_provider_id c)"
  let ?P = "\<lambda>k. fst k = hid \<and> snd k \<notin> providers_of hid s"
  have provs: "providers_of hid (after_ledger hid s) = providers_of hid s"
    by (simp add: providers_of_def ledger_gone_def payments_gone_def chain_gone_def sweeps_gone_def del_type_logs_def)
  have "(\<exists>c \<in> set (custodial_ledger (after_ledger hid s)). ?P (?key c)) \<longleftrightarrow>
      (\<exists>c \<in> set (custodial_ledger s). ?P (?key c))"
  proof -
    have cle: "custodial_ledger (after_ledger hid s) =
        clear_where cle_linked_chain_ledger_entry_id (set (candidate_ids hid s))
          (\<lambda>c. c\<lparr>cle_linked_chain_ledger_entry_id := None\<rparr>)
        (clear_where cle_linked_sweep_execution_id (executions_of hid s)
          (\<lambda>c. c\<lparr>cle_linked_sweep_execution_id := None\<rparr>) (custodial_ledger s))"
      by (simp add: ledger_gone_def payments_gone_def chain_gone_def sweeps_gone_def del_type_logs_def
          candidate_ids_def executions_of_def policies_of_def)
    have keep: "(\<exists>c \<in> set (clear_where col ks f rows). ?P (?key c)) \<longleftrightarrow> (\<exists>c \<in> set rows. ?P (?key c))"
      if "\<And>r. ?key (f r) = ?key r" for col :: "custodial_ledger_row \<Rightarrow> uuid option" and ks f rows
      by (rule clear_where_ex) (rule that)
    show ?thesis unfolding cle by (subst keep, simp, subst keep, simp, rule refl)
  qed
  moreover have "holding_in_use hid (del_providers hid (after_ledger hid s)) \<longleftrightarrow>
      (\<exists>c \<in> set (custodial_ledger (after_ledger hid s)). ?P (?key c))"
  proof -
    let ?t = "after_ledger hid s"
    have "hid \<notin> pr_holding_id ` set (payment_requests ?t)"
      unfolding ledger_gone_def by (simp add: clear_where_key payments_gone_def image_iff)
    moreover have "hid \<notin> d_holding_id ` set (descriptors ?t)" "hid \<notin> ll_holding_id ` set (ledger_links ?t)"
      "hid \<notin> i_holding_id ` set (invoices ?t)" "\<not> (\<exists>p \<in> set (sweep_policies ?t). touches hid p)"
      "hid \<notin> tl_holding_id ` set (type_change_logs ?t)"
      by (auto simp: ledger_gone_def payments_gone_def chain_gone_def sweeps_gone_def del_type_logs_def)
    ultimately show ?thesis
      unfolding holding_in_use_def del_providers_def provs by auto
  qed
  ultimately show ?thesis by simp
qed

lemma cascade_outcome:
  assumes "cascade hid s = (r, t)"
  shows "(undeletable hid s \<and> r = Inl IntegrityError) \<or>
    (\<not> undeletable hid s \<and> r = Inr True \<and> t = cascade_result hid s)"
proof -
  let ?a = "sweeps_gone hid (del_type_logs hid s)"
  obtain rc tc where chain: "cascade_chain hid ?a = (rc, tc)" by fastforce
  note c = cascade_chain_eq [OF chain, unfolded chain_blocked_later]
  obtain rl tl where led: "cascade_ledger hid (payments_gone hid (chain_gone hid ?a)) = (rl, tl)" by fastforce
  note l = cascade_ledger_eq [OF led, unfolded ledger_blocked_later]
  note run = assms [unfolded cascade_def bnd_simps bnd_Inr [where m = "cascade_sweeps hid", OF cascade_sweeps_eq]]
  show ?thesis
  proof (cases "chain_blocked hid s")
    case True
    then show ?thesis using c chain run by (auto simp: undeletable_def)
  next
    case nc: False
    then have chain': "cascade_chain hid ?a = (Inr (), chain_gone hid ?a)" using c chain by auto
    note run2 = run [unfolded bnd_Inr [where m = "cascade_chain hid", OF chain'] bnd_Inr [where m = "cascade_payments hid", OF cascade_payments_eq]]
    consider "rl = Inl IntegrityError" "\<exists>e \<in> set (ledger_entries s). last_link hid s (le_id e) \<and>
        (\<exists>i \<in> set (invoices s). i_holding_id i \<noteq> hid \<and> i_resulting_ledger_entry_id i = Some (le_id e))"
      | "rl = Inr ()" "tl = after_ledger hid s" "\<not> (\<exists>e \<in> set (ledger_entries s). last_link hid s (le_id e) \<and>
        (\<exists>i \<in> set (invoices s). i_holding_id i \<noteq> hid \<and> i_resulting_ledger_entry_id i = Some (le_id e)))"
      using l by blast
    then show ?thesis
    proof cases
      case 1
      then show ?thesis using run2 led by (auto simp: undeletable_def)
    next
      case 2
      then have led': "cascade_ledger hid (payments_gone hid (chain_gone hid ?a)) = (Inr (), after_ledger hid s)"
        using led by simp
      show ?thesis
        using run2 [unfolded bnd_Inr [where m = "cascade_ledger hid", OF led']] 2(3) nc
        by (auto simp: bnd_def cascade_owner_eq in_use_later undeletable_def cascade_result_def ret_def
            split: if_splits)
    qed
  qed
qed

lemma delete_cascade_outcome:
  assumes "delete_cascade hid s = (r, t)" "hid \<in> h_id ` set (holdings s)"
  shows "(undeletable hid s \<and> r = Inl IntegrityError) \<or>
    (\<not> undeletable hid s \<and> r = Inr True \<and> t = cascade_result hid s)"
proof -
  have "find_row h_id hid (holdings s) \<noteq> None" using assms(2) by (simp add: find_row_None_iff)
  then show ?thesis using assms(1) cascade_outcome by (auto simp: delete_cascade_def split: option.splits)
qed

lemma delete_cascade_found:
  assumes "delete_cascade hid s = (Inr True, t)"
  shows "hid \<in> h_id ` set (holdings s)"
proof (rule ccontr)
  assume "hid \<notin> h_id ` set (holdings s)"
  then have "find_row h_id hid (holdings s) = None" by (simp add: find_row_None_iff)
  then show False using assms by (simp add: delete_cascade_def)
qed

lemma cascade_result_tables:
  "holdings (cascade_result hid s) = delete_where (\<lambda>h. h_id h = hid) (holdings s)"
  "descriptors (cascade_result hid s) = delete_where (\<lambda>d. d_holding_id d = hid) (descriptors s)"
  "addresses (cascade_result hid s) = delete_where (\<lambda>a. a_descriptor_id a \<in> descriptors_of hid s) (addresses s)"
  "utxos (cascade_result hid s) = delete_where (\<lambda>u. u_descriptor_id u \<in> descriptors_of hid s) (utxos s)"
  "invoices (cascade_result hid s) = delete_where (\<lambda>i. i_holding_id i = hid) (invoices s)"
  "ledger_links (cascade_result hid s) = delete_where (\<lambda>l. ll_holding_id l = hid) (ledger_links s)"
  "ledger_entries (cascade_result hid s) = delete_where (\<lambda>e. last_link hid s (le_id e)) (ledger_entries s)"
  "sweep_policies (cascade_result hid s) = delete_where (touches hid) (sweep_policies s)"
  by (simp_all add: cascade_result_def owner_gone_def ledger_gone_def payments_gone_def chain_gone_def
      sweeps_gone_def del_type_logs_def descriptors_of_def last_link_def candidate_ids_def)

lemma cascade_result_payments:
  "payment_requests (cascade_result hid s) =
     clear_where pr_resulting_ledger_entry_id (set (candidate_ids hid s))
       (\<lambda>p. p\<lparr>pr_resulting_ledger_entry_id := None\<rparr>)
     (delete_where (\<lambda>p. pr_holding_id p = hid)
     (clear_where pr_sweep_execution_id (executions_of hid s)
       (\<lambda>p. p\<lparr>pr_sweep_execution_id := None\<rparr>) (payment_requests s)))"
  by (simp add: cascade_result_def owner_gone_def ledger_gone_def payments_gone_def chain_gone_def
      sweeps_gone_def del_type_logs_def candidate_ids_def executions_of_def policies_of_def)

lemma clear_where_member:
  "p \<in> set rows \<Longrightarrow> (case col p of None \<Rightarrow> p | Some k \<Rightarrow> if k \<in> ks then f p else p) \<in> set (clear_where col ks f rows)"
  unfolding clear_where_def set_update_where by (rule rev_image_eqI) (auto split: option.split)

section \<open>Properties\<close>

text \<open>C21. Deleting a holding either is refused by the database, exactly when one of the listed
  restricting references is left, or removes the holding with its descriptors, addresses, outputs,
  invoices, policies and ledger links, and the ledger entries that had no other link, and leaves the rows of
  every other holding in those tables.\<close>

theorem deletion_outcome:
  assumes "hid \<in> h_id ` set (holdings s)" "delete_cascade hid s = (r, t)"
  shows "(r = Inl IntegrityError \<longleftrightarrow> undeletable hid s) \<and> (r = Inr True \<longleftrightarrow> \<not> undeletable hid s) \<and>
    (\<not> undeletable hid s \<longrightarrow>
       holdings t = filter (\<lambda>h. h_id h \<noteq> hid) (holdings s) \<and>
       descriptors t = filter (\<lambda>d. d_holding_id d \<noteq> hid) (descriptors s) \<and>
       addresses t = filter (\<lambda>a. a_descriptor_id a \<notin> descriptors_of hid s) (addresses s) \<and>
       utxos t = filter (\<lambda>u. u_descriptor_id u \<notin> descriptors_of hid s) (utxos s) \<and>
       invoices t = filter (\<lambda>i. i_holding_id i \<noteq> hid) (invoices s) \<and>
       sweep_policies t = filter (\<lambda>p. \<not> touches hid p) (sweep_policies s) \<and>
       ledger_links t = filter (\<lambda>l. ll_holding_id l \<noteq> hid) (ledger_links s) \<and>
       ledger_entries t = filter (\<lambda>e. \<not> last_link hid s (le_id e)) (ledger_entries s))"
  using delete_cascade_outcome [OF assms(2,1)] by (auto simp: cascade_result_tables delete_where_def)


text \<open>A holding that ever issued an on-chain invoice cannot be deleted: its addresses are deleted
  before its invoices, and the invoices' restricting reference refuses the statement.\<close>

theorem invoiced_holding_is_undeletable:
  assumes "hid \<in> h_id ` set (holdings s)"
    and "i \<in> set (invoices s)" "i_receiving_address_id i = Some (a_id a)" "a \<in> set (addresses s)"
    and "a_descriptor_id a = d_id d" "d \<in> set (descriptors s)" "d_holding_id d = hid"
  shows "fst (delete_cascade hid s) = Inl IntegrityError"
proof -
  have "a_id a \<in> addresses_of hid s"
    using assms(4-7) by (auto simp: addresses_of_def descriptors_of_def)
  then have "undeletable hid s"
    using assms(2,3) unfolding undeletable_def chain_blocked_def mentions_def by blast
  then show ?thesis
    using delete_cascade_outcome [of hid s "fst (delete_cascade hid s)" "snd (delete_cascade hid s)"] assms(1)
    by auto
qed

text \<open>Deleting a holding clears the ledger entry of another holding's confirmed payment whenever the
  deleted holding was linked to that entry too, even though the entry stays because the other holding
  is still linked to it.\<close>

theorem deletion_unlinks_surviving_entry:
  assumes "delete_cascade hid s = (Inr True, t)"
    and "p \<in> set (payment_requests s)" "pr_holding_id p = other" "other \<noteq> hid"
    and "pr_resulting_ledger_entry_id p = Some (le_id e)" "e \<in> set (ledger_entries s)"
    and "l \<in> set (ledger_links s)" "ll_ledger_entry_id l = le_id e" "ll_holding_id l = hid"
    and "m \<in> set (ledger_links s)" "ll_ledger_entry_id m = le_id e" "ll_holding_id m = other"
  shows "e \<in> set (ledger_entries t) \<and>
    (\<exists>q \<in> set (payment_requests t). pr_id q = pr_id p \<and> pr_holding_id q = other \<and>
       pr_resulting_ledger_entry_id q = None)"
proof -
  have "hid \<in> h_id ` set (holdings s)"
    using assms(1) by (rule delete_cascade_found)
  then have t: "t = cascade_result hid s" using delete_cascade_outcome [OF assms(1)] by auto
  have "\<not> last_link hid s (le_id e)" using assms(4,10-12) by (auto simp: last_link_def)
  then have "e \<in> set (ledger_entries t)" using assms(6) by (simp add: t cascade_result_tables)
  moreover
  have cand: "le_id e \<in> set (candidate_ids hid s)" using assms(7-9) by (force simp: candidate_ids_def)
  define p1 where "p1 = (case pr_sweep_execution_id p of None \<Rightarrow> p
    | Some k \<Rightarrow> if k \<in> executions_of hid s then p\<lparr>pr_sweep_execution_id := None\<rparr> else p)"
  have p1: "pr_holding_id p1 = other" "pr_id p1 = pr_id p" "pr_resulting_ledger_entry_id p1 = Some (le_id e)"
    using assms(3,5) by (auto simp: p1_def split: option.split)
  let ?rows = "clear_where pr_sweep_execution_id (executions_of hid s)
    (\<lambda>p. p\<lparr>pr_sweep_execution_id := None\<rparr>) (payment_requests s)"
  have "p1 \<in> set ?rows" unfolding p1_def using assms(2) by (rule clear_where_member)
  then have "p1 \<in> set (delete_where (\<lambda>p. pr_holding_id p = hid) ?rows)" using p1 assms(4) by simp
  from clear_where_member [OF this, where col = pr_resulting_ledger_entry_id and
      ks = "set (candidate_ids hid s)" and f = "\<lambda>p. p\<lparr>pr_resulting_ledger_entry_id := None\<rparr>"]
  have "p1\<lparr>pr_resulting_ledger_entry_id := None\<rparr> \<in> set (payment_requests t)"
    unfolding t cascade_result_payments using p1 cand by simp
  ultimately show ?thesis using p1 by (intro conjI) (auto intro!: bexI [of _ "p1\<lparr>pr_resulting_ledger_entry_id := None\<rparr>"])
qed

end
