(* ===== verification/Custody.thy ===== *)
theory Custody
  imports Treasury Exchanges Secrets Holding_Deletion
begin

text \<open>
  The mirror of an exchange account: \<^verbatim>\<open>repositories/custodial_ledger_entry.py\<close>, the poll cycle of
  \<^verbatim>\<open>api/v1/internal_custodial.py\<close>, the orchestration by \<^verbatim>\<open>workers/subscribers/custodial_poller.py\<close> and
  \<^verbatim>\<open>workers/schedulers/custodial_poll_scheduler.py\<close>, and the reconciler
  \<^verbatim>\<open>workers/subscribers/custodial_reconciler.py\<close> that links ledger entries to sweep executions.

  The secret store commits on its own, outside the session, so the state is the pair \<open>custody\<close> of the
  database and the store.  The poll cycle commits itself, up to three times, and publishes events
  after the commit; its result lists them.

  The lemmas show that the mirror keeps one row per provider entry and never loses a link, that polling
  twice changes nothing, how the connection status follows the outcome of the polls, and what the
  reconciler links.
\<close>

section \<open>Custodial ledger repository\<close>

record upsert_result =
  ur_row :: custodial_ledger_row
  ur_is_new :: bool
  ur_changed_fields :: "string list"

definition same_entry :: "uuid \<Rightarrow> string \<Rightarrow> custodial_ledger_row \<Rightarrow> bool" where
  "same_entry pid entry c \<longleftrightarrow> cle_custodial_provider_id c = pid \<and> cle_provider_entry_id c = entry"

definition get_by_refid :: "db \<Rightarrow> uuid \<Rightarrow> string \<Rightarrow> custodial_ledger_row selected" where
  "get_by_refid s pid entry = one_or_none (same_entry pid entry) (custodial_ledger s)"

definition changed_fields :: "custodial_ledger_row \<Rightarrow> custodial_ledger_row \<Rightarrow> string list" where
  "changed_fields old new =
     (if cle_kind old \<noteq> cle_kind new then [''kind''] else []) @
     (if cle_amount_sats old \<noteq> cle_amount_sats new then [''amount_sats''] else []) @
     (if cle_fee_sats old \<noteq> cle_fee_sats new then [''fee_sats''] else []) @
     (if cle_status old \<noteq> cle_status new then [''status''] else []) @
     (if cle_raw_payload old \<noteq> cle_raw_payload new then [''raw_payload''] else [])"

definition refreshed_row :: "timestamp \<Rightarrow> custodial_ledger_row \<Rightarrow> custodial_ledger_row \<Rightarrow> custodial_ledger_row" where
  "refreshed_row now new old =
     old\<lparr>cle_kind := cle_kind new, cle_amount_sats := cle_amount_sats new, cle_fee_sats := cle_fee_sats new,
       cle_status := cle_status new, cle_raw_payload := cle_raw_payload new,
       cle_updated_at := (if changed_fields old new = [] then cle_updated_at old else now)\<rparr>"

definition VALID_KINDS :: "string list" where
  "VALID_KINDS = [''trade'', ''deposit'', ''withdrawal'', ''transfer'', ''fee'', ''reward'', ''other'']"

text \<open>The check constraint on the kind refuses the flush.\<close>

definition cle_upsert :: "timestamp \<Rightarrow> custodial_ledger_row \<Rightarrow> upsert_result service" where
  "cle_upsert now row s =
     (if cle_kind row \<notin> set VALID_KINDS then (Inl IntegrityError, s)
      else case get_by_refid s (cle_custodial_provider_id row) (cle_provider_entry_id row) of
        SelMany \<Rightarrow> (Inl MultipleResultsFound, s)
      | SelNone \<Rightarrow>
          (Inr \<lparr>ur_row = row, ur_is_new = True, ur_changed_fields = []\<rparr>,
           custodial_ledger_update (\<lambda>cs. cs @ [row]) s)
      | SelOne old \<Rightarrow>
          (Inr \<lparr>ur_row = refreshed_row now row old, ur_is_new = False, ur_changed_fields = changed_fields old row\<rparr>,
           custodial_ledger_update (update_rows cle_id (cle_id old) (refreshed_row now row)) s))"

definition reconciled_row ::
  "timestamp \<Rightarrow> uuid option \<Rightarrow> uuid option \<Rightarrow> uuid option \<Rightarrow> custodial_ledger_row \<Rightarrow> custodial_ledger_row" where
  "reconciled_row now execution counterparty chain c =
     c\<lparr>cle_linked_sweep_execution_id := execution, cle_linked_counterparty_holding_id := counterparty,
       cle_linked_chain_ledger_entry_id := chain, cle_reconciled_at := Some now, cle_updated_at := now\<rparr>"

definition set_reconciled :: "timestamp \<Rightarrow> uuid \<Rightarrow> uuid option \<Rightarrow> uuid option \<Rightarrow> uuid option \<Rightarrow> db \<Rightarrow> db" where
  "set_reconciled now eid execution counterparty chain =
     custodial_ledger_update (update_rows cle_id eid (reconciled_row now execution counterparty chain))"

definition mark_unmatched :: "timestamp \<Rightarrow> uuid \<Rightarrow> db \<Rightarrow> db" where
  "mark_unmatched now eid =
     custodial_ledger_update (update_rows cle_id eid (\<lambda>c. c\<lparr>cle_reconciled_at := Some now, cle_updated_at := now\<rparr>))"

definition list_paginated :: "db \<Rightarrow> uuid \<Rightarrow> nat \<Rightarrow> timestamp option \<Rightarrow> custodial_ledger_row list" where
  "list_paginated s pid limit before =
     take limit (sort_key (\<lambda>c. - cle_timestamp c)
       (filter (\<lambda>c. cle_custodial_provider_id c = pid \<and> (case before of None \<Rightarrow> True | Some b \<Rightarrow> cle_timestamp c < b))
         (custodial_ledger s)))"

definition list_since :: "db \<Rightarrow> uuid \<Rightarrow> nat \<Rightarrow> custodial_ledger_row list" where
  "list_since s pid limit = list_paginated s pid limit None"

section \<open>Secrets of a provider\<close>

type_synonym custody = "db \<times> secret_store"

text \<open>Strings are byte sequences here, so \<^verbatim>\<open>encode\<close> and \<^verbatim>\<open>decode\<close> only change the type of the bytes.\<close>

definition encode :: "string \<Rightarrow> bytes" where
  "encode = map (\<lambda>ch. of_nat (of_char ch))"

definition decode :: "bytes \<Rightarrow> string" where
  "decode = map (\<lambda>b. char_of (unat b))"

definition read_secret :: "crypto_api \<Rightarrow> secret_store \<Rightarrow> string \<Rightarrow> secret_exn + string" where
  "read_secret c ss reference =
     (case fst (get_secret c reference ss) of
        Inl e \<Rightarrow> Inl e | Inr a \<Rightarrow> (case a of Bytes b \<Rightarrow> Inr (decode b) | _ \<Rightarrow> Inl SecretKeyError))"

definition read_credentials :: "crypto_api \<Rightarrow> secret_store \<Rightarrow> custodial_provider \<Rightarrow> secret_exn + credentials" where
  "read_credentials c ss p =
     rbind (read_secret c ss (cp_api_credential_reference p)) (\<lambda>key.
     rbind (read_secret c ss (cp_api_secret_reference p)) (\<lambda>secret.
     rbind (case cp_api_passphrase_reference p of
              None \<Rightarrow> Inr None
            | Some r \<Rightarrow> if r = [] then Inr None else rbind (read_secret c ss r) (\<lambda>x. Inr (Some x))) (\<lambda>pass.
     Inr \<lparr>cr_api_key = key, cr_api_secret = secret, cr_api_passphrase = pass\<rparr>)))"

section \<open>Poll cycle\<close>

datatype custodial_event =
    Cycle_Completed uuid uuid timestamp sats "custodial_ledger_row list"
  | Ledger_Entry_Added uuid uuid timestamp sats custodial_ledger_row
  | Ledger_Entry_Updated uuid uuid timestamp custodial_ledger_row "string list"
  | Connection_State_Changed uuid uuid string string

definition mirror_row :: "timestamp \<Rightarrow> uuid \<Rightarrow> custodial_provider \<Rightarrow> provider_ledger_entry \<Rightarrow> custodial_ledger_row" where
  "mirror_row now rid p e =
     \<lparr>cle_id = rid, cle_holding_id = cp_holding_id p, cle_custodial_provider_id = cp_id p,
      cle_provider_entry_id = ple_provider_entry_id e, cle_kind = ple_kind e, cle_asset = ple_asset e,
      cle_amount_sats = sats_of_float (ple_amount e), cle_fee_sats = map_option sats_of_float (ple_fee e),
      cle_status = ple_status e, cle_timestamp = ple_timestamp e, cle_raw_payload = ple_raw e,
      cle_linked_sweep_execution_id = None, cle_linked_counterparty_holding_id = None,
      cle_linked_chain_ledger_entry_id = None, cle_reconciled_at = None, cle_updated_at = now\<rparr>"

text \<open>One upsert per entry; the ids are drawn by position.\<close>

fun persist_entries ::
  "timestamp \<Rightarrow> (nat \<Rightarrow> uuid) \<Rightarrow> custodial_provider \<Rightarrow> nat \<Rightarrow> provider_ledger_entry list \<Rightarrow> upsert_result list service" where
  "persist_entries now ids p n [] = ret []"
| "persist_entries now ids p n (e # es) =
     bnd (cle_upsert now (mirror_row now (ids n) p e)) (\<lambda>r.
     bnd (persist_entries now ids p (Suc n) es) (\<lambda>rs.
     ret (r # rs)))"

definition N_UNREACHABLE :: int where
  "N_UNREACHABLE = 5"

definition handle_auth_error :: "timestamp \<Rightarrow> custodial_provider \<Rightarrow> string \<Rightarrow> timestamp \<Rightarrow> db \<Rightarrow> db" where
  "handle_auth_error now p msg polled_at s =
     (if cp_connection_status p = ''auth_failed'' then s
      else snd (cp_update_connection_status now (cp_id p) ''auth_failed'' 0 polled_at (Some msg) s))"

definition transient_status :: "custodial_provider \<Rightarrow> string" where
  "transient_status p =
     (if cp_consecutive_error_count p + 1 \<ge> N_UNREACHABLE then ''unreachable''
      else if cp_connection_status p = ''healthy'' then ''degraded'' else cp_connection_status p)"

definition handle_transient_error :: "timestamp \<Rightarrow> custodial_provider \<Rightarrow> string \<Rightarrow> timestamp \<Rightarrow> db \<Rightarrow> string \<times> db" where
  "handle_transient_error now p msg polled_at s =
     (if cp_connection_status p = ''auth_failed'' then (''auth_failed'', s)
      else (transient_status p,
        snd (cp_update_connection_status now (cp_id p) (transient_status p) (cp_consecutive_error_count p + 1)
          polled_at (Some msg) s)))"

definition state_changed :: "custodial_provider \<Rightarrow> string \<Rightarrow> custodial_event" where
  "state_changed p new = Connection_State_Changed (cp_holding_id p) (cp_id p) (cp_connection_status p) new"

definition cycle_events ::
  "custodial_provider \<Rightarrow> sats \<Rightarrow> custodial_ledger_row list \<Rightarrow> (custodial_ledger_row \<times> string list) list \<Rightarrow>
   timestamp \<Rightarrow> custodial_event list" where
  "cycle_events p balance added updated polled_at =
     Cycle_Completed (cp_holding_id p) (cp_id p) polled_at balance added #
     map (Ledger_Entry_Added (cp_holding_id p) (cp_id p) polled_at balance) added @
     map (\<lambda>(r, changed). Ledger_Entry_Updated (cp_holding_id p) (cp_id p) polled_at r changed) updated @
     (if cp_connection_status p \<noteq> ''healthy'' then [state_changed p ''healthy''] else [])"

text \<open>Seven days, in microseconds.\<close>

definition WITHDRAWAL_WINDOW :: timestamp where
  "WITHDRAWAL_WINDOW = 7 * 24 * 3600 * 1000000"

fun dispatch_txids :: "(string \<rightharpoonup> string) \<Rightarrow> sweep_execution list \<Rightarrow> nat service" where
  "dispatch_txids txids [] = ret 0"
| "dispatch_txids txids (e # es) =
     (case se_provider_withdrawal_id e of
        None \<Rightarrow> dispatch_txids txids es
      | Some w \<Rightarrow>
          (case txids w of
             None \<Rightarrow> dispatch_txids txids es
           | Some txid \<Rightarrow>
               bnd (update_status (se_id e) SES_ONCHAIN_PENDING (no_fields\<lparr>ef_expected_txid := Some txid\<rparr>)) (\<lambda>_.
               bnd (dispatch_txids txids es) (\<lambda>n. ret (Suc n)))))"

definition txid_by_withdrawal_id :: "withdrawal list \<Rightarrow> string \<rightharpoonup> string" where
  "txid_by_withdrawal_id ws =
     map_of (rev (List.map_filter (\<lambda>w. case wd_txid w of None \<Rightarrow> None
        | Some t \<Rightarrow> if t = [] then None else Some (wd_id w, t)) ws))"

text \<open>Best effort: whatever raises leaves the committed state.\<close>

definition check_withdrawal_txids :: "timestamp \<Rightarrow> adapter \<Rightarrow> db \<Rightarrow> db" where
  "check_withdrawal_txids now ad s =
     (case ad_get_recent_withdrawals ad (now - WITHDRAWAL_WINDOW) of
        Inl _ \<Rightarrow> s
      | Inr ws \<Rightarrow>
          (case list_executions s None (Some SES_REQUESTED) 100 of
             Inl _ \<Rightarrow> s
           | Inr es \<Rightarrow>
               (case dispatch_txids (txid_by_withdrawal_id ws) es s of
                  (Inr n, t) \<Rightarrow> if n = 0 then s else t
                | (Inl _, _) \<Rightarrow> s)))"

record poll_cycle_out =
  po_rows_added :: nat
  po_rows_updated :: nat
  po_rows_unchanged :: nat
  po_last_polled_at :: timestamp
  po_connection_status :: string

text \<open>What the exchange answers in one cycle.\<close>

definition fetch_cycle ::
  "adapter \<Rightarrow> timestamp option \<Rightarrow>
   provider_exn + sats \<times> (string \<times> string) list \<times> provider_ledger_entry list \<times> timestamp option" where
  "fetch_cycle ad cursor =
     rbind (ad_get_balance ad) (\<lambda>balance.
     rbind (ad_get_other_balances ad) (\<lambda>others.
     rbind (ad_fetch_ledger_since ad cursor) (\<lambda>(entries, newest_ts).
     Inr (balance, others, entries, newest_ts))))"

definition added_rows :: "upsert_result list \<Rightarrow> custodial_ledger_row list" where
  "added_rows rs = map ur_row (filter ur_is_new rs)"

definition updated_rows :: "upsert_result list \<Rightarrow> (custodial_ledger_row \<times> string list) list" where
  "updated_rows rs = map (\<lambda>r. (ur_row r, ur_changed_fields r))
     (filter (\<lambda>r. \<not> ur_is_new r \<and> ur_changed_fields r \<noteq> []) rs)"

definition persist_cycle ::
  "timestamp \<Rightarrow> (nat \<Rightarrow> uuid) \<Rightarrow> custodial_provider \<Rightarrow>
   sats \<times> (string \<times> string) list \<times> provider_ledger_entry list \<times> timestamp option \<Rightarrow> upsert_result list service" where
  "persist_cycle now ids p fetched =
     (case fetched of (balance, others, entries, newest_ts) \<Rightarrow>
        bnd (persist_entries now ids p 0 entries) (\<lambda>rs.
        bnd (cp_update_balance now (cp_id p) balance now) (\<lambda>_.
        bnd (modify (cp_update_non_btc_balances now (cp_id p) others)) (\<lambda>_.
        bnd (case newest_ts of None \<Rightarrow> ret () | Some at_ts \<Rightarrow> modify (cp_update_ledger_cursor now (cp_id p) at_ts)) (\<lambda>_.
        bnd (cp_update_connection_status now (cp_id p) ''healthy'' 0 now None) (\<lambda>_.
        ret rs))))))"

definition poll_ok ::
  "timestamp \<Rightarrow> (nat \<Rightarrow> uuid) \<Rightarrow> custodial_provider \<Rightarrow> adapter \<Rightarrow>
   sats \<times> (string \<times> string) list \<times> provider_ledger_entry list \<times> timestamp option \<Rightarrow>
   db \<Rightarrow> (int + poll_cycle_out) \<times> custodial_event list \<times> db" where
  "poll_ok now ids p ad fetched s =
     (case persist_cycle now ids p fetched s of
        (Inl _, _) \<Rightarrow> (Inl 500, [], s)
      | (Inr rs, t) \<Rightarrow>
          let added = added_rows rs; updated = updated_rows rs in
          (Inr \<lparr>po_rows_added = length added, po_rows_updated = length updated,
                po_rows_unchanged = length rs - length added - length updated,
                po_last_polled_at = now, po_connection_status = ''healthy''\<rparr>,
           cycle_events p (fst fetched) added updated now,
           check_withdrawal_txids now ad t))"

definition poll_failed ::
  "timestamp \<Rightarrow> custodial_provider \<Rightarrow> provider_exn \<Rightarrow> db \<Rightarrow> (int + poll_cycle_out) \<times> custodial_event list \<times> db" where
  "poll_failed now p e s =
     (case e of
        P_Auth m \<Rightarrow> (Inl 502, [state_changed p ''auth_failed''], handle_auth_error now p m now s)
      | P_Error m \<Rightarrow>
          (case handle_transient_error now p m now s of (new_status, t) \<Rightarrow>
             (Inl 502, if cp_connection_status p \<noteq> new_status then [state_changed p new_status] else [], t))
      | _ \<Rightarrow> (Inl 500, [], s))"

definition unsupported_adapter_text :: "string \<Rightarrow> string" where
  "unsupported_adapter_text adapter_id =
     ''Unsupported adapter '' @ [CHR 0x27] @ adapter_id @ [CHR 0x27] @ ''. Supported: bitstamp, kraken''"

text \<open>What an answer of the exchange does.\<close>

definition answered ::
  "exchanges \<Rightarrow> timestamp \<Rightarrow> (nat \<Rightarrow> uuid) \<Rightarrow> custodial_provider \<Rightarrow> credentials \<Rightarrow> db \<Rightarrow>
   (int + poll_cycle_out) \<times> custodial_event list \<times> db" where
  "answered exs now ids p cr s =
     (case build_adapter exs (cp_adapter_id p) cr of
        Inl UnsupportedAdapterError \<Rightarrow> poll_failed now p (P_Error (unsupported_adapter_text (cp_adapter_id p))) s
      | Inl _ \<Rightarrow> (Inl 500, [], s)
      | Inr ad \<Rightarrow>
          (case fetch_cycle ad (cp_get_ledger_cursor s (cp_id p)) of
             Inl e \<Rightarrow> poll_failed now p e s
           | Inr fetched \<Rightarrow> poll_ok now ids p ad fetched s))"

definition poll_cycle ::
  "crypto_api \<Rightarrow> exchanges \<Rightarrow> timestamp \<Rightarrow> (nat \<Rightarrow> uuid) \<Rightarrow> uuid \<Rightarrow> custody \<Rightarrow>
   (int + poll_cycle_out) \<times> custodial_event list \<times> custody" where
  "poll_cycle c exs now ids pid st =
     (case st of (s, ss) \<Rightarrow>
      case cp_get s pid of
        Inl _ \<Rightarrow> (Inl 500, [], st)
      | Inr None \<Rightarrow> (Inl 404, [], st)
      | Inr (Some p) \<Rightarrow>
          if \<not> cp_is_active p then (Inl 404, [], st)
          else case read_credentials c ss p of
            Inl e \<Rightarrow> (Inl (if e = SecretKeyError \<or> e = StoreLocked then 423 else 500), [], st)
          | Inr cr \<Rightarrow>
              (case answered exs now ids p cr s of (r, evs, t) \<Rightarrow> (r, evs, (t, ss))))"

section \<open>Scheduler and orchestrator\<close>

text \<open>The configured interval; \<open>None\<close> when the key is absent or its value is no integer.\<close>

definition read_interval :: "int option \<Rightarrow> int" where
  "read_interval raw = (case raw of None \<Rightarrow> 600 | Some v \<Rightarrow> max 60 (min 3600 v))"

text \<open>The providers one tick of the scheduler, or a catch-up burst, names.\<close>

definition tick :: "db \<Rightarrow> uuid list" where
  "tick s = (case cp_list_active s of Inl _ \<Rightarrow> [] | Inr ps \<Rightarrow> map cp_id ps)"

datatype poller_event = System_Locked | System_Unlocked | Poll_Tick "uuid option"

definition on_poller_event :: "db \<Rightarrow> poller_event \<Rightarrow> bool \<Rightarrow> bool \<times> uuid list" where
  "on_poller_event s ev enabled =
     (case ev of
        System_Locked \<Rightarrow> (False, [])
      | System_Unlocked \<Rightarrow> (True, tick s)
      | Poll_Tick pid \<Rightarrow> (enabled, if \<not> enabled then [] else case pid of None \<Rightarrow> [] | Some p \<Rightarrow> [p]))"

section \<open>Reconciler\<close>

definition TOLERANCE_FLOOR_SATS :: int where
  "TOLERANCE_FLOOR_SATS = 10000"

definition tolerance :: "sats \<Rightarrow> int" where
  "tolerance intended = max (trunc (double (double (of_int intended) * double (2 / 100)))) TOLERANCE_FLOOR_SATS"

definition within_tolerance :: "sats \<Rightarrow> sats \<Rightarrow> bool" where
  "within_tolerance observed intended \<longleftrightarrow> \<bar>observed - intended\<bar> \<le> tolerance intended"

definition OUTFLOW_WINDOW :: timestamp where "OUTFLOW_WINDOW = 4 * 3600 * 1000000"
definition INFLOW_WINDOW :: timestamp where "INFLOW_WINDOW = 12 * 3600 * 1000000"

definition OUTFLOW_STATUSES :: "sweep_execution_status list" where
  "OUTFLOW_STATUSES = [SES_REQUESTED, SES_AWAITING_USER_CONFIRMATION, SES_DISPATCHED]"

definition INFLOW_STATUSES :: "sweep_execution_status list" where
  "INFLOW_STATUSES = [SES_DISPATCHED, SES_ONCHAIN_PENDING]"

definition candidates ::
  "(sweep_policy \<Rightarrow> uuid) \<Rightarrow> sweep_execution_status list \<Rightarrow> timestamp \<Rightarrow> uuid \<Rightarrow> sats \<Rightarrow> timestamp \<Rightarrow> db \<Rightarrow> sweep_execution list" where
  "candidates side statuses window hid amount ts s =
     filter (\<lambda>e. (\<exists>p \<in> set (sweep_policies s). sp_id p = se_sweep_policy_id e \<and> side p = hid) \<and>
        se_status e \<in> set statuses \<and> ts - window \<le> se_triggered_at e \<and> se_triggered_at e \<le> ts + window \<and>
        within_tolerance amount (se_intended_amount_sats e)) (sweep_executions s)"

definition outflow_candidates :: "uuid \<Rightarrow> sats \<Rightarrow> timestamp \<Rightarrow> db \<Rightarrow> sweep_execution list" where
  "outflow_candidates = candidates sp_source_holding_id OUTFLOW_STATUSES OUTFLOW_WINDOW"

definition inflow_candidates :: "uuid \<Rightarrow> sats \<Rightarrow> timestamp \<Rightarrow> db \<Rightarrow> sweep_execution list" where
  "inflow_candidates = candidates sp_destination_holding_id INFLOW_STATUSES INFLOW_WINDOW"

definition counterparty :: "(sweep_policy \<Rightarrow> uuid) \<Rightarrow> sweep_execution \<Rightarrow> db \<Rightarrow> uuid option" where
  "counterparty side e s = map_option side (find_row sp_id (se_sweep_policy_id e) (sweep_policies s))"

definition reconcile_outflow :: "timestamp \<Rightarrow> uuid \<Rightarrow> uuid \<Rightarrow> sats \<Rightarrow> timestamp \<Rightarrow> unit service" where
  "reconcile_outflow now hid eid amount ts =
     bnd (gets (outflow_candidates hid amount ts)) (\<lambda>matched.
     case matched of
       [execution] \<Rightarrow>
         bnd (gets (counterparty sp_destination_holding_id execution)) (\<lambda>other.
         bnd (modify (set_reconciled now eid (Some (se_id execution)) other None)) (\<lambda>_.
         if se_status execution = SES_DISPATCHED then ret ()
         else bnd (update_status (se_id execution) SES_DISPATCHED no_fields) (\<lambda>_. ret ())))
     | _ \<Rightarrow> modify (mark_unmatched now eid))"

definition reconcile_inflow :: "timestamp \<Rightarrow> uuid \<Rightarrow> uuid \<Rightarrow> sats \<Rightarrow> timestamp \<Rightarrow> unit service" where
  "reconcile_inflow now hid eid amount ts =
     bnd (gets (inflow_candidates hid amount ts)) (\<lambda>matched.
     case matched of
       [execution] \<Rightarrow>
         bnd (gets (counterparty sp_source_holding_id execution)) (\<lambda>other.
         modify (set_reconciled now eid (Some (se_id execution)) other None))
     | _ \<Rightarrow> modify (mark_unmatched now eid))"

record entry_payload =
  ep_holding_id :: "uuid option"
  ep_entry_id :: "uuid option"
  ep_kind :: "string option"
  ep_amount_sats :: "sats option"
  ep_timestamp :: "timestamp option"

text \<open>The session is committed when the reconciliation returns; what raises is logged and dropped.\<close>

definition on_entry_added :: "timestamp \<Rightarrow> entry_payload \<Rightarrow> db \<Rightarrow> db" where
  "on_entry_added now ep s =
     (if ep_kind ep \<notin> {Some ''deposit'', Some ''withdrawal''} then s
      else case (ep_holding_id ep, ep_entry_id ep, ep_amount_sats ep, ep_timestamp ep) of
        (Some hid, Some eid, Some amount, Some ts) \<Rightarrow>
          (case (if ep_kind ep = Some ''withdrawal'' then reconcile_outflow now hid eid amount ts s
                 else reconcile_inflow now hid eid amount ts s) of
             (Inr _, t) \<Rightarrow> t | (Inl _, _) \<Rightarrow> s)
      | _ \<Rightarrow> s)"

text \<open>The payload of a published event.\<close>

definition payload_of :: "uuid \<Rightarrow> custodial_ledger_row \<Rightarrow> entry_payload" where
  "payload_of hid c = \<lparr>ep_holding_id = Some hid, ep_entry_id = Some (cle_id c), ep_kind = Some (cle_kind c),
     ep_amount_sats = Some (cle_amount_sats c), ep_timestamp = Some (cle_timestamp c)\<rparr>"

section \<open>The tolerance\<close>

lemma tolerance_below:
  assumes "10000 < intended"
  shows "tolerance intended < intended"
proof -
  define i :: rat where "i = of_int intended"
  have i: "10000 < i" using assms by (simp add: i_def)
  have f: "0 \<le> double (2 / 100)" "double (2 / 100) \<le> 1 / 25" using double_between [of "2 / 100"] by simp_all
  define x where "x = double i * double (2 / 100)"
  have x: "0 \<le> x" "x \<le> (2 * i) * (1 / 25)"
    unfolding x_def using double_between [of i] f i by (intro mult_nonneg_nonneg mult_mono; simp)+
  have d: "0 \<le> double x" "double x < i" using double_between [OF x(1)] x(2) i by simp_all
  have "trunc (double x) < intended"
  proof -
    have "double x < of_int intended" using d(2) by (simp add: i_def)
    then show ?thesis using d(1) by (simp add: trunc_def floor_less_iff)
  qed
  then show ?thesis using assms by (simp add: tolerance_def TOLERANCE_FLOOR_SATS_def x_def i_def)
qed

lemma debit_out_of_tolerance: "amount \<le> 0 \<Longrightarrow> 10000 < intended \<Longrightarrow> \<not> within_tolerance amount intended"
  using tolerance_below [of intended] by (simp add: within_tolerance_def)

section \<open>The mirror\<close>

text \<open>The table as a map from provider and entry id to its row.\<close>

definition entry_key :: "custodial_ledger_row \<Rightarrow> uuid \<times> string" where
  "entry_key c = (cle_custodial_provider_id c, cle_provider_entry_id c)"

definition mirror :: "db \<Rightarrow> uuid \<times> string \<Rightarrow> custodial_ledger_row option" where
  "mirror s k = find_row entry_key k (custodial_ledger s)"

definition mirror_inv :: "db \<Rightarrow> bool" where
  "mirror_inv s \<longleftrightarrow> distinct (map entry_key (custodial_ledger s)) \<and> distinct (map cle_id (custodial_ledger s))"

definition merged :: "timestamp \<Rightarrow> custodial_ledger_row \<Rightarrow> custodial_ledger_row option \<Rightarrow> custodial_ledger_row" where
  "merged now row old = (case old of None \<Rightarrow> row | Some c \<Rightarrow> refreshed_row now row c)"

definition row_ids :: "db \<Rightarrow> uuid set" where
  "row_ids s = cle_id ` set (custodial_ledger s)"

lemma refreshed_row_keeps [simp]:
  "entry_key (refreshed_row now new old) = entry_key old" "cle_id (refreshed_row now new old) = cle_id old"
  by (simp_all add: refreshed_row_def entry_key_def)

lemma changed_fields_Nil: "changed_fields old new = [] \<longleftrightarrow> cle_kind old = cle_kind new \<and> cle_amount_sats old = cle_amount_sats new \<and>
    cle_fee_sats old = cle_fee_sats new \<and> cle_status old = cle_status new \<and> cle_raw_payload old = cle_raw_payload new"
  by (auto simp: changed_fields_def)

lemma refreshed_row_same: "changed_fields old new = [] \<Longrightarrow> refreshed_row now new old = old"
  using changed_fields_Nil [of old new] by (simp add: refreshed_row_def)

lemma same_entry_key: "same_entry pid entry c \<longleftrightarrow> entry_key c = (pid, entry)"
  by (auto simp: same_entry_def entry_key_def)

text \<open>Two columns with a unique constraint each select the same row.\<close>

lemma update_rows_other_key:
  assumes "distinct (map g xs)" "distinct (map h xs)" "r \<in> set xs"
  shows "update_rows g (g r) f xs = update_rows h (h r) f xs"
proof -
  have "g x = g r \<longleftrightarrow> h x = h r" if "x \<in> set xs" for x
    using assms that by (metis distinct_map inj_on_def)
  then show ?thesis by (auto simp: update_rows_def)
qed

lemma cle_upsert_mirror:
  assumes "mirror_inv s" "cle_kind row \<in> set VALID_KINDS" "cle_id row \<notin> row_ids s"
  shows "\<exists>r t. cle_upsert now row s = (Inr r, t) \<and> mirror_inv t \<and>
    mirror t = (mirror s)(entry_key row \<mapsto> merged now row (mirror s (entry_key row))) \<and>
    ur_is_new r = (mirror s (entry_key row) = None) \<and>
    ur_changed_fields r = (case mirror s (entry_key row) of None \<Rightarrow> [] | Some old \<Rightarrow> changed_fields old row) \<and>
    t = s\<lparr>custodial_ledger := custodial_ledger t\<rparr> \<and> row_ids t \<subseteq> insert (cle_id row) (row_ids s)"
proof -
  have sel: "get_by_refid s (cle_custodial_provider_id row) (cle_provider_entry_id row) =
      (case mirror s (entry_key row) of None \<Rightarrow> SelNone | Some r \<Rightarrow> SelOne r)"
    unfolding get_by_refid_def mirror_def
    by (rule one_or_none_unique) (use assms(1) in \<open>simp_all add: mirror_inv_def same_entry_key entry_key_def\<close>)
  show ?thesis
  proof (cases "mirror s (entry_key row)")
    case None
    then have "entry_key row \<notin> entry_key ` set (custodial_ledger s)" by (simp add: mirror_def find_row_None_iff)
    then show ?thesis
      using assms None
      by (auto simp: cle_upsert_def sel mirror_inv_def row_ids_def merged_def mirror_def fun_eq_iff find_row_append
          split: option.splits)
  next
    case (Some old)
    have old: "old \<in> set (custodial_ledger s)" "entry_key old = entry_key row"
      using find_row_SomeD [OF Some [unfolded mirror_def]] by simp_all
    have upd: "update_rows cle_id (cle_id old) (refreshed_row now row) (custodial_ledger s) =
        update_rows entry_key (entry_key row) (refreshed_row now row) (custodial_ledger s)"
      using update_rows_other_key [OF _ _ old(1), of cle_id entry_key] assms(1) old(2) by (simp add: mirror_inv_def)
    show ?thesis
      using assms Some
      by (simp add: cle_upsert_def sel upd mirror_inv_def row_ids_def merged_def mirror_def fun_eq_iff find_row_update
          map_key_update_rows set_update_rows image_image) auto
  qed
qed

definition entry_of :: "custodial_provider \<Rightarrow> provider_ledger_entry \<Rightarrow> uuid \<times> string" where
  "entry_of p e = (cp_id p, ple_provider_entry_id e)"

lemma entry_key_mirror_row [simp]: "entry_key (mirror_row now rid p e) = entry_of p e"
  by (simp add: entry_key_def mirror_row_def entry_of_def)

lemma mirror_row_simps [simp]: "cle_id (mirror_row now rid p e) = rid" "cle_kind (mirror_row now rid p e) = ple_kind e"
  by (simp_all add: mirror_row_def)

definition feed_ok :: "provider_ledger_entry list \<Rightarrow> bool" where
  "feed_ok es \<longleftrightarrow> distinct (map ple_provider_entry_id es) \<and> list_all (\<lambda>e. ple_kind e \<in> set VALID_KINDS) es"

lemma ledger_only_trans:
  "u = s\<lparr>custodial_ledger := a\<rparr> \<Longrightarrow> t = u\<lparr>custodial_ledger := b\<rparr> \<Longrightarrow> t = s\<lparr>custodial_ledger := b\<rparr>"
  by simp

lemma persist_entries_mirror:
  assumes "mirror_inv s" "feed_ok es" "inj ids" "\<forall>k \<ge> n. ids k \<notin> row_ids s"
  shows "\<exists>rs t. persist_entries now ids p n es s = (Inr rs, t) \<and> mirror_inv t \<and> length rs = length es \<and>
    t = s\<lparr>custodial_ledger := custodial_ledger t\<rparr> \<and>
    (\<forall>k. k \<notin> entry_of p ` set es \<longrightarrow> mirror t k = mirror s k) \<and>
    (\<forall>i < length es. mirror t (entry_of p (es ! i)) =
        Some (merged now (mirror_row now (ids (n + i)) p (es ! i)) (mirror s (entry_of p (es ! i)))) \<and>
      ur_is_new (rs ! i) = (mirror s (entry_of p (es ! i)) = None) \<and>
      ur_changed_fields (rs ! i) = (case mirror s (entry_of p (es ! i)) of None \<Rightarrow> []
        | Some old \<Rightarrow> changed_fields old (mirror_row now (ids (n + i)) p (es ! i))))"
  using assms
proof (induction es arbitrary: n s)
  case Nil
  then show ?case by (simp add: ret_def)
next
  case (Cons e es)
  let ?row = "mirror_row now (ids n) p e"
  from cle_upsert_mirror [of s ?row now] Cons.prems obtain r u where
    u: "cle_upsert now ?row s = (Inr r, u)" "mirror_inv u"
      "mirror u = (mirror s)(entry_of p e \<mapsto> merged now ?row (mirror s (entry_of p e)))"
      "ur_is_new r = (mirror s (entry_of p e) = None)"
      "ur_changed_fields r = (case mirror s (entry_of p e) of None \<Rightarrow> [] | Some old \<Rightarrow> changed_fields old ?row)"
      "u = s\<lparr>custodial_ledger := custodial_ledger u\<rparr>" "row_ids u \<subseteq> insert (ids n) (row_ids s)"
    by (auto simp: feed_ok_def)
  have "\<forall>k \<ge> Suc n. ids k \<notin> row_ids u"
    using u(7) Cons.prems(3,4) by (metis Suc_leD Suc_n_not_le_n injD insertE subsetD)
  with Cons.IH [OF u(2), of "Suc n"] Cons.prems obtain rs t where
    t: "persist_entries now ids p (Suc n) es u = (Inr rs, t)" "mirror_inv t" "length rs = length es"
      "t = u\<lparr>custodial_ledger := custodial_ledger t\<rparr>"
      "\<forall>k. k \<notin> entry_of p ` set es \<longrightarrow> mirror t k = mirror u k"
      "\<forall>i < length es. mirror t (entry_of p (es ! i)) =
          Some (merged now (mirror_row now (ids (Suc n + i)) p (es ! i)) (mirror u (entry_of p (es ! i)))) \<and>
        ur_is_new (rs ! i) = (mirror u (entry_of p (es ! i)) = None) \<and>
        ur_changed_fields (rs ! i) = (case mirror u (entry_of p (es ! i)) of None \<Rightarrow> []
          | Some old \<Rightarrow> changed_fields old (mirror_row now (ids (Suc n + i)) p (es ! i)))"
    by (auto simp: feed_ok_def)
  have e: "entry_of p e \<notin> entry_of p ` set es" using Cons.prems(2) by (auto simp: feed_ok_def entry_of_def)
  have other: "mirror u (entry_of p (es ! i)) = mirror s (entry_of p (es ! i))" if "i < length es" for i
    using e that u(3) by (metis fun_upd_other image_eqI nth_mem)
  have "t = s\<lparr>custodial_ledger := custodial_ledger t\<rparr>"
    using ledger_only_trans [OF u(6) t(4)] .
  moreover have "persist_entries now ids p n (e # es) s = (Inr (r # rs), t)"
    using u(1) t(1) by (simp add: ret_def)
  moreover have "mirror t k = mirror s k" if "k \<notin> entry_of p ` set (e # es)" for k
    using that t(5) u(3) by (cases k) auto
  moreover have "mirror t (entry_of p ((e # es) ! i)) =
        Some (merged now (mirror_row now (ids (n + i)) p ((e # es) ! i)) (mirror s (entry_of p ((e # es) ! i)))) \<and>
      ur_is_new ((r # rs) ! i) = (mirror s (entry_of p ((e # es) ! i)) = None) \<and>
      ur_changed_fields ((r # rs) ! i) = (case mirror s (entry_of p ((e # es) ! i)) of None \<Rightarrow> []
        | Some old \<Rightarrow> changed_fields old (mirror_row now (ids (n + i)) p ((e # es) ! i)))" if "i < length (e # es)" for i
  proof (cases i)
    case 0
    have "mirror t (entry_of p e) = mirror u (entry_of p e)" using t(5) e by blast
    then show ?thesis unfolding 0 add_0_right nth_Cons_0 using u(3-5) by simp
  next
    case (Suc j)
    then have j: "j < length es" using that by simp
    show ?thesis
      unfolding Suc nth_Cons_Suc add_Suc_right using t(6) [rule_format, OF j] unfolding other [OF j] add_Suc .
  qed
  ultimately show ?case using t(2,3) by (intro exI [of _ "r # rs"] exI [of _ t]) simp
qed

text \<open>What a row says of an entry, and what it keeps of its own.\<close>

definition reflects :: "provider_ledger_entry \<Rightarrow> custodial_ledger_row \<Rightarrow> bool" where
  "reflects e c \<longleftrightarrow> cle_kind c = ple_kind e \<and> cle_amount_sats c = sats_of_float (ple_amount e) \<and>
     cle_fee_sats c = map_option sats_of_float (ple_fee e) \<and> cle_status c = ple_status e \<and> cle_raw_payload c = ple_raw e"

definition links_of :: "custodial_ledger_row \<Rightarrow> uuid \<times> uuid option \<times> uuid option \<times> uuid option \<times> timestamp option" where
  "links_of c = (cle_id c, cle_linked_sweep_execution_id c, cle_linked_counterparty_holding_id c,
     cle_linked_chain_ledger_entry_id c, cle_reconciled_at c)"

lemma merged_reflects: "reflects e (merged now (mirror_row now rid p e) old)"
  by (simp add: reflects_def merged_def refreshed_row_def mirror_row_def split: option.split)

lemma merged_links: "links_of (merged now row (Some old)) = links_of old"
  by (simp add: merged_def links_of_def refreshed_row_def)

lemma reflects_unchanged: "reflects e c \<Longrightarrow> changed_fields c (mirror_row now rid p e) = []"
  by (simp add: reflects_def changed_fields_Nil mirror_row_def)

lemma changed_iff_reflects: "changed_fields c (mirror_row now rid p e) = [] \<longleftrightarrow> reflects e c"
  by (auto simp: reflects_def changed_fields_Nil mirror_row_def)

text \<open>A batch whose entries are all reflected already changes no row.\<close>

lemma persist_entries_again:
  assumes "mirror_inv s" "list_all (\<lambda>e. ple_kind e \<in> set VALID_KINDS) es"
    and "\<forall>e \<in> set es. \<exists>c. mirror s (entry_of p e) = Some c \<and> reflects e c"
  shows "\<exists>rs. persist_entries now ids p n es s = (Inr rs, s) \<and> added_rows rs = [] \<and> updated_rows rs = [] \<and>
    length rs = length es"
  using assms(2,3)
proof (induction es arbitrary: n)
  case Nil
  then show ?case by (simp add: ret_def added_rows_def updated_rows_def)
next
  case (Cons e es)
  let ?row = "mirror_row now (ids n) p e"
  obtain c where c: "mirror s (entry_of p e) = Some c" "reflects e c" using Cons.prems by auto
  have sel: "get_by_refid s (cle_custodial_provider_id ?row) (cle_provider_entry_id ?row) = SelOne c"
  proof -
    have "get_by_refid s (cle_custodial_provider_id ?row) (cle_provider_entry_id ?row) =
        (case mirror s (entry_of p e) of None \<Rightarrow> SelNone | Some r \<Rightarrow> SelOne r)"
      unfolding get_by_refid_def mirror_def
      by (rule one_or_none_unique)
         (use assms(1) in \<open>simp_all add: mirror_inv_def same_entry_key entry_of_def mirror_row_def\<close>)
    then show ?thesis using c(1) by simp
  qed
  have in_s: "c \<in> set (custodial_ledger s)" using find_row_SomeD [OF c(1) [unfolded mirror_def]] by simp
  have "update_rows cle_id (cle_id c) (refreshed_row now ?row) (custodial_ledger s) = custodial_ledger s"
  proof -
    have "x = c" if "x \<in> set (custodial_ledger s)" "cle_id x = cle_id c" for x
      using assms(1) in_s that by (auto simp: mirror_inv_def distinct_map inj_on_def)
    then show ?thesis
      unfolding update_rows_def
      by (intro map_idI) (metis refreshed_row_same [OF reflects_unchanged [OF c(2)]])
  qed
  then have u: "cle_upsert now ?row s = (Inr \<lparr>ur_row = c, ur_is_new = False, ur_changed_fields = []\<rparr>, s)"
    using Cons.prems(1) c(2) sel
    by (simp add: cle_upsert_def reflects_unchanged refreshed_row_same)
  from Cons.IH [of "Suc n"] Cons.prems obtain rs where
    "persist_entries now ids p (Suc n) es s = (Inr rs, s)" "added_rows rs = []" "updated_rows rs = []" "length rs = length es"
    by auto
  then show ?case
    by (simp add: u ret_def added_rows_def updated_rows_def)
qed

section \<open>The connection status\<close>

text \<open>What the status says of the consecutive errors.\<close>

definition connection_ok :: "custodial_provider \<Rightarrow> bool" where
  "connection_ok p \<longleftrightarrow>
     (cp_connection_status p = ''healthy'' \<and> cp_consecutive_error_count p = 0) \<or>
     (cp_connection_status p = ''degraded'' \<and> 1 \<le> cp_consecutive_error_count p \<and> cp_consecutive_error_count p < N_UNREACHABLE) \<or>
     (cp_connection_status p = ''unreachable'' \<and> N_UNREACHABLE \<le> cp_consecutive_error_count p) \<or>
     (cp_connection_status p = ''auth_failed'' \<and> cp_consecutive_error_count p = 0)"

text \<open>The automaton: a good cycle heals, an authentication error sticks until a good cycle, other errors count.\<close>

inductive connection_step :: "string \<times> int \<Rightarrow> string \<times> int \<Rightarrow> bool" where
  heal: "connection_step (st, n) (''healthy'', 0)"
| auth: "connection_step (st, n) (''auth_failed'', 0)"
| degrade: "connection_step (''healthy'', n) (''degraded'', n + 1)" if "n + 1 < N_UNREACHABLE"
| count: "connection_step (st, n) (st, n + 1)" if "st \<noteq> ''healthy''" "st \<noteq> ''auth_failed''" "n + 1 < N_UNREACHABLE"
| unreachable: "connection_step (st, n) (''unreachable'', n + 1)" if "st \<noteq> ''auth_failed''" "N_UNREACHABLE \<le> n + 1"

definition connection :: "custodial_provider \<Rightarrow> string \<times> int" where
  "connection p = (cp_connection_status p, cp_consecutive_error_count p)"

lemma connection_row_simps [simp]:
  "connection (connection_row now st n polled err p) = (st, n)" "cp_id (connection_row now st n polled err p) = cp_id p"
  by (simp_all add: connection_def connection_row_def)

lemma connection_step_ok:
  assumes "connection_step (connection p) (connection q)" "connection_ok p"
  shows "connection_ok q"
  using assms by (cases rule: connection_step.cases) (auto simp: connection_def connection_ok_def N_UNREACHABLE_def)

lemma persist_entries_frame:
  assumes "persist_entries now ids p n es s = (r, t)"
  shows "custodial_providers t = custodial_providers s" "sweep_executions t = sweep_executions s"
    "sweep_policies t = sweep_policies s"
proof -
  have up: "custodial_providers u = custodial_providers v \<and> sweep_executions u = sweep_executions v \<and> sweep_policies u = sweep_policies v"
    if "cle_upsert now row v = (x, u)" for row v x u
    using that by (auto simp: cle_upsert_def split: if_splits selected.splits)
  have "custodial_providers t = custodial_providers s \<and> sweep_executions t = sweep_executions s \<and> sweep_policies t = sweep_policies s"
    using assms
    by (induction es arbitrary: n s r) (fastforce simp: ret_def bnd_def dest!: up split: prod.splits sum.splits)+
  then show "custodial_providers t = custodial_providers s" "sweep_executions t = sweep_executions s"
    "sweep_policies t = sweep_policies s" by simp_all
qed

lemma dispatch_txids_frame:
  "dispatch_txids txids es s = (r, t) \<Longrightarrow> custodial_providers t = custodial_providers s \<and> custodial_ledger t = custodial_ledger s"
  by (induction es arbitrary: s r)
     (fastforce simp: ret_def bnd_def update_status_def split: prod.splits sum.splits option.splits)+

lemma check_withdrawal_txids_frame:
  "custodial_providers (check_withdrawal_txids now ad s) = custodial_providers s"
  "custodial_ledger (check_withdrawal_txids now ad s) = custodial_ledger s"
  by (auto simp: check_withdrawal_txids_def split: sum.splits prod.splits dest: dispatch_txids_frame)

lemma cp_write_Inr:
  assumes "cp_write pid f s = (Inr r, t)"
  shows "custodial_providers t = update_rows cp_id pid f (custodial_providers s)" "custodial_ledger t = custodial_ledger s"
  using assms by (auto simp: cp_write_def update_rows_absent find_row_None_iff split: option.splits)

lemma cp_update_connection_providers:
  "custodial_providers (snd (cp_update_connection_status now pid st n polled err s)) =
     update_rows cp_id pid (connection_row now st n polled err) (custodial_providers s)"
  by (auto simp: cp_update_connection_status_def update_rows_absent find_row_None_iff split: option.splits)

lemma cp_update_connection_Inr:
  "cp_update_connection_status now pid st n polled err s = (Inr r, t) \<Longrightarrow>
   custodial_providers t = update_rows cp_id pid (connection_row now st n polled err) (custodial_providers s) \<and>
   custodial_ledger t = custodial_ledger s"
  by (auto simp: cp_update_connection_status_def update_rows_absent find_row_None_iff split: option.splits)

lemma find_connection_row:
  assumes "pid \<in> cp_id ` set rows"
  shows "\<exists>q. find_row cp_id pid (update_rows cp_id pid (connection_row now st n polled err) rows) = Some q \<and>
    connection q = (st, n)"
proof -
  obtain x where "find_row cp_id pid rows = Some x" using assms by (cases "find_row cp_id pid rows") (auto simp: find_row_None_iff)
  then show ?thesis by (simp add: find_row_update)
qed

lemma provider_ids_update:
  "(\<And>r. cp_id (f r) = cp_id r) \<Longrightarrow> cp_id ` set (update_rows cp_id k f rows) = cp_id ` set rows"
  using map_key_update_rows [of cp_id f cp_id k rows] by (metis set_map)

lemma persist_cycle_connection:
  assumes "persist_cycle now ids p fetched s = (Inr rs, t)" "cp_id p \<in> cp_id ` set (custodial_providers s)"
  shows "\<exists>q. find_row cp_id (cp_id p) (custodial_providers t) = Some q \<and> connection q = (''healthy'', 0)"
proof -
  obtain balance others es newest_ts where f: "fetched = (balance, others, es, newest_ts)" by (metis prod_cases4)
  from assms(1) obtain u v w where
    u: "persist_entries now ids p 0 es s = (Inr rs, u)" and
    v: "\<exists>x. cp_update_balance now (cp_id p) balance now u = (Inr x, v)" and
    w: "w = (case newest_ts of None \<Rightarrow> cp_update_non_btc_balances now (cp_id p) others v
        | Some at_ts \<Rightarrow> cp_update_ledger_cursor now (cp_id p) at_ts (cp_update_non_btc_balances now (cp_id p) others v))" and
    t: "\<exists>x. cp_update_connection_status now (cp_id p) ''healthy'' 0 now None w = (Inr x, t)"
    by (cases newest_ts) (auto simp: f persist_cycle_def bnd_eq_Inr_iff modify_def ret_def)
  from v obtain x where x: "cp_update_balance now (cp_id p) balance now u = (Inr x, v)" by blast
  have "cp_id ` set (custodial_providers v) = cp_id ` set (custodial_providers s)"
    using cp_write_Inr(1) [OF x [unfolded cp_update_balance_def]] persist_entries_frame(1) [OF u]
    by (simp add: provider_ids_update)
  then have "cp_id p \<in> cp_id ` set (custodial_providers w)"
    using assms(2) unfolding w
    by (cases newest_ts) (simp_all add: cp_update_non_btc_balances_def cp_update_ledger_cursor_def provider_ids_update)
  from find_connection_row [OF this] show ?thesis using t cp_update_connection_Inr by metis
qed

lemma transient_step:
  assumes "cp_connection_status p \<noteq> ''auth_failed''"
  shows "connection_step (connection p) (transient_status p, cp_consecutive_error_count p + 1)"
  using assms connection_step.intros
  by (auto simp: connection_def transient_status_def)

lemma poll_failed_connection:
  assumes "poll_failed now p e s = (r, evs, t)" "find_row cp_id (cp_id p) (custodial_providers s) = Some p"
  shows "\<exists>q. find_row cp_id (cp_id p) (custodial_providers t) = Some q \<and>
    (connection q = connection p \<or> connection_step (connection p) (connection q)) \<and> (\<exists>code. r = Inl code)"
proof -
  have upd: "\<exists>q. find_row cp_id (cp_id p) (custodial_providers (snd (cp_update_connection_status now (cp_id p) st n polled err s))) = Some q \<and>
      connection q = (st, n)" for st n polled err
    unfolding cp_update_connection_providers by (rule find_connection_row) (use find_row_SomeD [OF assms(2)] in force)
  show ?thesis
  proof (cases e)
    case (P_Auth m)
    then show ?thesis
      using assms upd [of "''auth_failed''" 0 now "Some m"] connection_step.auth
      by (fastforce simp: poll_failed_def handle_auth_error_def connection_def)
  next
    case (P_Error m)
    then show ?thesis
      using assms upd [of "transient_status p" "cp_consecutive_error_count p + 1" now "Some m"] transient_step [of p]
      by (fastforce simp: poll_failed_def handle_transient_error_def split: if_splits)
  qed (use assms in \<open>auto simp: poll_failed_def\<close>)
qed

lemma cp_get_SomeD:
  assumes "cp_get s pid = Inr (Some p)"
  shows "find_row cp_id pid (custodial_providers s) = Some p" "cp_id p = pid" "CustodialProvider p = Inr p"
proof -
  from assms obtain row where row: "find_row cp_id pid (custodial_providers s) = Some row" "CustodialProvider row = Inr p"
    by (auto simp: cp_get_def row_get_Some_iff)
  then have "p = row" by (simp add: CustodialProvider_def construct_Inr_iff)
  with row show "find_row cp_id pid (custodial_providers s) = Some p" "cp_id p = pid" "CustodialProvider p = Inr p"
    using find_row_SomeD [OF row(1)] by simp_all
qed

lemma poll_cycle_answered:
  assumes "cp_get s pid = Inr (Some p)" "cp_is_active p" "read_credentials c ss p = Inr cr"
  shows "poll_cycle c exs now ids pid (s, ss) =
    (case answered exs now ids p cr s of (r, evs, t) \<Rightarrow> (r, evs, (t, ss)))"
  using assms by (simp add: poll_cycle_def)

lemma poll_cycle_unanswered:
  assumes "cp_get s pid = Inr (Some p)" "\<not> (cp_is_active p \<and> (\<exists>cr. read_credentials c ss p = Inr cr))"
  shows "\<exists>code. poll_cycle c exs now ids pid (s, ss) = (Inl code, [], (s, ss))"
  using assms by (cases "read_credentials c ss p") (auto simp: poll_cycle_def)

lemma poll_ok_connection:
  assumes "poll_ok now ids p ad fetched s = (r, evs, t)" "find_row cp_id (cp_id p) (custodial_providers s) = Some p"
  shows "\<exists>q. find_row cp_id (cp_id p) (custodial_providers t) = Some q \<and>
    (if isl r then q = p else connection q = (''healthy'', 0))"
proof (cases "persist_cycle now ids p fetched s")
  case (Pair x u)
  show ?thesis
  proof (cases x)
    case (Inl e)
    then show ?thesis using assms Pair by (auto simp: poll_ok_def)
  next
    case (Inr rs)
    have "cp_id p \<in> cp_id ` set (custodial_providers s)" using find_row_SomeD [OF assms(2)] by force
    from persist_cycle_connection [OF Pair [unfolded Inr] this] show ?thesis
      using assms(1) Pair Inr by (auto simp: poll_ok_def Let_def check_withdrawal_txids_frame)
  qed
qed

lemma answered_connection:
  assumes "answered exs now ids p cr s = (r, evs, t)" "find_row cp_id (cp_id p) (custodial_providers s) = Some p"
  shows "\<exists>q. find_row cp_id (cp_id p) (custodial_providers t) = Some q \<and>
    (connection q = connection p \<or> connection_step (connection p) (connection q)) \<and>
    (isl r \<or> connection q = (''healthy'', 0))"
proof (cases "build_adapter exs (cp_adapter_id p) cr")
  case (Inl e)
  then show ?thesis
    using assms poll_failed_connection [OF _ assms(2)] by (cases e) (fastforce simp: answered_def)+
next
  case (Inr ad)
  show ?thesis
  proof (cases "fetch_cycle ad (cp_get_ledger_cursor s (cp_id p))")
    case (Inl e)
    then show ?thesis using assms Inr poll_failed_connection [OF _ assms(2)] by (fastforce simp: answered_def)
  next
    case f: (Inr fetched)
    have "poll_ok now ids p ad fetched s = (r, evs, t)" using assms(1) Inr f by (simp add: answered_def)
    from poll_ok_connection [OF this assms(2)] show ?thesis
      using connection_step.heal by (cases p; cases r) (auto simp: connection_def)
  qed
qed

text \<open>C27. Every poll cycle leaves the provider's connection as it was or makes one step of the automaton
  \<open>connection_step\<close>: a cycle that succeeds makes the provider healthy with no errors counted, and
  the status always agrees with the number of consecutive errors.
\<close>

theorem connection_follows_polls:
  assumes "cp_get s pid = Inr (Some p)" "poll_cycle c exs now ids pid (s, ss) = (r, evs, (t, ss'))"
  shows "\<exists>q. find_row cp_id pid (custodial_providers t) = Some q \<and> ss' = ss \<and>
    (connection q = connection p \<or> connection_step (connection p) (connection q)) \<and>
    (connection_ok p \<longrightarrow> connection_ok q) \<and> (isl r \<or> connection q = (''healthy'', 0))"
proof -
  note p = cp_get_SomeD [OF assms(1)]
  have ok: "connection_ok q" if "connection q = connection p" "connection_ok p" for q
    using that by (simp add: connection_def connection_ok_def)
  show ?thesis
  proof (cases "cp_is_active p \<and> (\<exists>cr. read_credentials c ss p = Inr cr)")
    case False
    then show ?thesis using poll_cycle_unanswered [OF assms(1) False, of exs now ids] assms(2) p ok by auto
  next
    case True
    then obtain cr where cr: "read_credentials c ss p = Inr cr" by blast
    then have "answered exs now ids p cr s = (r, evs, t)" and [simp]: "ss' = ss"
      using True poll_cycle_answered [OF assms(1) _ cr] assms(2) by (auto split: prod.splits)
    from answered_connection [OF this(1)] p obtain q where
      "find_row cp_id pid (custodial_providers t) = Some q"
      "connection q = connection p \<or> connection_step (connection p) (connection q)" "isl r \<or> connection q = (''healthy'', 0)"
      by auto
    then show ?thesis using ok connection_step_ok by (auto intro!: exI [of _ q])
  qed
qed

section \<open>An outage\<close>

fun polls :: "crypto_api \<Rightarrow> exchanges \<Rightarrow> uuid \<Rightarrow> (timestamp \<times> (nat \<Rightarrow> uuid)) list \<Rightarrow> custody \<Rightarrow> custody" where
  "polls c exs pid [] st = st"
| "polls c exs pid ((now, ids) # visits) st = polls c exs pid visits (snd (snd (poll_cycle c exs now ids pid st)))"

text \<open>Nothing a transient error writes matters to the next cycle but the connection itself.\<close>

definition same_account :: "custodial_provider \<Rightarrow> custodial_provider \<Rightarrow> bool" where
  "same_account p q \<longleftrightarrow> cp_id q = cp_id p \<and> cp_is_active q = cp_is_active p \<and> cp_adapter_id q = cp_adapter_id p \<and>
     cp_api_credential_reference q = cp_api_credential_reference p \<and>
     cp_api_secret_reference q = cp_api_secret_reference p \<and> cp_api_passphrase_reference q = cp_api_passphrase_reference p"

lemma same_account_credentials: "same_account p q \<Longrightarrow> read_credentials c ss q = read_credentials c ss p"
  by (simp add: same_account_def read_credentials_def)

lemma connection_row_account: "same_account p (connection_row now st n polled err p)"
  "CustodialProvider p = Inr p \<Longrightarrow>
   CustodialProvider (connection_row now st n polled err p) = Inr (connection_row now st n polled err p)"
  by (simp_all add: same_account_def connection_row_def CustodialProvider_def construct_Inr_iff)

lemma transient_poll:
  assumes p: "cp_get s pid = Inr (Some p)" "cp_is_active p" "read_credentials c ss p = Inr cr"
    and ex: "build_adapter exs (cp_adapter_id p) cr = Inr ad"
    and down: "\<And>cursor. \<exists>m. fetch_cycle ad cursor = Inl (P_Error m)"
    and st: "cp_connection_status p \<noteq> ''auth_failed''"
  obtains q t evs where "poll_cycle c exs now ids pid (s, ss) = (Inl 502, evs, (t, ss))" "cp_get t pid = Inr (Some q)"
    "same_account p q" "connection q = (transient_status p, cp_consecutive_error_count p + 1)"
proof -
  note r = cp_get_SomeD [OF p(1)]
  obtain m where m: "fetch_cycle ad (cp_get_ledger_cursor s (cp_id p)) = Inl (P_Error m)" using down by blast
  let ?q = "connection_row now (transient_status p) (cp_consecutive_error_count p + 1) now (Some m) p"
  let ?t = "snd (cp_update_connection_status now (cp_id p) (transient_status p) (cp_consecutive_error_count p + 1) now (Some m) s)"
  have "cp_get ?t pid = Inr (Some ?q)"
    using r connection_row_account(2) [OF r(3)]
    by (simp add: cp_get_def cp_update_connection_providers find_row_update)
  moreover have "\<exists>evs. poll_cycle c exs now ids pid (s, ss) = (Inl 502, evs, (?t, ss))"
    using poll_cycle_answered [OF p] ex m st by (simp add: answered_def poll_failed_def handle_transient_error_def)
  ultimately show thesis using that connection_row_account(1) connection_row_simps(1) by metis
qed

lemma transient_status_counts:
  assumes "connection_ok p" "cp_connection_status p \<noteq> ''auth_failed''"
    "connection q = (transient_status p, cp_consecutive_error_count p + 1)"
  shows "connection_ok q" "cp_connection_status q \<noteq> ''auth_failed''"
    "cp_consecutive_error_count q = cp_consecutive_error_count p + 1"
  using connection_step_ok [of p q] transient_step [OF assms(2)] assms
  by (auto simp: connection_def transient_status_def)

text \<open>C28. An outage is noticed: when an exchange answers every request of a provider with an error, the provider counts each
  poll and is unreachable from the fifth consecutive failure on.
\<close>

theorem outage_is_noticed:
  assumes "cp_get s pid = Inr (Some p)" "cp_is_active p" "read_credentials c ss p = Inr cr"
    and "build_adapter exs (cp_adapter_id p) cr = Inr ad" "\<And>cursor. \<exists>m. fetch_cycle ad cursor = Inl (P_Error m)"
    and "connection_ok p" "cp_connection_status p \<noteq> ''auth_failed''"
  shows "\<exists>t q. polls c exs pid visits (s, ss) = (t, ss) \<and> cp_get t pid = Inr (Some q) \<and>
    cp_consecutive_error_count q = cp_consecutive_error_count p + int (length visits) \<and> connection_ok q \<and>
    (5 \<le> length visits \<longrightarrow> cp_connection_status q = ''unreachable'')"
proof -
  have "\<exists>t q. polls c exs pid visits (s, ss) = (t, ss) \<and> cp_get t pid = Inr (Some q) \<and>
    cp_consecutive_error_count q = cp_consecutive_error_count p + int (length visits) \<and> connection_ok q \<and>
    cp_connection_status q \<noteq> ''auth_failed''"
    using assms
  proof (induction visits arbitrary: s p)
    case Nil
    then show ?case by auto
  next
    case (Cons v visits)
    obtain now ids where v: "v = (now, ids)" by (cases v)
    obtain q t evs where t: "poll_cycle c exs now ids pid (s, ss) = (Inl 502, evs, (t, ss))" "cp_get t pid = Inr (Some q)"
      "same_account p q" "connection q = (transient_status p, cp_consecutive_error_count p + 1)"
      using transient_poll [OF Cons.prems(1-5,7)] by metis
    note tc = transient_status_counts [OF Cons.prems(6,7) t(4)]
    have q: "cp_is_active q" "read_credentials c ss q = Inr cr" "build_adapter exs (cp_adapter_id q) cr = Inr ad"
      using t(3) Cons.prems(2-4) by (simp_all add: same_account_credentials) (simp_all add: same_account_def)
    show ?case using Cons.IH [OF t(2) q Cons.prems(5) tc(1,2)] tc(3) t(1) by (auto simp: v)
  qed
  then obtain t q where q: "polls c exs pid visits (s, ss) = (t, ss)" "cp_get t pid = Inr (Some q)"
    "cp_consecutive_error_count q = cp_consecutive_error_count p + int (length visits)" "connection_ok q"
    "cp_connection_status q \<noteq> ''auth_failed''" by auto
  moreover have "cp_connection_status q = ''unreachable''" if "5 \<le> length visits"
    using q(3-5) assms(6) that by (auto simp: connection_ok_def N_UNREACHABLE_def)
  ultimately show ?thesis by blast
qed

section \<open>The mirror follows the feed\<close>

lemma length_filter_nth:
  assumes "length xs = length ys" "\<forall>i < length ys. P (xs ! i) = Q (ys ! i)"
  shows "length (filter P xs) = length (filter Q ys)"
proof -
  have "list_all2 (\<lambda>x y. P x = Q y) xs ys" using assms by (simp add: list_all2_conv_all_nth)
  then show ?thesis by (induction rule: list_all2_induct) simp_all
qed

lemma provider_writes_succeed:
  assumes "find_row cp_id (cp_id p) (custodial_providers s) = Some p" "CustodialProvider p = Inr p" "0 \<le> balance"
  shows "\<exists>x t. cp_update_balance now (cp_id p) balance now s = (Inr x, t) \<and> custodial_ledger t = custodial_ledger s"
  using assms by (simp add: cp_update_balance_def cp_write_def CustodialProvider_def construct_Inr_iff
      rbind_eq_Inr_iff opt_lt_def)

lemma connection_write_succeeds:
  "\<exists>y t. cp_update_connection_status now pid st n polled err s = (Inr y, t) \<and> custodial_ledger t = custodial_ledger s"
  by (auto simp: cp_update_connection_status_def split: option.split)

lemma persist_cycle_succeeds:
  assumes "find_row cp_id (cp_id p) (custodial_providers s) = Some p" "CustodialProvider p = Inr p" "0 \<le> balance"
    and "persist_entries now ids p 0 es s = (Inr rs, u)"
  shows "\<exists>t. persist_cycle now ids p (balance, others, es, newest_ts) s = (Inr rs, t) \<and> custodial_ledger t = custodial_ledger u"
proof -
  obtain x v where v: "cp_update_balance now (cp_id p) balance now u = (Inr x, v)" "custodial_ledger v = custodial_ledger u"
    using provider_writes_succeed [of p u balance now] assms persist_entries_frame(1) [OF assms(4)] by auto
  let ?w = "case newest_ts of None \<Rightarrow> cp_update_non_btc_balances now (cp_id p) others v
    | Some ts \<Rightarrow> cp_update_ledger_cursor now (cp_id p) ts (cp_update_non_btc_balances now (cp_id p) others v)"
  have w: "custodial_ledger ?w = custodial_ledger v"
    by (simp add: cp_update_non_btc_balances_def cp_update_ledger_cursor_def split: option.split)
  obtain y t where t: "cp_update_connection_status now (cp_id p) ''healthy'' 0 now None ?w = (Inr y, t)"
    "custodial_ledger t = custodial_ledger ?w"
    using connection_write_succeeds by blast
  show ?thesis
    using assms(4) v w t
    by (cases newest_ts) (auto simp: persist_cycle_def bnd_def modify_def ret_def)
qed

lemma poll_cycle_persists:
  assumes p: "cp_get s pid = Inr (Some p)" "cp_is_active p" "read_credentials c ss p = Inr cr"
    and ex: "build_adapter exs (cp_adapter_id p) cr = Inr ad"
      "fetch_cycle ad (cp_get_ledger_cursor s pid) = Inr (balance, others, es, newest_ts)" "0 \<le> balance"
    and u: "persist_entries now ids p 0 es s = (Inr rs, u)"
  shows "\<exists>out t. poll_cycle c exs now ids pid (s, ss) =
      (Inr out, cycle_events p balance (added_rows rs) (updated_rows rs) now, (t, ss)) \<and>
    custodial_ledger t = custodial_ledger u \<and> po_rows_added out = length (added_rows rs) \<and>
    po_rows_updated out = length (updated_rows rs) \<and>
    po_rows_unchanged out = length rs - length (added_rows rs) - length (updated_rows rs)"
proof -
  note r = cp_get_SomeD [OF p(1)]
  obtain t where "persist_cycle now ids p (balance, others, es, newest_ts) s = (Inr rs, t)" "custodial_ledger t = custodial_ledger u"
    using persist_cycle_succeeds [OF _ r(3) ex(3) u] r(1,2) by auto
  then show ?thesis
    using poll_cycle_answered [OF p] ex(1,2) r(2)
    by (simp add: answered_def poll_ok_def Let_def check_withdrawal_txids_frame)
qed

text \<open>C26. A poll makes the mirror follow the exchange: afterwards every entry the exchange reported has exactly one row,
  which carries what was reported and keeps the links of the row it had before, no other row has changed, and
  the reported counts are those of the entries that were new, changed and unchanged.
\<close>

theorem polling_mirrors_feed:
  assumes "cp_get s pid = Inr (Some p)" "cp_is_active p" "read_credentials c ss p = Inr cr"
    and "build_adapter exs (cp_adapter_id p) cr = Inr ad"
      "fetch_cycle ad (cp_get_ledger_cursor s pid) = Inr (balance, others, es, newest_ts)" "0 \<le> balance"
    and "mirror_inv s" "feed_ok es" "inj ids" "\<forall>k. ids k \<notin> row_ids s"
  shows "\<exists>out evs t. poll_cycle c exs now ids pid (s, ss) = (Inr out, evs, (t, ss)) \<and> mirror_inv t \<and>
    (\<forall>k. k \<notin> entry_of p ` set es \<longrightarrow> mirror t k = mirror s k) \<and>
    (\<forall>e \<in> set es. \<exists>r. mirror t (entry_of p e) = Some r \<and> reflects e r \<and>
       (\<forall>old. mirror s (entry_of p e) = Some old \<longrightarrow> links_of r = links_of old)) \<and>
    po_rows_added out = length (filter (\<lambda>e. mirror s (entry_of p e) = None) es) \<and>
    po_rows_updated out = length (filter (\<lambda>e. \<exists>old. mirror s (entry_of p e) = Some old \<and> \<not> reflects e old) es) \<and>
    po_rows_added out + po_rows_updated out + po_rows_unchanged out = length es"
proof -
  from persist_entries_mirror [OF assms(7-9), of 0 now p] assms(10) obtain rs u where
    u: "persist_entries now ids p 0 es s = (Inr rs, u)" "mirror_inv u" "length rs = length es"
      "\<forall>k. k \<notin> entry_of p ` set es \<longrightarrow> mirror u k = mirror s k" and
    rows: "\<forall>i < length es. mirror u (entry_of p (es ! i)) =
        Some (merged now (mirror_row now (ids i) p (es ! i)) (mirror s (entry_of p (es ! i)))) \<and>
      ur_is_new (rs ! i) = (mirror s (entry_of p (es ! i)) = None) \<and>
      ur_changed_fields (rs ! i) = (case mirror s (entry_of p (es ! i)) of None \<Rightarrow> []
        | Some old \<Rightarrow> changed_fields old (mirror_row now (ids i) p (es ! i)))"
    by (auto simp only: add_0)
  from poll_cycle_persists [OF assms(1-6) u(1)] obtain out evs t where
    t: "poll_cycle c exs now ids pid (s, ss) = (Inr out, evs, (t, ss))" "custodial_ledger t = custodial_ledger u" and
    out: "po_rows_added out = length (added_rows rs)" "po_rows_updated out = length (updated_rows rs)"
      "po_rows_unchanged out = length rs - length (added_rows rs) - length (updated_rows rs)" by blast
  have m: "mirror t = mirror u" "mirror_inv t" using t(2) u(2) by (simp_all add: mirror_def mirror_inv_def fun_eq_iff)
  have row: "\<exists>r. mirror t (entry_of p e) = Some r \<and> reflects e r \<and>
      (\<forall>old. mirror s (entry_of p e) = Some old \<longrightarrow> links_of r = links_of old)" if el: "e \<in> set es" for e
  proof -
    obtain i where i: "i < length es" "e = es ! i" using el by (metis in_set_conv_nth)
    then have "mirror t (entry_of p e) = Some (merged now (mirror_row now (ids i) p e) (mirror s (entry_of p e)))"
      using rows m(1) by simp
    then show ?thesis using merged_reflects merged_links by auto
  qed
  have added: "length (added_rows rs) = length (filter (\<lambda>e. mirror s (entry_of p e) = None) es)"
    unfolding added_rows_def length_map using rows by (intro length_filter_nth u(3)) simp
  have updated: "length (updated_rows rs) = length (filter (\<lambda>e. \<exists>old. mirror s (entry_of p e) = Some old \<and> \<not> reflects e old) es)"
    unfolding updated_rows_def length_map
    using rows by (intro length_filter_nth u(3)) (auto simp: changed_iff_reflects split: option.splits)
  have "length (filter (\<lambda>e. mirror s (entry_of p e) = None) es) +
      length (filter (\<lambda>e. \<exists>old. mirror s (entry_of p e) = Some old \<and> \<not> reflects e old) es) \<le> length es"
    by (induction es) auto
  then have "po_rows_added out + po_rows_updated out + po_rows_unchanged out = length es"
    using out added updated u(3) by linarith
  then show ?thesis using t(1) m u(4) row out(1,2) added updated by auto
qed

text \<open>
  Polling again is harmless: when every entry of the feed is already mirrored as reported, the cycle changes no ledger
  row, announces no entry and counts none as added or updated.
\<close>

theorem repeated_poll_adds_nothing:
  assumes "cp_get s pid = Inr (Some p)" "cp_is_active p" "read_credentials c ss p = Inr cr"
    and "build_adapter exs (cp_adapter_id p) cr = Inr ad"
      "fetch_cycle ad (cp_get_ledger_cursor s pid) = Inr (balance, others, es, newest_ts)" "0 \<le> balance"
    and "mirror_inv s" "feed_ok es" "\<forall>e \<in> set es. \<exists>r. mirror s (entry_of p e) = Some r \<and> reflects e r"
  shows "\<exists>out t. poll_cycle c exs now ids pid (s, ss) = (Inr out, cycle_events p balance [] [] now, (t, ss)) \<and>
    custodial_ledger t = custodial_ledger s \<and> po_rows_added out = 0 \<and> po_rows_updated out = 0 \<and>
    po_rows_unchanged out = length es"
proof -
  have "list_all (\<lambda>e. ple_kind e \<in> set VALID_KINDS) es" using assms(8) by (simp add: feed_ok_def)
  from persist_entries_again [OF assms(7) this assms(9), of now ids 0] obtain rs where
    "persist_entries now ids p 0 es s = (Inr rs, s)" "added_rows rs = []" "updated_rows rs = []" "length rs = length es"
    by auto
  then show ?thesis using poll_cycle_persists [OF assms(1-6), of now ids rs s] by auto
qed

section \<open>What the reconciler links\<close>

lemma no_outflow_candidates:
  assumes "amount \<le> 0" "\<forall>e \<in> set (sweep_executions s). 10000 < se_intended_amount_sats e"
  shows "outflow_candidates hid amount ts s = []"
  using assms debit_out_of_tolerance by (auto simp: outflow_candidates_def candidates_def filter_empty_conv)

lemma sats_of_float_nonpos:
  assumes "x \<le> 0"
  shows "sats_of_float x \<le> 0"
proof -
  define y where "y = x * 100000000"
  have "\<bar>y\<bar> / 2 ^ 53 \<le> - y" "y \<le> 0" using assms by (simp_all add: y_def)
  then have "double y \<le> 0" using double_error [of y] by (simp add: abs_le_iff)
  then have "of_int (round_half_even (double y)) < (1 :: rat)"
    using abs_le_D1 [OF round_half_even_error [of "double y"]] by linarith
  then show ?thesis by (simp add: sats_of_float_def y_def)
qed

text \<open>A withdrawal is never linked to the sweep that caused it: Kraken reports debits with a negative amount, the
  reconciler compares the signed amount with the positive amount the sweep intended, and for sweeps above 10000 sats
  the distance exceeds the tolerance.  The entry is marked as settled without a link and no execution advances.
\<close>

theorem withdrawals_never_reconcile:
  assumes "item_kind it = ''withdrawal''" "li_direction it = Some ''out''"
    and "\<forall>e \<in> set (sweep_executions s). 10000 < se_intended_amount_sats e"
  shows "on_entry_added now (payload_of hid (mirror_row then_polled rid p (ledger_entry_of raw since it))) s =
    mark_unmatched now rid s"
proof -
  let ?row = "mirror_row then_polled rid p (ledger_entry_of raw since it)"
  have "cle_amount_sats ?row \<le> 0"
    using signed_amount_out [OF assms(2)] sats_of_float_nonpos by (simp add: mirror_row_def ledger_entry_of_def)
  from no_outflow_candidates [OF this assms(3)] show ?thesis
    using assms(1)
    by (simp add: on_entry_added_def payload_of_def ledger_entry_of_def reconcile_outflow_def bnd_def gets_def modify_def)
qed

definition window_of :: "string \<Rightarrow> timestamp" where
  "window_of kind = (if kind = ''withdrawal'' then OUTFLOW_WINDOW else INFLOW_WINDOW)"

lemma set_reconciled_link:
  assumes "r \<in> set (custodial_ledger (set_reconciled now eid x other chain s))" "cle_linked_sweep_execution_id r = Some y"
    and "\<forall>r \<in> set (custodial_ledger s). cle_linked_sweep_execution_id r \<noteq> Some y"
  shows "cle_id r = eid \<and> x = Some y"
  using assms by (auto simp: set_reconciled_def set_update_rows reconciled_row_def split: if_splits)

lemma mark_unmatched_link:
  "r \<in> set (custodial_ledger (mark_unmatched now eid s)) \<Longrightarrow>
   \<exists>r' \<in> set (custodial_ledger s). cle_linked_sweep_execution_id r = cle_linked_sweep_execution_id r'"
  by (auto simp: mark_unmatched_def set_update_rows)

lemma reconcile_outflow_ledger:
  assumes "reconcile_outflow now hid eid amount ts s = (x, t)"
  shows "custodial_ledger t = custodial_ledger (mark_unmatched now eid s) \<or>
    (\<exists>e other. outflow_candidates hid amount ts s = [e] \<and>
      custodial_ledger t = custodial_ledger (set_reconciled now eid (Some (se_id e)) other None s))"
proof -
  have up: "custodial_ledger w = custodial_ledger v" if "update_status i st f v = (y, w)" for i st f v y w
    using that by (auto simp: update_status_def split: option.splits)
  show ?thesis
    using assms
    by (cases "outflow_candidates hid amount ts s" rule: remdups_adj.cases)
       (auto simp: reconcile_outflow_def bnd_def gets_def modify_def ret_def split: if_splits sum.splits prod.splits dest: up)
qed

lemma reconcile_inflow_ledger:
  assumes "reconcile_inflow now hid eid amount ts s = (x, t)"
  shows "custodial_ledger t = custodial_ledger (mark_unmatched now eid s) \<or>
    (\<exists>e other. inflow_candidates hid amount ts s = [e] \<and>
      custodial_ledger t = custodial_ledger (set_reconciled now eid (Some (se_id e)) other None s))"
  using assms
  by (cases "inflow_candidates hid amount ts s" rule: remdups_adj.cases)
     (auto simp: reconcile_inflow_def bnd_def gets_def modify_def)

definition sweep_candidates :: "uuid \<Rightarrow> custodial_ledger_row \<Rightarrow> db \<Rightarrow> sweep_execution list" where
  "sweep_candidates hid c =
     (if cle_kind c = ''withdrawal'' then outflow_candidates else inflow_candidates) hid (cle_amount_sats c) (cle_timestamp c)"

lemma reconcile_ledger:
  assumes "on_entry_added now (payload_of hid c) s = t"
  shows "custodial_ledger t = custodial_ledger s \<or> custodial_ledger t = custodial_ledger (mark_unmatched now (cle_id c) s) \<or>
    (\<exists>e other. sweep_candidates hid c s = [e] \<and>
      custodial_ledger t = custodial_ledger (set_reconciled now (cle_id c) (Some (se_id e)) other None s))"
proof (cases "cle_kind c = ''withdrawal''")
  case True
  then show ?thesis
    using assms reconcile_outflow_ledger [of now hid "cle_id c" "cle_amount_sats c" "cle_timestamp c" s]
    by (cases "reconcile_outflow now hid (cle_id c) (cle_amount_sats c) (cle_timestamp c) s")
       (auto simp: on_entry_added_def payload_of_def sweep_candidates_def split: sum.splits)
next
  case False
  then show ?thesis
    using assms reconcile_inflow_ledger [of now hid "cle_id c" "cle_amount_sats c" "cle_timestamp c" s]
    by (cases "reconcile_inflow now hid (cle_id c) (cle_amount_sats c) (cle_timestamp c) s")
       (auto simp: on_entry_added_def payload_of_def sweep_candidates_def split: sum.splits if_splits)
qed

text \<open>C29. The reconciler links only what it can tell apart: a row newly linked to an execution is the row of the published
  entry, and the execution is the only one of the account that is in flight, was triggered within the window and intended
  an amount within the tolerance.
\<close>

theorem reconciler_links_unambiguous:
  assumes "on_entry_added now (payload_of hid c) s = t"
    and "r \<in> set (custodial_ledger t)" "cle_linked_sweep_execution_id r = Some x"
    and "\<forall>r \<in> set (custodial_ledger s). cle_linked_sweep_execution_id r \<noteq> Some x"
  shows "cle_id r = cle_id c \<and> (\<exists>e \<in> set (sweep_executions s). se_id e = x \<and> sweep_candidates hid c s = [e] \<and>
    within_tolerance (cle_amount_sats c) (se_intended_amount_sats e) \<and>
    \<bar>se_triggered_at e - cle_timestamp c\<bar> \<le> window_of (cle_kind c))"
proof -
  have un: "\<not> custodial_ledger t = custodial_ledger (mark_unmatched now (cle_id c) s)"
    using assms(2-4) mark_unmatched_link [of r now "cle_id c" s] by metis
  have "\<not> custodial_ledger t = custodial_ledger s" using assms(2-4) by auto
  with un reconcile_ledger [OF assms(1)] obtain e other where
    e: "sweep_candidates hid c s = [e]" "custodial_ledger t = custodial_ledger (set_reconciled now (cle_id c) (Some (se_id e)) other None s)"
    by blast
  have id: "cle_id r = cle_id c \<and> Some (se_id e) = Some x"
    using set_reconciled_link [of r now "cle_id c" "Some (se_id e)" other None s x] assms(2-4) e(2) by auto
  have "e \<in> set (sweep_candidates hid c s)" by (simp add: e(1))
  then have "e \<in> set (sweep_executions s) \<and> within_tolerance (cle_amount_sats c) (se_intended_amount_sats e) \<and>
      \<bar>se_triggered_at e - cle_timestamp c\<bar> \<le> window_of (cle_kind c)"
    by (auto simp: sweep_candidates_def outflow_candidates_def inflow_candidates_def candidates_def window_of_def split: if_splits)
  then show ?thesis using id e(1) by auto
qed

end
