(* ===== verification/Examples_Custody.thy ===== *)
theory Examples_Custody
  imports Examples Custody
begin

text \<open>
  The properties of the exchange adapters, of the secret store and of the custodial mirror applied to
  concrete inputs: a toy cipher that appends half of the key to the text, and an account at Kraken with one
  deposit and one withdrawal.
\<close>

section \<open>A toy cipher\<close>

definition ex_tag :: "bytes \<Rightarrow> bytes" where
  "ex_tag k = take 16 (k @ replicate 16 0)"

definition ex_crypto :: crypto_api where
  "ex_crypto = \<lparr>hash_secret_raw = (\<lambda>p kp. take 32 (encode p @ replicate 32 0)),
     aesgcm_encrypt = (\<lambda>k n x. x @ ex_tag k),
     aesgcm_decrypt = (\<lambda>k n y. if drop (length y - 16) y = ex_tag k then Some (take (length y - 16) y) else None)\<rparr>"

lemma length_ex_tag [simp]: "length (ex_tag k) = 16"
  by (simp add: ex_tag_def)

lemma ex_crypto_ok: "crypto_ok ex_crypto {''pw'', ''no''}"
proof -
  have tags: "ex_tag (take 32 (encode ''pw'' @ replicate 32 0)) \<noteq> ex_tag (take 32 (encode ''no'' @ replicate 32 0))"
    by code_simp
  show ?thesis
    using tags by (auto simp: crypto_ok_def ex_crypto_def DERIVED_KEY_SIZE_def GCM_TAG_SIZE_def)
qed

theorem secret_store_refines_witness:
  "fst (run_calls (run_call ex_crypto) [Initialize (replicate 16 0) (replicate 12 0) ''pw'',
      Set_Secret (replicate 12 1) ''k'' [1, 2], Lock, Unlock ''no'', Unlock ''pw'', Get_Secret ''k''] empty_store) =
    [Inr Done, Inr Done, Inr Done, Inl WrongPassphraseError, Inr Done, Inr (Bytes [1, 2])]"
proof -
  let ?xs = "[Initialize (replicate 16 0) (replicate 12 0) ''pw'',
      Set_Secret (replicate 12 1) ''k'' [1, 2], Lock, Unlock ''no'', Unlock ''pw'', Get_Secret ''k'']"
  have "crypto_ok ex_crypto (\<Union> (passphrases ` set ?xs))"
    using ex_crypto_ok by (simp add: insert_commute)
  moreover have "list_all drawn_ok ?xs" by (simp add: KDF_SALT_SIZE_def GCM_NONCE_SIZE_def)
  moreover have "fst (run_calls abstract_call ?xs empty_abstract) =
      [Inr Done, Inr Done, Inr Done, Inl WrongPassphraseError, Inr Done, Inr (Bytes [1, 2])]"
    by (simp add: empty_abstract_def CANARY_REFERENCE_def)
  ultimately show ?thesis using secret_store_refines [of ex_crypto ?xs] by simp
qed

section \<open>An account at Kraken\<close>

definition ex_item :: "string \<Rightarrow> string \<Rightarrow> string \<Rightarrow> rat \<Rightarrow> int \<Rightarrow> ledger_item" where
  "ex_item i kind direction amount ms =
     \<lparr>li_reference_id = None, li_id = Some i, li_currency = Some ''XXBT'', li_type = Some kind, li_direction = Some direction,
      li_timestamp = Some ms, li_amount = Some amount, li_fee = Fee_None, li_status = Some ''ok'', li_record = i\<rparr>"

definition ex_deposit :: ledger_item where "ex_deposit = ex_item ''D1'' ''deposit'' ''in'' (1 / 2) 1000"
definition ex_withdrawal :: ledger_item where "ex_withdrawal = ex_item ''W1'' ''withdrawal'' ''out'' (1 / 4) 2000"

definition ex_ccxt :: ccxt where
  "ex_ccxt = \<lparr>cx_str = (\<lambda>_. []), cx_fetch_balance = Inr \<lparr>cb_btc_free = Some 0, cb_total = [(''EUR'', 5, ''5.0'')]\<rparr>,
     cx_fetch_transactions = (\<lambda>_ _. Inr []), cx_fetch_ledger = (\<lambda>_ _ _. Inr [ex_withdrawal, ex_deposit]),
     cx_fetch_open_orders = Inr (), cx_withdraw = (\<lambda>_ _. Inr (Some ''w'', None)),
     cx_get_api_key_info = Inr [(''permissions'', JList [JStr ''query-funds'', JStr ''query-ledger''])],
     cx_withdraw_addresses = Inr [], cx_withdraw_status = Inr (), cx_open_orders = Inr (), cx_trade_balance = Inr (),
     cx_earn_strategies = Inr ()\<rparr>"

lemma ex_items:
  "item_kind ex_deposit = ''deposit''" "item_kind ex_withdrawal = ''withdrawal''"
  "is_btc_item ex_deposit" "is_btc_item ex_withdrawal" "li_direction ex_withdrawal = Some ''out''"
  by code_simp+

theorem kraken_ledger_feed_witness:
  "\<exists>es. kraken_fetch_ledger_since ex_ccxt None = Inr (es, Some (ple_timestamp (last es))) \<and>
    ledger_entry_of [ex_withdrawal, ex_deposit] None ex_withdrawal \<in> set es \<and> sorted (map ple_timestamp es)"
proof -
  have "cx_fetch_ledger ex_ccxt None (map_option since_ms None) 200 = Inr [ex_withdrawal, ex_deposit]" by (simp add: ex_ccxt_def)
  from kraken_ledger_feed [OF this] obtain es n where es: "kraken_fetch_ledger_since ex_ccxt None = Inr (es, n)"
    "n = None \<longleftrightarrow> es = []" "n \<noteq> None \<longrightarrow> n = Some (ple_timestamp (last es))" "sorted (map ple_timestamp es)"
    "ledger_entry_of [ex_withdrawal, ex_deposit] None ex_withdrawal \<in> set es"
    using ex_items by auto
  then show ?thesis by (cases n) auto
qed

definition ex_sealed :: "string \<Rightarrow> encrypted_secret" where
  "ex_sealed v = \<lparr>en_ciphertext = encode v, en_nonce = replicate 12 0,
     en_authentication_tag = ex_tag (take 32 (encode ''pw'' @ replicate 32 0))\<rparr>"

definition ex_store :: secret_store where
  "ex_store = \<lparr>ss_key = Some (take 32 (encode ''pw'' @ replicate 32 0)), ss_params = Some (new_parameters (replicate 16 0)),
     ss_secrets = [''k'' \<mapsto> ex_sealed ''key'', ''s'' \<mapsto> ex_sealed ''sec'']\<rparr>"

definition ex_account :: custodial_provider where
  "ex_account = \<lparr>cp_id = 70, cp_holding_id = 1, cp_provider_kind = PK_EXCHANGE, cp_display_name = ''Kraken'',
     cp_adapter_id = ''kraken'', cp_api_credential_reference = ''k'', cp_api_secret_reference = ''s'',
     cp_api_passphrase_reference = None,
     cp_permissions = \<lparr>pp_can_read = True, pp_can_trade = False, pp_can_withdraw = False, pp_overage = [], pp_underage = []\<rparr>,
     cp_whitelist_address = None, cp_whitelist_address_descriptor_id = None, cp_whitelist_verified = False,
     cp_is_active = True, cp_last_polled_at = None, cp_last_error = None, cp_last_known_balance_sats = Some 0,
     cp_connection_status = ''healthy'', cp_consecutive_error_count = 0, cp_ledger_cursor_at = None,
     cp_polling_interval_seconds = 600, cp_observation_key_last_four = None, cp_non_btc_balances = [],
     cp_created_at = 0, cp_updated_at = 0\<rparr>"

definition ex_custody :: db where
  "ex_custody = ex_db\<lparr>custodial_providers := [ex_account]\<rparr>"

definition ex_credentials :: credentials where
  "ex_credentials = \<lparr>cr_api_key = ''key'', cr_api_secret = ''sec'', cr_api_passphrase = None\<rparr>"

lemma ex_read_credentials: "read_credentials ex_crypto ex_store ex_account = Inr ex_credentials"
  by code_simp

lemma ex_cp_get: "cp_get ex_custody 70 = Inr (Some ex_account)"
  by (simp add: cp_get_def ex_custody_def ex_account_def CustodialProvider_def construct_Inr_iff opt_lt_def rbind_eq_Inr_iff)

lemma ex_account_simps [simp]:
  "cp_is_active ex_account" "cp_adapter_id ex_account = ''kraken''" "cp_id ex_account = 70"
  "connection_ok ex_account" "cp_connection_status ex_account = ''healthy''" "cp_consecutive_error_count ex_account = 0"
  by (simp_all add: ex_account_def connection_ok_def)

definition ex_entries :: "provider_ledger_entry list" where
  "ex_entries = [ledger_entry_of [ex_withdrawal, ex_deposit] None ex_deposit,
     ledger_entry_of [ex_withdrawal, ex_deposit] None ex_withdrawal]"

lemma sats_of_float_zero [simp]: "sats_of_float 0 = 0"
  by (simp add: sats_of_float_def double_def round_half_even_def Let_def)

lemma ex_fetch: "fetch_cycle (kraken_adapter ex_ccxt) (cp_get_ledger_cursor ex_custody 70) =
    Inr (0, [(''EUR'', ''5.0'')], ex_entries, Some 2000000)"
proof -
  have ts: "ple_timestamp (ledger_entry_of raw None ex_deposit) = 1000000"
    "ple_timestamp (ledger_entry_of raw None ex_withdrawal) = 2000000" for raw
    by (simp_all add: ledger_entry_of_def ex_deposit_def ex_withdrawal_def ex_item_def ts_to_dt_def)
  have "kraken_fetch_ledger_since ex_ccxt None = Inr (ex_entries, Some 2000000)"
    using ex_items by (simp add: kraken_fetch_ledger_since_def ex_ccxt_def call_def ex_entries_def ts Let_def)
  moreover have "cp_get_ledger_cursor ex_custody 70 = None"
    by (simp add: cp_get_ledger_cursor_def ex_custody_def ex_account_def)
  ultimately show ?thesis
    by (simp add: fetch_cycle_def kraken_adapter_def get_balance_of_def get_other_balances_of_def call_def ex_ccxt_def
        rbind_def get_or_def)
qed

section \<open>Polling it\<close>

definition ex_ids :: "nat \<Rightarrow> uuid" where "ex_ids n = 500 + n"
definition ex_exchanges :: exchanges where "ex_exchanges = (\<lambda>_ _. ex_ccxt)"

lemma ex_build: "build_adapter ex_exchanges (cp_adapter_id ex_account) ex_credentials = Inr (kraken_adapter ex_ccxt)"
  by (simp add: ex_exchanges_def)

lemma ex_feed_ok: "feed_ok ex_entries"
  using ex_items
  by (simp add: feed_ok_def ex_entries_def ledger_entry_of_def VALID_KINDS_def)
     (simp add: ex_deposit_def ex_withdrawal_def ex_item_def or_str_def)

lemma ex_no_rows: "custodial_ledger ex_custody = []"
  by (simp add: ex_custody_def ex_db_def empty_db_def)

lemma ex_mirror: "mirror_inv ex_custody" "row_ids ex_custody = {}" "mirror ex_custody k = None"
  by (simp_all add: mirror_inv_def row_ids_def mirror_def ex_no_rows)

theorem polling_mirrors_feed_witness:
  "\<exists>out evs t. poll_cycle ex_crypto ex_exchanges 9 ex_ids 70 (ex_custody, ex_store) = (Inr out, evs, (t, ex_store)) \<and>
    po_rows_added out = 2 \<and> po_rows_updated out = 0 \<and>
    (\<exists>r. mirror t (70, ''W1'') = Some r \<and> cle_kind r = ''withdrawal'')"
proof -
  have ids: "inj ex_ids" "\<forall>k. ex_ids k \<notin> row_ids ex_custody" by (simp_all add: inj_def ex_ids_def ex_mirror)
  from polling_mirrors_feed [OF ex_cp_get _ ex_read_credentials ex_build ex_fetch _ ex_mirror(1) ex_feed_ok ids, of 9]
  obtain out evs t where
    t: "poll_cycle ex_crypto ex_exchanges 9 ex_ids 70 (ex_custody, ex_store) = (Inr out, evs, (t, ex_store))" and
    row: "\<forall>e \<in> set ex_entries. \<exists>r. mirror t (entry_of ex_account e) = Some r \<and> reflects e r \<and>
      (\<forall>old. mirror ex_custody (entry_of ex_account e) = Some old \<longrightarrow> links_of r = links_of old)" and
    n: "po_rows_added out = length (filter (\<lambda>e. mirror ex_custody (entry_of ex_account e) = None) ex_entries)"
    "po_rows_updated out = length (filter (\<lambda>e. \<exists>old. mirror ex_custody (entry_of ex_account e) = Some old \<and> \<not> reflects e old) ex_entries)"
    by auto
  from n have "po_rows_added out = 2" "po_rows_updated out = 0" by (simp_all add: ex_mirror ex_entries_def)
  moreover have "entry_of ex_account (ledger_entry_of [ex_withdrawal, ex_deposit] None ex_withdrawal) = (70, ''W1'')"
    by (simp add: entry_of_def ledger_entry_of_def ex_withdrawal_def ex_item_def or_str_def)
  with row have "\<exists>r. mirror t (70, ''W1'') = Some r \<and> cle_kind r = ''withdrawal''"
    using ex_items(2) by (auto simp: ex_entries_def reflects_def ledger_entry_of_def)
  ultimately show ?thesis using t by blast
qed

definition ex_mirrored :: db where
  "ex_mirrored = ex_custody\<lparr>custodial_ledger :=
     [mirror_row 9 500 ex_account (ex_entries ! 0), mirror_row 9 501 ex_account (ex_entries ! 1)]\<rparr>"

lemma ex_mirrored_rows:
  "mirror_inv ex_mirrored" "cp_get ex_mirrored 70 = Inr (Some ex_account)"
  "cp_get_ledger_cursor ex_mirrored 70 = cp_get_ledger_cursor ex_custody 70"
  "\<forall>e \<in> set ex_entries. \<exists>r. mirror ex_mirrored (entry_of ex_account e) = Some r \<and> reflects e r"
proof -
  have ids: "ple_provider_entry_id (ledger_entry_of raw since ex_deposit) = ''D1''"
    "ple_provider_entry_id (ledger_entry_of raw since ex_withdrawal) = ''W1''" for raw since
    by (simp_all add: ledger_entry_of_def ex_deposit_def ex_withdrawal_def ex_item_def or_str_def)
  show "mirror_inv ex_mirrored" by (simp add: mirror_inv_def ex_mirrored_def ex_entries_def entry_of_def ids)
  show "cp_get ex_mirrored 70 = Inr (Some ex_account)" using ex_cp_get by (simp add: cp_get_def ex_mirrored_def)
  show "cp_get_ledger_cursor ex_mirrored 70 = cp_get_ledger_cursor ex_custody 70"
    by (simp add: cp_get_ledger_cursor_def ex_mirrored_def)
  have "reflects e (mirror_row now rid p e)" for e now rid p by (simp add: reflects_def mirror_row_def)
  then show "\<forall>e \<in> set ex_entries. \<exists>r. mirror ex_mirrored (entry_of ex_account e) = Some r \<and> reflects e r"
    by (simp add: mirror_def ex_mirrored_def ex_entries_def entry_of_def ids)
qed

theorem repeated_poll_adds_nothing_witness:
  "\<exists>out t. poll_cycle ex_crypto ex_exchanges 9 ex_ids 70 (ex_mirrored, ex_store) =
      (Inr out, cycle_events ex_account 0 [] [] 9, (t, ex_store)) \<and>
    custodial_ledger t = custodial_ledger ex_mirrored \<and> po_rows_unchanged out = 2"
  using repeated_poll_adds_nothing [OF ex_mirrored_rows(2) _ ex_read_credentials ex_build
      ex_fetch [folded ex_mirrored_rows(3)] _ ex_mirrored_rows(1) ex_feed_ok ex_mirrored_rows(4), of 9 ex_ids]
  by (auto simp: ex_entries_def)

theorem connection_follows_polls_witness:
  "\<exists>q. find_row cp_id 70 (custodial_providers (fst (snd (snd
      (poll_cycle ex_crypto ex_exchanges 9 ex_ids 70 (ex_custody, ex_store)))))) = Some q \<and> connection_ok q"
proof -
  obtain r evs t ss where run: "poll_cycle ex_crypto ex_exchanges 9 ex_ids 70 (ex_custody, ex_store) = (r, evs, (t, ss))"
    by (metis prod_cases4)
  from connection_follows_polls [OF ex_cp_get run] show ?thesis by (auto simp: run)
qed

definition ex_down :: exchanges where
  "ex_down = (\<lambda>_ _. ex_ccxt\<lparr>cx_fetch_balance := Inl (CX_Network ''down'')\<rparr>)"

theorem outage_is_noticed_witness:
  "\<exists>t q. polls ex_crypto ex_down 70 (replicate 5 (9, ex_ids)) (ex_custody, ex_store) = (t, ex_store) \<and>
    cp_get t 70 = Inr (Some q) \<and> cp_connection_status q = ''unreachable'' \<and> cp_consecutive_error_count q = 5"
proof -
  have build: "build_adapter ex_down (cp_adapter_id ex_account) ex_credentials =
      Inr (kraken_adapter (ex_ccxt\<lparr>cx_fetch_balance := Inl (CX_Network ''down'')\<rparr>))"
    by (simp add: ex_down_def)
  have "\<exists>m. fetch_cycle (kraken_adapter (ex_ccxt\<lparr>cx_fetch_balance := Inl (CX_Network ''down'')\<rparr>)) cursor = Inl (P_Error m)" for cursor
    by (simp add: fetch_cycle_def kraken_adapter_def get_balance_of_def call_def call_exn_def rbind_def)
  from outage_is_noticed [OF ex_cp_get _ ex_read_credentials build this, of "replicate 5 (9, ex_ids)"]
  show ?thesis by auto
qed

section \<open>Reconciling\<close>

definition ex_execution :: sweep_execution where
  "ex_execution = new_execution 80 2000000 60 TRG_MANUAL 100000000 25000000 SES_DISPATCHED"

definition ex_sweeping :: db where
  "ex_sweeping = ex_mirrored\<lparr>sweep_policies := [(ex_policy True [])\<lparr>sp_id := 60, sp_source_holding_id := 5, sp_destination_holding_id := 1\<rparr>],
     sweep_executions := [ex_execution]\<rparr>"

theorem withdrawals_never_reconcile_witness:
  "on_entry_added 10 (payload_of 1 (mirror_row 9 501 ex_account
      (ledger_entry_of [ex_withdrawal, ex_deposit] None ex_withdrawal))) ex_sweeping = mark_unmatched 10 501 ex_sweeping"
proof -
  have "\<forall>e \<in> set (sweep_executions ex_sweeping). 10000 < se_intended_amount_sats e"
    by (simp add: ex_sweeping_def ex_execution_def new_execution_def)
  from withdrawals_never_reconcile [OF ex_items(2,5) this] show ?thesis .
qed

definition ex_arrival :: custodial_ledger_row where
  "ex_arrival = (mirror_row 9 500 ex_account (ex_entries ! 0))\<lparr>cle_amount_sats := 24900000, cle_timestamp := 3000000\<rparr>"

lemma ex_inflow: "inflow_candidates 1 24900000 3000000 ex_sweeping = [ex_execution]"
proof -
  have "\<bar>24900000 - 25000000\<bar> \<le> tolerance 25000000"
  proof -
    have "double (of_int 25000000) = 25000000" "double (25000000 * double (2 / 100)) \<ge> 200000"
      by code_simp+
    then have "200000 \<le> trunc (double (25000000 * double (2 / 100)))" 
      unfolding trunc_def using le_floor_iff [of 200000 "double (25000000 * double (2 / 100))"] by (simp only: of_int_numeral) simp
    then show ?thesis using \<open>double (of_int 25000000) = 25000000\<close> by (simp add: tolerance_def le_max_iff_disj)
  qed
  then show ?thesis
    by (simp add: inflow_candidates_def candidates_def ex_sweeping_def ex_execution_def new_execution_def within_tolerance_def
        INFLOW_STATUSES_def INFLOW_WINDOW_def)
qed

theorem reconciler_links_unambiguous_witness:
  "\<exists>e \<in> set (sweep_executions ex_sweeping). se_id e = 80 \<and> sweep_candidates 1 ex_arrival ex_sweeping = [e]"
proof -
  let ?t = "on_entry_added 10 (payload_of 1 ex_arrival) ex_sweeping"
  have kind: "cle_kind ex_arrival = ''deposit''" "cle_id ex_arrival = 500" "cle_amount_sats ex_arrival = 24900000"
    "cle_timestamp ex_arrival = 3000000"
    using ex_items(1) by (simp_all add: ex_arrival_def ex_entries_def mirror_row_def ledger_entry_of_def)
  have t: "?t = set_reconciled 10 500 (Some 80) (counterparty sp_source_holding_id ex_execution ex_sweeping) None ex_sweeping"
    using kind ex_inflow
    by (simp add: on_entry_added_def payload_of_def reconcile_inflow_def bnd_def gets_def modify_def)
       (simp add: ex_execution_def new_execution_def)
  let ?r = "reconciled_row 10 (Some 80) (counterparty sp_source_holding_id ex_execution ex_sweeping) None
      (mirror_row 9 500 ex_account (ex_entries ! 0))"
  have "?r \<in> set (custodial_ledger ?t)"
    unfolding t by (simp add: set_reconciled_def ex_sweeping_def ex_mirrored_def update_rows_def)
  moreover have "\<forall>r \<in> set (custodial_ledger ex_sweeping). cle_linked_sweep_execution_id r \<noteq> Some 80"
    by (simp add: ex_sweeping_def ex_mirrored_def mirror_row_def)
  ultimately show ?thesis
    using reconciler_links_unambiguous [of 10 1 ex_arrival ex_sweeping ?t ?r 80] by (auto simp: reconciled_row_def)
qed

end
