(* ===== verification/Holdings.thy ===== *)
theory Holdings
  imports Holding_Deletion Descriptor_Adapter
begin

text \<open>
  Holdings: the rest of \<^verbatim>\<open>repositories/holding.py\<close> (insert, list, update, type change) and
  \<^verbatim>\<open>services/holding_service.py\<close> (descriptor import, creation of Purses, Strongboxes and Vaults,
  update, deletion, type change), with the handlers of \<^verbatim>\<open>api/v1/holdings.py\<close> that decide about the commit.

  The JSON column \<^verbatim>\<open>subtype_data\<close> is the record \<open>subtype_data\<close> of its possible keys; an absent key
  is \<open>None\<close>.  bdkpython is the argument of the descriptor adapter.  Rows take their creation
  time from the database clock, \<open>db_now\<close>, objects from the application's, \<open>now\<close>.

  The lemmas show that a created holding reads back as the object the creation returned, that
  creation either commits all its rows or none, and what a type change can and cannot do.
\<close>

section \<open>Repository\<close>

record subtype_data =
  st_purse_mode :: "purse_mode option"
  st_signing_device_label :: "string option"
  st_vendor :: "string option"
  st_signing_metadata_present :: "bool option"
  st_required_signers :: "int option"
  st_total_signers :: "int option"
  st_timelock_kind :: "string option"
  st_timelock_value :: "int option"
  st_recovery_setup_notes :: "string option"

definition no_subtype :: subtype_data where
  "no_subtype = \<lparr>st_purse_mode = None, st_signing_device_label = None, st_vendor = None,
     st_signing_metadata_present = None, st_required_signers = None, st_total_signers = None,
     st_timelock_kind = None, st_timelock_value = None, st_recovery_setup_notes = None\<rparr>"

definition with_subtype :: "subtype_data \<Rightarrow> holding \<Rightarrow> holding" where
  "with_subtype st h =
     h\<lparr>h_purse_mode := st_purse_mode st, h_signing_device_label := st_signing_device_label st,
       h_vendor := st_vendor st, h_signing_metadata_present := st_signing_metadata_present st,
       h_required_signers := st_required_signers st, h_total_signers := st_total_signers st,
       h_timelock_kind := st_timelock_kind st, h_timelock_value := st_timelock_value st,
       h_recovery_setup_notes := st_recovery_setup_notes st\<rparr>"

text \<open>\<^verbatim>\<open>_build_subtype_data\<close> writes the Strongbox keys for a Strongbox, the Vault keys for a Vault and
  nothing else.\<close>

definition build_subtype_data :: "holding \<Rightarrow> subtype_data" where
  "build_subtype_data h =
     (if h_holding_type h = HT_STRONGBOX then
        no_subtype\<lparr>st_signing_device_label := h_signing_device_label h, st_vendor := h_vendor h,
          st_signing_metadata_present := h_signing_metadata_present h\<rparr>
      else if h_holding_type h = HT_VAULT then
        no_subtype\<lparr>st_required_signers := h_required_signers h, st_total_signers := h_total_signers h,
          st_timelock_kind := h_timelock_kind h, st_timelock_value := h_timelock_value h,
          st_recovery_setup_notes := h_recovery_setup_notes h\<rparr>
      else no_subtype)"

record holding_fields =
  hf_holding_type :: holding_type
  hf_name :: string
  hf_description :: "string option"
  hf_purpose :: purpose
  hf_declared_security :: security_claim
  hf_display_color :: string
  hf_display_order :: int

definition holding_row :: "timestamp \<Rightarrow> uuid \<Rightarrow> holding_fields \<Rightarrow> subtype_data \<Rightarrow> holding" where
  "holding_row at_time hid f st =
     \<lparr>h_id = hid, h_holding_type = hf_holding_type f, h_name = hf_name f,
      h_description = hf_description f, h_purpose = hf_purpose f,
      h_declared_security = hf_declared_security f, h_display_color = hf_display_color f,
      h_display_order = hf_display_order f, h_created_at = at_time, h_updated_at = at_time,
      h_custodial_provider_id = None, h_descriptor_ids = [], h_purse_mode = st_purse_mode st,
      h_signing_device_label = st_signing_device_label st, h_vendor = st_vendor st,
      h_signing_metadata_present = st_signing_metadata_present st,
      h_required_signers = st_required_signers st, h_total_signers = st_total_signers st,
      h_timelock_kind = st_timelock_kind st, h_timelock_value = st_timelock_value st,
      h_recovery_setup_notes = st_recovery_setup_notes st\<rparr>"

definition fields_of :: "holding \<Rightarrow> holding_fields" where
  "fields_of h = \<lparr>hf_holding_type = h_holding_type h, hf_name = h_name h,
     hf_description = h_description h, hf_purpose = h_purpose h,
     hf_declared_security = h_declared_security h, hf_display_color = h_display_color h,
     hf_display_order = h_display_order h\<rparr>"

definition insert_row :: "timestamp \<Rightarrow> uuid \<Rightarrow> holding_fields \<Rightarrow> subtype_data \<Rightarrow> db \<Rightarrow> db" where
  "insert_row db_now hid f st = holdings_update (\<lambda>hs. hs @ [holding_row db_now hid f st])"

definition holding_insert :: "timestamp \<Rightarrow> holding \<Rightarrow> db \<Rightarrow> db" where
  "holding_insert db_now h = insert_row db_now (h_id h) (fields_of h) (build_subtype_data h)"

definition list_holding_rows :: "db \<Rightarrow> holding_type option \<Rightarrow> purpose option \<Rightarrow> holding list" where
  "list_holding_rows s ht pur =
     sort_key h_display_order (sort_key h_created_at
       (filter (\<lambda>h. (ht = None \<or> ht = Some (h_holding_type h)) \<and> (pur = None \<or> pur = Some (h_purpose h)))
         (holdings s)))"

text \<open>The \<^verbatim>\<open>_UNSET\<close> sentinel distinguishes an absent argument from \<^verbatim>\<open>None\<close>.\<close>

datatype 'a arg = UNSET | SET 'a

record holding_patch =
  hp_name :: "string option"
  hp_description :: "string option"
  hp_purpose :: "purpose option"
  hp_display_color :: "string option"
  hp_display_order :: "int option"
  hp_declared_security :: "security_claim option"
  hp_signing_device_label :: "string option arg"
  hp_recovery_setup_notes :: "string option arg"

definition set_basics :: "holding_patch \<Rightarrow> holding \<Rightarrow> holding" where
  "set_basics f h =
     h\<lparr>h_name := given (hp_name f) (h_name h),
       h_description := or_old (hp_description f) (h_description h),
       h_purpose := given (hp_purpose f) (h_purpose h),
       h_display_color := given (hp_display_color f) (h_display_color h),
       h_display_order := given (hp_display_order f) (h_display_order h),
       h_declared_security := given (hp_declared_security f) (h_declared_security h)\<rparr>"

definition set_label :: "holding_patch \<Rightarrow> holding \<Rightarrow> holding" where
  "set_label f h = (case hp_signing_device_label f of UNSET \<Rightarrow> h | SET l \<Rightarrow> h\<lparr>h_signing_device_label := l\<rparr>)"

definition set_notes :: "holding_patch \<Rightarrow> holding \<Rightarrow> holding" where
  "set_notes f h = (case hp_recovery_setup_notes f of UNSET \<Rightarrow> h | SET n \<Rightarrow> h\<lparr>h_recovery_setup_notes := n\<rparr>)"

definition write_holding :: "uuid \<Rightarrow> (holding \<Rightarrow> holding) \<Rightarrow> db \<Rightarrow> db" where
  "write_holding hid f = holdings_update (update_rows h_id hid f)"

definition update_basics :: "timestamp \<Rightarrow> uuid \<Rightarrow> holding_patch \<Rightarrow> holding option service" where
  "update_basics now hid f =
     bnd (gets (\<lambda>s. find_row h_id hid (holdings s))) (\<lambda>row.
     case row of
       None \<Rightarrow> ret None
     | Some h \<Rightarrow>
         bnd (modify (write_holding hid (set_basics f))) (\<lambda>_.
         bnd (raise_if (hp_signing_device_label f \<noteq> UNSET \<and> h_holding_type h \<noteq> HT_STRONGBOX)
                (ValueError V_Strongbox_only)) (\<lambda>_.
         bnd (modify (write_holding hid (set_label f))) (\<lambda>_.
         bnd (raise_if (hp_recovery_setup_notes f \<noteq> UNSET \<and> h_holding_type h \<noteq> HT_VAULT)
                (ValueError V_Vault_only)) (\<lambda>_.
         bnd (modify (write_holding hid (\<lambda>h. (set_notes f h)\<lparr>h_updated_at := now\<rparr>))) (\<lambda>_.
         gets (\<lambda>s. find_row h_id hid (holdings s))))))))"

definition change_type ::
  "timestamp \<Rightarrow> uuid \<Rightarrow> uuid \<Rightarrow> holding_type \<Rightarrow> string option \<Rightarrow> holding option service" where
  "change_type now log_id hid new_type reason =
     bnd (gets (\<lambda>s. find_row h_id hid (holdings s))) (\<lambda>row.
     case row of
       None \<Rightarrow> ret None
     | Some h \<Rightarrow>
         bnd (modify (type_change_logs_update (\<lambda>ls. ls @ [\<lparr>tl_id = log_id, tl_holding_id = hid,
                tl_previous_type = h_holding_type h, tl_new_type = new_type, tl_reason = reason\<rparr>]))) (\<lambda>_.
         bnd (modify (write_holding hid (\<lambda>h. h\<lparr>h_holding_type := new_type, h_updated_at := now\<rparr>))) (\<lambda>_.
         gets (\<lambda>s. find_row h_id hid (holdings s)))))"

section \<open>Importing descriptors\<close>

record descriptor_input =
  di_name :: string
  di_expression :: string
  di_change_expression :: "string option"
  di_network :: network
  di_gap_limit :: int

text \<open>\<^verbatim>\<open>except (DescriptorParseError, UnsupportedDescriptorError)\<close>.\<close>

definition as_service_error :: "exn + 'a \<Rightarrow> exn + 'a" where
  "as_service_error r =
     (case r of Inr x \<Rightarrow> Inr x
      | Inl e \<Rightarrow> Inl (if e = DescriptorParseError \<or> e = UnsupportedDescriptorError
                     then HoldingServiceError else e))"

definition bip44_path :: "string \<Rightarrow> string" where
  "bip44_path purpose = ''m/'' @ purpose @ [CHR 0x27] @ ''/0'' @ [CHR 0x27] @ ''/0'' @ [CHR 0x27]"

fun derivation_root :: "address_type \<Rightarrow> string" where
  "derivation_root AT_LEGACY = bip44_path ''44''"
| "derivation_root AT_NESTED_SEGWIT = bip44_path ''49''"
| "derivation_root AT_NATIVE_SEGWIT = bip44_path ''84''"
| "derivation_root AT_TAPROOT = bip44_path ''86''"
| "derivation_root _ = ''m/0''"

definition new_descriptor ::
  "timestamp \<Rightarrow> uuid \<Rightarrow> uuid \<Rightarrow> descriptor_input \<Rightarrow> address_type \<Rightarrow> descriptor" where
  "new_descriptor at_time did hid spec atype =
     \<lparr>d_id = did, d_holding_id = hid, d_name = di_name spec, d_expression = di_expression spec,
      d_change_expression = di_change_expression spec, d_network = di_network spec,
      d_address_type = atype, d_gap_limit = di_gap_limit spec, d_is_watch_only = True,
      d_last_scanned_height = 0, d_created_at = at_time\<rparr>"

definition new_address ::
  "timestamp \<Rightarrow> uuid \<Rightarrow> string \<Rightarrow> bool \<Rightarrow> uuid \<times> derived_address \<Rightarrow> address" where
  "new_address at_time did path_root change ad =
     \<lparr>a_id = fst ad, a_descriptor_id = did, a_address = da_address (snd ad),
      a_derivation_path = path_root @ (if change then ''/1/'' else ''/0/'') @ int_str (da_derivation_index (snd ad)),
      a_is_change = change, a_derivation_index = da_derivation_index (snd ad), a_label = None,
      a_first_seen_height = None, a_is_reused = False, a_created_at = at_time\<rparr>"

text \<open>The \<^verbatim>\<open>uuid4()\<close> draws of one import: the descriptor's id and those of the external and change
  addresses by position.\<close>

record import_draws =
  id_descriptor :: uuid
  id_external :: "nat \<Rightarrow> uuid"
  id_change :: "nat \<Rightarrow> uuid"

definition drawn :: "(nat \<Rightarrow> uuid) \<Rightarrow> 'a list \<Rightarrow> (uuid \<times> 'a) list" where
  "drawn ids xs = zip (map ids [0..<length xs]) xs"

definition check_change ::
  "bdk_parser \<Rightarrow> descriptor_input \<Rightarrow> bool \<Rightarrow> parsed_descriptor \<Rightarrow> exn + unit" where
  "check_change bdk spec allow external =
     (case di_change_expression spec of
        None \<Rightarrow> Inr ()
      | Some c \<Rightarrow>
          rbind (as_service_error (parse bdk c (di_network spec) allow)) (\<lambda>change.
          if pd_address_type change \<noteq> pd_address_type external then Inl HoldingServiceError else Inr ()))"

definition derived_rows ::
  "bdk_parser \<Rightarrow> timestamp \<Rightarrow> import_draws \<Rightarrow> descriptor_input \<Rightarrow> bool \<Rightarrow> string \<Rightarrow> exn + address list" where
  "derived_rows bdk db_now dr spec allow path_root =
     rbind (derive_addresses bdk (di_expression spec) (di_network spec) 0 (di_gap_limit spec) allow) (\<lambda>ext.
     rbind (rmap Address (map (new_address db_now (id_descriptor dr) path_root False) (drawn (id_external dr) ext))) (\<lambda>as.
     case di_change_expression spec of
       None \<Rightarrow> Inr as
     | Some c \<Rightarrow>
         rbind (derive_addresses bdk c (di_network spec) 0 (di_gap_limit spec) allow) (\<lambda>chg.
         rbind (rmap Address (map (new_address db_now (id_descriptor dr) path_root True) (drawn (id_change dr) chg))) (\<lambda>bs.
         Inr (as @ bs)))))"

definition import_descriptor ::
  "bdk_parser \<Rightarrow> db \<Rightarrow> timestamp \<Rightarrow> import_draws \<Rightarrow> uuid \<Rightarrow> descriptor_input \<Rightarrow> bool \<Rightarrow> (descriptor \<times> address list) service" where
  "import_descriptor bdk base db_now dr hid spec allow =
     bnd (lift_result (as_service_error (parse bdk (di_expression spec) (di_network spec) allow))) (\<lambda>external.
     bnd (lift_result (check_change bdk spec allow external)) (\<lambda>_.
     bnd (lift_result (Descriptor (new_descriptor db_now (id_descriptor dr) hid spec (pd_address_type external)))) (\<lambda>d.
     bnd (insert_descriptor base d) (\<lambda>_.
     bnd (lift_result (derived_rows bdk db_now dr spec allow (derivation_root (pd_address_type external)))) (\<lambda>as.
     bnd (modify (insert_addresses as)) (\<lambda>_.
     ret (d, as)))))))"

fun import_descriptors ::
  "bdk_parser \<Rightarrow> db \<Rightarrow> timestamp \<Rightarrow> (nat \<Rightarrow> import_draws) \<Rightarrow> uuid \<Rightarrow> nat \<Rightarrow> bool \<Rightarrow> descriptor_input list \<Rightarrow> uuid list service" where
  "import_descriptors bdk base db_now drs hid n allow [] = ret []"
| "import_descriptors bdk base db_now drs hid n allow (spec # specs) =
     bnd (import_descriptor bdk base db_now (drs n) hid spec allow) (\<lambda>(d, _).
     bnd (import_descriptors bdk base db_now drs hid (Suc n) allow specs) (\<lambda>ids.
     ret (d_id d # ids)))"

section \<open>Creation\<close>

text \<open>The object the service returns, built from the same arguments as the row.\<close>

definition create_holding_with_descriptors ::
  "bdk_parser \<Rightarrow> db \<Rightarrow> timestamp \<Rightarrow> timestamp \<Rightarrow> uuid \<Rightarrow> (nat \<Rightarrow> import_draws) \<Rightarrow> holding_fields \<Rightarrow>
   subtype_data \<Rightarrow> subtype_data \<Rightarrow> bool \<Rightarrow> descriptor_input list \<Rightarrow> holding service" where
  "create_holding_with_descriptors bdk base now db_now hid drs f st extra allow specs =
     bnd (modify (insert_row db_now hid f st)) (\<lambda>_.
     bnd (import_descriptors bdk base db_now drs hid 0 allow specs) (\<lambda>ids.
     lift_result (Holding ((holding_row now hid f extra)\<lparr>h_descriptor_ids := ids\<rparr>))))"

definition create_purse ::
  "bdk_parser \<Rightarrow> db \<Rightarrow> timestamp \<Rightarrow> timestamp \<Rightarrow> uuid \<Rightarrow> (nat \<Rightarrow> import_draws) \<Rightarrow> holding_fields \<Rightarrow>
   purse_mode \<Rightarrow> descriptor_input list \<Rightarrow> holding service" where
  "create_purse bdk base now db_now hid drs f mode specs =
     create_holding_with_descriptors bdk base now db_now hid drs (f\<lparr>hf_holding_type := HT_PURSE\<rparr>)
       (no_subtype\<lparr>st_purse_mode := Some mode\<rparr>) (no_subtype\<lparr>st_purse_mode := Some mode\<rparr>) False specs"

definition create_strongbox ::
  "bdk_parser \<Rightarrow> db \<Rightarrow> timestamp \<Rightarrow> timestamp \<Rightarrow> uuid \<Rightarrow> (nat \<Rightarrow> import_draws) \<Rightarrow> holding_fields \<Rightarrow>
   string option \<Rightarrow> string option \<Rightarrow> bool option \<Rightarrow> descriptor_input list \<Rightarrow> holding service" where
  "create_strongbox bdk base now db_now hid drs f label vendor metadata specs =
     (let st = no_subtype\<lparr>st_signing_device_label := label, st_vendor := vendor,
                 st_signing_metadata_present := metadata\<rparr>
      in create_holding_with_descriptors bdk base now db_now hid drs (f\<lparr>hf_holding_type := HT_STRONGBOX\<rparr>)
           st st False specs)"

definition vault_subtype :: "parsed_descriptor \<Rightarrow> string option \<Rightarrow> subtype_data" where
  "vault_subtype p notes =
     no_subtype\<lparr>st_required_signers := pd_required_signers p, st_total_signers := pd_total_signers p,
       st_timelock_kind := pd_timelock_kind p, st_timelock_value := pd_timelock_value p,
       st_recovery_setup_notes := notes\<rparr>"

definition create_vault ::
  "bdk_parser \<Rightarrow> db \<Rightarrow> timestamp \<Rightarrow> timestamp \<Rightarrow> uuid \<Rightarrow> (nat \<Rightarrow> import_draws) \<Rightarrow> holding_fields \<Rightarrow>
   string option \<Rightarrow> descriptor_input list \<Rightarrow> holding service" where
  "create_vault bdk base now db_now hid drs f notes specs =
     (case specs of
        [] \<Rightarrow> raise HoldingServiceError
      | first # _ \<Rightarrow>
          bnd (lift_result (as_service_error (parse bdk (di_expression first) (di_network first) True))) (\<lambda>p.
          bnd (raise_if (\<not> (pd_is_multisig p \<or> pd_timelock_kind p \<noteq> None)) HoldingServiceError) (\<lambda>_.
          create_holding_with_descriptors bdk base now db_now hid drs (f\<lparr>hf_holding_type := HT_VAULT\<rparr>)
            (vault_subtype p notes) (vault_subtype p notes) True specs)))"

section \<open>List, update, delete, type change\<close>

definition list_holdings :: "db \<Rightarrow> holding_type option \<Rightarrow> purpose option \<Rightarrow> exn + holding list" where
  "list_holdings s ht pur =
     (let rows = list_holding_rows s ht pur;
          accounts = map h_id (filter (\<lambda>r. h_holding_type r = HT_ACCOUNT) rows);
          cp_by_holding = map_of (rev (map (\<lambda>p. (cp_holding_id p, cp_id p))
            (filter (\<lambda>p. cp_holding_id p \<in> set accounts) (custodial_providers s))))
      in rmap (\<lambda>r. holding_row_to_domain r (descriptor_ids_for_holding s (h_id r))
           (if h_holding_type r = HT_ACCOUNT then cp_by_holding (h_id r) else None)) rows)"

definition provider_id_of :: "db \<Rightarrow> uuid \<Rightarrow> exn + uuid option" where
  "provider_id_of s hid =
     (case one_or_none (\<lambda>p. cp_holding_id p = hid) (custodial_providers s) of
        SelMany \<Rightarrow> Inl MultipleResultsFound | SelNone \<Rightarrow> Inr None | SelOne p \<Rightarrow> Inr (Some (cp_id p)))"

definition update_holding :: "timestamp \<Rightarrow> uuid \<Rightarrow> holding_patch \<Rightarrow> holding option service" where
  "update_holding now hid f =
     bnd (update_basics now hid f) (\<lambda>row.
     case row of
       None \<Rightarrow> ret None
     | Some r \<Rightarrow>
         bnd (gets (\<lambda>s. descriptor_ids_for_holding s hid)) (\<lambda>ds.
         bnd (readr (\<lambda>s. provider_id_of s hid)) (\<lambda>cp.
         bnd (lift_result (holding_row_to_domain r ds cp)) (\<lambda>h. ret (Some h)))))"

text \<open>The references whose secrets are wiped (best effort) before the rows go.\<close>

definition wiped_references :: "custodial_provider option \<Rightarrow> string list" where
  "wiped_references provider =
     (case provider of
        None \<Rightarrow> []
      | Some p \<Rightarrow> filter (\<lambda>ref. ref \<noteq> [])
          ([cp_api_credential_reference p, cp_api_secret_reference p] @
           (case cp_api_passphrase_reference p of None \<Rightarrow> [] | Some r \<Rightarrow> [r])))"

definition delete_holding :: "uuid \<Rightarrow> (bool \<times> string list) service" where
  "delete_holding hid =
     bnd (gets (\<lambda>s. find_row h_id hid (holdings s))) (\<lambda>row.
     case row of
       None \<Rightarrow> ret (False, [])
     | Some h \<Rightarrow>
         bnd (if h_holding_type h = HT_ACCOUNT then readr (\<lambda>s. cp_get_by_holding_id s hid)
              else ret None) (\<lambda>provider.
         bnd (delete_cascade hid) (\<lambda>deleted. ret (deleted, wiped_references provider))))"

definition change_holding_type ::
  "timestamp \<Rightarrow> uuid \<Rightarrow> uuid \<Rightarrow> holding_type \<Rightarrow> string option \<Rightarrow> holding option service" where
  "change_holding_type now log_id hid new_type reason =
     bnd (raise_if (new_type = HT_ACCOUNT) HoldingServiceError) (\<lambda>_.
     bnd (gets (\<lambda>s. descriptor_ids_for_holding s hid)) (\<lambda>ds.
     bnd (raise_if (ds = [] \<and> new_type \<in> {HT_PURSE, HT_STRONGBOX, HT_VAULT}) HoldingServiceError) (\<lambda>_.
     bnd (change_type now log_id hid new_type reason) (\<lambda>row.
     case row of
       None \<Rightarrow> ret None
     | Some r \<Rightarrow> bnd (lift_result (holding_row_to_domain r ds None)) (\<lambda>h. ret (Some h))))))"

section \<open>Handlers\<close>

text \<open>Status of an exception that reaches the client.  \<^verbatim>\<open>HoldingServiceError\<close> and the adapter's errors
  are \<^verbatim>\<open>ValueError\<close>s; what no clause catches is a 500.\<close>

definition is_value_error :: "exn \<Rightarrow> bool" where
  "is_value_error e \<longleftrightarrow> (case e of
      ValueError _ \<Rightarrow> True | HoldingServiceError \<Rightarrow> True | DescriptorParseError \<Rightarrow> True
    | UnsupportedDescriptorError \<Rightarrow> True | _ \<Rightarrow> False)"

definition create_http :: "exn \<Rightarrow> int" where
  "create_http e = (if e = DescriptorAlreadyExists then 409 else if is_value_error e then 422 else 500)"

definition api_create :: "(db \<Rightarrow> holding service) \<Rightarrow> db \<Rightarrow> (int + holding) \<times> db" where
  "api_create service s =
     (case service s s of (Inr h, t) \<Rightarrow> (Inr h, t) | (Inl e, _) \<Rightarrow> (Inl (create_http e), s))"

definition api_delete_holding :: "uuid \<Rightarrow> db \<Rightarrow> (int + string list) \<times> db" where
  "api_delete_holding hid s =
     (case delete_holding hid s of
        (Inl e, _) \<Rightarrow> (Inl 500, s)
      | (Inr (deleted, refs), t) \<Rightarrow> if deleted then (Inr refs, t) else (Inl 404, s))"

definition api_change_holding_type ::
  "timestamp \<Rightarrow> uuid \<Rightarrow> uuid \<Rightarrow> holding_type \<Rightarrow> string option \<Rightarrow> db \<Rightarrow> (int + holding) \<times> db" where
  "api_change_holding_type now log_id hid new_type reason s =
     (case change_holding_type now log_id hid new_type reason s of
        (Inl e, _) \<Rightarrow> (Inl (if is_value_error e then 422 else 500), s)
      | (Inr None, t) \<Rightarrow> (Inl 404, t)
      | (Inr (Some h), t) \<Rightarrow> (Inr h, t))"

section \<open>What an import writes\<close>

lemma as_service_error_Inr [simp]: "as_service_error r = Inr x \<longleftrightarrow> r = Inr x"
  by (auto simp: as_service_error_def split: sum.splits)

lemma Descriptor_id: "Descriptor d = Inr d' \<Longrightarrow> d' = d"
  by (simp add: Descriptor_def construct_Inr_iff)

lemma insert_descriptor_Inr_iff:
  "insert_descriptor base d s = (Inr u, t) \<longleftrightarrow>
     d_expression d \<notin> d_expression ` set (descriptors s) \<and> d_id d \<notin> d_id ` set (descriptors s) \<and>
     d_holding_id d \<in> h_id ` set (holdings s) \<and> d_is_watch_only d \<and>
     t = descriptors_update (\<lambda>ds. ds @ [d]) s"
  by (auto simp: insert_descriptor_def)

lemma import_descriptor_Inr:
  assumes "import_descriptor bdk base db_now dr hid spec allow s = (Inr (d, as), t)"
  obtains p where "parse bdk (di_expression spec) (di_network spec) allow = Inr p"
    "d = new_descriptor db_now (id_descriptor dr) hid spec (pd_address_type p)"
    "d_id d \<notin> d_id ` set (descriptors s)" "hid \<in> h_id ` set (holdings s)" "1 \<le> di_gap_limit spec"
    "derived_rows bdk db_now dr spec allow (derivation_root (pd_address_type p)) = Inr as"
    "t = s\<lparr>descriptors := descriptors s @ [d], addresses := addresses s @ as\<rparr>"
  using assms that
  by (auto simp: import_descriptor_def bnd_readr svc_defs bnd_eq_Inr_iff insert_descriptor_Inr_iff
      Descriptor_def construct_Inr_iff new_descriptor_def insert_addresses_def split: sum.splits)

text \<open>All descriptors of one creation belong to the holding, bear the database time and come in order.\<close>

lemma import_descriptors_Inr:
  assumes "import_descriptors bdk base db_now drs hid n allow specs s = (Inr ids, t)"
  shows "\<exists>ds as. t = s\<lparr>descriptors := descriptors s @ ds, addresses := addresses s @ as\<rparr> \<and>
    map d_id ds = ids \<and> (\<forall>d \<in> set ds. d_holding_id d = hid \<and> d_created_at d = db_now)"
  using assms
proof (induction specs arbitrary: n s ids)
  case Nil
  then show ?case by (auto simp: ret_def intro!: exI [of _ "[]"])
next
  case (Cons spec specs)
  then obtain d as u ids' where one: "import_descriptor bdk base db_now (drs n) hid spec allow s = (Inr (d, as), u)"
    and rest: "import_descriptors bdk base db_now drs hid (Suc n) allow specs u = (Inr ids', t)"
    and ids: "ids = d_id d # ids'"
    by (auto simp: bnd_eq_Inr_iff ret_def)
  from Cons.IH [OF rest] obtain ds bs where
    "t = u\<lparr>descriptors := descriptors u @ ds, addresses := addresses u @ bs\<rparr>" "map d_id ds = ids'"
    "\<forall>d \<in> set ds. d_holding_id d = hid \<and> d_created_at d = db_now" by blast
  moreover obtain p :: parsed_descriptor where "d = new_descriptor db_now (id_descriptor (drs n)) hid spec (pd_address_type p)"
    "u = s\<lparr>descriptors := descriptors s @ [d], addresses := addresses s @ as\<rparr>"
    by (rule import_descriptor_Inr [OF one])
  ultimately show ?case
    using ids by (intro exI [of _ "d # ds"] exI [of _ "as @ bs"]) (simp add: new_descriptor_def)
qed

lemma sort_key_all_equal: "(\<And>x. x \<in> set xs \<Longrightarrow> f x = c) \<Longrightarrow> sort_key f xs = xs"
  by (rule sort_key_id_if_sorted) (simp add: sorted_iff_nth_mono)

text \<open>The timestamps of a holding play no part in its checks.\<close>

lemma Holding_times:
  "Holding (h\<lparr>h_created_at := a, h_updated_at := b\<rparr>) =
     (case Holding h of Inl e \<Rightarrow> Inl e | Inr k \<Rightarrow> Inr (k\<lparr>h_created_at := a, h_updated_at := b\<rparr>))"
proof -
  have "holding_checks (h\<lparr>h_created_at := a, h_updated_at := b\<rparr>) = holding_checks h"
    by (simp add: holding_checks_def reject_vault_metadata_def reject_strongbox_metadata_def
        validate_vault_metadata_def)
  then show ?thesis by (simp add: Holding_def Domain.construct_def split: option.split)
qed

lemma created_reads_back:
  assumes run: "create_holding_with_descriptors bdk base now db_now hid drs f st st allow specs s = (Inr h, t)"
    and fresh: "references_ok s" "hid \<notin> h_id ` set (holdings s)"
  shows "get_holding t hid = Inr (Some (h\<lparr>h_created_at := db_now, h_updated_at := db_now\<rparr>))"
proof -
  let ?row = "holding_row db_now hid f st"
  let ?u = "insert_row db_now hid f st s"
  obtain ids where imp: "import_descriptors bdk base db_now drs hid 0 allow specs ?u = (Inr ids, t)"
    and h: "Holding ((holding_row now hid f st)\<lparr>h_descriptor_ids := ids\<rparr>) = Inr h"
    using run by (auto simp: create_holding_with_descriptors_def svc_defs bnd_eq_Inr_iff)
  from import_descriptors_Inr [OF imp] obtain ds as where
    t: "t = ?u\<lparr>descriptors := descriptors ?u @ ds, addresses := addresses ?u @ as\<rparr>"
    and ds: "map d_id ds = ids" "\<forall>d \<in> set ds. d_holding_id d = hid \<and> d_created_at d = db_now" by blast
  have none: "filter (\<lambda>d. d_holding_id d = hid) (descriptors s) = []"
    "\<forall>p \<in> set (custodial_providers s). cp_holding_id p \<noteq> hid"
    using fresh by (auto simp: references_ok_def inv_defs refers_def filter_empty_conv)
  have filt: "filter (\<lambda>d. d_holding_id d = hid) (descriptors t) = ds"
    using ds(2) none(1) by (simp add: t insert_row_def)
  have "descriptor_ids_for_holding t hid = ids"
    unfolding descriptor_ids_for_holding_def descriptor_rows_for_holding_def filt
    using ds sort_key_all_equal [of ds d_created_at db_now] by simp
  moreover have "find_row h_id hid (holdings t) = Some ?row"
    using fresh(2) by (simp add: t insert_row_def find_row_append holding_row_def find_row_None_iff [symmetric])
  moreover have sel: "one_or_none (\<lambda>p. cp_holding_id p = hid) (custodial_providers t) = SelNone"
    using none(2) by (simp add: t insert_row_def)
  moreover have "?row\<lparr>h_descriptor_ids := ids, h_custodial_provider_id := None\<rparr> =
      ((holding_row now hid f st)\<lparr>h_descriptor_ids := ids\<rparr>)\<lparr>h_created_at := db_now, h_updated_at := db_now\<rparr>"
    by (simp add: holding_row_def)
  ultimately show ?thesis
    using h unfolding get_holding_def sel
    by (simp add: holding_repo_get_def holding_row_to_domain_def Holding_times)
qed

section \<open>Addresses of an import\<close>

lemma list_all2_map_eq: "list_all2 (\<lambda>x y. f y = x) xs ys \<Longrightarrow> map f ys = xs"
  by (induction rule: list_all2_induct) simp_all

lemma derive_addresses_Inr:
  assumes "derive_addresses bdk e net start count allow = Inr das"
  shows "map da_derivation_index das = map (\<lambda>i. start + int i) [0..<nat count]"
proof -
  obtain d where "rmap (derive_one d) (map (\<lambda>i. start + int i) [0..<nat count]) = Inr das"
    using assms by (auto simp: derive_addresses_def rbind_eq_Inr_iff split: if_splits option.splits)
  then have "list_all2 (\<lambda>i da. derive_one d i = Inr da) (map (\<lambda>i. start + int i) [0..<nat count]) das"
    by (simp add: rmap_eq_Inr_iff)
  then have "list_all2 (\<lambda>i da. da_derivation_index da = i) (map (\<lambda>i. start + int i) [0..<nat count]) das"
    by (rule list_all2_mono) (auto simp: derive_one_def split: option.splits)
  then show ?thesis by (rule list_all2_map_eq)
qed

lemma rmap_Address_Inr: "rmap Address xs = Inr ys \<Longrightarrow> ys = xs"
proof -
  assume "rmap Address xs = Inr ys"
  then have "list_all2 (\<lambda>x y. Address x = Inr y) xs ys" by (simp add: rmap_eq_Inr_iff)
  then have "list_all2 (=) xs ys" by (rule list_all2_mono) (simp add: Address_Inr_iff)
  then show ?thesis by (simp add: list.rel_eq)
qed

lemma map_snd_drawn: "map snd (drawn ids xs) = xs"
  by (simp add: drawn_def)

lemma map_new_address:
  "map a_derivation_index (map (new_address db_now did r c) (drawn ids das)) = map da_derivation_index das"
proof -
  have "a_derivation_index \<circ> new_address db_now did r c = da_derivation_index \<circ> snd"
    by (auto simp: new_address_def)
  then show ?thesis by (metis map_map map_snd_drawn)
qed

lemma filter_new_address:
  "filter (\<lambda>a. a_is_change a = c) (map (new_address db_now did r b) xs) =
     (if b = c then map (new_address db_now did r b) xs else [])"
  by (induction xs) (auto simp: new_address_def)

definition branch_indices :: "bool \<Rightarrow> address list \<Rightarrow> int list" where
  "branch_indices c as = map a_derivation_index (filter (\<lambda>a. a_is_change a = c) as)"

lemma branch_indices_new:
  "branch_indices c (map (new_address db_now did r b) (drawn ids das)) =
     (if b = c then map da_derivation_index das else [])"
  unfolding branch_indices_def filter_new_address if_distrib [of "map a_derivation_index"] map_new_address
  by simp

lemma branch_indices_append: "branch_indices c (as @ bs) = branch_indices c as @ branch_indices c bs"
  by (simp add: branch_indices_def)

lemma derived_rows_Inr:
  assumes "derived_rows bdk db_now dr spec allow r = Inr as" "1 \<le> di_gap_limit spec"
  shows "branch_indices False as = map int [0..<nat (di_gap_limit spec)]"
    "branch_indices True as =
       (if di_change_expression spec = None then [] else map int [0..<nat (di_gap_limit spec)])"
    "\<forall>a \<in> set as. a_descriptor_id a = id_descriptor dr \<and> a_first_seen_height a = None"
proof -
  let ?row = "\<lambda>b. new_address db_now (id_descriptor dr) r b"
  obtain ext where ext: "derive_addresses bdk (di_expression spec) (di_network spec) 0 (di_gap_limit spec) allow = Inr ext"
    and rest: "(case di_change_expression spec of
        None \<Rightarrow> Inr (map (?row False) (drawn (id_external dr) ext))
      | Some c \<Rightarrow>
          rbind (derive_addresses bdk c (di_network spec) 0 (di_gap_limit spec) allow) (\<lambda>chg.
          rbind (rmap Address (map (?row True) (drawn (id_change dr) chg))) (\<lambda>bs.
          Inr (map (?row False) (drawn (id_external dr) ext) @ bs)))) = Inr as"
    using assms(1) by (auto simp: derived_rows_def rbind_eq_Inr_iff dest!: rmap_Address_Inr)
  have e: "branch_indices False (map (?row False) (drawn (id_external dr) ext)) = map int [0..<nat (di_gap_limit spec)]"
    using derive_addresses_Inr [OF ext] by (simp add: branch_indices_new)
  have "branch_indices False as = map int [0..<nat (di_gap_limit spec)] \<and>
    branch_indices True as =
       (if di_change_expression spec = None then [] else map int [0..<nat (di_gap_limit spec)]) \<and>
    (\<forall>a \<in> set as. a_descriptor_id a = id_descriptor dr \<and> a_first_seen_height a = None)"
  proof (cases "di_change_expression spec")
    case None
    then show ?thesis using rest e by (auto simp: branch_indices_new new_address_def)
  next
    case (Some c)
    then obtain chg where chg: "derive_addresses bdk c (di_network spec) 0 (di_gap_limit spec) allow = Inr chg"
      and as: "as = map (?row False) (drawn (id_external dr) ext) @ map (?row True) (drawn (id_change dr) chg)"
      using rest by (auto simp: rbind_eq_Inr_iff dest!: rmap_Address_Inr)
    have "branch_indices True (map (?row True) (drawn (id_change dr) chg)) = map int [0..<nat (di_gap_limit spec)]"
      using derive_addresses_Inr [OF chg] by (simp add: branch_indices_new)
    then show ?thesis
      using e as Some by (auto simp: branch_indices_new branch_indices_append new_address_def)
  qed
  then show "branch_indices False as = map int [0..<nat (di_gap_limit spec)]"
    "branch_indices True as =
       (if di_change_expression spec = None then [] else map int [0..<nat (di_gap_limit spec)])"
    "\<forall>a \<in> set as. a_descriptor_id a = id_descriptor dr \<and> a_first_seen_height a = None" by blast+
qed

section \<open>Type changes\<close>

definition retyped :: "timestamp \<Rightarrow> holding_type \<Rightarrow> holding \<Rightarrow> holding" where
  "retyped now nt h = h\<lparr>h_holding_type := nt, h_updated_at := now\<rparr>"

definition type_log :: "uuid \<Rightarrow> uuid \<Rightarrow> holding_type \<Rightarrow> holding_type \<Rightarrow> string option \<Rightarrow> type_change_log" where
  "type_log lid hid old new reason =
     \<lparr>tl_id = lid, tl_holding_id = hid, tl_previous_type = old, tl_new_type = new, tl_reason = reason\<rparr>"

lemma change_type_eq:
  "change_type now lid hid nt reason s =
    (case find_row h_id hid (holdings s) of
       None \<Rightarrow> (Inr None, s)
     | Some h \<Rightarrow> (Inr (Some (retyped now nt h)),
         s\<lparr>type_change_logs := type_change_logs s @ [type_log lid hid (h_holding_type h) nt reason],
           holdings := update_rows h_id hid (retyped now nt) (holdings s)\<rparr>))"
proof -
  have r: "(\<lambda>h. h\<lparr>h_holding_type := nt, h_updated_at := now\<rparr>) = retyped now nt"
    by (simp add: retyped_def fun_eq_iff)
  have "find_row h_id hid (update_rows h_id hid (retyped now nt) (holdings s)) =
      map_option (retyped now nt) (find_row h_id hid (holdings s))"
    by (subst find_row_update) (simp_all add: retyped_def)
  then show ?thesis
    by (simp add: change_type_def svc_defs write_holding_def type_log_def r split: option.split)
qed

definition type_changed ::
  "timestamp \<Rightarrow> uuid \<Rightarrow> uuid \<Rightarrow> holding_type \<Rightarrow> string option \<Rightarrow> holding \<Rightarrow> db \<Rightarrow> db" where
  "type_changed now lid hid nt reason r s =
     s\<lparr>type_change_logs := type_change_logs s @ [type_log lid hid (h_holding_type r) nt reason],
       holdings := update_rows h_id hid (retyped now nt) (holdings s)\<rparr>"

lemma bnd_change_type [svc_defs]:
  "bnd (change_type now lid hid nt reason) k s =
    (case find_row h_id hid (holdings s) of None \<Rightarrow> k None s
     | Some h \<Rightarrow> k (Some (retyped now nt h)) (type_changed now lid hid nt reason h s))"
  by (simp add: bnd_def change_type_eq type_changed_def split: option.split)

lemma change_holding_type_eq:
  "change_holding_type now lid hid nt reason s =
    (let ds = descriptor_ids_for_holding s hid in
     if nt = HT_ACCOUNT \<or> ds = [] then (Inl HoldingServiceError, s)
     else case find_row h_id hid (holdings s) of
       None \<Rightarrow> (Inr None, s)
     | Some r \<Rightarrow>
         (rbind (Holding ((retyped now nt r)\<lparr>h_descriptor_ids := ds, h_custodial_provider_id := None\<rparr>))
            (\<lambda>h. Inr (Some h)), type_changed now lid hid nt reason r s))"
proof -
  have "nt \<in> {HT_PURSE, HT_STRONGBOX, HT_VAULT} \<longleftrightarrow> nt \<noteq> HT_ACCOUNT" by (cases nt) simp_all
  then show ?thesis
    by (simp add: change_holding_type_def svc_defs holding_row_to_domain_def Let_def rbind_def
        split: option.split sum.split)
qed

definition has_vault_metadata :: "holding \<Rightarrow> bool" where
  "has_vault_metadata h \<longleftrightarrow> h_required_signers h \<noteq> None \<or> h_total_signers h \<noteq> None \<or> h_timelock_kind h \<noteq> None \<or>
     h_timelock_value h \<noteq> None \<or> h_recovery_setup_notes h \<noteq> None"

definition has_strongbox_metadata :: "holding \<Rightarrow> bool" where
  "has_strongbox_metadata h \<longleftrightarrow> h_signing_device_label h \<noteq> None \<or> h_vendor h \<noteq> None \<or>
     h_signing_metadata_present h \<noteq> None"

lemma Holding_Inr_metadata:
  assumes "Holding h = Inr k"
  shows "h_holding_type h \<noteq> HT_VAULT \<Longrightarrow> \<not> has_vault_metadata h"
    "h_holding_type h \<noteq> HT_STRONGBOX \<Longrightarrow> \<not> has_strongbox_metadata h"
  using assms
  by (auto simp: Holding_def construct_Inr_iff holding_checks_def reject_vault_metadata_def
      reject_strongbox_metadata_def has_vault_metadata_def has_strongbox_metadata_def split: if_splits)

lemma Holding_errors: "Holding h = Inl e \<Longrightarrow> is_value_error e"
  by (auto simp: Holding_def construct_Inl_iff is_value_error_def)

lemma change_holding_type_errors:
  "change_holding_type now lid hid nt reason s = (Inl e, t) \<Longrightarrow> is_value_error e"
  by (auto simp: change_holding_type_eq Let_def rbind_eq_Inl_iff is_value_error_def [of HoldingServiceError]
      dest: Holding_errors split: if_splits option.splits)

section \<open>Properties\<close>


text \<open>Importing a descriptor writes one receive address for every index below the gap limit and, when
  a change expression is given, as many change addresses, all unused and of that descriptor, and
  stores no descriptor whose expression is already stored.\<close>

theorem import_fills_the_gap:
  assumes "import_descriptor bdk base db_now dr hid spec allow s = (Inr (d, as), t)"
  shows "addresses t = addresses s @ as \<and> descriptors t = descriptors s @ [d] \<and>
    d_holding_id d = hid \<and> d_expression d = di_expression spec \<and>
    d_expression d \<notin> d_expression ` set (descriptors s) \<and>
    map a_derivation_index (filter (\<lambda>a. \<not> a_is_change a) as) = map int [0..<nat (di_gap_limit spec)] \<and>
    map a_derivation_index (filter a_is_change as) =
      (if di_change_expression spec = None then [] else map int [0..<nat (di_gap_limit spec)]) \<and>
    list_all (\<lambda>a. a_descriptor_id a = d_id d \<and> a_first_seen_height a = None) as"
proof -
  obtain p :: parsed_descriptor where p:
    "d = new_descriptor db_now (id_descriptor dr) hid spec (pd_address_type p)" "1 \<le> di_gap_limit spec"
    "derived_rows bdk db_now dr spec allow (derivation_root (pd_address_type p)) = Inr as"
    "t = s\<lparr>descriptors := descriptors s @ [d], addresses := addresses s @ as\<rparr>"
    by (rule import_descriptor_Inr [OF assms])
  moreover have "d_expression d \<notin> d_expression ` set (descriptors s)"
    using assms p(1)
    by (auto simp: import_descriptor_def bnd_eq_Inr_iff insert_descriptor_Inr_iff lift_result_def ret_def modify_def
        dest!: Descriptor_id)
  moreover have "d_expression d = di_expression spec" "d_holding_id d = hid" "d_id d = id_descriptor dr"
    by (simp_all add: p(1) new_descriptor_def)
  ultimately show ?thesis
    using derived_rows_Inr [OF p(3,2)] by (simp add: branch_indices_def list_all_iff)
qed

text \<open>A type change writes exactly the new type, the update time and one log entry with the old and
  the new type, never turns a holding into an Account, and leaves a holding that passes its new
  type's rules; a refused change leaves the database as it was.\<close>

theorem type_change_outcome:
  assumes "api_change_holding_type now lid hid nt reason s = (res, t)"
  shows "(\<forall>h. res = Inr h \<longrightarrow> nt \<noteq> HT_ACCOUNT \<and> h_holding_type h = nt \<and> Holding h = Inr h \<and>
      (\<exists>r. find_row h_id hid (holdings s) = Some r \<and>
        t = type_changed now lid hid nt reason r s)) \<and>
    (res = Inl 422 \<or> res = Inl 404 \<or> (\<exists>h. res = Inr h)) \<and> ((\<exists>c. res = Inl c) \<longrightarrow> t = s)"
proof -
  obtain r u where c: "change_holding_type now lid hid nt reason s = (r, u)" by fastforce
  consider e where "r = Inl e" | "r = Inr None" | h where "r = Inr (Some h)"
    by (metis option.exhaust sum.exhaust)
  then show ?thesis
  proof cases
    case 1
    then show ?thesis
      using assms c change_holding_type_errors [of now lid hid nt reason s e u]
      by (auto simp: api_change_holding_type_def)
  next
    case 2
    then have "u = s"
      using c by (auto simp: change_holding_type_eq Let_def rbind_eq_Inr_iff split: if_splits option.splits)
    then show ?thesis using assms c 2 by (auto simp: api_change_holding_type_def)
  next
    case 3
    then have "res = Inr h" "t = u" using assms c by (simp_all add: api_change_holding_type_def)
    then show ?thesis
      using c unfolding 3
      by (auto simp: change_holding_type_eq Let_def rbind_eq_Inr_iff Holding_def construct_Inr_iff retyped_def
          split: if_splits option.splits)
  qed
qed

text \<open>A Vault that has signer counts, a timelock or notes, or a Strongbox that has a label, a vendor or
  the metadata flag, can never change its type: the stored fields stay behind and the new type's
  rules refuse them.\<close>

theorem subtype_metadata_blocks_type_change:
  assumes "find_row h_id hid (holdings s) = Some r"
    and "(has_vault_metadata r \<and> nt \<noteq> HT_VAULT) \<or> (has_strongbox_metadata r \<and> nt \<noteq> HT_STRONGBOX)"
  shows "api_change_holding_type now lid hid nt reason s = (Inl 422, s)"
proof -
  have "Holding ((retyped now nt r)\<lparr>h_descriptor_ids := ds, h_custodial_provider_id := None\<rparr>) \<noteq> Inr k" for ds k
    using assms(2) Holding_Inr_metadata [of "(retyped now nt r)\<lparr>h_descriptor_ids := ds, h_custodial_provider_id := None\<rparr>" k]
    by (auto simp: retyped_def has_vault_metadata_def has_strongbox_metadata_def)
  then obtain e where "Holding ((retyped now nt r)\<lparr>h_descriptor_ids := descriptor_ids_for_holding s hid,
      h_custodial_provider_id := None\<rparr>) = Inl e"
    by (metis sum.exhaust)
  then have "\<exists>e u. change_holding_type now lid hid nt reason s = (Inl e, u)"
    using assms(1) by (simp add: change_holding_type_eq Let_def)
  then obtain e u where "change_holding_type now lid hid nt reason s = (Inl e, u)" by blast
  then show ?thesis
    using change_holding_type_errors [of now lid hid nt reason s e u] by (simp add: api_change_holding_type_def)
qed

end
