(* ===== verification/Security_Health.thy ===== *)
theory Security_Health
  imports Holdings
begin

text \<open>
  Security-health items: \<^verbatim>\<open>repositories/security_health.py\<close>, \<^verbatim>\<open>services/security_health_service.py\<close>, the
  handlers of \<^verbatim>\<open>api/v1/security_health.py\<close> with the two ways to add missing key-origin metadata, the
  items the creation handlers of \<^verbatim>\<open>api/v1/holdings.py\<close> emit, and the user profile's singleton row
  (\<^verbatim>\<open>repositories/user_profile.py\<close>) that acknowledging the principles writes.

  Publishing an event never raises and reads nothing back, so the services return what they publish.

  The lemmas give the life of an item as a state machine with its invariant, show that emission is
  idempotent, and what adding metadata does to a Strongbox and to a Vault.
\<close>

section \<open>User profile\<close>

definition default_profile :: "timestamp \<Rightarrow> user_profile" where
  "default_profile db_now =
     \<lparr>up_id = USER_PROFILE_SINGLETON_ID, up_feature_flags = [], up_base_currency = ''EUR'', up_locale = ''en'',
      up_principles_acknowledged_at = None, up_created_at = Some db_now, up_updated_at = Some db_now\<rparr>"

definition profile_get_or_create :: "timestamp \<Rightarrow> user_profile service" where
  "profile_get_or_create db_now s =
     (case user_profile_row s of
        Some p \<Rightarrow> (UserProfile p, s)
      | None \<Rightarrow> (UserProfile (default_profile db_now),
                 user_profile_row_update (\<lambda>_. Some (default_profile db_now)) s))"

record profile_patch =
  up_new_feature_flags :: "(string \<times> bool) list option"
  up_new_base_currency :: "string option"
  up_new_locale :: "string option"
  up_principles_acknowledged :: "bool option"

definition no_profile_patch :: profile_patch where
  "no_profile_patch = \<lparr>up_new_feature_flags = None, up_new_base_currency = None, up_new_locale = None,
     up_principles_acknowledged = None\<rparr>"

definition patch_profile :: "timestamp \<Rightarrow> profile_patch \<Rightarrow> user_profile \<Rightarrow> user_profile" where
  "patch_profile now f p =
     p\<lparr>up_feature_flags := given (up_new_feature_flags f) (up_feature_flags p),
       up_base_currency := given (up_new_base_currency f) (up_base_currency p),
       up_locale := given (up_new_locale f) (up_locale p),
       up_principles_acknowledged_at :=
         (if up_principles_acknowledged f = Some True \<and> up_principles_acknowledged_at p = None
          then Some now else up_principles_acknowledged_at p),
       up_updated_at := Some now\<rparr>"

definition profile_update :: "timestamp \<Rightarrow> profile_patch \<Rightarrow> user_profile service" where
  "profile_update now f s =
     (let old = (case user_profile_row s of Some p \<Rightarrow> p | None \<Rightarrow> default_profile now);
          new = patch_profile now f old
      in (UserProfile new, user_profile_row_update (\<lambda>_. Some new) s))"

definition replace_feature_flags :: "timestamp \<Rightarrow> (string \<times> bool) list \<Rightarrow> user_profile service" where
  "replace_feature_flags now flags = profile_update now (no_profile_patch\<lparr>up_new_feature_flags := Some flags\<rparr>)"

section \<open>Item repository\<close>

definition ITEM_STATE_OPEN :: string where "ITEM_STATE_OPEN = ''open''"
definition ITEM_STATE_RESOLVED_BY_FIX :: string where "ITEM_STATE_RESOLVED_BY_FIX = ''resolved_by_fix''"
definition ITEM_STATE_DISMISSED_INTENTIONAL :: string where
  "ITEM_STATE_DISMISSED_INTENTIONAL = ''dismissed_intentional''"
definition ITEM_STATE_ACKNOWLEDGED :: string where "ITEM_STATE_ACKNOWLEDGED = ''acknowledged''"
definition ITEM_TYPE_SEED_BACKUP :: string where "ITEM_TYPE_SEED_BACKUP = ''seed_backup''"
definition ITEM_TYPE_MISSING_SIGNING_METADATA :: string where
  "ITEM_TYPE_MISSING_SIGNING_METADATA = ''missing_signing_metadata''"
definition ITEM_TYPE_PRINCIPLES_ACK :: string where "ITEM_TYPE_PRINCIPLES_ACK = ''principles_ack''"

definition USER_ATTESTED_STATES :: "string list" where
  "USER_ATTESTED_STATES = [ITEM_STATE_DISMISSED_INTENTIONAL]"

lemmas item_states = ITEM_STATE_OPEN_def ITEM_STATE_RESOLVED_BY_FIX_def ITEM_STATE_DISMISSED_INTENTIONAL_def
  ITEM_STATE_ACKNOWLEDGED_def

definition is_open :: "health_item \<Rightarrow> bool" where
  "is_open i \<longleftrightarrow> hi_state i = ITEM_STATE_OPEN"

definition new_item ::
  "timestamp \<Rightarrow> uuid \<Rightarrow> string \<Rightarrow> uuid option \<Rightarrow> string \<Rightarrow> (string \<times> string) list \<Rightarrow> health_item" where
  "new_item now iid item_type holding_id severity ctx =
     \<lparr>hi_id = iid, hi_item_type = item_type, hi_holding_id = holding_id, hi_state = ITEM_STATE_OPEN,
      hi_severity = severity, hi_created_at = now, hi_resolved_at = None, hi_dismissal_reason = None,
      hi_raw_context = ctx\<rparr>"

definition health_insert :: "health_item \<Rightarrow> db \<Rightarrow> db" where
  "health_insert i = health_items_update (\<lambda>is. is @ [i])"

definition health_get :: "db \<Rightarrow> uuid \<Rightarrow> health_item option" where
  "health_get s iid = find_row hi_id iid (health_items s)"

definition severity_order :: "health_item \<Rightarrow> int" where
  "severity_order i = (if hi_severity i = ''critical'' then 0 else if hi_severity i = ''warning'' then 1 else 2)"

definition by_severity :: "health_item list \<Rightarrow> health_item list" where
  "by_severity is = sort_key severity_order (sort_key (\<lambda>i. - hi_created_at i) is)"

definition list_open :: "db \<Rightarrow> uuid option \<Rightarrow> bool \<Rightarrow> health_item list" where
  "list_open s holding_id include_application_level =
     by_severity (filter (\<lambda>i. is_open i \<and>
       (case holding_id of Some h \<Rightarrow> hi_holding_id i = Some h
        | None \<Rightarrow> include_application_level \<or> hi_holding_id i \<noteq> None)) (health_items s))"

definition list_application_level_open :: "db \<Rightarrow> health_item list" where
  "list_application_level_open s = list_open s None False"

definition list_application_level_open_real :: "db \<Rightarrow> health_item list" where
  "list_application_level_open_real s =
     by_severity (filter (\<lambda>i. is_open i \<and> hi_holding_id i = None) (health_items s))"

text \<open>\<^verbatim>\<open>resolved_at.desc().nullsfirst()\<close>.\<close>

definition list_history :: "db \<Rightarrow> health_item list" where
  "list_history s =
     sort_key (\<lambda>i. hi_resolved_at i \<noteq> None)
       (sort_key (\<lambda>i. case hi_resolved_at i of None \<Rightarrow> 0 | Some t \<Rightarrow> - t)
         (filter (\<lambda>i. \<not> is_open i) (health_items s)))"

definition count_open_critical :: "db \<Rightarrow> nat" where
  "count_open_critical s = length (filter (\<lambda>i. is_open i \<and> hi_severity i = ''critical'') (health_items s))"

definition open_of :: "string \<Rightarrow> uuid option \<Rightarrow> health_item \<Rightarrow> bool" where
  "open_of item_type holding_id i \<longleftrightarrow> is_open i \<and> hi_item_type i = item_type \<and> hi_holding_id i = holding_id"

definition has_open_item_of_type :: "db \<Rightarrow> string \<Rightarrow> uuid option \<Rightarrow> bool" where
  "has_open_item_of_type s item_type holding_id \<longleftrightarrow> (\<exists>i \<in> set (health_items s). open_of item_type holding_id i)"

definition resolved_item :: "timestamp \<Rightarrow> string \<Rightarrow> string option \<Rightarrow> health_item \<Rightarrow> health_item" where
  "resolved_item now new_state reason i =
     i\<lparr>hi_state := new_state, hi_resolved_at := Some now,
       hi_dismissal_reason := or_old reason (hi_dismissal_reason i)\<rparr>"

definition revived_item :: "health_item \<Rightarrow> health_item" where
  "revived_item i = i\<lparr>hi_state := ITEM_STATE_OPEN, hi_resolved_at := None, hi_dismissal_reason := None\<rparr>"

definition health_write :: "uuid \<Rightarrow> (health_item \<Rightarrow> health_item) \<Rightarrow> health_item option service" where
  "health_write iid f s =
     (case find_row hi_id iid (health_items s) of
        None \<Rightarrow> (Inr None, s)
      | Some i \<Rightarrow> (Inr (Some (f i)), health_items_update (update_rows hi_id iid f) s))"

definition health_resolve ::
  "timestamp \<Rightarrow> uuid \<Rightarrow> string \<Rightarrow> string option \<Rightarrow> health_item option service" where
  "health_resolve now iid new_state reason = health_write iid (resolved_item now new_state reason)"

definition health_revive :: "uuid \<Rightarrow> health_item option service" where
  "health_revive iid = health_write iid revived_item"

definition resolve_open_items_for_holding ::
  "timestamp \<Rightarrow> uuid option \<Rightarrow> string \<Rightarrow> string \<Rightarrow> health_item list service" where
  "resolve_open_items_for_holding now holding_id item_type new_state s =
     (Inr (map (\<lambda>i. i\<lparr>hi_state := new_state, hi_resolved_at := Some now\<rparr>)
        (filter (open_of item_type holding_id) (health_items s))),
      health_items_update (update_where (open_of item_type holding_id)
        (\<lambda>i. i\<lparr>hi_state := new_state, hi_resolved_at := Some now\<rparr>)) s)"

section \<open>Services\<close>

text \<open>The three emission hooks insert an item unless an open one of the type exists.\<close>

definition emit_item ::
  "timestamp \<Rightarrow> uuid \<Rightarrow> string \<Rightarrow> uuid option \<Rightarrow> string \<Rightarrow> (db \<Rightarrow> (string \<times> string) list) \<Rightarrow> health_item option service" where
  "emit_item now iid item_type holding_id severity ctx s =
     (if has_open_item_of_type s item_type holding_id then (Inr None, s)
      else let i = new_item now iid item_type holding_id severity (ctx s) in (Inr (Some i), health_insert i s))"

definition holding_name :: "uuid \<Rightarrow> db \<Rightarrow> string" where
  "holding_name hid s = (case find_row h_id hid (holdings s) of None \<Rightarrow> [] | Some h \<Rightarrow> h_name h)"

definition emit_seed_backup_item :: "timestamp \<Rightarrow> uuid \<Rightarrow> uuid \<Rightarrow> string \<Rightarrow> health_item option service" where
  "emit_seed_backup_item now iid hid mode =
     emit_item now iid ITEM_TYPE_SEED_BACKUP (Some hid) ''critical''
       (\<lambda>s. [(''purse_mode'', mode), (''holding_name'', holding_name hid s)])"

definition emit_missing_signing_metadata_item ::
  "timestamp \<Rightarrow> uuid \<Rightarrow> uuid \<Rightarrow> string option \<Rightarrow> health_item option service" where
  "emit_missing_signing_metadata_item now iid hid vendor =
     emit_item now iid ITEM_TYPE_MISSING_SIGNING_METADATA (Some hid) ''warning''
       (\<lambda>s. (''holding_name'', holding_name hid s) #
          (case vendor of None \<Rightarrow> [] | Some v \<Rightarrow> if v = [] then [] else [(''vendor'', v)]))"

definition emit_principles_ack_item_if_needed :: "timestamp \<Rightarrow> uuid \<Rightarrow> health_item option service" where
  "emit_principles_ack_item_if_needed now iid =
     emit_item now iid ITEM_TYPE_PRINCIPLES_ACK None ''warning'' (\<lambda>_. [])"

definition VALID_TRANSITIONS :: "string \<Rightarrow> string list" where
  "VALID_TRANSITIONS state =
     (if state = ITEM_STATE_OPEN
      then [ITEM_STATE_RESOLVED_BY_FIX, ITEM_STATE_DISMISSED_INTENTIONAL, ITEM_STATE_ACKNOWLEDGED] else [])"

definition resolve_item :: "timestamp \<Rightarrow> uuid \<Rightarrow> string \<Rightarrow> string option \<Rightarrow> health_item service" where
  "resolve_item now iid new_state reason =
     bnd (gets (\<lambda>s. health_get s iid)) (\<lambda>item.
     bnd (found_or item ItemNotFound) (\<lambda>i.
     bnd (raise_if (new_state \<notin> set (VALID_TRANSITIONS (hi_state i))) InvalidStateTransition) (\<lambda>_.
     bnd (health_resolve now iid new_state reason) (\<lambda>updated.
     bnd (found_or updated AssertionError) (\<lambda>u.
     bnd (if hi_item_type i = ITEM_TYPE_PRINCIPLES_ACK \<and> new_state = ITEM_STATE_ACKNOWLEDGED
          then bnd (profile_update now (no_profile_patch\<lparr>up_principles_acknowledged := Some True\<rparr>)) (\<lambda>_. ret ())
          else ret ()) (\<lambda>_.
     ret u))))))"

definition revive_item :: "uuid \<Rightarrow> health_item service" where
  "revive_item iid =
     bnd (gets (\<lambda>s. health_get s iid)) (\<lambda>item.
     bnd (found_or item ItemNotFound) (\<lambda>i.
     bnd (raise_if (hi_state i \<notin> set USER_ATTESTED_STATES) ReviveNotAllowed) (\<lambda>_.
     bnd (health_revive iid) (\<lambda>updated. found_or updated AssertionError))))"

definition resolve_missing_metadata_items_for_holding :: "timestamp \<Rightarrow> uuid \<Rightarrow> health_item list service" where
  "resolve_missing_metadata_items_for_holding now hid =
     resolve_open_items_for_holding now (Some hid) ITEM_TYPE_MISSING_SIGNING_METADATA ITEM_STATE_RESOLVED_BY_FIX"

definition acknowledge_principles :: "timestamp \<Rightarrow> health_item list service" where
  "acknowledge_principles now =
     bnd (profile_update now (no_profile_patch\<lparr>up_principles_acknowledged := Some True\<rparr>)) (\<lambda>_.
     resolve_open_items_for_holding now None ITEM_TYPE_PRINCIPLES_ACK ITEM_STATE_ACKNOWLEDGED)"

section \<open>Handlers\<close>

definition VALID_RESOLVE_STATES :: "string list" where
  "VALID_RESOLVE_STATES = [''resolved_by_fix'', ''dismissed_intentional'', ''acknowledged'']"

definition api_list_items :: "string \<Rightarrow> db \<Rightarrow> int + health_item list" where
  "api_list_items state s =
     (if state = ''open'' then Inr (list_open s None True)
      else if state = ''history'' then Inr (list_history s) else Inl 422)"

definition health_http :: "exn \<Rightarrow> int" where
  "health_http e = (case e of ItemNotFound \<Rightarrow> 404 | InvalidStateTransition \<Rightarrow> 422 | ReviveNotAllowed \<Rightarrow> 422 | _ \<Rightarrow> 500)"

definition api_resolve_item :: "timestamp \<Rightarrow> uuid \<Rightarrow> string \<Rightarrow> string option \<Rightarrow> db \<Rightarrow> (int + health_item) \<times> db" where
  "api_resolve_item now iid state reason s =
     (if state \<notin> set VALID_RESOLVE_STATES then (Inl 422, s)
      else case resolve_item now iid state reason s of
        (Inr i, t) \<Rightarrow> (Inr i, t) | (Inl e, t) \<Rightarrow> (Inl (health_http e), t))"

definition api_revive_item :: "uuid \<Rightarrow> db \<Rightarrow> (int + health_item) \<times> db" where
  "api_revive_item iid s =
     (case revive_item iid s of (Inr i, t) \<Rightarrow> (Inr i, t) | (Inl e, t) \<Rightarrow> (Inl (health_http e), t))"

text \<open>\<^verbatim>\<open>re.sub(..., count=1)\<close> over the first extended key.\<close>

definition GRAFT_KEY_RE :: re where
  "GRAFT_KEY_RE = Group (Alts (Cat (Lit ''xpub'') (Plus (Cls is_alnum)))
     [Cat (Lit ''zpub'') (Plus (Cls is_alnum)), Cat (Lit ''tpub'') (Plus (Cls is_alnum))])"

definition graft_origin :: "string \<Rightarrow> string \<Rightarrow> string \<Rightarrow> string" where
  "graft_origin expression fingerprint path =
     (if re_test FINGERPRINT_RE expression then expression
      else case re_search GRAFT_KEY_RE expression of
        None \<Rightarrow> expression
      | Some m \<Rightarrow>
          take (length expression - length (rest m) - length (group1 m)) expression @
          ''['' @ fingerprint @ ''/'' @ path @ '']'' @ group1 m @ rest m)"

datatype fix_error = No_Origin | Parse_Error | No_Descriptor | No_Addresses | Derivation_Failed | Address_Mismatch

record fix_response =
  fx_success :: bool
  fx_matched :: nat
  fx_error :: "fix_error option"

definition fix_failed :: "nat \<Rightarrow> fix_error \<Rightarrow> fix_response" where
  "fix_failed n e = \<lparr>fx_success = False, fx_matched = n, fx_error = Some e\<rparr>"

lemma fix_failed_simps [simp]: "fx_success (fix_failed n e) = False" "fx_matched (fix_failed n e) = n"
  by (simp_all add: fix_failed_def)

definition watched_rows :: "db \<Rightarrow> uuid \<Rightarrow> address list" where
  "watched_rows s did =
     take 20 (sort_key a_derivation_index
       (filter (\<lambda>a. a_descriptor_id a = did \<and> \<not> a_is_change a) (addresses s)))"

text \<open>The network arrives as a string; a string no network has fails inside the parser's \<^verbatim>\<open>try\<close>.\<close>

definition parse_on :: "bdk_parser \<Rightarrow> string \<Rightarrow> string \<Rightarrow> exn + parsed_descriptor" where
  "parse_on bdk e net =
     (case enum_of network_members network_value net of
        None \<Rightarrow> Inl DescriptorParseError | Some n \<Rightarrow> parse bdk e n True)"

definition derive_on :: "bdk_parser \<Rightarrow> string \<Rightarrow> string \<Rightarrow> nat \<Rightarrow> exn + derived_address list" where
  "derive_on bdk e net count =
     (case enum_of network_members network_value net of
        None \<Rightarrow> Inl DescriptorParseError | Some n \<Rightarrow> derive_addresses bdk e n 0 (int count) True)"

definition set_expression :: "uuid \<Rightarrow> string \<Rightarrow> unit service" where
  "set_expression did e s =
     (if \<exists>d \<in> set (descriptors s). d_id d \<noteq> did \<and> d_expression d = e then (Inl IntegrityError, s)
      else (Inr (), descriptors_update (update_rows d_id did (\<lambda>d. d\<lparr>d_expression := e\<rparr>)) s))"

definition apply_fix_metadata :: "bdk_parser \<Rightarrow> timestamp \<Rightarrow> uuid \<Rightarrow> string \<Rightarrow> string \<Rightarrow> fix_response service" where
  "apply_fix_metadata bdk now hid e net =
     (if \<not> re_test FINGERPRINT_RE e then ret (fix_failed 0 No_Origin)
      else case parse_on bdk e net of
        Inl _ \<Rightarrow> ret (fix_failed 0 Parse_Error)
      | Inr _ \<Rightarrow>
         bnd (readr (\<lambda>s. list_descriptors_for_holding s hid)) (\<lambda>ds.
         case ds of
           [] \<Rightarrow> ret (fix_failed 0 No_Descriptor)
         | d # _ \<Rightarrow>
             bnd (gets (\<lambda>s. watched_rows s (d_id d))) (\<lambda>rows.
             if rows = [] then ret (fix_failed 0 No_Addresses)
             else case derive_on bdk e net (length rows) of
               Inl _ \<Rightarrow> ret (fix_failed 0 Derivation_Failed)
             | Inr derived \<Rightarrow>
                 let matched = card (set (map a_address rows) \<inter> set (map da_address derived)) in
                 if matched < min (length rows) 1 then ret (fix_failed matched Address_Mismatch)
                 else
                   bnd (set_expression (d_id d) e) (\<lambda>_.
                   bnd (modify (write_holding hid (\<lambda>h. h\<lparr>h_signing_metadata_present := Some True\<rparr>))) (\<lambda>_.
                   bnd (resolve_missing_metadata_items_for_holding now hid) (\<lambda>_.
                   ret \<lparr>fx_success = True, fx_matched = matched, fx_error = None\<rparr>))))))"

definition fix_metadata_reexport :: "bdk_parser \<Rightarrow> timestamp \<Rightarrow> uuid \<Rightarrow> string \<Rightarrow> string \<Rightarrow> fix_response service" where
  "fix_metadata_reexport bdk now hid e net = apply_fix_metadata bdk now hid e net"

text \<open>The manual path; a holding without descriptors is answered 404.\<close>

definition fix_metadata_manual ::
  "bdk_parser \<Rightarrow> timestamp \<Rightarrow> uuid \<Rightarrow> string \<Rightarrow> string \<Rightarrow> string \<Rightarrow> fix_response service" where
  "fix_metadata_manual bdk now hid master_fingerprint derivation_path net =
     bnd (readr (\<lambda>s. list_descriptors_for_holding s hid)) (\<lambda>ds.
     case ds of
       [] \<Rightarrow> raise HoldingNotFound
     | d # _ \<Rightarrow>
         let path = (if starts_with derivation_path ''m/'' then drop 2 derivation_path else derivation_path)
         in apply_fix_metadata bdk now hid
              (graft_origin (d_expression d) (map lower_char master_fingerprint) path) net)"

text \<open>The creation handlers emit after their commit.\<close>

definition api_create_purse ::
  "bdk_parser \<Rightarrow> timestamp \<Rightarrow> timestamp \<Rightarrow> uuid \<Rightarrow> uuid \<Rightarrow> (nat \<Rightarrow> import_draws) \<Rightarrow> holding_fields \<Rightarrow>
   purse_mode \<Rightarrow> descriptor_input list \<Rightarrow> db \<Rightarrow> (int + holding) \<times> db" where
  "api_create_purse bdk now db_now hid iid drs f mode specs s =
     (case api_create (\<lambda>base. create_purse bdk base now db_now hid drs f mode specs) s of
        (Inl c, t) \<Rightarrow> (Inl c, t)
      | (Inr h, t) \<Rightarrow>
          (Inr h, if mode \<in> {PM_ON_DEVICE_TK_GENERATED, PM_ON_DEVICE_USER_IMPORTED}
                  then snd (emit_seed_backup_item now iid (h_id h) (purse_mode_value mode) t) else t))"

definition api_create_strongbox ::
  "bdk_parser \<Rightarrow> timestamp \<Rightarrow> timestamp \<Rightarrow> uuid \<Rightarrow> uuid \<Rightarrow> (nat \<Rightarrow> import_draws) \<Rightarrow> holding_fields \<Rightarrow>
   string option \<Rightarrow> string option \<Rightarrow> bool option \<Rightarrow> descriptor_input list \<Rightarrow> db \<Rightarrow> (int + holding) \<times> db" where
  "api_create_strongbox bdk now db_now hid iid drs f label vendor metadata specs s =
     (case api_create (\<lambda>base. create_strongbox bdk base now db_now hid drs f label vendor metadata specs) s of
        (Inl c, t) \<Rightarrow> (Inl c, t)
      | (Inr h, t) \<Rightarrow>
          (Inr h, if metadata = Some False
                  then snd (emit_missing_signing_metadata_item now iid (h_id h) vendor t) else t))"

definition api_create_vault ::
  "bdk_parser \<Rightarrow> timestamp \<Rightarrow> timestamp \<Rightarrow> uuid \<Rightarrow> uuid \<Rightarrow> (nat \<Rightarrow> import_draws) \<Rightarrow> holding_fields \<Rightarrow>
   string option \<Rightarrow> descriptor_input list \<Rightarrow> db \<Rightarrow> (int + holding) \<times> db" where
  "api_create_vault bdk now db_now hid iid drs f notes specs s =
     (case api_create (\<lambda>base. create_vault bdk base now db_now hid drs f notes specs) s of
        (Inl c, t) \<Rightarrow> (Inl c, t)
      | (Inr h, t) \<Rightarrow>
          (Inr h, case specs of
                    [] \<Rightarrow> t
                  | d # _ \<Rightarrow> if re_test FINGERPRINT_RE (di_expression d) then t
                            else snd (emit_missing_signing_metadata_item now iid (h_id h) None t)))"

section \<open>The life of an item\<close>

text \<open>Steps of the application on the items: an emission under a fresh id, the two handlers, the bulk
  resolutions of the metadata fix and of acknowledging the principles.\<close>

inductive health_step :: "db \<Rightarrow> db \<Rightarrow> bool" where
  emit: "iid \<notin> hi_id ` set (health_items s) \<Longrightarrow>
    emit_item now iid item_type holding_id severity ctx s = (r, t) \<Longrightarrow> health_step s t"
| resolve: "api_resolve_item now iid state reason s = (r', t) \<Longrightarrow> health_step s t"
| revive: "api_revive_item iid s = (r', t) \<Longrightarrow> health_step s t"
| fixed: "resolve_missing_metadata_items_for_holding now hid s = (rs, t) \<Longrightarrow> health_step s t"
| principles: "acknowledge_principles now s = (rs, t) \<Longrightarrow> health_step s t"

definition item_ok :: "health_item \<Rightarrow> bool" where
  "item_ok i \<longleftrightarrow>
     hi_state i \<in> {ITEM_STATE_OPEN, ITEM_STATE_RESOLVED_BY_FIX, ITEM_STATE_DISMISSED_INTENTIONAL, ITEM_STATE_ACKNOWLEDGED} \<and>
     (is_open i \<longleftrightarrow> hi_resolved_at i = None) \<and> (is_open i \<longrightarrow> hi_dismissal_reason i = None)"

definition health_inv :: "db \<Rightarrow> bool" where
  "health_inv s \<longleftrightarrow> distinct (map hi_id (health_items s)) \<and> (\<forall>i \<in> set (health_items s). item_ok i)"

text \<open>States an item never leaves.\<close>

definition permanent :: "health_item \<Rightarrow> bool" where
  "permanent i \<longleftrightarrow> hi_state i = ITEM_STATE_RESOLVED_BY_FIX \<or> hi_state i = ITEM_STATE_ACKNOWLEDGED"

text \<open>What a step does to the table: it appends open items, or rewrites items by a function that keeps
  ids and validity and leaves the permanent ones alone.\<close>

definition gentle :: "(health_item \<Rightarrow> health_item) \<Rightarrow> bool" where
  "gentle f \<longleftrightarrow> (\<forall>i. hi_id (f i) = hi_id i \<and> (item_ok i \<longrightarrow> item_ok (f i)) \<and> (permanent i \<longrightarrow> f i = i))"

lemma gentle_step:
  assumes "health_items t = map f (health_items s)" "gentle f"
  shows "health_inv s \<Longrightarrow> health_inv t" "i \<in> set (health_items s) \<Longrightarrow> permanent i \<Longrightarrow> i \<in> set (health_items t)"
  using assms by (auto simp: health_inv_def gentle_def o_def) (metis imageI)

lemma profile_update_items [simp]: "profile_update now f s = (r, t) \<Longrightarrow> health_items t = health_items s"
  by (auto simp: profile_update_def Let_def)

lemma update_where_gentle:
  assumes "\<And>i. p i \<Longrightarrow> is_open i" "new_state \<in> set (VALID_TRANSITIONS ITEM_STATE_OPEN)"
  shows "gentle (\<lambda>i. if p i then i\<lparr>hi_state := new_state, hi_resolved_at := Some now\<rparr> else i)"
  using assms
  by (auto simp: gentle_def item_ok_def permanent_def is_open_def VALID_TRANSITIONS_def item_states split: if_splits)

lemma resolve_open_items_gentle:
  assumes "resolve_open_items_for_holding now hid ty st s = (r, t)" "st \<in> set (VALID_TRANSITIONS ITEM_STATE_OPEN)"
  shows "\<exists>f. health_items t = map f (health_items s) \<and> gentle f"
proof (intro exI conjI)
  show "health_items t = map (\<lambda>i. if open_of ty hid i then i\<lparr>hi_state := st, hi_resolved_at := Some now\<rparr> else i)
      (health_items s)"
    using assms(1) by (auto simp: resolve_open_items_for_holding_def update_where_def)
  show "gentle (\<lambda>i. if open_of ty hid i then i\<lparr>hi_state := st, hi_resolved_at := Some now\<rparr> else i)"
    using assms(2) by (intro update_where_gentle) (simp_all add: open_of_def)
qed

lemma resolved_item_gentle:
  assumes "is_open i0" "new_state \<in> set (VALID_TRANSITIONS ITEM_STATE_OPEN)"
  shows "gentle (\<lambda>i. if i = i0 then resolved_item now new_state reason i else i)"
  using assms
  by (auto simp: gentle_def item_ok_def permanent_def is_open_def resolved_item_def VALID_TRANSITIONS_def item_states)

lemma revived_item_gentle:
  assumes "hi_state i0 = ITEM_STATE_DISMISSED_INTENTIONAL"
  shows "gentle (\<lambda>i. if i = i0 then revived_item i else i)"
  using assms by (auto simp: gentle_def item_ok_def permanent_def is_open_def revived_item_def item_states)

lemma write_one:
  assumes "distinct (map hi_id rows)" "find_row hi_id k rows = Some i0"
  shows "update_rows hi_id k f rows = map (\<lambda>i. if i = i0 then f i else i) rows"
proof -
  have "i0 \<in> set rows" "hi_id i0 = k" using find_row_SomeD [OF assms(2)] by simp_all
  then show ?thesis
    using assms(1) unfolding update_rows_def by (intro map_cong refl) (metis distinct_map inj_onD)
qed

lemma bnd_health_write [svc_defs]:
  "bnd (health_write iid f) k s =
    (case find_row hi_id iid (health_items s) of None \<Rightarrow> k None s
     | Some i \<Rightarrow> k (Some (f i)) (health_items_update (update_rows hi_id iid f) s))"
  by (simp add: bnd_def health_write_def split: option.split)

lemma bnd_profile_update [svc_defs]:
  "bnd (profile_update now f) k s =
    (let new = patch_profile now f (case user_profile_row s of Some p \<Rightarrow> p | None \<Rightarrow> default_profile now);
         t = user_profile_row_update (\<lambda>_. Some new) s
     in case UserProfile new of Inl e \<Rightarrow> (Inl e, t) | Inr p \<Rightarrow> k p t)"
  by (simp add: bnd_def profile_update_def Let_def split: option.split)

lemma bnd_assoc: "bnd (bnd m f) g s = bnd m (\<lambda>x. bnd (f x) g) s"
  by (simp add: bnd_def split: prod.split sum.split)

lemma resolve_item_effect:
  assumes "resolve_item now iid st reason s = (r, t)"
  shows "t = s \<or> (\<exists>i. find_row hi_id iid (health_items s) = Some i \<and> st \<in> set (VALID_TRANSITIONS (hi_state i)) \<and>
    health_items t = update_rows hi_id iid (resolved_item now st reason) (health_items s))"
  using assms
  by (auto simp: resolve_item_def svc_defs health_get_def health_resolve_def Let_def if_svc_apply
      bnd_assoc split: option.splits if_splits sum.splits)

lemma revive_item_effect:
  assumes "revive_item iid s = (r, t)"
  shows "t = s \<or> (\<exists>i. find_row hi_id iid (health_items s) = Some i \<and> hi_state i = ITEM_STATE_DISMISSED_INTENTIONAL \<and>
    health_items t = update_rows hi_id iid revived_item (health_items s))"
  using assms
  by (auto simp: revive_item_def svc_defs health_get_def health_revive_def USER_ATTESTED_STATES_def
      split: option.splits if_splits)

lemma resolve_step_gentle:
  assumes "api_resolve_item now iid st reason s = (r, t)" "health_inv s"
  shows "\<exists>f. health_items t = map f (health_items s) \<and> gentle f"
proof -
  obtain r0 u where run: "resolve_item now iid st reason s = (r0, u)" by fastforce
  have t: "t = s \<or> t = u"
    using assms(1) run by (auto simp: api_resolve_item_def split: if_splits sum.splits)
  have id: "\<exists>f. health_items s = map f (health_items s) \<and> gentle f"
    by (intro exI [of _ "\<lambda>i. i"]) (simp add: gentle_def)
  show ?thesis
  proof (cases "t = s")
    case True
    then show ?thesis using id by simp
  next
    case False
    then obtain i where i: "find_row hi_id iid (health_items s) = Some i" "st \<in> set (VALID_TRANSITIONS (hi_state i))"
      "health_items t = update_rows hi_id iid (resolved_item now st reason) (health_items s)"
      using t resolve_item_effect [OF run] by auto
    then have "is_open i" "st \<in> set (VALID_TRANSITIONS ITEM_STATE_OPEN)"
      by (auto simp: VALID_TRANSITIONS_def is_open_def split: if_splits)
    moreover have "health_items t = map (\<lambda>j. if j = i then resolved_item now st reason j else j) (health_items s)"
      unfolding i(3) using assms(2) by (intro write_one i(1)) (simp add: health_inv_def)
    ultimately show ?thesis using resolved_item_gentle by blast
  qed
qed

lemma revive_step_gentle:
  assumes "api_revive_item iid s = (r, t)" "health_inv s"
  shows "\<exists>f. health_items t = map f (health_items s) \<and> gentle f"
proof -
  obtain r0 u where run: "revive_item iid s = (r0, u)" by fastforce
  have t: "t = u" using assms(1) run by (auto simp: api_revive_item_def split: sum.splits)
  have id: "\<exists>f. health_items s = map f (health_items s) \<and> gentle f"
    by (intro exI [of _ "\<lambda>i. i"]) (simp add: gentle_def)
  show ?thesis
  proof (cases "t = s")
    case True
    then show ?thesis using id by simp
  next
    case False
    then obtain i where i: "find_row hi_id iid (health_items s) = Some i"
      "hi_state i = ITEM_STATE_DISMISSED_INTENTIONAL"
      "health_items t = update_rows hi_id iid revived_item (health_items s)"
      using t revive_item_effect [OF run] by auto
    have "health_items t = map (\<lambda>j. if j = i then revived_item j else j) (health_items s)"
      unfolding i(3) using assms(2) by (intro write_one i(1)) (simp add: health_inv_def)
    then show ?thesis using revived_item_gentle [OF i(2)] by blast
  qed
qed

lemma bulk_steps_gentle:
  "resolve_missing_metadata_items_for_holding now hid s = (rs, t) \<Longrightarrow>
   \<exists>f. health_items t = map f (health_items s) \<and> gentle f"
  "acknowledge_principles now s = (rs, t) \<Longrightarrow> \<exists>f. health_items t = map f (health_items s) \<and> gentle f"
proof -
  assume "resolve_missing_metadata_items_for_holding now hid s = (rs, t)"
  then show "\<exists>f. health_items t = map f (health_items s) \<and> gentle f"
    unfolding resolve_missing_metadata_items_for_holding_def
    by (rule resolve_open_items_gentle) (simp add: VALID_TRANSITIONS_def)
next
  assume run: "acknowledge_principles now s = (rs, t)"
  obtain p u where u: "profile_update now (no_profile_patch\<lparr>up_principles_acknowledged := Some True\<rparr>) s = (p, u)"
    by fastforce
  show "\<exists>f. health_items t = map f (health_items s) \<and> gentle f"
  proof (cases p)
    case (Inl e)
    then have "t = u" using run u by (simp add: acknowledge_principles_def)
    then show ?thesis
      using profile_update_items [OF u] by (intro exI [of _ "\<lambda>i. i"]) (simp add: gentle_def)
  next
    case (Inr q)
    then have "resolve_open_items_for_holding now None ITEM_TYPE_PRINCIPLES_ACK ITEM_STATE_ACKNOWLEDGED u = (rs, t)"
      using run u by (simp add: acknowledge_principles_def)
    from resolve_open_items_gentle [OF this] profile_update_items [OF u] show ?thesis
      by (simp add: VALID_TRANSITIONS_def)
  qed
qed

lemma emit_item_effect:
  "emit_item now iid ty hid sev ctx s = (r, t) \<Longrightarrow>
   t = s \<or> (\<not> has_open_item_of_type s ty hid \<and>
     health_items t = health_items s @ [new_item now iid ty hid sev (ctx s)])"
  by (auto simp: emit_item_def Let_def health_insert_def split: if_splits)

lemma health_step_keeps:
  assumes "health_inv s" "health_step s t"
  shows "health_inv t \<and> (\<forall>i \<in> set (health_items s). permanent i \<longrightarrow> i \<in> set (health_items t))"
  using assms(2)
proof cases
  case (emit iid now item_type holding_id severity ctx r)
  then show ?thesis
    using emit_item_effect [OF emit(2)] assms(1)
    by (auto simp: health_inv_def new_item_def item_ok_def is_open_def)
qed (use assms(1) resolve_step_gentle revive_step_gentle bulk_steps_gentle gentle_step in \<open>meson\<close>)+

interpretation health: invariant_system health_step health_inv
  by unfold_locales (use health_step_keeps in blast)

lemma permanent_items_stay:
  assumes "health_step\<^sup>*\<^sup>* s t" "health_inv s" "i \<in> set (health_items s)" "permanent i"
  shows "i \<in> set (health_items t)"
  using assms(1)
proof (induction rule: rtranclp_induct)
  case (step u v)
  have "health_inv u" using step(1) assms(2) by (rule health.inv_run)
  then show ?case using health_step_keeps [OF _ step(2)] step(3) assms(4) by blast
qed (rule assms(3))

section \<open>Adding metadata\<close>

definition metadata_set :: "holding \<Rightarrow> holding" where
  "metadata_set h = h\<lparr>h_signing_metadata_present := Some True\<rparr>"

lemma apply_fix_success:
  assumes "apply_fix_metadata bdk now hid e net s = (Inr resp, t)" "fx_success resp"
  obtains d where "d \<in> set (descriptors s)" "d_holding_id d = hid"
    "holdings t = update_rows h_id hid metadata_set (holdings s)"
    "descriptors t = update_rows d_id (d_id d) (\<lambda>d. d\<lparr>d_expression := e\<rparr>) (descriptors s)"
    "health_items t = update_where (open_of ITEM_TYPE_MISSING_SIGNING_METADATA (Some hid))
       (\<lambda>i. i\<lparr>hi_state := ITEM_STATE_RESOLVED_BY_FIX, hi_resolved_at := Some now\<rparr>) (health_items s)"
    "custodial_providers t = custodial_providers s" "0 < fx_matched resp"
proof -
  have m: "(\<lambda>h. h\<lparr>h_signing_metadata_present := Some True\<rparr>) = metadata_set"
    by (simp add: metadata_set_def fun_eq_iff)
  have member: "d \<in> set (descriptors s) \<and> d_holding_id d = hid"
    if "list_descriptors_for_holding s hid = Inr (d # ds)" for d ds
  proof -
    have "d \<in> set (descriptor_rows_for_holding s hid)"
      using list_descriptors_for_holdingD [OF that] by (metis list.set_intros(1))
    then show ?thesis by simp
  qed
  have fp: "re_test FINGERPRINT_RE e"
    using assms by (cases "re_test FINGERPRINT_RE e") (auto simp: apply_fix_metadata_def ret_def)
  obtain p where p: "parse_on bdk e net = Inr p"
    using assms fp by (cases "parse_on bdk e net") (auto simp: apply_fix_metadata_def ret_def)
  note run = assms(1) [unfolded apply_fix_metadata_def, simplified fp p if_True if_False simp_thms sum.case bnd_readr]
  obtain d ds where l: "list_descriptors_for_holding s hid = Inr (d # ds)"
    using run assms(2) by (auto simp: ret_def split: sum.splits list.splits)
  note run = run [simplified l sum.case list.case bnd_simps(3)]
  have rows: "watched_rows s (d_id d) \<noteq> []"
    using run assms(2) by (auto simp: ret_def)
  obtain da where da: "derive_on bdk e net (length (watched_rows s (d_id d))) = Inr da"
    using run assms(2) rows by (cases "derive_on bdk e net (length (watched_rows s (d_id d)))") (auto simp: ret_def)
  define n where "n = card (a_address ` set (watched_rows s (d_id d)) \<inter> da_address ` set da)"
  have one: "min (length (watched_rows s (d_id d))) 1 = 1"
    using rows by (cases "watched_rows s (d_id d)") simp_all
  have n: "0 < n"
    using run assms(2) rows da by (cases n) (auto simp: ret_def n_def [symmetric] Let_def one)
  have "bnd (set_expression (d_id d) e) (\<lambda>_. bnd (modify (write_holding hid metadata_set)) (\<lambda>_.
      bnd (resolve_missing_metadata_items_for_holding now hid) (\<lambda>_.
      ret \<lparr>fx_success = True, fx_matched = n, fx_error = None\<rparr>))) s = (Inr resp, t)"
    using run rows da n by (simp add: n_def [symmetric] Let_def one m)
  then show ?thesis
    using that [of d] member [OF l] n
    by (auto simp: set_expression_def bnd_eq_Inr_iff svc_defs write_holding_def
        resolve_missing_metadata_items_for_holding_def resolve_open_items_for_holding_def split: if_splits)
qed

lemma insort_key_map_same:
  assumes "\<And>x. g (f x) = g x"
  shows "insort_key g (f x) (map f xs) = map f (insort_key g x xs)"
  using assms by (induction xs) simp_all

lemma sort_key_map_same:
  assumes "\<And>x. g (f x) = g x"
  shows "sort_key g (map f xs) = map f (sort_key g xs)"
  using insort_key_map_same [of g f, OF assms] by (induction xs) simp_all

lemma fix_descriptor_ids:
  assumes "descriptors t = update_rows d_id k (\<lambda>d. d\<lparr>d_expression := e\<rparr>) (descriptors s)"
  shows "descriptor_ids_for_holding t hid = descriptor_ids_for_holding s hid"
proof -
  define f where "f = (\<lambda>d :: descriptor. if d_id d = k then d\<lparr>d_expression := e\<rparr> else d)"
  have keep: "d_created_at (f d) = d_created_at d" "d_holding_id (f d) = d_holding_id d" "d_id (f d) = d_id d" for d
    by (simp_all add: f_def)
  have "descriptors t = map f (descriptors s)" unfolding assms update_rows_def f_def ..
  then have "descriptor_rows_for_holding t hid = map f (descriptor_rows_for_holding s hid)"
    by (simp add: descriptor_rows_for_holding_def filter_map o_def keep sort_key_map_same [of d_created_at f])
  then show ?thesis by (simp add: descriptor_ids_for_holding_def o_def keep)
qed

lemma get_holding_row:
  assumes "get_holding s hid = Inr (Some h)"
  obtains r where "find_row h_id hid (holdings s) = Some r" "h_holding_type r = h_holding_type h"
    "h = r\<lparr>h_descriptor_ids := h_descriptor_ids h, h_custodial_provider_id := h_custodial_provider_id h\<rparr>"
    "Holding h = Inr h"
proof -
  obtain ds cp where "holding_repo_get s hid ds cp = Inr (Some h)"
    using assms by (auto simp: get_holding_def split: selected.splits)
  from holding_repo_get_SomeD [OF this] show ?thesis using that by auto
qed

text \<open>Reading after a fix: the same lookups, the metadata flag set.\<close>

lemma metadata_set_commute:
  "(metadata_set r)\<lparr>h_descriptor_ids := ds, h_custodial_provider_id := cp\<rparr> =
   metadata_set (r\<lparr>h_descriptor_ids := ds, h_custodial_provider_id := cp\<rparr>)"
  by (simp add: metadata_set_def)

lemma holding_repo_get_fixed:
  assumes "holding_repo_get s hid ds cp = Inr (Some h)"
    and "holdings t = update_rows h_id hid metadata_set (holdings s)"
  shows "holding_repo_get t hid ds cp = rbind (Holding (metadata_set h)) (\<lambda>h. Inr (Some h))"
proof -
  have row: "find_row h_id hid (holdings t) = map_option metadata_set (find_row h_id hid (holdings s))"
    unfolding assms(2) by (subst find_row_update) (simp_all add: metadata_set_def)
  from holding_repo_get_SomeD [OF assms(1)] obtain r where
    "find_row h_id hid (holdings s) = Some r" "h = r\<lparr>h_descriptor_ids := ds, h_custodial_provider_id := cp\<rparr>"
    by blast
  then show ?thesis
    by (simp add: holding_repo_get_def row holding_row_to_domain_def metadata_set_commute)
qed

lemma get_holding_fixed:
  assumes "get_holding s hid = Inr (Some h)"
    and "holdings t = update_rows h_id hid metadata_set (holdings s)"
    and "descriptors t = update_rows d_id k (\<lambda>d. d\<lparr>d_expression := e\<rparr>) (descriptors s)"
    and "custodial_providers t = custodial_providers s"
  shows "get_holding t hid = rbind (Holding (metadata_set h)) (\<lambda>h. Inr (Some h))"
proof (cases "one_or_none (\<lambda>p. cp_holding_id p = hid) (custodial_providers s)")
  case SelNone
  then show ?thesis using assms(1) holding_repo_get_fixed [OF _ assms(2)]
    unfolding get_holding_def fix_descriptor_ids [OF assms(3)] assms(4) SelNone selected.case by blast
next
  case (SelOne p)
  then show ?thesis using assms(1) holding_repo_get_fixed [OF _ assms(2)]
    unfolding get_holding_def fix_descriptor_ids [OF assms(3)] assms(4) SelOne selected.case by blast
next
  case SelMany
  then show ?thesis using assms(1) unfolding get_holding_def SelMany selected.case by blast
qed

lemma vault_with_metadata_refused:
  assumes "Holding h = Inr h" "h_holding_type h = HT_VAULT"
  shows "Holding (metadata_set h) = Inl (ValueError V_Signing_metadata_present)"
  using assms
  by (auto simp: Holding_def Domain.construct_def holding_checks_def metadata_set_def reject_strongbox_metadata_def
      split: option.splits if_splits)

lemma strongbox_with_metadata_accepted:
  assumes "Holding h = Inr h" "h_holding_type h = HT_STRONGBOX"
  shows "Holding (metadata_set h) = Inr (metadata_set h)"
  using assms
  by (auto simp: Holding_def construct_Inr_iff holding_checks_def metadata_set_def reject_vault_metadata_def)

section \<open>Properties\<close>


text \<open>Adding the missing key-origin metadata to a Vault makes it unreadable: the fix reports success
  and stores the Strongbox flag on the Vault's row, and from then on reading the holding, and the list of
  all holdings, raises.\<close>

theorem metadata_fix_makes_vault_unreadable:
  assumes "get_holding s hid = Inr (Some h)" "h_holding_type h = HT_VAULT"
    and "apply_fix_metadata bdk now hid e net s = (Inr resp, t)" "fx_success resp"
  shows "get_holding t hid = Inl (ValueError V_Signing_metadata_present) \<and>
    (\<exists>x. list_holdings t None None = Inl x)"
proof -
  from get_holding_row [OF assms(1)] obtain r where
    r: "find_row h_id hid (holdings s) = Some r" "h_holding_type r = HT_VAULT" and h: "Holding h = Inr h"
    using assms(2) by metis
  from apply_fix_success [OF assms(3,4)] obtain d :: descriptor where
    t: "holdings t = update_rows h_id hid metadata_set (holdings s)"
    "descriptors t = update_rows d_id (d_id d) (\<lambda>d. d\<lparr>d_expression := e\<rparr>) (descriptors s)"
    "custodial_providers t = custodial_providers s" by blast
  have "get_holding t hid = Inl (ValueError V_Signing_metadata_present)"
    using get_holding_fixed [OF assms(1) t] vault_with_metadata_refused [OF h assms(2)] by simp
  moreover have "\<exists>x. list_holdings t None None = Inl x"
  proof -
    have "metadata_set r \<in> set (holdings t)"
      using find_row_SomeD [OF r(1)] unfolding t(1) set_update_rows by force
    then have in_list: "metadata_set r \<in> set (list_holding_rows t None None)"
      by (simp add: list_holding_rows_def)
    have "\<exists>x. holding_row_to_domain (metadata_set r) ds cp = Inl x" for ds cp
      using r(2) Holding_Inr_metadata(2) [of "(metadata_set r)\<lparr>h_descriptor_ids := ds, h_custodial_provider_id := cp\<rparr>"]
      unfolding holding_row_to_domain_def
      by (cases "Holding ((metadata_set r)\<lparr>h_descriptor_ids := ds, h_custodial_provider_id := cp\<rparr>)")
         (auto simp: metadata_set_def has_strongbox_metadata_def)
    then show ?thesis
      unfolding list_holdings_def Let_def using rmap_Inl_if [OF in_list] by meson
  qed
  ultimately show ?thesis by simp
qed

text \<open>Adding the missing metadata to a Strongbox stores the re-exported expression only after an
  address it derives was among the watched ones, sets the flag so that the holding still reads back, and
  leaves no open missing-metadata item of the holding.\<close>

theorem metadata_fix_settles_strongbox:
  assumes "get_holding s hid = Inr (Some h)" "h_holding_type h = HT_STRONGBOX"
    and "apply_fix_metadata bdk now hid e net s = (Inr resp, t)" "fx_success resp"
  shows "get_holding t hid = Inr (Some (h\<lparr>h_signing_metadata_present := Some True\<rparr>)) \<and> 0 < fx_matched resp \<and>
    \<not> has_open_item_of_type t ITEM_TYPE_MISSING_SIGNING_METADATA (Some hid) \<and>
    (\<exists>d \<in> set (descriptors t). d_holding_id d = hid \<and> d_expression d = e)"
proof -
  from get_holding_row [OF assms(1)] have h: "Holding h = Inr h" by metis
  from apply_fix_success [OF assms(3,4)] obtain d :: descriptor where d: "d \<in> set (descriptors s)" "d_holding_id d = hid"
    and t: "holdings t = update_rows h_id hid metadata_set (holdings s)"
    "descriptors t = update_rows d_id (d_id d) (\<lambda>d. d\<lparr>d_expression := e\<rparr>) (descriptors s)"
    "custodial_providers t = custodial_providers s"
    and items: "health_items t = update_where (open_of ITEM_TYPE_MISSING_SIGNING_METADATA (Some hid))
       (\<lambda>i. i\<lparr>hi_state := ITEM_STATE_RESOLVED_BY_FIX, hi_resolved_at := Some now\<rparr>) (health_items s)"
    and m: "0 < fx_matched resp" by blast
  have "get_holding t hid = Inr (Some (h\<lparr>h_signing_metadata_present := Some True\<rparr>))"
    using get_holding_fixed [OF assms(1) t] strongbox_with_metadata_accepted [OF h assms(2)]
    by (simp add: metadata_set_def)
  moreover have "\<not> has_open_item_of_type t ITEM_TYPE_MISSING_SIGNING_METADATA (Some hid)"
    unfolding has_open_item_of_type_def items set_update_where
    by (auto simp: open_of_def is_open_def item_states)
  moreover have "d\<lparr>d_expression := e\<rparr> \<in> set (descriptors t)"
    unfolding t(2) set_update_rows using d(1) by force
  ultimately show ?thesis using m d(2) by (metis descriptor.select_convs(2) descriptor.select_convs(4) descriptor.surjective descriptor.update_convs(4))
qed

text \<open>The list named for application-level items holds items of holdings only, never an application-level
  one.\<close>

theorem application_level_list_is_inverted:
  "(\<forall>i \<in> set (list_application_level_open s). hi_holding_id i \<noteq> None) \<and>
   set (list_application_level_open s) \<inter> set (list_application_level_open_real s) = {}"
  by (auto simp: list_application_level_open_def list_application_level_open_real_def list_open_def by_severity_def)

end
