(* ===== verification/Examples_Holdings.thy ===== *)
theory Examples_Holdings
  imports Examples Security_Health
begin

text \<open>
  The properties of the descriptor adapter, of holdings, of their deletion and of the security-health
  items applied to concrete inputs: a parser that knows a few expressions, and the two wallets of the
  other examples.
\<close>

section \<open>Descriptors\<close>

definition ex_bdk_descriptor :: "desc_type \<Rightarrow> string \<Rightarrow> bdk_descriptor" where
  "ex_bdk_descriptor t e = \<lparr>bd_is_multipath = False, bd_desc_type = t, bd_str = e, bd_descriptor_id = e,
     bd_derive_address = (\<lambda>i. Some (if i = 0 then ''a'' else if i = 1 then ''c'' else ''z''))\<rparr>"

definition ex_parser :: bdk_parser where
  "ex_parser e net =
     (if starts_with e ''wpkh('' then Some (ex_bdk_descriptor DT_WPKH e)
      else if starts_with e ''tr('' then Some (ex_bdk_descriptor DT_TR e)
      else if starts_with e ''wsh('' then Some (ex_bdk_descriptor DT_WSH e)
      else None)"

definition ex_branching :: string where
  "ex_branching = ''tr(K,or_d(pk(A),pk(B)))''"

theorem base58_round_trip_witness: "b58encode [97] = ''2g'' \<and> b58decode (b58encode [97]) = Inr [97]"
proof -
  have "b58decode ''2g'' = Inr [97]" by code_simp
  then show ?thesis using base58_round_trip [of "[97]" "''2g''" "[97]"] by simp
qed

lemma ex_branching_facts:
  "classified_expression ex_branching = ex_branching" "re_test UNSUPPORTED_FRAGMENT_RE ex_branching"
  "\<not> is_vault_tr ex_branching"
  by code_simp+

theorem branching_taproot_passes_as_single_key_witness:
  "cd_best_fit (classify_descriptor ex_parser ex_branching NET_REGTEST) = None \<and>
    (\<exists>p. parse ex_parser ex_branching NET_REGTEST False = Inr p \<and> pd_address_type p = AT_TAPROOT \<and>
      \<not> pd_is_multisig p)"
proof -
  have "ex_parser ex_branching NET_REGTEST = Some (ex_bdk_descriptor DT_TR ex_branching)"
    by (simp add: ex_parser_def ex_branching_def starts_with_def)
  from branching_taproot_passes_as_single_key [where bdk = ex_parser and e = ex_branching and net = NET_REGTEST
      and raw = ex_branching, OF this] ex_branching_facts show ?thesis
    by (simp add: ex_bdk_descriptor_def ex_branching_def)
qed

lemma ex_wpkh_facts: "classified_expression ''wpkh(K)'' = ''wpkh(K)''" "\<not> turned_away ''wpkh(K)''"
  by code_simp+

theorem classifier_agrees_with_parser_witness:
  "cd_best_fit (classify_descriptor ex_parser ''wpkh(K)'' NET_REGTEST) \<in> {Some ''purse'', Some ''strongbox''}"
proof -
  have "\<exists>p. parse ex_parser ''wpkh(K)'' NET_REGTEST False = Inr p"
    by (simp add: parse_def ex_parser_def starts_with_def ex_bdk_descriptor_def SINGLE_KEY_TYPES_def
        MULTISIG_TYPES_def MINISCRIPT_TYPES_def address_type_of_def)
  then show ?thesis
    using classifier_agrees_with_parser [of "''wpkh(K)''" ex_parser NET_REGTEST] ex_wpkh_facts by simp
qed

definition ex_key_bytes :: "nat \<Rightarrow> bytes" where
  "ex_key_bytes checksum = replicate 78 7 @ replicate 4 (of_nat checksum)"

theorem recoding_forges_the_checksum_witness:
  "recode_extended_key_version (b58encode (ex_key_bytes 0)) XPUB_VERSION =
   recode_extended_key_version (b58encode (ex_key_bytes 1)) XPUB_VERSION"
  using recoding_forges_the_checksum [OF decode_encode _ decode_encode, of "ex_key_bytes 0" "ex_key_bytes 1" XPUB_VERSION]
  by (simp add: ex_key_bytes_def)

section \<open>Deletion\<close>

lemma ex_references: "references_ok ex_db"
  by (simp add: references_ok_def inv_defs refers_def refers_opt_def ex_db_def empty_db_def ex_holding_def
      ex_descriptor_def ex_address_def)

lemma ex_delete: "fst (delete_cascade 1 ex_db) = Inr True"
  by code_simp

lemma ex_holding_1: "1 \<in> h_id ` set (holdings ex_db)"
  by (simp add: ex_db_def ex_holding_def)

theorem deletion_outcome_witness:
  "\<not> undeletable 1 ex_db \<and> holdings (snd (delete_cascade 1 ex_db)) = [ex_holding 2]"
proof -
  obtain t where t: "delete_cascade 1 ex_db = (Inr True, t)" using ex_delete by (metis prod.collapse)
  from deletion_outcome [OF ex_holding_1 t] have "\<not> undeletable 1 ex_db"
    "holdings t = filter (\<lambda>h. h_id h \<noteq> 1) (holdings ex_db)" by simp_all
  then show ?thesis unfolding t by (simp add: ex_db_def ex_holding_def)
qed


theorem invoiced_holding_is_undeletable_witness: "fst (delete_cascade 1 ex_invoiced) = Inl IntegrityError"
  by (rule invoiced_holding_is_undeletable [where i = "ex_new_invoice 31 21 ''a''" and
        a = "(ex_address 21 11 ''a'' 0)\<lparr>a_label := Some ''r''\<rparr>" and d = "ex_descriptor 11 1"])
     (simp_all add: ex_invoiced_def ex_db_def ex_holding_def ex_new_invoice_def new_invoice_def ex_address_def
        ex_descriptor_def)

text \<open>The first wallet paid the second; both are linked to the payment's entry.\<close>

definition ex_entry :: ledger_entry where
  "ex_entry = \<lparr>le_id = 71, le_direction = DIR_INTERNAL, le_net_amount_sats = 0, le_fee_sats = None, le_timestamp = 0,
     le_source = SRC_ONCHAIN_TRANSACTION, le_source_reference = ''x'', le_category = None, le_counterparty_label = None, le_note = None,
     le_suggested_category = None, le_categorized_at = None, le_created_at = 0\<rparr>"

definition ex_link :: "uuid \<Rightarrow> ledger_link" where
  "ex_link hid = \<lparr>ll_ledger_entry_id = 71, ll_holding_id = hid, ll_holding_amount_sats = 0\<rparr>"

definition ex_settled :: payment_request where
  "ex_settled = ex_sent\<lparr>pr_holding_id := 2, pr_status := PS_CONFIRMED, pr_resulting_ledger_entry_id := Some 71\<rparr>"

definition ex_linked_db :: db where
  "ex_linked_db = ex_db\<lparr>payment_requests := [ex_settled], ledger_entries := [ex_entry],
     ledger_links := [ex_link 1, ex_link 2]\<rparr>"

theorem deletion_unlinks_surviving_entry_witness:
  "\<exists>t. delete_cascade 1 ex_linked_db = (Inr True, t) \<and> ex_entry \<in> set (ledger_entries t) \<and>
    (\<exists>q \<in> set (payment_requests t). pr_id q = pr_id ex_settled \<and> pr_resulting_ledger_entry_id q = None)"
proof -
  have "fst (delete_cascade 1 ex_linked_db) = Inr True" by code_simp
  then obtain t where t: "delete_cascade 1 ex_linked_db = (Inr True, t)" by (metis prod.collapse)
  have "pr_holding_id ex_settled = 2" "pr_resulting_ledger_entry_id ex_settled = Some (le_id ex_entry)"
    "ll_ledger_entry_id (ex_link k) = le_id ex_entry" "ll_holding_id (ex_link k) = k" for k
    by (simp_all add: ex_settled_def ex_entry_def ex_link_def)
  moreover have "payment_requests ex_linked_db = [ex_settled]" "ledger_entries ex_linked_db = [ex_entry]"
    "ledger_links ex_linked_db = [ex_link 1, ex_link 2]" by (simp_all add: ex_linked_db_def)
  ultimately show ?thesis
    using deletion_unlinks_surviving_entry [OF t, of ex_settled 2 ex_entry "ex_link 1" "ex_link 2"] t by auto
qed

section \<open>Creation and type change\<close>

definition ex_spec :: descriptor_input where
  "ex_spec = \<lparr>di_name = ''d'', di_expression = ''wpkh(K)'', di_change_expression = Some ''wpkh(L)'',
     di_network = NET_REGTEST, di_gap_limit = 2\<rparr>"

definition ex_fields :: holding_fields where
  "ex_fields = \<lparr>hf_holding_type = HT_PURSE, hf_name = ''n'', hf_description = None, hf_purpose = PUR_SPENDING,
     hf_declared_security = ex_security, hf_display_color = ''c'', hf_display_order = 0\<rparr>"

definition ex_import_draws :: "nat \<Rightarrow> import_draws" where
  "ex_import_draws n = \<lparr>id_descriptor = 13 + n, id_external = (\<lambda>k. 40 + k), id_change = (\<lambda>k. 50 + k)\<rparr>"

lemma isr_Inr: "case_sum (\<lambda>_. False) (\<lambda>_. True) (fst p) \<Longrightarrow> \<exists>x t. p = (Inr x, t)"
  by (cases p; cases "fst p") auto

lemma ex_create_runs:
  "\<exists>h t. create_purse ex_parser ex_db 0 5 3 ex_import_draws ex_fields PM_WATCH_ONLY [ex_spec] ex_db = (Inr h, t)"
  by (rule isr_Inr) code_simp


theorem import_fills_the_gap_witness:
  "\<exists>d as t. import_descriptor ex_parser ex_db 5 (ex_import_draws 0) 1 ex_spec False ex_db = (Inr (d, as), t) \<and>
     map a_derivation_index (filter (\<lambda>a. \<not> a_is_change a) as) = [0, 1] \<and>
     map a_derivation_index (filter a_is_change as) = [0, 1]"
proof -
  have "\<exists>x t. import_descriptor ex_parser ex_db 5 (ex_import_draws 0) 1 ex_spec False ex_db = (Inr x, t)"
    by (rule isr_Inr) code_simp
  then obtain d as t where run:
    "import_descriptor ex_parser ex_db 5 (ex_import_draws 0) 1 ex_spec False ex_db = (Inr (d, as), t)" by auto
  have idx: "map int [0..<nat (di_gap_limit ex_spec)] = [0, 1]" by (simp add: ex_spec_def numeral_2_eq_2)
  have chg: "di_change_expression ex_spec \<noteq> None" by (simp add: ex_spec_def)
  note gap = import_fills_the_gap [OF run, unfolded idx if_not_P [OF chg]]
  then show ?thesis using run by (intro exI [of _ d] exI [of _ as] exI [of _ t]) simp
qed

definition ex_vault :: db where
  "ex_vault = ex_db\<lparr>holdings := [(ex_holding 1)\<lparr>h_holding_type := HT_VAULT, h_required_signers := Some 2,
     h_total_signers := Some 3\<rparr>, ex_holding 2]\<rparr>"

theorem type_change_outcome_witness:
  "\<exists>h t. api_change_holding_type 9 80 1 HT_STRONGBOX None ex_db = (Inr h, t) \<and> h_holding_type h = HT_STRONGBOX"
proof -
  have "\<exists>h t. api_change_holding_type 9 80 1 HT_STRONGBOX None ex_db = (Inr h, t)"
    by (rule isr_Inr) code_simp
  then show ?thesis using type_change_outcome by blast
qed

theorem subtype_metadata_blocks_type_change_witness:
  "api_change_holding_type 9 80 1 HT_PURSE None ex_vault = (Inl 422, ex_vault)"
  by (rule subtype_metadata_blocks_type_change
        [where r = "(ex_holding 1)\<lparr>h_holding_type := HT_VAULT, h_required_signers := Some 2, h_total_signers := Some 3\<rparr>"])
     (simp_all add: ex_vault_def ex_db_def ex_holding_def has_vault_metadata_def)

section \<open>Security health\<close>

definition ex_item :: health_item where
  "ex_item = new_item 4 90 ITEM_TYPE_MISSING_SIGNING_METADATA (Some 1) ''warning'' []"

definition ex_unhealthy :: "holding_type \<Rightarrow> db" where
  "ex_unhealthy ht = ex_db\<lparr>holdings := [(ex_holding 1)\<lparr>h_holding_type := ht,
     h_required_signers := (if ht = HT_VAULT then Some 1 else None),
     h_total_signers := (if ht = HT_VAULT then Some 1 else None)\<rparr>, ex_holding 2],
     health_items := [ex_item]\<rparr>"


definition ex_origin :: string where
  "ex_origin = ''wpkh([aabbccdd/0]K)''"

lemma ex_fix_runs:
  "\<exists>r t. apply_fix_metadata ex_parser 7 1 ex_origin ''regtest'' (ex_unhealthy HT_STRONGBOX) = (Inr r, t) \<and> fx_success r"
  "\<exists>r t. apply_fix_metadata ex_parser 7 1 ex_origin ''regtest'' (ex_unhealthy HT_VAULT) = (Inr r, t) \<and> fx_success r"
proof -
  have ex: "case_sum (\<lambda>_. False) fx_success (fst p) \<Longrightarrow> \<exists>r t. p = (Inr r, t) \<and> fx_success r" for p :: "(exn + fix_response) \<times> db"
    by (cases p; cases "fst p") auto
  show "\<exists>r t. apply_fix_metadata ex_parser 7 1 ex_origin ''regtest'' (ex_unhealthy HT_STRONGBOX) = (Inr r, t) \<and> fx_success r"
    by (rule ex) code_simp
  show "\<exists>r t. apply_fix_metadata ex_parser 7 1 ex_origin ''regtest'' (ex_unhealthy HT_VAULT) = (Inr r, t) \<and> fx_success r"
    by (rule ex) code_simp
qed

lemma ex_unhealthy_holding:
  "case_sum (\<lambda>_. False) (\<lambda>h. case_option False (\<lambda>h. h_holding_type h = HT_STRONGBOX) h) (get_holding (ex_unhealthy HT_STRONGBOX) 1)"
  "case_sum (\<lambda>_. False) (\<lambda>h. case_option False (\<lambda>h. h_holding_type h = HT_VAULT) h) (get_holding (ex_unhealthy HT_VAULT) 1)"
  by code_simp+

theorem metadata_fix_makes_vault_unreadable_witness:
  "\<exists>r t. apply_fix_metadata ex_parser 7 1 ex_origin ''regtest'' (ex_unhealthy HT_VAULT) = (Inr r, t) \<and>
     get_holding t 1 = Inl (ValueError V_Signing_metadata_present)"
proof -
  from ex_unhealthy_holding(2) obtain h where "get_holding (ex_unhealthy HT_VAULT) 1 = Inr (Some h)" "h_holding_type h = HT_VAULT"
    by (auto split: sum.splits option.splits)
  then show ?thesis using ex_fix_runs(2) metadata_fix_makes_vault_unreadable by blast
qed

theorem metadata_fix_settles_strongbox_witness:
  "\<exists>r t h. apply_fix_metadata ex_parser 7 1 ex_origin ''regtest'' (ex_unhealthy HT_STRONGBOX) = (Inr r, t) \<and>
     get_holding t 1 = Inr (Some h) \<and> \<not> has_open_item_of_type t ITEM_TYPE_MISSING_SIGNING_METADATA (Some 1)"
proof -
  from ex_unhealthy_holding(1) obtain h where
    "get_holding (ex_unhealthy HT_STRONGBOX) 1 = Inr (Some h)" "h_holding_type h = HT_STRONGBOX"
    by (auto split: sum.splits option.splits)
  then show ?thesis using ex_fix_runs(1) metadata_fix_settles_strongbox by blast
qed

end
