(* ===== verification/Accounts.thy ===== *)
theory Accounts
  imports Custody Holdings "HOL-Library.Char_ord" "HOL-Library.List_Lexorder"
begin

text \<open>
  Exchange accounts: the provider half of \<^verbatim>\<open>services/treasury_service.py\<close>, the setup tokens and the account
  handlers of \<^verbatim>\<open>api/v1/holdings.py\<close>, and \<^verbatim>\<open>api/v1/custodial_providers.py\<close>.

  A service here runs on the pair \<open>custody\<close> of the session and the secret store.  A handler that fails rolls
  the session back, but what was written to the secret store stays written.  Setup tokens live in a
  dictionary of the process.

  The lemmas show that an account that was created can be polled with the credentials it was created
  with, what a rotation of credentials accepts and leaves, what a setup token skips, how a manual sweep
  ends, and that a deleted account leaves no secret.
\<close>

section \<open>Services on session and store\<close>

datatype account_exn =
    Service exn
  | Mismatch "string list" "string list"
  | Provider_Raised provider_exn
  | Secret_Raised secret_exn

type_synonym 'a account = "(account_exn, custody, 'a) svc"

definition on_db :: "'a service \<Rightarrow> 'a account" where
  "on_db m st = (case m (fst st) of
      (Inl e, t) \<Rightarrow> (Inl (Service e), (t, snd st)) | (Inr x, t) \<Rightarrow> (Inr x, (t, snd st)))"

definition put_secret :: "crypto_api \<Rightarrow> bytes \<Rightarrow> string \<Rightarrow> string \<Rightarrow> unit account" where
  "put_secret c nonce reference v st = (case set_secret c nonce reference (encode v) (snd st) of
      (Inl e, ss) \<Rightarrow> (Inl (Secret_Raised e), (fst st, ss)) | (Inr _, ss) \<Rightarrow> (Inr (), (fst st, ss)))"

definition fetch_secret :: "crypto_api \<Rightarrow> string \<Rightarrow> string account" where
  "fetch_secret c reference st =
     (case read_secret c (snd st) reference of Inl e \<Rightarrow> Inl (Secret_Raised e) | Inr v \<Rightarrow> Inr v, st)"

definition drop_secret :: "string \<Rightarrow> unit account" where
  "drop_secret reference st = (case delete_secret reference (snd st) of
      (Inl e, ss) \<Rightarrow> (Inl (Secret_Raised e), (fst st, ss)) | (Inr _, ss) \<Rightarrow> (Inr (), (fst st, ss)))"

text \<open>\<^verbatim>\<open>except\<close> clauses: an exception of the first argument becomes another one.\<close>

definition except :: "'a account \<Rightarrow> (account_exn \<Rightarrow> account_exn) \<Rightarrow> 'a account" where
  "except m f st = (case m st of (Inl e, t) \<Rightarrow> (Inl (f e), t) | (Inr x, t) \<Rightarrow> (Inr x, t))"

definition locked_is_service_error :: "account_exn \<Rightarrow> account_exn" where
  "locked_is_service_error e = (if e = Secret_Raised StoreLocked then Service TreasuryServiceError else e)"

definition unreadable_is_service_error :: "account_exn \<Rightarrow> account_exn" where
  "unreadable_is_service_error e =
     (if e = Secret_Raised StoreLocked \<or> e = Secret_Raised SecretKeyError then Service TreasuryServiceError else e)"

section \<open>References\<close>

definition provider_reference :: "uuid \<Rightarrow> string \<Rightarrow> string" where
  "provider_reference pid suffix = ''provider:'' @ uuid_str pid @ suffix"

section \<open>Validating credentials\<close>

type_synonym prefetched = "sats \<times> (string \<times> string) list \<times> provider_ledger_entry list \<times> nat"

definition fetch_balances :: "adapter \<Rightarrow> account_exn + sats \<times> (string \<times> string) list" where
  "fetch_balances ad =
     (case rbind (ad_get_balance ad) (\<lambda>b. rbind (ad_get_other_balances ad) (\<lambda>others. Inr (b, others))) of
        Inr r \<Rightarrow> Inr r
      | Inl e \<Rightarrow> (case e of P_Error _ \<Rightarrow> Inr (0, []) | _ \<Rightarrow> Inl (Provider_Raised e)))"

definition fetch_preview :: "adapter \<Rightarrow> provider_ledger_entry list" where
  "fetch_preview ad = (case ad_fetch_ledger_since ad None of Inl _ \<Rightarrow> [] | Inr (es, _) \<Rightarrow> es)"

definition provider_failure :: "provider_exn \<Rightarrow> account_exn" where
  "provider_failure e = (case e of
      P_Auth _ \<Rightarrow> Service TreasuryServiceError | P_Error _ \<Rightarrow> Service ProviderConnectionError | _ \<Rightarrow> Provider_Raised e)"

definition validate_account_credentials :: "exchanges \<Rightarrow> string \<Rightarrow> credentials \<Rightarrow> account_exn + prefetched" where
  "validate_account_credentials exs adapter_id cr =
     (case build_adapter exs adapter_id cr of
        Inl e \<Rightarrow> Inl (Service (if e = UnsupportedAdapterError then TreasuryServiceError else e))
      | Inr ad \<Rightarrow>
          (case ad_get_permissions ad of
             Inl e \<Rightarrow> Inl (provider_failure e)
           | Inr perms \<Rightarrow>
               if pp_overage perms \<noteq> [] \<or> pp_underage perms \<noteq> []
               then Inl (Mismatch (pp_overage perms) (pp_underage perms))
               else rbind (fetch_balances ad) (\<lambda>(balance, others).
                 Inr (balance, others, fetch_preview ad, length (fetch_preview ad)))))"

section \<open>Creating an account\<close>

record account_input =
  ai_fields :: holding_fields
  ai_provider_kind :: provider_kind
  ai_display_name :: string
  ai_adapter_id :: string
  ai_credentials :: credentials

record account_draws =
  dw_holding_id :: uuid
  dw_provider_id :: uuid
  dw_nonces :: "nat \<Rightarrow> bytes"
  dw_entry_ids :: "nat \<Rightarrow> uuid"

definition last_four :: "string \<Rightarrow> string" where
  "last_four key = (if length key \<ge> 4 then drop (length key - 4) key else key)"

definition read_only_perms :: provider_permissions where
  "read_only_perms =
     \<lparr>pp_can_read = True, pp_can_trade = False, pp_can_withdraw = False, pp_overage = [], pp_underage = []\<rparr>"

text \<open>The references a new account stores its credentials under.\<close>

definition read_references :: "uuid \<Rightarrow> credentials \<Rightarrow> string \<times> string \<times> string option" where
  "read_references pid cr =
     (provider_reference pid '':read_api_key'', provider_reference pid '':read_api_secret'',
      map_option (\<lambda>_. provider_reference pid '':read_api_passphrase'') (cr_api_passphrase cr))"

definition store_credentials ::
  "crypto_api \<Rightarrow> (nat \<Rightarrow> bytes) \<Rightarrow> string \<times> string \<times> string option \<Rightarrow> credentials \<Rightarrow> unit account" where
  "store_credentials c nonces refs cr =
     (case refs of (cred_ref, secret_ref, pass_ref) \<Rightarrow>
        bnd (put_secret c (nonces 0) cred_ref (cr_api_key cr)) (\<lambda>_.
        bnd (put_secret c (nonces 1) secret_ref (cr_api_secret cr)) (\<lambda>_.
        case (pass_ref, cr_api_passphrase cr) of
          (Some r, Some v) \<Rightarrow> put_secret c (nonces 2) r v
        | _ \<Rightarrow> ret ())))"

definition new_provider ::
  "timestamp \<Rightarrow> account_draws \<Rightarrow> account_input \<Rightarrow> sats \<Rightarrow> (string \<times> string) list \<Rightarrow> custodial_provider" where
  "new_provider now dw ai balance others =
     (case read_references (dw_provider_id dw) (ai_credentials ai) of (cred_ref, secret_ref, pass_ref) \<Rightarrow>
      \<lparr>cp_id = dw_provider_id dw, cp_holding_id = dw_holding_id dw, cp_provider_kind = ai_provider_kind ai,
       cp_display_name = ai_display_name ai, cp_adapter_id = ai_adapter_id ai,
       cp_api_credential_reference = cred_ref, cp_api_secret_reference = secret_ref,
       cp_api_passphrase_reference = pass_ref, cp_permissions = read_only_perms,
       cp_whitelist_address = None, cp_whitelist_address_descriptor_id = None, cp_whitelist_verified = False,
       cp_is_active = True, cp_last_polled_at = Some now, cp_last_error = None,
       cp_last_known_balance_sats = Some balance, cp_connection_status = ''healthy'', cp_consecutive_error_count = 0,
       cp_ledger_cursor_at = None, cp_polling_interval_seconds = 600,
       cp_observation_key_last_four = Some (last_four (cr_api_key (ai_credentials ai))),
       cp_non_btc_balances = others, cp_created_at = now, cp_updated_at = now\<rparr>)"

definition account_fields :: "account_input \<Rightarrow> holding_fields" where
  "account_fields ai = (ai_fields ai)\<lparr>hf_holding_type := HT_ACCOUNT\<rparr>"

definition new_account_holding :: "timestamp \<Rightarrow> account_draws \<Rightarrow> account_input \<Rightarrow> holding" where
  "new_account_holding now dw ai =
     (holding_row now (dw_holding_id dw) (account_fields ai) no_subtype)\<lparr>h_custodial_provider_id := Some (dw_provider_id dw)\<rparr>"

text \<open>The rows of a new account, in one session.\<close>

definition insert_account ::
  "timestamp \<Rightarrow> timestamp \<Rightarrow> account_draws \<Rightarrow> account_input \<Rightarrow> prefetched \<Rightarrow> (holding \<times> custodial_provider) service" where
  "insert_account now db_now dw ai pre =
     (case pre of (balance, others, entries, _) \<Rightarrow>
        bnd (lift_result (Holding (new_account_holding now dw ai))) (\<lambda>holding.
        bnd (modify (insert_row db_now (dw_holding_id dw) (account_fields ai) no_subtype)) (\<lambda>_.
        bnd (lift_result (CustodialProvider (new_provider now dw ai balance others))) (\<lambda>provider.
        bnd (modify (cp_create provider)) (\<lambda>_.
        bnd (persist_entries now (dw_entry_ids dw) provider 0 entries) (\<lambda>_.
        bnd (case newest None entries of None \<Rightarrow> ret ()
             | Some ts \<Rightarrow> modify (cp_update_ledger_cursor now (dw_provider_id dw) ts)) (\<lambda>_.
        ret (holding, provider))))))))"

definition create_account_holding ::
  "crypto_api \<Rightarrow> exchanges \<Rightarrow> timestamp \<Rightarrow> timestamp \<Rightarrow> account_draws \<Rightarrow> account_input \<Rightarrow> prefetched option \<Rightarrow>
   (holding \<times> custodial_provider \<times> sats \<times> (string \<times> string) list) account" where
  "create_account_holding c exs now db_now dw ai pre =
     bnd (case pre of Some x \<Rightarrow> ret x
          | None \<Rightarrow> lift_result (validate_account_credentials exs (ai_adapter_id ai) (ai_credentials ai))) (\<lambda>fetched.
     bnd (except (store_credentials c (dw_nonces dw) (read_references (dw_provider_id dw) (ai_credentials ai))
            (ai_credentials ai)) locked_is_service_error) (\<lambda>_.
     bnd (on_db (insert_account now db_now dw ai fetched)) (\<lambda>(holding, provider).
     ret (holding, provider, fst fetched, fst (snd fetched)))))"

section \<open>Providers\<close>

definition service_get_provider :: "uuid \<Rightarrow> custodial_provider service" where
  "service_get_provider pid = bnd (readr (\<lambda>s. cp_get s pid)) (\<lambda>p. found_or p ProviderNotFound)"

definition list_providers :: "db \<Rightarrow> exn + custodial_provider list" where
  "list_providers = cp_list_active"

text \<open>\<^verbatim>\<open>api_key or secret_store.get_secret(...)\<close>: an empty string counts as absent.\<close>

definition given_or_stored :: "crypto_api \<Rightarrow> string option \<Rightarrow> string \<Rightarrow> string account" where
  "given_or_stored c v_opt reference =
     (case v_opt of None \<Rightarrow> fetch_secret c reference | Some v \<Rightarrow> if v = [] then fetch_secret c reference else ret v)"

record provider_patch =
  pt_display_name :: "string option"
  pt_api_key :: "string option"
  pt_api_secret :: "string option"
  pt_api_passphrase :: "string option"

definition rotation_references :: "uuid \<Rightarrow> (nat \<Rightarrow> uuid) \<Rightarrow> credentials \<Rightarrow> string \<times> string \<times> string option" where
  "rotation_references pid tags cr =
     (provider_reference pid ('':api_key:'' @ take 8 (uuid_hex (tags 0))),
      provider_reference pid ('':api_secret:'' @ take 8 (uuid_hex (tags 1))),
      map_option (\<lambda>_. provider_reference pid ('':api_passphrase:'' @ take 8 (uuid_hex (tags 2)))) (cr_api_passphrase cr))"

definition purge_secrets :: "custodial_provider \<Rightarrow> unit account" where
  "purge_secrets p =
     bnd (drop_secret (cp_api_credential_reference p)) (\<lambda>_.
     bnd (drop_secret (cp_api_secret_reference p)) (\<lambda>_.
     case cp_api_passphrase_reference p of
       None \<Rightarrow> ret ()
     | Some r \<Rightarrow> if r = [] then ret () else drop_secret r))"

definition new_permissions :: "exchanges \<Rightarrow> string \<Rightarrow> credentials \<Rightarrow> account_exn + provider_permissions" where
  "new_permissions exs adapter_id cr =
     (case build_adapter exs adapter_id cr of
        Inl e \<Rightarrow> Inl (Service e)
      | Inr ad \<Rightarrow> (case ad_get_permissions ad of Inl e \<Rightarrow> Inl (provider_failure e) | Inr perms \<Rightarrow> Inr perms))"

definition rotate_credentials ::
  "crypto_api \<Rightarrow> exchanges \<Rightarrow> timestamp \<Rightarrow> (nat \<Rightarrow> bytes) \<Rightarrow> (nat \<Rightarrow> uuid) \<Rightarrow> uuid \<Rightarrow> provider_patch \<Rightarrow>
   custodial_provider \<Rightarrow> custodial_provider account" where
  "rotate_credentials c exs now nonces tags pid pt provider =
     bnd (given_or_stored c (pt_api_key pt) (cp_api_credential_reference provider)) (\<lambda>new_key.
     bnd (given_or_stored c (pt_api_secret pt) (cp_api_secret_reference provider)) (\<lambda>new_secret.
     let cr = \<lparr>cr_api_key = new_key, cr_api_secret = new_secret, cr_api_passphrase = pt_api_passphrase pt\<rparr>;
         refs = rotation_references pid tags cr in
     bnd (lift_result (new_permissions exs (cp_adapter_id provider) cr)) (\<lambda>perms.
     bnd (raise_if (pp_can_trade perms) (Service TradePermissionsDetected)) (\<lambda>_.
     bnd (purge_secrets provider) (\<lambda>_.
     bnd (store_credentials c nonces refs cr) (\<lambda>_.
     bnd (on_db (cp_update_credentials now pid (fst refs) (fst (snd refs)) (snd (snd refs)))) (\<lambda>updated.
     ret (or_else updated provider))))))))"

text \<open>The handler passes the store only when a key or a secret is given and not empty.\<close>

definition patch_provider ::
  "crypto_api \<Rightarrow> exchanges \<Rightarrow> timestamp \<Rightarrow> (nat \<Rightarrow> bytes) \<Rightarrow> (nat \<Rightarrow> uuid) \<Rightarrow> uuid \<Rightarrow> provider_patch \<Rightarrow> bool \<Rightarrow>
   custodial_provider account" where
  "patch_provider c exs now nonces tags pid pt has_store =
     bnd (on_db (service_get_provider pid)) (\<lambda>provider.
     if pt_api_key pt = None \<and> pt_api_secret pt = None then ret provider
     else if \<not> has_store then raise (Service TreasuryServiceError)
     else rotate_credentials c exs now nonces tags pid pt provider)"

definition credentials_of :: "crypto_api \<Rightarrow> custodial_provider \<Rightarrow> credentials account" where
  "credentials_of c p =
     except (\<lambda>st. (case read_credentials c (snd st) p of Inl e \<Rightarrow> Inl (Secret_Raised e) | Inr cr \<Rightarrow> Inr cr, st))
       unreadable_is_service_error"

definition refresh_failed :: "timestamp \<Rightarrow> uuid \<Rightarrow> provider_exn \<Rightarrow> 'a account" where
  "refresh_failed now pid e =
     (case e of
        P_Auth m \<Rightarrow> bnd (on_db (cp_update_error now pid m now)) (\<lambda>_. raise (Service TreasuryServiceError))
      | P_Error m \<Rightarrow> bnd (on_db (cp_update_error now pid m now)) (\<lambda>_. raise (Service ProviderConnectionError))
      | _ \<Rightarrow> raise (Provider_Raised e))"

definition refresh_provider_balance ::
  "crypto_api \<Rightarrow> exchanges \<Rightarrow> timestamp \<Rightarrow> (nat \<Rightarrow> uuid) \<Rightarrow> uuid \<Rightarrow> custodial_provider account" where
  "refresh_provider_balance c exs now ids pid =
     bnd (on_db (service_get_provider pid)) (\<lambda>provider.
     bnd (credentials_of c provider) (\<lambda>cr.
     case build_adapter exs (cp_adapter_id provider) cr of
       Inl e \<Rightarrow> raise (Service e)
     | Inr ad \<Rightarrow>
         bnd (gets (\<lambda>st. fetch_cycle ad (cp_get_ledger_cursor (fst st) pid))) (\<lambda>fetched.
         case fetched of
           Inl e \<Rightarrow> refresh_failed now pid e
         | Inr (balance, others, entries, newest_ts) \<Rightarrow>
             bnd (on_db (cp_update_balance now pid balance now)) (\<lambda>updated.
             bnd (on_db (modify (cp_update_non_btc_balances now pid others))) (\<lambda>_.
             bnd (on_db (persist_entries now ids provider 0 entries)) (\<lambda>_.
             bnd (on_db (case newest_ts of None \<Rightarrow> ret () | Some ts \<Rightarrow> modify (cp_update_ledger_cursor now pid ts))) (\<lambda>_.
             ret (or_else updated provider))))))))"

definition verify_whitelist ::
  "crypto_api \<Rightarrow> exchanges \<Rightarrow> timestamp \<Rightarrow> uuid \<Rightarrow> (custodial_provider \<times> bool \<times> string option) account" where
  "verify_whitelist c exs now pid =
     bnd (on_db (service_get_provider pid)) (\<lambda>provider.
     bnd (credentials_of c provider) (\<lambda>cr.
     case build_adapter exs (cp_adapter_id provider) cr of
       Inl e \<Rightarrow> raise (Service e)
     | Inr ad \<Rightarrow>
         (case ad_verify_whitelist ad (cp_whitelist_address provider) of
            Inl e \<Rightarrow> raise (Provider_Raised e)
          | Inr result \<Rightarrow>
              bnd (if wv_is_whitelisted result
                   then bnd (on_db (cp_set_whitelist_verified now pid True)) (\<lambda>_. ret ()) else ret ()) (\<lambda>_.
              bnd (on_db (readr (\<lambda>s. cp_get s pid))) (\<lambda>updated.
              ret (or_else updated provider, wv_is_whitelisted result, wv_error result))))))"

definition VALID_POLLING_INTERVALS :: "int list" where
  "VALID_POLLING_INTERVALS = [60, 300, 600, 1800, 3600]"

definition update_polling_interval :: "timestamp \<Rightarrow> uuid \<Rightarrow> int \<Rightarrow> custodial_provider service" where
  "update_polling_interval now hid seconds =
     bnd (raise_if (seconds \<notin> set VALID_POLLING_INTERVALS) InvalidPollingInterval) (\<lambda>_.
     bnd (readr (\<lambda>s. cp_get_by_holding_id s hid)) (\<lambda>p.
     bnd (found_or p ProviderNotFound) (\<lambda>provider.
     bnd (cp_update_polling_interval now (cp_id provider) seconds) (\<lambda>updated.
     ret (or_else updated provider)))))"

section \<open>Deleting an account\<close>

definition wipe :: "string list \<Rightarrow> secret_store \<Rightarrow> secret_store" where
  "wipe refs ss = fold (\<lambda>r st. snd (delete_secret r st)) refs ss"

definition delete_holding_and_secrets :: "uuid \<Rightarrow> bool account" where
  "delete_holding_and_secrets hid =
     bnd (on_db (gets (\<lambda>s. find_row h_id hid (holdings s)))) (\<lambda>row.
     case row of
       None \<Rightarrow> ret False
     | Some h \<Rightarrow>
         bnd (on_db (if h_holding_type h = HT_ACCOUNT then readr (\<lambda>s. cp_get_by_holding_id s hid) else ret None)) (\<lambda>provider.
         bnd (modify (\<lambda>st. (fst st, wipe (wiped_references provider) (snd st)))) (\<lambda>_.
         on_db (delete_cascade hid))))"

definition delete_account_holding :: "uuid \<Rightarrow> unit account" where
  "delete_account_holding hid =
     bnd (on_db (readr (\<lambda>s. get_holding s hid))) (\<lambda>h.
     bnd (on_db (found_or h TreasuryServiceError)) (\<lambda>holding.
     bnd (raise_if (h_holding_type holding \<noteq> HT_ACCOUNT) (Service TreasuryServiceError)) (\<lambda>_.
     bnd (delete_holding_and_secrets hid) (\<lambda>_. ret ()))))"

section \<open>A manual sweep\<close>

text \<open>The withdrawal call and the status it leaves.\<close>

definition attempt_withdrawal ::
  "exchanges \<Rightarrow> timestamp \<Rightarrow> custodial_provider \<Rightarrow> credentials \<Rightarrow> sweep_execution \<Rightarrow> string \<Rightarrow> sweep_execution account" where
  "attempt_withdrawal exs now provider cr execution addr =
     (case build_adapter exs (cp_adapter_id provider) cr of
        Inl e \<Rightarrow> raise (Service e)
      | Inr ad \<Rightarrow>
          (let failed = \<lambda>m. bnd (on_db (update_status (se_id execution) SES_FAILED
                 (no_fields\<lparr>ef_error_message := Some m, ef_completed_at := Some now\<rparr>)))
                 (\<lambda>updated. ret (or_else updated execution)) in
           case ad_withdraw ad (se_intended_amount_sats execution) addr of
             Inr result \<Rightarrow>
               bnd (on_db (update_status (se_id execution) SES_REQUESTED
                      (no_fields\<lparr>ef_provider_withdrawal_id := Some (wr_withdrawal_id result)\<rparr>)))
                 (\<lambda>updated. ret (or_else updated execution))
           | Inl (P_Auth m) \<Rightarrow> failed m
           | Inl (P_Error m) \<Rightarrow> failed m
           | Inl e \<Rightarrow> raise (Provider_Raised e)))"

definition sweep_source :: "sweep_policy \<Rightarrow> custodial_provider service" where
  "sweep_source policy =
     bnd (raise_if (\<not> sp_is_enabled policy) TreasuryServiceError) (\<lambda>_.
     bnd (readr (\<lambda>s. get_holding s (sp_source_holding_id policy))) (\<lambda>src.
     bnd (found_or src TreasuryServiceError) (\<lambda>source.
     bnd (raise_if (h_holding_type source \<noteq> HT_ACCOUNT \<or> h_custodial_provider_id source = None) TreasuryServiceError) (\<lambda>_.
     bnd (readr (\<lambda>s. cp_get s (the (h_custodial_provider_id source)))) (\<lambda>prov.
     found_or prov TreasuryServiceError)))))"

definition sweep_destination :: "sweep_policy \<Rightarrow> address service" where
  "sweep_destination policy =
     bnd (readr (\<lambda>s. list_descriptors_for_holding s (sp_destination_holding_id policy))) (\<lambda>ds.
     bnd (found_or (case ds of [] \<Rightarrow> None | d # _ \<Rightarrow> Some d) TreasuryServiceError) (\<lambda>d.
     bnd (readr (\<lambda>s. next_unused_address s (d_id d) False)) (\<lambda>next_addr.
     found_or next_addr TreasuryServiceError)))"

definition manual_amount :: "sweep_policy \<Rightarrow> custodial_provider \<Rightarrow> sats option \<Rightarrow> sats" where
  "manual_amount policy provider amount_sats =
     (case amount_sats of Some a \<Rightarrow> a
      | None \<Rightarrow> policy_sweep_amount policy (get_or (cp_last_known_balance_sats provider) 0))"

definition execute_sweep_now ::
  "crypto_api \<Rightarrow> exchanges \<Rightarrow> uuid \<Rightarrow> timestamp \<Rightarrow> uuid \<Rightarrow> sats option \<Rightarrow> sweep_execution account" where
  "execute_sweep_now c exs eid now pid amount_sats =
     bnd (on_db (get_sweep_policy pid)) (\<lambda>policy.
     bnd (on_db (sweep_source policy)) (\<lambda>provider.
     bnd (on_db (sweep_destination policy)) (\<lambda>address_row.
     bnd (credentials_of c provider) (\<lambda>cr.
     bnd (raise_if (manual_amount policy provider amount_sats \<le> 0) (Service TreasuryServiceError)) (\<lambda>_.
     bnd (on_db (lift_result (SweepExecution (new_execution eid now (sp_id policy) TRG_MANUAL
            (get_or (cp_last_known_balance_sats provider) 0) (manual_amount policy provider amount_sats) SES_REQUESTED)))) (\<lambda>execution.
     bnd (on_db (modify (se_create execution))) (\<lambda>_.
     attempt_withdrawal exs now provider cr execution (a_address address_row))))))))"

section \<open>Setup tokens\<close>

text \<open>Expiry, adapter and what was fetched.  Fifteen minutes, in microseconds.\<close>

type_synonym setup_cache = "string \<rightharpoonup> timestamp \<times> string \<times> prefetched"

definition SETUP_TOKEN_TTL :: timestamp where
  "SETUP_TOKEN_TTL = 15 * 60 * 1000000"

text \<open>The clock is read twice, for the expiry and for the eviction.\<close>

definition new_setup_token ::
  "string \<Rightarrow> timestamp \<Rightarrow> timestamp \<Rightarrow> string \<Rightarrow> prefetched \<Rightarrow> setup_cache \<Rightarrow> setup_cache" where
  "new_setup_token token now now' adapter_id pre cache =
     (\<lambda>k. case (cache(token \<mapsto> (now + SETUP_TOKEN_TTL, adapter_id, pre))) k of
            None \<Rightarrow> None
          | Some v \<Rightarrow> if fst v < now' then None else Some v)"

definition consume_setup_token ::
  "timestamp \<Rightarrow> string \<Rightarrow> string \<Rightarrow> setup_cache \<Rightarrow> prefetched option \<times> setup_cache" where
  "consume_setup_token now token adapter_id cache =
     (case cache token of
        None \<Rightarrow> None
      | Some (expires_at, cached_adapter_id, pre) \<Rightarrow>
          if now > expires_at \<or> cached_adapter_id \<noteq> adapter_id then None else Some pre,
      cache(token := None))"

section \<open>Handlers\<close>

text \<open>The subclasses of \<^verbatim>\<open>TreasuryServiceError\<close>.\<close>

definition is_treasury_error :: "exn \<Rightarrow> bool" where
  "is_treasury_error e \<longleftrightarrow> e \<in> set [TreasuryServiceError, ProviderNotFound, PolicyNotFound, ExecutionNotFound,
     TradePermissionsDetected, CredentialPermissionMismatch, ProviderConnectionError, PolicyHasUnacknowledgedWarnings,
     PolicyAlreadyEnabled, WrongExecutionStatus, InvalidPollingInterval]"

definition account_http :: "account_exn \<Rightarrow> int" where
  "account_http e = (case e of
      Mismatch _ _ \<Rightarrow> 409
    | Service x \<Rightarrow>
        if x = TradePermissionsDetected then 409 else if x = ProviderConnectionError then 502
        else if is_treasury_error x then 422 else 500
    | _ \<Rightarrow> 500)"

text \<open>A failing handler rolls the session back; the store keeps what was written.\<close>

definition run_account :: "'a account \<Rightarrow> custody \<Rightarrow> (account_exn + 'a) \<times> custody" where
  "run_account m st = (case m st of (Inr x, t) \<Rightarrow> (Inr x, t) | (Inl e, t) \<Rightarrow> (Inl e, (fst st, snd t)))"

record entry_preview =
  ev_kind :: string
  ev_asset :: string
  ev_amount_sats :: sats
  ev_timestamp :: timestamp

record account_validate_out =
  vo_adapter_id :: string
  vo_btc_balance_sats :: sats
  vo_other_asset_tickers :: "string list"
  vo_other_asset_total_count :: nat
  vo_recent_ledger_entries :: "entry_preview list"
  vo_ledger_total_count :: nat
  vo_setup_token :: string

definition preview_of :: "provider_ledger_entry \<Rightarrow> entry_preview" where
  "preview_of e = \<lparr>ev_kind = ple_kind e, ev_asset = ple_asset e, ev_amount_sats = sats_of_float (ple_amount e),
     ev_timestamp = ple_timestamp e\<rparr>"

definition api_validate_account ::
  "exchanges \<Rightarrow> string \<Rightarrow> timestamp \<Rightarrow> timestamp \<Rightarrow> string \<Rightarrow> credentials \<Rightarrow> setup_cache \<Rightarrow>
   (int + account_validate_out) \<times> setup_cache" where
  "api_validate_account exs token now now' adapter_id cr cache =
     (case validate_account_credentials exs adapter_id cr of
        Inl e \<Rightarrow> (Inl (account_http e), cache)
      | Inr (balance, others, entries, n) \<Rightarrow>
          (Inr \<lparr>vo_adapter_id = adapter_id, vo_btc_balance_sats = balance,
                vo_other_asset_tickers = take 3 (sort (map fst others)),
                vo_other_asset_total_count = length (sort (map fst others)),
                vo_recent_ledger_entries = map preview_of (rev (drop (length entries - 3) entries)),
                vo_ledger_total_count = n, vo_setup_token = token\<rparr>,
           new_setup_token token now now' adapter_id (balance, others, entries, n) cache))"

record account_create_out =
  co_holding_id :: uuid
  co_provider_id :: uuid
  co_btc_balance_sats :: sats
  co_other_asset_tickers :: "string list"
  co_other_asset_total_count :: nat

definition api_create_account ::
  "crypto_api \<Rightarrow> exchanges \<Rightarrow> timestamp \<Rightarrow> timestamp \<Rightarrow> account_draws \<Rightarrow> account_input \<Rightarrow> string option \<Rightarrow>
   setup_cache \<Rightarrow> custody \<Rightarrow> (int + account_create_out) \<times> setup_cache \<times> custody" where
  "api_create_account c exs now db_now dw ai token cache st =
     (case (case token of None \<Rightarrow> (None, cache)
            | Some tk \<Rightarrow> if tk = [] then (None, cache) else consume_setup_token now tk (ai_adapter_id ai) cache) of
        (pre, cache') \<Rightarrow>
          (case run_account (create_account_holding c exs now db_now dw ai pre) st of
             (Inl e, t) \<Rightarrow> (Inl (account_http e), cache', t)
           | (Inr (holding, provider, balance, others), t) \<Rightarrow>
               (Inr \<lparr>co_holding_id = h_id holding, co_provider_id = cp_id provider, co_btc_balance_sats = balance,
                     co_other_asset_tickers = take 3 (sort (map fst others)),
                     co_other_asset_total_count = length (sort (map fst others))\<rparr>, cache', t)))"

definition nonempty :: "string option \<Rightarrow> bool" where
  "nonempty v = (v \<noteq> None \<and> v \<noteq> Some [])"

definition api_patch_provider ::
  "crypto_api \<Rightarrow> exchanges \<Rightarrow> timestamp \<Rightarrow> (nat \<Rightarrow> bytes) \<Rightarrow> (nat \<Rightarrow> uuid) \<Rightarrow> uuid \<Rightarrow> provider_patch \<Rightarrow> custody \<Rightarrow>
   (int + custodial_provider) \<times> custody" where
  "api_patch_provider c exs now nonces tags pid pt st =
     (case run_account (patch_provider c exs now nonces tags pid pt (nonempty (pt_api_key pt) \<or> nonempty (pt_api_secret pt))) st of
        (Inr p, t) \<Rightarrow> (Inr p, t)
      | (Inl e, t) \<Rightarrow>
          (Inl (case e of
                  Service x \<Rightarrow> if x = ProviderNotFound then 404 else if x = ProviderConnectionError then 502
                    else if is_treasury_error x then 422 else 500
                | _ \<Rightarrow> 500), t))"

definition api_get_provider :: "uuid \<Rightarrow> db \<Rightarrow> int + custodial_provider" where
  "api_get_provider pid s =
     (case fst (service_get_provider pid s) of
        Inr p \<Rightarrow> Inr p | Inl e \<Rightarrow> Inl (if e = ProviderNotFound then 404 else 500))"

definition api_provider_balance :: "uuid \<Rightarrow> db \<Rightarrow> int + uuid \<times> sats \<times> timestamp option" where
  "api_provider_balance pid s =
     rbind (api_get_provider pid s) (\<lambda>p.
     Inr (cp_id p, get_or (cp_last_known_balance_sats p) 0, cp_last_polled_at p))"

text \<open>The on-demand refresh only enqueues a poll job.\<close>

definition api_refresh_provider :: "uuid \<Rightarrow> db \<Rightarrow> int + uuid" where
  "api_refresh_provider pid s =
     (case cp_get s pid of
        Inl _ \<Rightarrow> Inl 500
      | Inr None \<Rightarrow> Inl 404
      | Inr (Some p) \<Rightarrow> if cp_is_active p then Inr pid else Inl 404)"

definition api_verify_whitelist ::
  "crypto_api \<Rightarrow> exchanges \<Rightarrow> timestamp \<Rightarrow> uuid \<Rightarrow> custody \<Rightarrow> (int + custodial_provider \<times> bool \<times> string option) \<times> custody" where
  "api_verify_whitelist c exs now pid st =
     (case run_account (verify_whitelist c exs now pid) st of
        (Inr r, t) \<Rightarrow> (Inr r, t)
      | (Inl e, t) \<Rightarrow>
          (Inl (case e of Service x \<Rightarrow> if x = ProviderNotFound then 404 else if is_treasury_error x then 422 else 500
                | _ \<Rightarrow> 500), t))"

definition api_delete_account :: "uuid \<Rightarrow> custody \<Rightarrow> (int + unit) \<times> custody" where
  "api_delete_account hid st =
     (case run_account (delete_holding_and_secrets hid) st of
        (Inr True, t) \<Rightarrow> (Inr (), t)
      | (Inr False, t) \<Rightarrow> (Inl 404, (fst st, snd t))
      | (Inl _, t) \<Rightarrow> (Inl 500, t))"

definition api_execute_sweep ::
  "crypto_api \<Rightarrow> exchanges \<Rightarrow> uuid \<Rightarrow> timestamp \<Rightarrow> uuid \<Rightarrow> sats option \<Rightarrow> custody \<Rightarrow> (int + sweep_execution) \<times> custody" where
  "api_execute_sweep c exs eid now pid amount_sats st =
     (case run_account (execute_sweep_now c exs eid now pid amount_sats) st of
        (Inr e, t) \<Rightarrow> (Inr e, t)
      | (Inl e, t) \<Rightarrow>
          (Inl (case e of Service x \<Rightarrow> if x = PolicyNotFound then 404 else if is_treasury_error x then 422 else 500
                | _ \<Rightarrow> 500), t))"

record account_detail =
  dt_provider :: custodial_provider
  dt_entries :: "custodial_ledger_row list"
  dt_has_more :: bool

text \<open>The account page: the newest fifty entries before a time; the inner \<open>None\<close> is a time that does not parse.\<close>

definition account_page :: "db \<Rightarrow> custodial_provider \<Rightarrow> timestamp option \<Rightarrow> account_detail" where
  "account_page s p before =
     (let rows = list_paginated s (cp_id p) 51 before
      in \<lparr>dt_provider = p, dt_entries = take 50 rows, dt_has_more = (length rows = 51)\<rparr>)"

definition api_get_holding :: "uuid \<Rightarrow> timestamp option option \<Rightarrow> db \<Rightarrow> int + holding \<times> account_detail option" where
  "api_get_holding hid before s =
     (case get_holding s hid of
        Inl _ \<Rightarrow> Inl 500
      | Inr None \<Rightarrow> Inl 404
      | Inr (Some h) \<Rightarrow>
          if h_holding_type h \<noteq> HT_ACCOUNT \<or> h_custodial_provider_id h = None then Inr (h, None)
          else (case cp_get s (the (h_custodial_provider_id h)) of
                  Inl _ \<Rightarrow> Inl 500
                | Inr None \<Rightarrow> Inr (h, None)
                | Inr (Some p) \<Rightarrow>
                    (case before of
                       Some None \<Rightarrow> Inl 422
                     | Some (Some ts) \<Rightarrow> Inr (h, Some (account_page s p (Some ts)))
                     | None \<Rightarrow> Inr (h, Some (account_page s p None)))))"

text \<open>The update of a holding, with the polling interval of its provider.\<close>

definition patch_holding_service :: "timestamp \<Rightarrow> uuid \<Rightarrow> holding_patch \<Rightarrow> int option \<Rightarrow> (int + holding) service" where
  "patch_holding_service now hid f interval =
     bnd (update_holding now hid f) (\<lambda>h.
     case h of
       None \<Rightarrow> ret (Inl 404)
     | Some holding \<Rightarrow>
         (case interval of
            None \<Rightarrow> ret (Inr holding)
          | Some seconds \<Rightarrow>
              if h_holding_type holding \<noteq> HT_ACCOUNT then ret (Inl 422)
              else bnd (update_polling_interval now hid seconds) (\<lambda>_. ret (Inr holding))))"

definition api_patch_holding :: "timestamp \<Rightarrow> uuid \<Rightarrow> bool \<Rightarrow> holding_patch \<Rightarrow> int option \<Rightarrow> db \<Rightarrow> (int + holding) \<times> db" where
  "api_patch_holding now hid empty_body f interval s =
     (if empty_body then (Inl 422, s)
      else case patch_holding_service now hid f interval s of
        (Inl e, _) \<Rightarrow> (Inl (if is_value_error e \<or> is_treasury_error e then 422 else 500), s)
      | (Inr (Inl code), _) \<Rightarrow> (Inl code, s)
      | (Inr (Inr h), t) \<Rightarrow> (Inr h, t))"

section \<open>Credentials read back\<close>

lemma decode_encode_string [simp]: "decode (encode v) = v"
proof -
  have "char_of (unat (of_nat (of_char ch) :: 8 word)) = ch" for ch :: char
    by (simp add: unat_of_nat of_char_mod_256)
  then show ?thesis by (simp add: encode_def decode_def comp_def map_idI)
qed

definition open_with :: "bytes \<Rightarrow> secret_store \<Rightarrow> bool" where
  "open_with key ss \<longleftrightarrow> ss_key ss = Some key \<and> length key = DERIVED_KEY_SIZE"

lemma set_secret_sealed:
  assumes "crypto_ok c P" "open_with key ss" "length n = GCM_NONCE_SIZE" "r \<noteq> CANARY_REFERENCE"
  obtains e where "set_secret c n r v ss = (Inr Done, ss\<lparr>ss_secrets := (ss_secrets ss)(r \<mapsto> e)\<rparr>)" "sealed c key v e"
proof -
  obtain e where e: "encrypt c n v key = Inr e" using encrypt_ok [OF assms(1,3)] assms(2) by (auto simp: open_with_def)
  then have "sealed c key v e" using assms(3) by (auto simp: sealed_def)
  moreover have "set_secret c n r v ss = (Inr Done, ss\<lparr>ss_secrets := (ss_secrets ss)(r \<mapsto> e)\<rparr>)"
    using assms(2,4) e by (simp add: set_secret_def open_with_def)
  ultimately show thesis using that by blast
qed

text \<open>A store that holds a string under a reference.\<close>

definition holds :: "crypto_api \<Rightarrow> bytes \<Rightarrow> secret_store \<Rightarrow> string \<Rightarrow> string \<Rightarrow> bool" where
  "holds c key ss r v \<longleftrightarrow> r \<noteq> CANARY_REFERENCE \<and> (\<exists>e. ss_secrets ss r = Some e \<and> sealed c key (encode v) e)"

lemma read_secret_holds:
  assumes "crypto_ok c P" "open_with key ss" "holds c key ss r v"
  shows "read_secret c ss r = Inr v"
  using assms sealed_InrD(1) [OF assms(1)]
  by (auto simp: holds_def read_secret_def get_secret_def open_with_def)

lemma put_secret_holds:
  assumes "crypto_ok c P" "open_with key ss" "length n = GCM_NONCE_SIZE" "r \<noteq> CANARY_REFERENCE"
  obtains ss' where "put_secret c n r v (s, ss) = (Inr (), (s, ss'))" "open_with key ss'" "holds c key ss' r v"
    "\<And>r' v'. r' \<noteq> r \<Longrightarrow> holds c key ss' r' v' = holds c key ss r' v'"
    "\<And>r'. r' \<noteq> r \<Longrightarrow> ss_secrets ss' r' = ss_secrets ss r'"
proof -
  obtain e where e: "set_secret c n r (encode v) ss = (Inr Done, ss\<lparr>ss_secrets := (ss_secrets ss)(r \<mapsto> e)\<rparr>)"
    "sealed c key (encode v) e" using set_secret_sealed [OF assms] .
  show thesis
    by (rule that [of "ss\<lparr>ss_secrets := (ss_secrets ss)(r \<mapsto> e)\<rparr>"])
       (use e assms(2,4) in \<open>simp_all add: put_secret_def open_with_def holds_def\<close>)
qed

definition refs_ok :: "string \<times> string \<times> string option \<Rightarrow> credentials \<Rightarrow> bool" where
  "refs_ok refs cr \<longleftrightarrow> (case refs of (a, b, d) \<Rightarrow>
     a \<noteq> b \<and> d \<noteq> Some a \<and> d \<noteq> Some b \<and> d \<noteq> Some [] \<and> CANARY_REFERENCE \<notin> {a, b} \<and> d \<noteq> Some CANARY_REFERENCE \<and>
     (d = None \<longleftrightarrow> cr_api_passphrase cr = None))"

definition refs_of :: "custodial_provider \<Rightarrow> string \<times> string \<times> string option" where
  "refs_of p = (cp_api_credential_reference p, cp_api_secret_reference p, cp_api_passphrase_reference p)"

lemma store_credentials_read_back:
  assumes c: "crypto_ok c P" and o: "open_with key ss" and n: "\<And>i. length (nonces i) = GCM_NONCE_SIZE"
    and refs: "refs_ok refs cr"
  obtains ss' where "store_credentials c nonces refs cr (s, ss) = (Inr (), (s, ss'))" "open_with key ss'"
    "\<And>p. refs_of p = refs \<Longrightarrow> read_credentials c ss' p = Inr cr"
    "\<And>r. r \<noteq> fst refs \<Longrightarrow> r \<noteq> fst (snd refs) \<Longrightarrow> Some r \<noteq> snd (snd refs) \<Longrightarrow> ss_secrets ss' r = ss_secrets ss r"
proof -
  obtain a b d where abd: "refs = (a, b, d)" by (metis prod_cases3)
  note r = refs [unfolded abd refs_ok_def, simplified]
  obtain s1 where s1: "put_secret c (nonces 0) a (cr_api_key cr) (s, ss) = (Inr (), (s, s1))" "open_with key s1"
    "holds c key s1 a (cr_api_key cr)" "\<And>r'. r' \<noteq> a \<Longrightarrow> ss_secrets s1 r' = ss_secrets ss r'"
    using put_secret_holds [OF c o n, of a] r by metis
  obtain s2 where s2: "put_secret c (nonces 1) b (cr_api_secret cr) (s, s1) = (Inr (), (s, s2))" "open_with key s2"
    "holds c key s2 b (cr_api_secret cr)" "\<And>r' v'. r' \<noteq> b \<Longrightarrow> holds c key s2 r' v' = holds c key s1 r' v'"
    "\<And>r'. r' \<noteq> b \<Longrightarrow> ss_secrets s2 r' = ss_secrets s1 r'"
    using put_secret_holds [OF c s1(2) n, of b] r by metis
  have ab: "holds c key s2 a (cr_api_key cr)" using s1(3) s2(4) r by simp
  show thesis
  proof (cases d)
    case None
    then have "cr_api_passphrase cr = None" using r by simp
    then have "read_credentials c s2 p = Inr cr" if "refs_of p = refs" for p
      using that read_secret_holds [OF c s2(2)] ab s2(3) None
      by (cases cr) (auto simp: refs_of_def abd read_credentials_def)
    then show thesis using that [of s2] s1 s2 None by (auto simp: abd store_credentials_def ret_def)
  next
    case (Some x)
    then obtain v where v: "cr_api_passphrase cr = Some v" using r by auto
    obtain s3 where s3: "put_secret c (nonces 2) x v (s, s2) = (Inr (), (s, s3))" "open_with key s3" "holds c key s3 x v"
      "\<And>r' v'. r' \<noteq> x \<Longrightarrow> holds c key s3 r' v' = holds c key s2 r' v'"
      "\<And>r'. r' \<noteq> x \<Longrightarrow> ss_secrets s3 r' = ss_secrets s2 r'"
      using put_secret_holds [OF c s2(2) n, of x] r Some by metis
    have "holds c key s3 a (cr_api_key cr)" "holds c key s3 b (cr_api_secret cr)" using ab s2(3) s3(4) r Some by auto
    then have "read_credentials c s3 p = Inr cr" if "refs_of p = refs" for p
      using that read_secret_holds [OF c s3(2)] s3(3) Some v r
      by (cases cr) (auto simp: refs_of_def abd read_credentials_def)
    then show thesis using that [of s3] s1 s2 s3 Some v by (auto simp: abd store_credentials_def ret_def)
  qed
qed

section \<open>References are well formed\<close>

lemma uuid_hex_chars: "ch \<in> set (uuid_hex u) \<Longrightarrow> is_hex ch"
proof -
  have dig: "is_hex (hex_char n)" if "n < 16" for n
    using that by (simp add: hex_char_def is_hex_def less_Suc_eq numeral_eq_Suc) auto
  have "ch \<in> set (low_digits k n) \<Longrightarrow> is_hex ch" for k n
    by (induction k arbitrary: n) (auto simp: dig)
  then show "ch \<in> set (uuid_hex u) \<Longrightarrow> is_hex ch" by (simp add: uuid_hex_def)
qed

lemma uuid_str_chars: "ch \<in> set (uuid_str u) \<Longrightarrow> is_hex ch \<or> ch = CHR ''-''"
  using uuid_hex_chars by (auto simp: uuid_str_def Let_def dest!: in_set_takeD in_set_dropD)

lemma provider_reference_ok:
  "provider_reference pid x \<noteq> CANARY_REFERENCE" "provider_reference pid x \<noteq> []"
  "provider_reference pid x = provider_reference pid y \<longleftrightarrow> x = y"
  "CHR ''{'' \<in> set (provider_reference pid x) \<longleftrightarrow> CHR ''{'' \<in> set x"
proof -
  have "CHR ''{'' \<notin> set (uuid_str pid)" using uuid_str_chars [of "CHR ''{''" pid] by (auto simp: is_hex_def)
  then show "provider_reference pid x \<noteq> CANARY_REFERENCE" "provider_reference pid x \<noteq> []"
    "provider_reference pid x = provider_reference pid y \<longleftrightarrow> x = y"
    "CHR ''{'' \<in> set (provider_reference pid x) \<longleftrightarrow> CHR ''{'' \<in> set x"
    by (simp_all add: provider_reference_def CANARY_REFERENCE_def)
qed

lemma read_references_ok: "refs_ok (read_references pid cr) cr"
  by (auto simp: refs_ok_def read_references_def provider_reference_ok provider_reference_ok(1) [symmetric])

lemma rotation_references_ok: "refs_ok (rotation_references pid tags cr) cr"
  by (auto simp: refs_ok_def rotation_references_def provider_reference_ok provider_reference_ok(1) [symmetric])

section \<open>Creation\<close>

lemma persist_entries_only_ledger:
  "persist_entries now ids p n es s = (r, t) \<Longrightarrow> t = s\<lparr>custodial_ledger := custodial_ledger t\<rparr>"
proof (induction es arbitrary: n s r t)
  case Nil
  then show ?case by (simp add: ret_def)
next
  case (Cons e es)
  have up: "u = v\<lparr>custodial_ledger := custodial_ledger u\<rparr>" if "cle_upsert now row v = (x, u)" for row v x u
    using that by (auto simp: cle_upsert_def split: if_splits selected.splits)
  obtain x u where u: "cle_upsert now (mirror_row now (ids n) p e) s = (x, u)" by (cases "cle_upsert now (mirror_row now (ids n) p e) s")
  show ?case
  proof (cases x)
    case (Inl e')
    then show ?thesis using Cons.prems u up [OF u] by (simp add: bnd_def)
  next
    case (Inr y)
    obtain z w where w: "persist_entries now ids p (Suc n) es u = (z, w)" by (cases "persist_entries now ids p (Suc n) es u")
    then have "t = w" using Cons.prems u Inr by (cases z) (auto simp: bnd_def ret_def)
    then show ?thesis using ledger_only_trans [OF up [OF u] Cons.IH [OF w]] by simp
  qed
qed

lemma update_rows_append: "update_rows key k f (xs @ ys) = update_rows key k f xs @ update_rows key k f ys"
  by (simp add: update_rows_def)

lemma insert_account_Inr:
  assumes "insert_account now db_now dw ai pre s = (Inr (h, p), t)"
    and "dw_provider_id dw \<notin> cp_id ` set (custodial_providers s)"
  obtains q where "cp_get t (dw_provider_id dw) = Inr (Some q)" "refs_of q = read_references (dw_provider_id dw) (ai_credentials ai)"
    "cp_is_active q" "cp_adapter_id q = ai_adapter_id ai" "connection_ok q" "cp_id p = dw_provider_id dw"
    "cp_holding_id q = dw_holding_id dw" "h_id h = dw_holding_id dw"
    "holdings t = holdings s @ [holding_row db_now (dw_holding_id dw) (account_fields ai) no_subtype]"
    "custodial_providers t = custodial_providers s @ [q]" "descriptors t = descriptors s"
    "Holding (new_account_holding now dw ai) = Inr h"
proof -
  obtain balance others es k where pre: "pre = (balance, others, es, k)" by (metis prod_cases4)
  let ?s1 = "insert_row db_now (dw_holding_id dw) (account_fields ai) no_subtype s"
  let ?p = "new_provider now dw ai balance others"
  from assms(1) obtain x u where
    h: "Holding (new_account_holding now dw ai) = Inr h" and p: "CustodialProvider ?p = Inr p" and
    u: "persist_entries now (dw_entry_ids dw) p 0 es (cp_create p ?s1) = (Inr x, u)" and
    t: "t = (case newest None es of None \<Rightarrow> u | Some ts \<Rightarrow> cp_update_ledger_cursor now (dw_provider_id dw) ts u)"
    by (cases "newest None es") (auto simp: pre insert_account_def bnd_eq_Inr_iff lift_result_def modify_def ret_def)
  have pp: "p = ?p" using p by (simp add: CustodialProvider_def construct_Inr_iff)
  let ?q = "case newest None es of None \<Rightarrow> ?p | Some ts \<Rightarrow> ?p\<lparr>cp_ledger_cursor_at := Some ts, cp_updated_at := now\<rparr>"
  have fields: "refs_of ?p = read_references (dw_provider_id dw) (ai_credentials ai)" "cp_is_active ?p"
    "cp_adapter_id ?p = ai_adapter_id ai" "connection_ok ?p" "cp_id ?p = dw_provider_id dw" "cp_holding_id ?p = dw_holding_id dw"
    by (simp_all add: new_provider_def refs_of_def connection_ok_def read_references_def)
  have q: "refs_of ?q = refs_of ?p" "cp_is_active ?q = cp_is_active ?p" "cp_adapter_id ?q = cp_adapter_id ?p"
    "connection_ok ?q = connection_ok ?p" "cp_id ?q = cp_id ?p" "cp_holding_id ?q = cp_holding_id ?p" "CustodialProvider ?q = Inr ?q"
    using p by (simp_all add: refs_of_def connection_ok_def CustodialProvider_def construct_Inr_iff split: option.split)
  have up: "update_rows cp_id (dw_provider_id dw) f (custodial_providers s) = custodial_providers s" for f
    using assms(2) by (simp add: update_rows_absent find_row_None_iff)
  have cu: "custodial_providers u = custodial_providers s @ [?p]"
    using persist_entries_frame(1) [OF u] pp by (simp add: cp_create_def insert_row_def)
  have provs: "custodial_providers t = custodial_providers s @ [?q]"
    using cu up fields(5) by (simp add: t cp_update_ledger_cursor_def update_rows_append split: option.split)
  moreover have "find_row cp_id (dw_provider_id dw) (custodial_providers s) = None" using assms(2) by (simp add: find_row_None_iff)
  ultimately have "cp_get t (dw_provider_id dw) = Inr (Some ?q)"
    using q(5,7) fields(5) by (simp add: cp_get_def find_row_append)
  moreover have "holdings t = holdings s @ [holding_row db_now (dw_holding_id dw) (account_fields ai) no_subtype]"
    "descriptors t = descriptors s"
    using arg_cong [OF persist_entries_only_ledger [OF u], of holdings] arg_cong [OF persist_entries_only_ledger [OF u], of descriptors]
    by (simp_all add: t cp_update_ledger_cursor_def cp_create_def insert_row_def split: option.split)
  ultimately show thesis
    using that [of ?q] q fields pp provs h by (simp add: Holding_def construct_Inr_iff new_account_holding_def holding_row_def)
qed

lemma run_account_Inr: "run_account m st = (Inr x, t) \<longleftrightarrow> m st = (Inr x, t)"
  by (auto simp: run_account_def split: prod.splits sum.splits)

lemma on_db_Inr: "on_db m (s, ss) = (Inr x, st) \<longleftrightarrow> (\<exists>t. m s = (Inr x, t) \<and> st = (t, ss))"
  by (auto simp: on_db_def split: prod.splits sum.splits)

lemma except_Inr: "except m f st = (Inr x, t) \<longleftrightarrow> m st = (Inr x, t)"
  by (auto simp: except_def split: prod.splits sum.splits)

text \<open>Calls to the secret store leave the session alone.\<close>

definition keeps_session :: "'a account \<Rightarrow> bool" where
  "keeps_session m \<longleftrightarrow> (\<forall>st. fst (snd (m st)) = fst st)"

lemma keeps_sessionD: "keeps_session m \<Longrightarrow> m st = (r, t) \<Longrightarrow> fst t = fst st"
  by (metis keeps_session_def snd_conv)

lemma keeps_session_bnd: "keeps_session m \<Longrightarrow> (\<And>x. keeps_session (f x)) \<Longrightarrow> keeps_session (bnd m f)"
proof -
  assume m: "keeps_session m" and f: "\<And>x. keeps_session (f x)"
  have "fst (snd (bnd m f st)) = fst st" for st
  proof -
    obtain r t where mt: "m st = (r, t)" by (metis surj_pair)
    have ft: "fst (snd (f x t)) = fst t" for x using f [of x] unfolding keeps_session_def by blast
    show ?thesis using mt keeps_sessionD [OF m mt] ft by (cases r) (simp_all add: bnd_def)
  qed
  then show ?thesis by (simp add: keeps_session_def)
qed

lemma keeps_session_basic:
  "keeps_session (put_secret c n r v)" "keeps_session (drop_secret r)" "keeps_session (fetch_secret c r)"
  "keeps_session (ret x)"
  by (auto simp: keeps_session_def put_secret_def drop_secret_def fetch_secret_def ret_def split: prod.split sum.split)

lemma store_credentials_keeps: "keeps_session (store_credentials c n refs cr)"
  by (auto simp: store_credentials_def intro!: keeps_session_bnd keeps_session_basic split: prod.split option.split)

lemma api_create_account_Inr:
  assumes "api_create_account c exs now db_now dw ai token cache (s, ss) = (Inr out, cache', (t, ss'))"
  obtains pre h p where "store_credentials c (dw_nonces dw) (read_references (dw_provider_id dw) (ai_credentials ai))
      (ai_credentials ai) (s, ss) = (Inr (), (s, ss'))"
    "insert_account now db_now dw ai pre s = (Inr (h, p), t)" "co_holding_id out = h_id h" "co_provider_id out = cp_id p"
proof -
  let ?refs = "read_references (dw_provider_id dw) (ai_credentials ai)"
  define pre where "pre = fst (case token of None \<Rightarrow> (None, cache)
    | Some tk \<Rightarrow> if tk = [] then (None, cache) else consume_setup_token now tk (ai_adapter_id ai) cache)"
  obtain h p b os where
    cr: "create_account_holding c exs now db_now dw ai pre (s, ss) = (Inr (h, p, b, os), (t, ss'))" and
    out: "co_holding_id out = h_id h" "co_provider_id out = cp_id p"
    using assms by (auto simp: api_create_account_def pre_def run_account_Inr split: prod.splits sum.splits)
  from cr obtain f st where
    st: "store_credentials c (dw_nonces dw) ?refs (ai_credentials ai) (s, ss) = (Inr (), st)"
      "on_db (insert_account now db_now dw ai f) st = (Inr (h, p), (t, ss'))"
    unfolding create_account_holding_def bnd_eq_Inr_iff except_Inr
    by (cases pre) (auto simp: ret_def lift_result_def)
  moreover have "st = (s, snd st)" using keeps_sessionD [OF store_credentials_keeps st(1)] by (simp add: prod_eq_iff)
  ultimately show thesis using that out on_db_Inr [of _ s "snd st"] by (metis prod.inject)
qed

text \<open>C32. An account that was created can be polled: its provider row reads back active and healthy, the store gives
  exactly the credentials it was created with, the holding reads back with its provider, and every other
  secret is as it was.\<close>

theorem created_account_can_be_polled:
  assumes "api_create_account c exs now db_now dw ai token cache (s, ss) = (Inr out, cache', (t, ss'))"
    and "crypto_ok c P" "open_with key ss" "\<And>i. length (dw_nonces dw i) = GCM_NONCE_SIZE"
    and "references_ok s" "dw_provider_id dw \<notin> cp_id ` set (custodial_providers s)"
      "dw_holding_id dw \<notin> h_id ` set (holdings s)"
  shows "\<exists>p h. cp_get t (co_provider_id out) = Inr (Some p) \<and> cp_is_active p \<and> connection_ok p \<and>
    read_credentials c ss' p = Inr (ai_credentials ai) \<and>
    get_holding t (co_holding_id out) = Inr (Some h) \<and> h_holding_type h = HT_ACCOUNT \<and>
    h_custodial_provider_id h = Some (co_provider_id out) \<and>
    (\<forall>r. (\<forall>x. r \<noteq> provider_reference (co_provider_id out) x) \<longrightarrow> ss_secrets ss' r = ss_secrets ss r)"
proof -
  let ?refs = "read_references (dw_provider_id dw) (ai_credentials ai)" and ?hid = "dw_holding_id dw"
  obtain pre h p where
    st: "store_credentials c (dw_nonces dw) ?refs (ai_credentials ai) (s, ss) = (Inr (), (s, ss'))" and
    ins: "insert_account now db_now dw ai pre s = (Inr (h, p), t)" and
    out: "co_holding_id out = h_id h" "co_provider_id out = cp_id p"
    using api_create_account_Inr [OF assms(1)] .
  obtain q where q: "cp_get t (dw_provider_id dw) = Inr (Some q)" "refs_of q = ?refs" "cp_is_active q" "connection_ok q"
    "cp_id p = dw_provider_id dw" "cp_holding_id q = ?hid" "h_id h = ?hid"
    "holdings t = holdings s @ [holding_row db_now ?hid (account_fields ai) no_subtype]"
    "custodial_providers t = custodial_providers s @ [q]" "descriptors t = descriptors s"
    "Holding (new_account_holding now dw ai) = Inr h"
    using insert_account_Inr [OF ins assms(6)] by metis
  obtain ss1 where ss1: "store_credentials c (dw_nonces dw) ?refs (ai_credentials ai) (s, ss) = (Inr (), (s, ss1))"
    "open_with key ss1" "\<And>p. refs_of p = ?refs \<Longrightarrow> read_credentials c ss1 p = Inr (ai_credentials ai)"
    "\<And>r. r \<noteq> fst ?refs \<Longrightarrow> r \<noteq> fst (snd ?refs) \<Longrightarrow> Some r \<noteq> snd (snd ?refs) \<Longrightarrow> ss_secrets ss1 r = ss_secrets ss r"
    by (rule store_credentials_read_back [where refs = ?refs and cr = "ai_credentials ai" and s = s and nonces = "dw_nonces dw",
          OF assms(2-4) read_references_ok]) blast
  have [simp]: "ss1 = ss'" using ss1(1) st by simp
  have none: "filter (\<lambda>d. d_holding_id d = ?hid) (descriptors s) = []" "\<forall>p \<in> set (custodial_providers s). cp_holding_id p \<noteq> ?hid"
    using assms(5,7) unfolding references_ok_def holding_references_def refers_def filter_empty_conv by metis+
  have pid: "cp_id q = dw_provider_id dw" using cp_get_SomeD(2) [OF q(1)] .
  have "one_or_none (\<lambda>p. cp_holding_id p = ?hid) (custodial_providers t) = SelOne q"
    using none(2) q(6) by (simp add: q(9) one_or_none_def filter_empty_conv)
  moreover have "find_row h_id ?hid (holdings t) = Some (holding_row db_now ?hid (account_fields ai) no_subtype)"
    using assms(7) by (simp add: q(8) find_row_append find_row_None_iff [THEN iffD2] holding_row_def)
  moreover have "descriptor_ids_for_holding t ?hid = []"
    using none(1) by (simp add: descriptor_ids_for_holding_def descriptor_rows_for_holding_def q(10))
  moreover have h: "h = new_account_holding now dw ai" using q(11) Holding_id by metis
  moreover have "(holding_row db_now ?hid (account_fields ai) no_subtype)\<lparr>h_descriptor_ids := [],
      h_custodial_provider_id := Some (dw_provider_id dw)\<rparr> = h\<lparr>h_created_at := db_now, h_updated_at := db_now\<rparr>"
    unfolding h by (simp add: new_account_holding_def holding_row_def)
  moreover have "Holding (h\<lparr>h_created_at := db_now, h_updated_at := db_now\<rparr>) =
      Inr (h\<lparr>h_created_at := db_now, h_updated_at := db_now\<rparr>)"
    using q(11) unfolding h [symmetric] by (simp add: Holding_times)
  ultimately have "get_holding t ?hid = Inr (Some (h\<lparr>h_created_at := db_now, h_updated_at := db_now\<rparr>))"
    using pid by (simp add: get_holding_def holding_repo_get_def holding_row_to_domain_def)
  moreover have "h_holding_type h = HT_ACCOUNT" "h_custodial_provider_id h = Some (dw_provider_id dw)"
    unfolding h by (simp_all add: new_account_holding_def holding_row_def account_fields_def)
  moreover have "ss_secrets ss' r = ss_secrets ss r" if "\<forall>x. r \<noteq> provider_reference (dw_provider_id dw) x" for r
    using ss1(4) [of r] that by (cases "cr_api_passphrase (ai_credentials ai)") (auto simp: read_references_def)
  ultimately show ?thesis using q out ss1(3) [OF q(2)] by auto
qed

section \<open>Setup tokens\<close>

text \<open>A setup token vouches for the exchange, not for the key: within its fifteen minutes the token a validation
  returned gives back what that validation fetched, and the creation that presents it takes any credentials for the
  same adapter without asking the exchange.  A token works once.\<close>

theorem setup_token_skips_the_exchange:
  assumes "api_validate_account exs token now now' adapter_id cr cache = (Inr out, cache1)" "token \<noteq> []"
    and "now' \<le> now + SETUP_TOKEN_TTL" "later \<le> now + SETUP_TOKEN_TTL" "ai_adapter_id ai = adapter_id"
  shows "\<exists>pre. validate_account_credentials exs adapter_id cr = Inr pre \<and>
    consume_setup_token later token adapter_id cache1 = (Some pre, cache1(token := None)) \<and>
    (\<forall>other_exs. api_create_account c other_exs later db_now dw ai (Some token) cache1 st =
       api_create_account c exs later db_now dw ai (Some token) cache1 st) \<and>
    fst (consume_setup_token later token adapter_id (cache1(token := None))) = None"
proof -
  obtain pre where pre: "validate_account_credentials exs adapter_id cr = Inr pre"
    "cache1 = new_setup_token token now now' adapter_id pre cache"
    using assms(1) by (auto simp: api_validate_account_def split: sum.splits)
  have consume: "consume_setup_token later token adapter_id cache1 = (Some pre, cache1(token := None))"
    using assms(3,4) by (simp add: pre(2) consume_setup_token_def new_setup_token_def)
  have "api_create_account c other_exs later db_now dw ai (Some token) cache1 st =
      api_create_account c exs later db_now dw ai (Some token) cache1 st" for other_exs
    using assms(2,5) by (simp add: api_create_account_def consume create_account_holding_def)
  moreover have "fst (consume_setup_token later token adapter_id (cache1(token := None))) = None"
    by (simp add: consume_setup_token_def)
  ultimately show ?thesis using pre(1) consume by blast
qed

section \<open>Rotation\<close>

lemma drop_secret_ok:
  assumes "open_with key ss" "r \<noteq> CANARY_REFERENCE"
  shows "drop_secret r (s, ss) = (Inr (), (s, ss\<lparr>ss_secrets := (ss_secrets ss)(r := None)\<rparr>))"
  using assms by (simp add: drop_secret_def delete_secret_def open_with_def)

lemma purge_secrets_ok:
  assumes "open_with key ss" "CANARY_REFERENCE \<notin> {cp_api_credential_reference p, cp_api_secret_reference p}"
    "cp_api_passphrase_reference p \<noteq> Some CANARY_REFERENCE"
  obtains ss' where "purge_secrets p (s, ss) = (Inr (), (s, ss'))" "open_with key ss'"
    "ss_secrets ss' (cp_api_credential_reference p) = None" "ss_secrets ss' (cp_api_secret_reference p) = None"
proof -
  have o: "open_with key (ss\<lparr>ss_secrets := f\<rparr>)" for f using assms(1) by (simp add: open_with_def)
  let ?s1 = "ss\<lparr>ss_secrets := (ss_secrets ss)(cp_api_credential_reference p := None)\<rparr>"
  let ?s2 = "?s1\<lparr>ss_secrets := (ss_secrets ?s1)(cp_api_secret_reference p := None)\<rparr>"
  have two: "drop_secret (cp_api_credential_reference p) (s, ss) = (Inr (), (s, ?s1))"
    "drop_secret (cp_api_secret_reference p) (s, ?s1) = (Inr (), (s, ?s2))"
    using drop_secret_ok [OF assms(1)] drop_secret_ok [OF o] assms(2) by auto
  show thesis
  proof (cases "cp_api_passphrase_reference p = None \<or> cp_api_passphrase_reference p = Some []")
    case True
    then show thesis using that [of ?s2] two o by (auto simp: purge_secrets_def ret_def)
  next
    case False
    then obtain r where r: "cp_api_passphrase_reference p = Some r" "r \<noteq> []" by auto
    then have "drop_secret r (s, ?s2) = (Inr (), (s, ?s2\<lparr>ss_secrets := (ss_secrets ?s2)(r := None)\<rparr>))"
      using drop_secret_ok [OF o] assms(3) by simp
    then show thesis using that [of "?s2\<lparr>ss_secrets := (ss_secrets ?s2)(r := None)\<rparr>"] two o r by (simp add: purge_secrets_def)
  qed
qed

lemma rotated_row_ok:
  assumes "CustodialProvider p = Inr p"
  shows "CustodialProvider (p\<lparr>cp_api_credential_reference := fst (rotation_references pid tags cr),
      cp_api_secret_reference := fst (snd (rotation_references pid tags cr)), cp_api_passphrase_reference := x, cp_updated_at := now\<rparr>) =
    Inr (p\<lparr>cp_api_credential_reference := fst (rotation_references pid tags cr),
      cp_api_secret_reference := fst (snd (rotation_references pid tags cr)), cp_api_passphrase_reference := x, cp_updated_at := now\<rparr>)"
proof -
  have "CHR ''{'' \<notin> set (take 8 (uuid_hex u))" for u
    using uuid_hex_chars [of "CHR ''{''" u] by (auto simp: is_hex_def dest: in_set_takeD)
  then show ?thesis
    using assms by (simp add: CustodialProvider_def construct_Inr_iff rotation_references_def provider_reference_ok)
qed

text \<open>Rotation accepts what creation refuses: a Kraken key with permissions beyond reading is turned away when an
  account is created, but replaces the key of an existing account, because rotation looks only at \<^verbatim>\<open>can_trade\<close> and
  the Kraken adapter never sets it.  Afterwards the account reads the new credentials and the old ones are gone.\<close>

theorem rotation_accepts_excess_permissions:
  assumes "cp_get s pid = Inr (Some p)" "cp_adapter_id p = ''kraken''"
    and "pt_api_key pt = Some k" "pt_api_secret pt = Some sec" "k \<noteq> []" "sec \<noteq> []"
      "cr = \<lparr>cr_api_key = k, cr_api_secret = sec, cr_api_passphrase = pt_api_passphrase pt\<rparr>"
    and "kraken_get_permissions (exs ''kraken'' cr) = Inr perms" "pp_overage perms \<noteq> []"
    and "crypto_ok c P" "open_with key ss" "\<And>i. length (nonces i) = GCM_NONCE_SIZE"
    and "CANARY_REFERENCE \<notin> {cp_api_credential_reference p, cp_api_secret_reference p}"
      "cp_api_passphrase_reference p \<noteq> Some CANARY_REFERENCE"
  shows "validate_account_credentials exs ''kraken'' cr = Inl (Mismatch (pp_overage perms) (pp_underage perms)) \<and>
    (\<exists>q t ss'. api_patch_provider c exs now nonces tags pid pt (s, ss) = (Inr q, (t, ss')) \<and>
       cp_get t pid = Inr (Some q) \<and> read_credentials c ss' q = Inr cr)"
proof -
  let ?refs = "rotation_references pid tags cr"
  note row = cp_get_SomeD [OF assms(1)]
  obtain ss1 where ss1: "purge_secrets p (s, ss) = (Inr (), (s, ss1))" "open_with key ss1"
    using purge_secrets_ok [OF assms(11,13,14), of s] by metis
  obtain ss2 where ss2: "store_credentials c nonces ?refs cr (s, ss1) = (Inr (), (s, ss2))" "open_with key ss2"
    "\<And>p. refs_of p = ?refs \<Longrightarrow> read_credentials c ss2 p = Inr cr"
    by (rule store_credentials_read_back [where refs = ?refs and cr = cr and s = s and nonces = nonces,
          OF assms(10) ss1(2) assms(12) rotation_references_ok]) blast
  define q where "q = p\<lparr>cp_api_credential_reference := fst ?refs, cp_api_secret_reference := fst (snd ?refs),
    cp_api_passphrase_reference := snd (snd ?refs), cp_updated_at := now\<rparr>"
  define t where "t = snd (cp_update_credentials now pid (fst ?refs) (fst (snd ?refs)) (snd (snd ?refs)) s)"
  have upd: "cp_update_credentials now pid (fst ?refs) (fst (snd ?refs)) (snd (snd ?refs)) s = (Inr (Some q), t)"
    using row rotated_row_ok [OF row(3), where pid = pid and tags = tags and cr = cr and x = "snd (snd ?refs)" and now = now]
    by (simp add: cp_update_credentials_def cp_write_def t_def q_def)
  have got: "cp_get t pid = Inr (Some q)"
    using row rotated_row_ok [OF row(3), where pid = pid and tags = tags and cr = cr and x = "snd (snd ?refs)" and now = now]
    by (simp add: t_def cp_update_credentials_def cp_write_def cp_get_def find_row_update q_def)
  have trade: "pp_can_trade perms = False"
    using assms(8) by (auto simp: kraken_get_permissions_def kraken_probe_permissions_def kraken_permissions_def
        rbind_eq_Inr_iff split: sum.splits option.splits ccxt_exn.splits)
  have perms: "new_permissions exs ''kraken'' cr = Inr perms" using assms(8) by (simp add: new_permissions_def kraken_adapter_def)
  have "on_db (service_get_provider pid) (s, ss) = (Inr p, (s, ss))"
    using assms(1) by (simp add: on_db_def service_get_provider_def bnd_def readr_def found_or_def ret_def)
  moreover have "rotate_credentials c exs now nonces tags pid pt p (s, ss) = (Inr q, (t, ss2))"
    using assms(2-7) perms trade ss1(1) ss2(1) upd
    by (simp add: rotate_credentials_def given_or_stored_def Let_def bnd_def ret_def lift_result_def raise_if_def on_db_def or_else_def)
  ultimately have "api_patch_provider c exs now nonces tags pid pt (s, ss) = (Inr q, (t, ss2))"
    using assms(3-6) by (simp add: api_patch_provider_def run_account_def patch_provider_def bnd_def nonempty_def)
  moreover have "read_credentials c ss2 q = Inr cr" by (rule ss2(3)) (simp add: refs_of_def q_def)
  moreover have "validate_account_credentials exs ''kraken'' cr = Inl (Mismatch (pp_overage perms) (pp_underage perms))"
    using assms(8,9) by (simp add: validate_account_credentials_def kraken_adapter_def)
  ultimately show ?thesis using got by blast
qed

section \<open>A manual sweep\<close>

text \<open>The float handed to the exchange denotes the amount.\<close>

lemma withdrawn_float_exact:
  assumes "\<bar>n\<bar> \<le> 2100000000000000"
  shows "sats_of_float (double (of_int n / 100000000)) = n"
  using sats_of_float_near [OF double_error assms] .

lemma reading_Inr:
  "found_or v e s = (Inr y, t) \<longleftrightarrow> v = Some y \<and> t = s"
  "readr f s = (Inr y, t) \<longleftrightarrow> f s = Inr y \<and> t = s"
  "raise_if b e s = (Inr (), t) \<longleftrightarrow> \<not> b \<and> t = s"
  by (auto simp: found_or_def readr_def raise_if_def ret_def raise_def split: option.splits)

lemma first_of_list: "(case xs of [] \<Rightarrow> None | d # _ \<Rightarrow> Some d) = Some y \<longleftrightarrow> (\<exists>ys. xs = y # ys)"
  by (cases xs) auto

text \<open>Services that only read.\<close>

definition quiet :: "('e, 's, 'a) svc \<Rightarrow> bool" where
  "quiet m \<longleftrightarrow> (\<forall>s. snd (m s) = s)"

lemma quiet_bnd: "quiet m \<Longrightarrow> (\<And>x. quiet (f x)) \<Longrightarrow> quiet (bnd m f)"
  unfolding quiet_def bnd_def by (auto split: prod.split sum.split) (metis snd_conv)+

lemma quiet_basic: "quiet (readr f)" "quiet (found_or v e)" "quiet (raise_if b e)"
  by (auto simp: quiet_def readr_def found_or_def raise_if_def ret_def raise_def split: option.split)

lemma quiet_sweep: "quiet (get_sweep_policy pid)" "quiet (sweep_source policy)" "quiet (sweep_destination policy)"
  by (auto simp: get_sweep_policy_def sweep_source_def sweep_destination_def intro!: quiet_bnd quiet_basic)

lemma quietD: "quiet m \<Longrightarrow> m s = (r, t) \<longleftrightarrow> fst (m s) = r \<and> t = s"
  unfolding quiet_def by (metis prod.collapse fst_conv snd_conv)

lemma sweep_source_Inr:
  "sweep_source policy s = (Inr provider, u) \<Longrightarrow> sp_is_enabled policy \<and> (\<exists>k. cp_get s k = Inr (Some provider))"
  unfolding sweep_source_def bnd_eq_Inr_iff by (auto simp: reading_Inr)

lemma sweep_destination_Inr:
  "sweep_destination policy s = (Inr addr, u) \<Longrightarrow>
   \<exists>d ds. list_descriptors_for_holding s (sp_destination_holding_id policy) = Inr (d # ds) \<and>
     next_unused_address s (d_id d) False = Inr (Some addr)"
  unfolding sweep_destination_def bnd_eq_Inr_iff by (auto simp: reading_Inr first_of_list)

lemma service_policy_Inr: "get_sweep_policy pid s = (Inr policy, u) \<Longrightarrow> sp_get s pid = Inr (Some policy)"
  unfolding get_sweep_policy_def bnd_eq_Inr_iff by (auto simp: reading_Inr)

lemma execute_sweep_now_Inr:
  assumes "execute_sweep_now c exs eid now pid amount (s, ss) = (Inr e, (t, ss'))"
  obtains policy provider addr cr execution where
    "get_sweep_policy pid s = (Inr policy, s)" "sweep_source policy s = (Inr provider, s)"
    "sweep_destination policy s = (Inr addr, s)" "read_credentials c ss provider = Inr cr"
    "0 < manual_amount policy provider amount"
    "execution = new_execution eid now (sp_id policy) TRG_MANUAL (get_or (cp_last_known_balance_sats provider) 0)
       (manual_amount policy provider amount) SES_REQUESTED"
    "attempt_withdrawal exs now provider cr execution (a_address addr) (se_create execution s, ss) = (Inr e, (t, ss'))"
proof -
  have cred: "credentials_of c q (v, u) = (Inr x, st) \<longleftrightarrow> read_credentials c u q = Inr x \<and> st = (v, u)" for q x st u v
    by (auto simp: credentials_of_def except_Inr split: sum.splits)
  from assms obtain policy provider addr cr execution where
    r: "get_sweep_policy pid s = (Inr policy, s)" "sweep_source policy s = (Inr provider, s)"
    "sweep_destination policy s = (Inr addr, s)" "read_credentials c ss provider = Inr cr"
    "0 < manual_amount policy provider amount"
    "SweepExecution (new_execution eid now (sp_id policy) TRG_MANUAL (get_or (cp_last_known_balance_sats provider) 0)
       (manual_amount policy provider amount) SES_REQUESTED) = Inr execution"
    "attempt_withdrawal exs now provider cr execution (a_address addr) (se_create execution s, ss) = (Inr e, (t, ss'))"
    unfolding execute_sweep_now_def bnd_eq_Inr_iff on_db_Inr
    by (auto simp: raise_if_def lift_result_def modify_def on_db_Inr cred quietD [OF quiet_sweep(1)] quietD [OF quiet_sweep(2)]
        quietD [OF quiet_sweep(3)] not_le split: if_splits)
  then show thesis using that by (auto simp: SweepExecution_Inr_iff)
qed

lemma update_created_execution:
  assumes "eid \<notin> se_id ` set (sweep_executions s)" "se_id x = eid" "0 \<le> se_intended_amount_sats x" "0 \<le> se_pre_balance_sats x"
  shows "update_status eid status f (se_create x s) =
    (Inr (Some (status_row status f x)), s\<lparr>sweep_executions := sweep_executions s @ [status_row status f x]\<rparr>)"
  using assms
  by (simp add: update_status_def se_create_def find_row_append find_row_None_iff [THEN iffD2] SweepExecution_Inr_iff rbind_eq_Inr_iff
      status_row_def update_rows_append update_rows_absent)

lemma new_execution_simps [simp]:
  "se_id (new_execution eid now pid trg pre n st) = eid" "se_intended_amount_sats (new_execution eid now pid trg pre n st) = n"
  "se_pre_balance_sats (new_execution eid now pid trg pre n st) = pre"
  by (simp_all add: new_execution_def)

definition withdrawal_recorded :: "provider_exn + withdrawal_result \<Rightarrow> sweep_execution \<Rightarrow> bool" where
  "withdrawal_recorded r e \<longleftrightarrow> (case r of
      Inr w \<Rightarrow> se_status e = SES_REQUESTED \<and> se_provider_withdrawal_id e = Some (wr_withdrawal_id w)
    | Inl (P_Auth m) \<Rightarrow> se_status e = SES_FAILED \<and> se_error_message e = Some m
    | Inl (P_Error m) \<Rightarrow> se_status e = SES_FAILED \<and> se_error_message e = Some m
    | Inl _ \<Rightarrow> False)"

lemma attempt_withdrawal_Inr:
  assumes "attempt_withdrawal exs now provider cr x addr (se_create x s, ss) = (Inr e, (t, ss'))"
    and "se_id x \<notin> se_id ` set (sweep_executions s)" "0 \<le> se_intended_amount_sats x" "0 \<le> se_pre_balance_sats x"
      "se_status x = SES_REQUESTED"
  shows "cp_adapter_id provider = ''kraken'' \<and> ss' = ss \<and> t = s\<lparr>sweep_executions := sweep_executions s @ [e]\<rparr> \<and>
    se_id e = se_id x \<and> se_intended_amount_sats e = se_intended_amount_sats x \<and> se_sweep_policy_id e = se_sweep_policy_id x \<and>
    withdrawal_recorded (withdraw_via (exs ''kraken'' cr) (se_intended_amount_sats x) addr) e"
proof -
  obtain ad where ad: "build_adapter exs (cp_adapter_id provider) cr = Inr ad"
    using assms(1) by (cases "build_adapter exs (cp_adapter_id provider) cr") (auto simp: attempt_withdrawal_def raise_def)
  note k = build_adapter_InrD [OF ad]
  have w: "ad_withdraw (kraken_adapter cx) = withdraw_via cx" for cx by (simp add: kraken_adapter_def)
  note upd = update_created_execution [OF assms(2) refl assms(3,4)]
  have done_with: "bnd (on_db (update_status (se_id x) st f)) (\<lambda>updated. ret (or_else updated x)) (se_create x s, ss) =
      (Inr (status_row st f x), (s\<lparr>sweep_executions := sweep_executions s @ [status_row st f x]\<rparr>, ss))" for st f
    by (simp add: bnd_def on_db_def upd ret_def or_else_def)
  note run = assms(1) [unfolded attempt_withdrawal_def ad k [THEN conjunct2] w Let_def]
  show ?thesis
  proof (cases "withdraw_via (exs ''kraken'' cr) (se_intended_amount_sats x) addr")
    case (Inr r)
    then show ?thesis using run k by (auto simp: w done_with withdrawal_recorded_def status_row_def or_old_def no_fields_def)
  next
    case (Inl y)
    then show ?thesis
      using run k by (cases y) (auto simp: w done_with raise_def withdrawal_recorded_def status_row_def or_old_def no_fields_def)
  qed
qed


section \<open>Deletion\<close>

lemma wipe_secrets:
  assumes "open_with key ss"
  shows "open_with key (wipe refs ss) \<and>
    ss_secrets (wipe refs ss) r = (if r \<in> set refs \<and> r \<noteq> CANARY_REFERENCE then None else ss_secrets ss r)"
  using assms
proof (induction refs arbitrary: ss)
  case Nil
  then show ?case by (simp add: wipe_def)
next
  case (Cons x refs)
  let ?s1 = "snd (delete_secret x ss)"
  have "open_with key ?s1" "ss_secrets ?s1 r = (if r = x \<and> r \<noteq> CANARY_REFERENCE then None else ss_secrets ss r)"
    using Cons.prems by (auto simp: delete_secret_def open_with_def)
  then show ?case using Cons.IH [of ?s1] by (auto simp: wipe_def)
qed

text \<open>C34. A deleted account leaves nothing behind: its provider and its mirrored entries are gone, each of its credentials
  is gone from the unlocked store, and no other secret has changed.\<close>

theorem deleted_account_leaves_no_secret:
  assumes "api_delete_account hid (s, ss) = (Inr (), (t, ss'))"
    and "find_row h_id hid (holdings s) = Some h" "h_holding_type h = HT_ACCOUNT" "cp_get_by_holding_id s hid = Inr (Some p)"
    and "open_with key ss"
  shows "(\<forall>q \<in> set (custodial_providers t). cp_holding_id q \<noteq> hid) \<and>
    (\<forall>c \<in> set (custodial_ledger t). cle_custodial_provider_id c \<noteq> cp_id p) \<and>
    (\<forall>r. ss_secrets ss' r =
       (if r \<in> set (wiped_references (Some p)) \<and> r \<noteq> CANARY_REFERENCE then None else ss_secrets ss r))"
proof -
  have run: "delete_holding_and_secrets hid (s, ss) = (Inr True, (t, ss'))"
    using assms(1) by (auto simp: api_delete_account_def run_account_def split: prod.splits sum.splits bool.splits)
  obtain r u where dc: "delete_cascade hid s = (r, u)" by (metis surj_pair)
  have del: "delete_cascade hid s = (Inr True, t)" and ss': "ss' = wipe (wiped_references (Some p)) ss"
    using run assms(2-4) dc
    by (cases r; auto simp: delete_holding_and_secrets_def bnd_def on_db_def gets_def readr_def modify_def)+
  have hid: "hid \<in> h_id ` set (holdings s)" using find_row_SomeD [OF assms(2)] by force
  from assms(4) have p: "p \<in> set (custodial_providers s)" "cp_holding_id p = hid"
    by (auto simp: cp_get_by_holding_id_def row_one_def rbind_eq_Inr_iff CustodialProvider_def construct_Inr_iff
        split: selected.splits dest!: one_or_none_SelOneD)
  have t: "t = cascade_result hid s" using delete_cascade_outcome [OF del hid] by (auto split: if_splits)
  have provs: "custodial_providers (after_ledger hid s) = custodial_providers s"
    by (simp add: ledger_gone_def payments_gone_def chain_gone_def sweeps_gone_def del_type_logs_def)
  have "cle_custodial_provider_id ` set (custodial_ledger t) = cle_custodial_provider_id `
      set (delete_where (\<lambda>c. cle_custodial_provider_id c \<in> providers_of hid (after_ledger hid s)) (custodial_ledger (after_ledger hid s)))"
    unfolding t cascade_result_def owner_gone_def by (simp add: clear_where_key)
  moreover have "cp_id p \<in> providers_of hid (after_ledger hid s)" using p by (auto simp: providers_of_def provs)
  ultimately have "\<forall>c \<in> set (custodial_ledger t). cle_custodial_provider_id c \<noteq> cp_id p" by force
  moreover have "\<forall>q \<in> set (custodial_providers t). cp_holding_id q \<noteq> hid"
    unfolding t by (auto simp: cascade_result_def owner_gone_def)
  ultimately show ?thesis using wipe_secrets [OF assms(5)] ss' by blast
qed

section \<open>Paging through an account\<close>

definition entries_before :: "db \<Rightarrow> uuid \<Rightarrow> timestamp option \<Rightarrow> custodial_ledger_row list" where
  "entries_before s pid before =
     filter (\<lambda>c. cle_custodial_provider_id c = pid \<and> (case before of None \<Rightarrow> True | Some b \<Rightarrow> cle_timestamp c < b)) (custodial_ledger s)"

lemma account_page_eq:
  "dt_entries (account_page s p before) = take 50 (sort_key (\<lambda>c. - cle_timestamp c) (entries_before s (cp_id p) before))"
  "dt_has_more (account_page s p before) \<longleftrightarrow> 50 < length (entries_before s (cp_id p) before)"
  by (auto simp: account_page_def list_paginated_def entries_before_def Let_def min_def)

lemma fewer_entries_before:
  assumes "c \<in> set (entries_before s pid before)"
  shows "length (entries_before s pid (Some (cle_timestamp c))) < length (entries_before s pid before)"
proof -
  have sub: "entries_before s pid (Some (cle_timestamp c)) = filter (\<lambda>x. cle_timestamp x < cle_timestamp c) (entries_before s pid before)"
    using assms by (auto simp: entries_before_def intro!: filter_cong split: option.splits)
  show ?thesis unfolding sub using assms by (intro length_filter_less) auto
qed

text \<open>A reader that asks for the page before the last entry it was shown, as long as there is more.\<close>

function pages :: "db \<Rightarrow> custodial_provider \<Rightarrow> timestamp option \<Rightarrow> custodial_ledger_row list" where
  "pages s p before =
     (let d = account_page s p before in
      dt_entries d @ (if dt_has_more d then pages s p (Some (cle_timestamp (last (dt_entries d)))) else []))"
  by pat_completeness auto
termination
proof (relation "measure (\<lambda>(s, p, before). length (entries_before s (cp_id p) before))")
  fix s p before and d :: account_detail
  assume d: "d = account_page s p before" "dt_has_more d"
  let ?xs = "sort_key (\<lambda>c. - cle_timestamp c) (entries_before s (cp_id p) before)"
  have "take 50 ?xs \<noteq> []"
  proof
    assume "take 50 ?xs = []"
    then have "length ?xs = 0" by (metis list.size(3) take_eq_Nil zero_neq_numeral)
    then show False using d account_page_eq(2) [of s p before] by simp
  qed
  then have "last (dt_entries d) \<in> set (take 50 ?xs)" unfolding d(1) account_page_eq(1) by (rule last_in_set)
  then have "last (dt_entries d) \<in> set (entries_before s (cp_id p) before)" by (auto dest: in_set_takeD)
  from fewer_entries_before [OF this]
  show "((s, p, Some (cle_timestamp (last (dt_entries d)))), (s, p, before)) \<in>
      measure (\<lambda>(s, p, before). length (entries_before s (cp_id p) before))" by simp
qed simp

declare pages.simps [simp del]

lemma drop_below:
  assumes "sorted (map (\<lambda>c. - ts c) xs)" "distinct (map ts xs)" "n < length xs"
  shows "filter (\<lambda>x. ts x < (ts (xs ! n) :: int)) xs = drop (Suc n) xs"
proof -
  have lo: "\<not> ts x < ts (xs ! n)" if xin: "x \<in> set (take (Suc n) xs)" for x
  proof -
    obtain i where i: "i < Suc n" "i < length xs" "x = xs ! i" using xin by (auto simp: in_set_conv_nth)
    then show ?thesis using sorted_nth_mono [OF assms(1), of i n] assms(3) by simp
  qed
  have hi: "ts x < ts (xs ! n)" if xin: "x \<in> set (drop (Suc n) xs)" for x
  proof -
    obtain i where "i < length (drop (Suc n) xs)" "x = drop (Suc n) xs ! i" using xin by (metis in_set_conv_nth)
    then have i: "Suc n + i < length xs" "x = xs ! (Suc n + i)" by auto
    then have "ts (xs ! (Suc n + i)) \<le> ts (xs ! n)" using sorted_nth_mono [OF assms(1), of n "Suc n + i"] by simp
    moreover have "ts (xs ! (Suc n + i)) \<noteq> ts (xs ! n)"
      using assms(2,3) i(1) nth_eq_iff_index_eq [OF assms(2), of "Suc n + i" n] by simp
    ultimately show ?thesis using i by simp
  qed
  have "filter (\<lambda>x. ts x < ts (xs ! n)) (take (Suc n) xs @ drop (Suc n) xs) = drop (Suc n) xs"
    unfolding filter_append using lo hi by (simp del: append_take_drop_id add: filter_empty_conv filter_id_conv)
  then show ?thesis by (simp only: append_take_drop_id)
qed

text \<open>C35. Paging ends and shows every entry: a reader that follows the pages of an account is shown all its mirrored
  entries, newest first, each once, when no two of them carry the same time.\<close>

theorem paging_shows_every_entry:
  assumes "distinct (map cle_timestamp (entries_before s (cp_id p) before))"
  shows "pages s p before = sort_key (\<lambda>c. - cle_timestamp c) (entries_before s (cp_id p) before)"
  using assms
proof (induction s p before rule: pages.induct)
  case (1 s p before)
  let ?e = "entries_before s (cp_id p) before"
  let ?xs = "sort_key (\<lambda>c. - cle_timestamp c) ?e"
  show ?case
  proof (cases "50 < length ?e")
    case False
    then show ?thesis by (subst pages.simps) (simp add: Let_def account_page_eq)
  next
    case True
    let ?b = "cle_timestamp (last (take 50 ?xs))"
    have "length (take 50 ?xs) = 50" using True by simp
    then have l: "last (take 50 ?xs) = ?xs ! 49" using last_conv_nth [of "take 50 ?xs"] by fastforce
    have d: "distinct (map cle_timestamp ?xs)" using "1.prems" by (simp add: distinct_map)
    have "?xs ! 49 \<in> set ?e" using True nth_mem [of 49 ?xs] by simp
    then have sub: "entries_before s (cp_id p) (Some ?b) = filter (\<lambda>x. cle_timestamp x < ?b) ?e"
      unfolding l by (auto simp: entries_before_def intro!: filter_cong split: option.splits)
    have "filter (\<lambda>x. cle_timestamp x < ?b) ?xs = drop 50 ?xs"
      unfolding l using drop_below [OF sorted_sort_key d, of 49] True by simp
    then have "sort_key (\<lambda>c. - cle_timestamp c) (entries_before s (cp_id p) (Some ?b)) = drop 50 ?xs"
      unfolding sub by (simp only: filter_sort)
    moreover have "distinct (map cle_timestamp (entries_before s (cp_id p) (Some ?b)))"
      unfolding sub using "1.prems" by (rule distinct_map_filter)
    ultimately have "pages s p (Some ?b) = drop 50 ?xs"
      using "1.IH" [OF refl] True by (simp add: account_page_eq)
    then show ?thesis using True by (subst pages.simps) (simp add: Let_def account_page_eq)
  qed
qed

end
