(* ===== verification/Examples_Accounts.thy ===== *)
theory Examples_Accounts
  imports Examples_Custody Examples_Holdings Accounts
begin

text \<open>
  The properties of exchange accounts applied to concrete inputs: an account at Kraken that is validated,
  created, rotated, swept by hand, paged through and deleted.
\<close>

section \<open>Creating it\<close>

definition ex_custodian :: security_claim where
  "ex_custodian = ex_security\<lparr>sc_custody_model := CM_THIRD_PARTY, sc_signing_model := SM_NOT_APPLICABLE\<rparr>"

definition ex_input :: account_input where
  "ex_input = \<lparr>ai_fields = ex_fields\<lparr>hf_declared_security := ex_custodian\<rparr>, ai_provider_kind = PK_EXCHANGE, ai_display_name = ''Kraken'',
     ai_adapter_id = ''kraken'', ai_credentials = ex_credentials\<rparr>"

definition ex_account_draws :: account_draws where
  "ex_account_draws = \<lparr>dw_holding_id = 3, dw_provider_id = 71, dw_nonces = (\<lambda>i. replicate 12 0), dw_entry_ids = ex_ids\<rparr>"

lemma ex_account_created:
  "\<not> isl (fst (api_create_account ex_crypto ex_exchanges 9 9 ex_account_draws ex_input None Map.empty (ex_db, ex_store)))"
  by code_simp

lemma ex_open: "open_with (take 32 (encode ''pw'' @ replicate 32 0)) ex_store"
  by code_simp

theorem created_account_can_be_polled_witness:
  "\<exists>out cache t ss p. api_create_account ex_crypto ex_exchanges 9 9 ex_account_draws ex_input None Map.empty (ex_db, ex_store) =
      (Inr out, cache, (t, ss)) \<and>
    cp_get t (co_provider_id out) = Inr (Some p) \<and> read_credentials ex_crypto ss p = Inr ex_credentials"
proof -
  obtain r cache t ss where run:
    "api_create_account ex_crypto ex_exchanges 9 9 ex_account_draws ex_input None Map.empty (ex_db, ex_store) = (r, cache, (t, ss))"
    by (metis prod_cases4)
  then obtain out where out: "r = Inr out" using ex_account_created by (cases r) auto
  have "length (dw_nonces ex_account_draws i) = GCM_NONCE_SIZE" for i by (simp add: ex_account_draws_def GCM_NONCE_SIZE_def)
  moreover have "dw_provider_id ex_account_draws \<notin> cp_id ` set (custodial_providers ex_db)" "dw_holding_id ex_account_draws \<notin> h_id ` set (holdings ex_db)"
    by (simp_all add: ex_account_draws_def ex_db_def empty_db_def ex_holding_def)
  ultimately show ?thesis
    using created_account_can_be_polled [OF run [unfolded out] ex_crypto_ok ex_open _ ex_references] run
    by (auto simp: out ex_input_def)
qed

theorem setup_token_skips_the_exchange_witness:
  "\<exists>out cache pre. api_validate_account ex_exchanges ''t'' 9 9 ''kraken'' ex_credentials Map.empty = (Inr out, cache) \<and>
    consume_setup_token 100 ''t'' ''kraken'' cache = (Some pre, cache(''t'' := None))"
proof -
  obtain r cache where run: "api_validate_account ex_exchanges ''t'' 9 9 ''kraken'' ex_credentials Map.empty = (r, cache)"
    by (metis surj_pair)
  moreover have "\<not> isl (fst (api_validate_account ex_exchanges ''t'' 9 9 ''kraken'' ex_credentials Map.empty))" by code_simp
  ultimately obtain out where out: "r = Inr out" by (cases r) auto
  have "ai_adapter_id ex_input = ''kraken''" by (simp add: ex_input_def)
  from setup_token_skips_the_exchange [OF run [unfolded out] _ _ _ this, of 100 ex_crypto 9 ex_account_draws "(ex_db, ex_store)"]
  show ?thesis using run by (simp add: out SETUP_TOKEN_TTL_def) blast
qed

section \<open>Rotating its key\<close>

definition ex_trader :: exchanges where
  "ex_trader = (\<lambda>_ _. ex_ccxt\<lparr>cx_get_api_key_info :=
     Inr [(''permissions'', JList [JStr ''query-funds'', JStr ''query-ledger'', JStr ''withdraw-funds''])]\<rparr>)"

definition ex_rotation :: provider_patch where
  "ex_rotation = \<lparr>pt_display_name = None, pt_api_key = Some ''new'', pt_api_secret = Some ''sec2'', pt_api_passphrase = None\<rparr>"

definition ex_rotated :: credentials where
  "ex_rotated = \<lparr>cr_api_key = ''new'', cr_api_secret = ''sec2'', cr_api_passphrase = None\<rparr>"

lemma ex_overage: "kraken_get_permissions (ex_trader ''kraken'' ex_rotated) =
    Inr \<lparr>pp_can_read = True, pp_can_trade = False, pp_can_withdraw = False, pp_overage = [''withdraw-funds''], pp_underage = []\<rparr>"
  by code_simp

theorem rotation_accepts_excess_permissions_witness:
  "validate_account_credentials ex_trader ''kraken'' ex_rotated = Inl (Mismatch [''withdraw-funds''] []) \<and>
   (\<exists>q t ss. api_patch_provider ex_crypto ex_trader 9 (\<lambda>i. replicate 12 0) ex_ids 70 ex_rotation (ex_custody, ex_store) = (Inr q, (t, ss)) \<and>
      read_credentials ex_crypto ss q = Inr ex_rotated)"
proof -
  have "CANARY_REFERENCE \<notin> {cp_api_credential_reference ex_account, cp_api_secret_reference ex_account}"
    "cp_api_passphrase_reference ex_account \<noteq> Some CANARY_REFERENCE"
    by (simp_all add: ex_account_def CANARY_REFERENCE_def)
  moreover have "ex_rotated = \<lparr>cr_api_key = ''new'', cr_api_secret = ''sec2'', cr_api_passphrase = pt_api_passphrase ex_rotation\<rparr>"
    "pt_api_key ex_rotation = Some ''new''" "pt_api_secret ex_rotation = Some ''sec2''"
    by (simp_all add: ex_rotation_def ex_rotated_def)
  moreover have "length (replicate 12 (0 :: 8 word)) = GCM_NONCE_SIZE" by (simp add: GCM_NONCE_SIZE_def)
  ultimately show ?thesis
    using rotation_accepts_excess_permissions [where exs = ex_trader and cr = ex_rotated and pt = ex_rotation and k = "''new''"
        and sec = "''sec2''" and nonces = "\<lambda>i. replicate 12 0" and now = 9 and tags = ex_ids,
        OF ex_cp_get _ _ _ _ _ _ ex_overage _ ex_crypto_ok ex_open]
    by auto
qed

section \<open>Sweeping it by hand\<close>

definition ex_source :: holding where
  "ex_source = (ex_holding 5)\<lparr>h_holding_type := HT_ACCOUNT, h_custodial_provider_id := Some 70,
     h_declared_security := ex_custodian\<rparr>"

definition ex_accounts :: db where
  "ex_accounts = ex_custody\<lparr>holdings := [ex_holding 1, ex_source],
     custodial_providers := [ex_account\<lparr>cp_holding_id := 5\<rparr>], sweep_policies := [(ex_policy True [])\<lparr>sp_source_holding_id := 5,
       sp_destination_holding_id := 1\<rparr>]\<rparr>"


section \<open>Deleting it\<close>

theorem deleted_account_leaves_no_secret_witness:
  "\<exists>t ss. api_delete_account 5 (ex_accounts\<lparr>sweep_policies := []\<rparr>, ex_store) = (Inr (), (t, ss)) \<and>
    ss_secrets ss ''k'' = None \<and> ss_secrets ss ''s'' = None"
proof -
  obtain r t ss where run: "api_delete_account 5 (ex_accounts\<lparr>sweep_policies := []\<rparr>, ex_store) = (r, (t, ss))"
    by (metis prod_cases3)
  moreover have "\<not> isl (fst (api_delete_account 5 (ex_accounts\<lparr>sweep_policies := []\<rparr>, ex_store)))" by code_simp
  ultimately have r: "r = Inr ()" by (cases r) auto
  have row: "find_row h_id 5 (holdings (ex_accounts\<lparr>sweep_policies := []\<rparr>)) = Some ex_source"
    by (simp add: ex_accounts_def ex_source_def ex_holding_def)
  have prov: "cp_get_by_holding_id (ex_accounts\<lparr>sweep_policies := []\<rparr>) 5 = Inr (Some (ex_account\<lparr>cp_holding_id := 5\<rparr>))"
    by (simp add: cp_get_by_holding_id_def ex_accounts_def ex_account_def)
       (simp add: one_or_none_def row_one_def CustodialProvider_def construct_Inr_iff opt_lt_def rbind_eq_Inr_iff)
  have "h_holding_type ex_source = HT_ACCOUNT" by (simp add: ex_source_def)
  from deleted_account_leaves_no_secret [OF run [unfolded r] row this prov ex_open] show ?thesis
    using run by (simp add: r ex_account_def wiped_references_def CANARY_REFERENCE_def)
qed

section \<open>Paging through it\<close>

theorem paging_shows_every_entry_witness:
  "map cle_timestamp (pages ex_mirrored ex_account None) = [2000000, 1000000]"
proof -
  have ts: "map cle_timestamp (entries_before ex_mirrored (cp_id ex_account) None) = [1000000, 2000000]"
    by (simp add: entries_before_def ex_mirrored_def mirror_row_def ex_entries_def ledger_entry_of_def
        ex_deposit_def ex_withdrawal_def Examples_Custody.ex_item_def ts_to_dt_def)
  obtain a b where ab: "entries_before ex_mirrored (cp_id ex_account) None = [a, b]" "cle_timestamp a = 1000000" "cle_timestamp b = 2000000"
    using ts by (auto simp: map_eq_Cons_conv)
  have "pages ex_mirrored ex_account None = sort_key (\<lambda>c. - cle_timestamp c) [a, b]"
    using paging_shows_every_entry [of ex_mirrored ex_account None] by (simp only: ab) (simp add: ab)
  then show ?thesis by (simp add: ab)
qed

end
