(* ===== verification/Chain_Scan.thy ===== *)
theory Chain_Scan
  imports Regex Chain_Ledger Payments
begin

text \<open>
  The initial scan and the rescan of a descriptor: \<^verbatim>\<open>services/chain_scan_service.py\<close>, the call of
  \<^verbatim>\<open>scantxoutset\<close> in \<^verbatim>\<open>adapters/node_adapter.py\<close> and the handler of \<^verbatim>\<open>api/v1/descriptors.py\<close>.  The answer
  bitcoind gives to the JSON-RPC call is an argument.  Both branches of the descriptor are scanned; an
  unspent output that belongs to an address row and is not known yet is recorded, flagged and entered in
  the ledger of the descriptor's holding.

  The lemmas follow one output through the three tables and then the list of them: the scan keeps the
  books consistent, records what it was told and can be repeated; what it writes into the ledger is not
  always what it adds to the balance.
\<close>

section \<open>Asking the node\<close>

record raw_unspent =
  ru_txid :: string
  ru_vout :: int
  ru_address :: "string option"
  ru_amount :: rat
  ru_height :: "int option"
  ru_desc :: "string option"

record raw_scan =
  rs_success :: "bool option"
  rs_height :: "int option"
  rs_total :: "rat option"
  rs_unspents :: "raw_unspent list"

record scan_utxo =
  su_txid :: string
  su_vout :: int
  su_address :: string
  su_amount_sats :: sats
  su_height :: int
  su_descriptor :: string

record scan_result =
  sr_success :: bool
  sr_height_at_scan :: int
  sr_total_amount_sats :: sats
  sr_utxos :: "scan_utxo list"

text \<open>An object to scan is a descriptor with the range bitcoind derives it over, if it has a wildcard.\<close>

type_synonym scan_rpc = "(string \<times> nat option) list \<Rightarrow> node_exn + raw_scan"

definition scan_object :: "string \<Rightarrow> string \<times> nat option" where
  "scan_object d = (d, if CHR ''*'' \<in> set d then Some 1000 else None)"

definition scan_utxo_of :: "raw_unspent \<Rightarrow> scan_utxo" where
  "scan_utxo_of r =
     \<lparr>su_txid = ru_txid r, su_vout = ru_vout r, su_address = get_or (ru_address r) [],
      su_amount_sats = btc_to_sats (ru_amount r), su_height = get_or (ru_height r) 0,
      su_descriptor = get_or (ru_desc r) []\<rparr>"

definition scan_descriptors :: "scan_rpc \<Rightarrow> string list \<Rightarrow> node_exn + scan_result" where
  "scan_descriptors rpc ds =
     (case rpc (map scan_object ds) of
        Inl e \<Rightarrow> Inl e
      | Inr r \<Rightarrow> Inr \<lparr>sr_success = get_or (rs_success r) False, sr_height_at_scan = get_or (rs_height r) 0,
                       sr_total_amount_sats = btc_to_sats (get_or (rs_total r) 0),
                       sr_utxos = map scan_utxo_of (rs_unspents r)\<rparr>)"

section \<open>The index of an output's address\<close>

text \<open>\<^verbatim>\<open>\[[^\]]*?/(\d+)\][0-9a-fA-F]+\<close>; the lazy repetition tries the shortest match first.\<close>

definition lazy_star :: "(char \<Rightarrow> bool) \<Rightarrow> nat \<Rightarrow> re" where
  "lazy_star f n = foldr (\<lambda>k r. Alt (Cats (replicate k (Cls f))) r) [0..<n] (Cats (replicate n (Cls f)))"

definition hex_digit_char :: "char \<Rightarrow> bool" where
  "hex_digit_char c \<longleftrightarrow> c \<in> set ''0123456789abcdefABCDEF''"

definition DESC_INDEX_PATTERN :: "nat \<Rightarrow> re" where
  "DESC_INDEX_PATTERN n =
     Cats [Chr (CHR ''[''), lazy_star (\<lambda>c. c \<noteq> CHR '']'') n, Chr (CHR ''/''), Group (Plus Digit),
           Chr (CHR '']''), Plus (Cls hex_digit_char)]"

definition parse_derivation_index :: "string \<Rightarrow> int option" where
  "parse_derivation_index desc =
     (case re_search (DESC_INDEX_PATTERN (length desc)) desc of
        None \<Rightarrow> None | Some m \<Rightarrow> Some (int_of_str (group1 m)))"

section \<open>Recording an output\<close>

record scan_draws =
  sd_utxo_ids :: "nat \<Rightarrow> uuid"
  sd_entry_ids :: "nat \<Rightarrow> uuid"
  sd_fees :: "nat \<Rightarrow> (node_exn + rat option) option"
  sd_now :: timestamp

definition nonzero :: "int \<Rightarrow> int option" where
  "nonzero h = (if h = 0 then None else Some h)"

definition no_onchain_fields :: onchain_fields where
  "no_onchain_fields = \<lparr>of_raw_hex = None, of_confirmation_height = None, of_block_time = None,
     of_fee_sats = None, of_size_vbytes = None, of_is_coinjoin_suspected = None\<rparr>"

definition compute_and_apply_hygiene :: "scan_draws \<Rightarrow> nat \<Rightarrow> descriptor \<Rightarrow> uuid \<Rightarrow> unit service" where
  "compute_and_apply_hygiene dr k d uid s =
     (case find_row u_id uid (utxos s) of
        None \<Rightarrow> (Inr (), s)
      | Some row \<Rightarrow>
          bnd (apply_flags_and_propagate_reuse row
                 \<lparr>hc_decoded_tx = None, hc_address_type = d_address_type d,
                  hc_fee_rate = estimate_fee_rate_sat_per_vbyte (sd_fees dr k)\<rparr>) (\<lambda>_. ret ()) s)"

definition entry_linked :: "db \<Rightarrow> uuid \<Rightarrow> uuid \<Rightarrow> exn + bool" where
  "entry_linked s eid hid =
     (case filter (\<lambda>l. ll_ledger_entry_id l = eid \<and> ll_holding_id l = hid) (ledger_links s) of
        [] \<Rightarrow> Inr False | [_] \<Rightarrow> Inr True | _ \<Rightarrow> Inl MultipleResultsFound)"

definition scan_link :: "uuid \<Rightarrow> descriptor \<Rightarrow> sats \<Rightarrow> ledger_link" where
  "scan_link eid d amount =
     \<lparr>ll_ledger_entry_id = eid, ll_holding_id = d_holding_id d, ll_holding_amount_sats = amount\<rparr>"

definition maybe_create_ledger_entry ::
  "scan_draws \<Rightarrow> nat \<Rightarrow> descriptor \<Rightarrow> string \<Rightarrow> sats \<Rightarrow> unit service" where
  "maybe_create_ledger_entry dr k d txid amount =
     bnd (readr (\<lambda>s. le_get_by_source s SRC_ONCHAIN_TRANSACTION txid)) (\<lambda>existing.
     case existing of
       None \<Rightarrow>
         bnd (lift_result (LedgerEntry (onchain_entry (sd_entry_ids dr k) (sd_now dr) (sd_now dr) DIR_INCOMING txid amount))) (\<lambda>entry.
         modify (le_insert entry [scan_link (sd_entry_ids dr k) d amount]))
     | Some e \<Rightarrow>
         bnd (readr (\<lambda>s. entry_linked s (le_id e) (d_holding_id d))) (\<lambda>already_linked.
         if already_linked then ret ()
         else modify (ledger_links_update (\<lambda>ls. ls @ [scan_link (le_id e) d amount]))))"

definition record_scanned :: "scan_draws \<Rightarrow> nat \<Rightarrow> descriptor \<Rightarrow> address \<Rightarrow> scan_utxo \<Rightarrow> unit service" where
  "record_scanned dr k d a u =
     bnd (utxo_upsert_unspent (sd_utxo_ids dr k) (sd_now dr) (d_id d) (a_id a) (su_txid u) (su_vout u)
            (su_amount_sats u) (nonzero (su_height u))) (\<lambda>_.
     bnd (onchain_upsert (sd_now dr) (su_txid u)
            (no_onchain_fields\<lparr>of_confirmation_height := nonzero (su_height u)\<rparr>)) (\<lambda>_.
     bnd (compute_and_apply_hygiene dr k d (sd_utxo_ids dr k)) (\<lambda>_.
     maybe_create_ledger_entry dr k d (su_txid u) (su_amount_sats u))))"

section \<open>The scan\<close>

record scan_counts =
  sc_discovered :: nat
  sc_pre_existing :: nat
  sc_entries :: nat
  sc_height :: int

record scan_report =
  rp_descriptor_id :: uuid
  rp_utxos_discovered :: nat
  rp_utxos_pre_existing :: nat
  rp_ledger_entries_created :: nat
  rp_height_at_scan :: int

definition no_counts :: scan_counts where
  "no_counts = \<lparr>sc_discovered = 0, sc_pre_existing = 0, sc_entries = 0, sc_height = 0\<rparr>"

text \<open>The address rows by branch and index; a later row replaces an earlier one.\<close>

type_synonym address_index = "bool \<Rightarrow> int \<Rightarrow> address option"

definition address_index :: "db \<Rightarrow> uuid \<Rightarrow> address_index" where
  "address_index s did is_change i =
     find (\<lambda>a. a_is_change a = is_change \<and> a_derivation_index a = i)
       (rev (filter (\<lambda>a. a_descriptor_id a = did) (addresses s)))"

definition address_of :: "address_index \<Rightarrow> bool \<Rightarrow> scan_utxo \<Rightarrow> address option" where
  "address_of index is_change u =
     (case parse_derivation_index (su_descriptor u) of None \<Rightarrow> None | Some i \<Rightarrow> index is_change i)"

definition scan_unspent ::
  "scan_draws \<Rightarrow> descriptor \<Rightarrow> address_index \<Rightarrow> bool \<Rightarrow> scan_utxo \<Rightarrow> scan_counts \<Rightarrow> scan_counts service" where
  "scan_unspent dr d index is_change u n =
     (case address_of index is_change u of
        None \<Rightarrow> ret n
      | Some a \<Rightarrow>
          bnd (readr (\<lambda>s. utxo_get_by_outpoint s (su_txid u) (su_vout u))) (\<lambda>existing.
          case existing of
            Some _ \<Rightarrow> ret (n\<lparr>sc_pre_existing := sc_pre_existing n + 1\<rparr>)
          | None \<Rightarrow>
              bnd (record_scanned dr (sc_discovered n) d a u) (\<lambda>_.
              ret (n\<lparr>sc_discovered := sc_discovered n + 1, sc_entries := sc_entries n + 1\<rparr>))))"

fun scan_unspents ::
  "scan_draws \<Rightarrow> descriptor \<Rightarrow> address_index \<Rightarrow> bool \<Rightarrow> scan_utxo list \<Rightarrow> scan_counts \<Rightarrow> scan_counts service" where
  "scan_unspents dr d index is_change [] n = ret n"
| "scan_unspents dr d index is_change (u # us) n =
     bnd (scan_unspent dr d index is_change u n) (scan_unspents dr d index is_change us)"

definition scan_branch ::
  "scan_rpc \<Rightarrow> scan_draws \<Rightarrow> descriptor \<Rightarrow> address_index \<Rightarrow> bool \<times> string \<Rightarrow> scan_counts \<Rightarrow> scan_counts service" where
  "scan_branch rpc dr d index branch n =
     (case scan_descriptors rpc [snd branch] of
        Inl (NodeRpcError _ _) \<Rightarrow> ret (n\<lparr>sc_height := max (sc_height n) 1\<rparr>)
      | Inl _ \<Rightarrow> raise NodeError
      | Inr r \<Rightarrow> scan_unspents dr d index (fst branch) (sr_utxos r)
                   (n\<lparr>sc_height := max (sc_height n) (sr_height_at_scan r)\<rparr>))"

fun scan_branches ::
  "scan_rpc \<Rightarrow> scan_draws \<Rightarrow> descriptor \<Rightarrow> address_index \<Rightarrow> (bool \<times> string) list \<Rightarrow> scan_counts \<Rightarrow> scan_counts service" where
  "scan_branches rpc dr d index [] n = ret n"
| "scan_branches rpc dr d index (b # bs) n =
     bnd (scan_branch rpc dr d index b n) (scan_branches rpc dr d index bs)"

definition branches :: "descriptor \<Rightarrow> (bool \<times> string) list" where
  "branches d = (False, d_expression d) # (case d_change_expression d of None \<Rightarrow> [] | Some c \<Rightarrow> [(True, c)])"

definition raise_scanned_height :: "int \<Rightarrow> descriptor \<Rightarrow> descriptor" where
  "raise_scanned_height h d = (if h > d_last_scanned_height d then d\<lparr>d_last_scanned_height := h\<rparr> else d)"

definition initial_scan :: "scan_rpc \<Rightarrow> scan_draws \<Rightarrow> descriptor \<Rightarrow> scan_report service" where
  "initial_scan rpc dr d =
     bnd (gets (\<lambda>s. address_index s (d_id d))) (\<lambda>index.
     bnd (scan_branches rpc dr d index (branches d) no_counts) (\<lambda>n.
     let height = max (sc_height n) 1 in
     bnd (modify (descriptors_update (update_rows d_id (d_id d) (raise_scanned_height height)))) (\<lambda>_.
     ret \<lparr>rp_descriptor_id = d_id d, rp_utxos_discovered = sc_discovered n,
          rp_utxos_pre_existing = sc_pre_existing n, rp_ledger_entries_created = sc_entries n,
          rp_height_at_scan = height\<rparr>)))"

definition api_rescan_descriptor :: "scan_rpc \<Rightarrow> scan_draws \<Rightarrow> uuid \<Rightarrow> db \<Rightarrow> (int + scan_report) \<times> db" where
  "api_rescan_descriptor rpc dr did s =
     (case get_descriptor s did of
        Inl _ \<Rightarrow> (Inl 500, s)
      | Inr None \<Rightarrow> (Inl 404, s)
      | Inr (Some d) \<Rightarrow>
          (case initial_scan rpc dr d s of
             (Inl e, _) \<Rightarrow> (Inl (if e = NodeError then 503 else 500), s)
           | (Inr report, t) \<Rightarrow> (Inr report, t)))"

section \<open>The ledger entry of an output\<close>

definition scan_utxo_ok :: "scan_utxo \<Rightarrow> bool" where
  "scan_utxo_ok u \<longleftrightarrow> length (su_txid u) = 64 \<and> 0 \<le> su_vout u \<and> 0 \<le> su_amount_sats u \<and> 0 \<le> su_height u"

definition entries_of :: "db \<Rightarrow> string \<Rightarrow> ledger_entry list" where
  "entries_of s txid =
     filter (\<lambda>e. le_source e = SRC_ONCHAIN_TRANSACTION \<and> le_source_reference e = txid) (ledger_entries s)"

text \<open>A transaction with one entry at most.  The listener writes one entry for each holding a transaction
  touches, so this is not an invariant of the books.\<close>

definition sole_entry :: "db \<Rightarrow> string \<Rightarrow> bool" where
  "sole_entry s txid \<longleftrightarrow> length (entries_of s txid) \<le> 1"

definition amounts :: "db \<Rightarrow> string \<Rightarrow> uuid \<Rightarrow> sats list" where
  "amounts s txid h = map ll_holding_amount_sats (links_of_tx s txid h)"

lemma links_of_tx_entries:
  "links_of_tx s txid h = concat (map (\<lambda>l. map (\<lambda>_. l) (filter (\<lambda>e. le_id e = ll_ledger_entry_id l) (entries_of s txid)))
     (filter (\<lambda>l. ll_holding_id l = h) (ledger_links s)))"
  by (simp add: links_of_tx_def entries_of_def conj_ac)

lemma links_of_tx_none: "entries_of s txid = [] \<Longrightarrow> links_of_tx s txid h = []"
  by (simp add: links_of_tx_entries)

lemma links_of_tx_sole:
  assumes "entries_of s txid = [e]"
  shows "links_of_tx s txid h = filter (\<lambda>l. ll_ledger_entry_id l = le_id e \<and> ll_holding_id l = h) (ledger_links s)"
proof -
  have "concat (map (\<lambda>l. map (\<lambda>_. l) (filter (\<lambda>e. le_id e = ll_ledger_entry_id l) [e])) (filter P ls)) =
      filter (\<lambda>l. ll_ledger_entry_id l = le_id e \<and> P l) ls" for P and ls :: "ledger_link list"
    by (induction ls) auto
  then show ?thesis by (simp only: links_of_tx_entries assms)
qed

lemma links_of_tx_add_link:
  "links_of_tx (ledger_links_update (\<lambda>ls. ls @ [l]) s) txid h = links_of_tx s txid h @
     (if ll_holding_id l = h then map (\<lambda>_. l) (filter (\<lambda>e. le_id e = ll_ledger_entry_id l) (entries_of s txid)) else [])"
  by (simp add: links_of_tx_entries entries_of_def)

lemma le_get_by_source_sole:
  assumes "ledger_inv s" "sole_entry s txid"
  shows "le_get_by_source s SRC_ONCHAIN_TRANSACTION txid =
    Inr (case entries_of s txid of [] \<Rightarrow> None | e # _ \<Rightarrow> Some e)"
proof (cases "entries_of s txid")
  case Nil
  then show ?thesis by (simp add: le_get_by_source_def one_or_none_def row_one_def entries_of_def)
next
  case (Cons e es)
  then have es: "entries_of s txid = [e]" using assms(2) by (simp add: sole_entry_def)
  then have "e \<in> set (ledger_entries s)" by (metis entries_of_def filter_is_subset insertI1 list.simps(15) subset_iff)
  then have "LedgerEntry e = Inr e" using assms(1) by (simp add: ledger_inv_def)
  then show ?thesis using es by (simp add: le_get_by_source_def one_or_none_def row_one_def entries_of_def)
qed

lemma entry_stage:
  assumes inv: "ledger_inv s" and fresh: "sd_entry_ids dr k \<notin> entry_ids_used s" and txid: "txid \<noteq> []" and
    amt: "0 \<le> amt" and sole: "sole_entry s txid"
  obtains t where "maybe_create_ledger_entry dr k d txid amt s = (Inr (), t)" "ledger_inv t"
    "\<exists>f g. t = ledger_links_update f (ledger_entries_update g s)"
    "\<And>x. sole_entry s x \<Longrightarrow> sole_entry t x" "entry_ids_used t \<subseteq> insert (sd_entry_ids dr k) (entry_ids_used s)"
    "\<And>x h. amounts t x h = amounts s x h @ (if x = txid \<and> h = d_holding_id d \<and> amounts s x h = [] then [amt] else [])"
proof (cases "entries_of s txid")
  case Nil
  let ?e = "onchain_entry (sd_entry_ids dr k) (sd_now dr) (sd_now dr) DIR_INCOMING txid amt"
  let ?l = "scan_link (sd_entry_ids dr k) d amt"
  let ?t = "le_insert ?e [?l] s"
  have e: "le_id ?e = sd_entry_ids dr k" "le_source ?e = SRC_ONCHAIN_TRANSACTION" "le_source_reference ?e = txid"
    "LedgerEntry ?e = Inr ?e"
    using txid amt by (simp_all add: onchain_entry_def LedgerEntry_Inr_iff opt_lt_def)
  have l: "ll_ledger_entry_id ?l = le_id ?e" "ll_holding_id ?l = d_holding_id d" "ll_holding_amount_sats ?l = amt"
    by (simp_all add: scan_link_def e)
  have none: "links_of_tx s txid h = []" for h using Nil by (rule links_of_tx_none)
  have fresh': "le_id ?e \<notin> entry_ids_used s" using fresh by (simp add: e)
  have "maybe_create_ledger_entry dr k d txid amt s = (Inr (), ?t)"
    by (simp add: maybe_create_ledger_entry_def le_get_by_source_sole [OF inv sole] Nil bnd_def readr_def lift_result_def modify_def e)
  moreover have "ledger_inv ?t"
    using ledger_inv_insert [OF inv fresh' e(4) l(1)] none by (simp add: e)
  moreover have "\<exists>f g. ?t = ledger_links_update f (ledger_entries_update g s)" by (auto simp: le_insert_def)
  moreover have "sole_entry ?t x" if "sole_entry s x" for x
    using that Nil by (auto simp: sole_entry_def entries_of_def e)
  moreover have "entry_ids_used ?t \<subseteq> insert (sd_entry_ids dr k) (entry_ids_used s)"
    by (auto simp: entry_ids_used_def e)
  moreover have "amounts ?t x h = amounts s x h @ (if x = txid \<and> h = d_holding_id d \<and> amounts s x h = [] then [amt] else [])" for x h
    using none by (auto simp: amounts_def links_of_tx_insert [OF inv fresh' l(1)] l e)
  ultimately show thesis by (rule that)
next
  case (Cons e es)
  then have es: "entries_of s txid = [e]" using sole by (simp add: sole_entry_def)
  then have e: "e \<in> set (ledger_entries s)" "le_source_reference e = txid" "le_source e = SRC_ONCHAIN_TRANSACTION"
    unfolding entries_of_def by (auto simp: filter_eq_Cons_iff)
  have linked: "entry_linked s (le_id e) (d_holding_id d) = Inr (amounts s txid (d_holding_id d) \<noteq> [])"
  proof -
    have "length (links_of_tx s txid (d_holding_id d)) \<le> 1" using inv by (simp add: ledger_inv_def)
    then show ?thesis
      unfolding amounts_def entry_linked_def links_of_tx_sole [OF es]
      by (cases "filter (\<lambda>l. ll_ledger_entry_id l = le_id e \<and> ll_holding_id l = d_holding_id d) (ledger_links s)" rule: remdups_adj.cases) auto
  qed
  show thesis
  proof (cases "amounts s txid (d_holding_id d) = []")
    case False
    then have "maybe_create_ledger_entry dr k d txid amt s = (Inr (), s)"
      by (simp add: maybe_create_ledger_entry_def le_get_by_source_sole [OF inv sole] es bnd_def readr_def linked ret_def)
    then show thesis
      by (rule that) (use inv False in \<open>auto intro!: exI [of _ "\<lambda>x. x"]\<close>)
  next
    case True
    let ?l = "scan_link (le_id e) d amt"
    let ?t = "ledger_links_update (\<lambda>ls. ls @ [?l]) s"
    have l: "ll_ledger_entry_id ?l = le_id e" "ll_holding_id ?l = d_holding_id d" "ll_holding_amount_sats ?l = amt"
      by (simp_all add: scan_link_def)
    have same: "entries_of ?t x = entries_of s x" for x by (simp add: entries_of_def)
    have "filter (\<lambda>e'. le_id e' = le_id e) (entries_of s x) = (if x = txid then [e] else [])" for x
    proof (cases "x = txid")
      case True
      then show ?thesis by (simp add: es)
    next
      case False
      have "e' = e" if "e' \<in> set (ledger_entries s)" "le_id e' = le_id e" for e'
        using inv e(1) that by (auto simp: ledger_inv_def distinct_map inj_on_def)
      then show ?thesis using False e(2) by (auto simp: filter_empty_conv entries_of_def)
    qed
    then have links: "links_of_tx ?t x h = links_of_tx s x h @ (if h = d_holding_id d \<and> x = txid then [?l] else [])" for x h
      by (simp add: links_of_tx_add_link l)
    have "links_of_tx s txid (d_holding_id d) = []" using True by (simp add: amounts_def)
    then have "\<forall>x h. length (links_of_tx ?t x h) \<le> 1" using inv by (simp add: links ledger_inv_def)
    then have "ledger_inv ?t" using inv e(1) by (auto simp: ledger_inv_def l)
    moreover have "maybe_create_ledger_entry dr k d txid amt s = (Inr (), ?t)"
      by (simp add: maybe_create_ledger_entry_def le_get_by_source_sole [OF inv sole] es bnd_def readr_def linked True modify_def)
    moreover have "\<exists>f g. ?t = ledger_links_update f (ledger_entries_update g s)"
      by (rule exI [of _ "\<lambda>ls. ls @ [?l]"], rule exI [of _ "\<lambda>x. x"]) simp
    moreover have "amounts ?t x h = amounts s x h @ (if x = txid \<and> h = d_holding_id d \<and> amounts s x h = [] then [amt] else [])" for x h
      using True by (auto simp: amounts_def links l)
    moreover have "sole_entry s x \<Longrightarrow> sole_entry ?t x" for x by (simp add: sole_entry_def same)
    moreover have "entry_ids_used ?t \<subseteq> insert (sd_entry_ids dr k) (entry_ids_used s)" by (auto simp: entry_ids_used_def)
    ultimately show thesis by (intro that)
  qed
qed

section \<open>One output\<close>

definition scan_row :: "scan_draws \<Rightarrow> nat \<Rightarrow> descriptor \<Rightarrow> address \<Rightarrow> scan_utxo \<Rightarrow> utxo" where
  "scan_row dr k d a u =
     new_utxo (sd_utxo_ids dr k) (sd_now dr) (d_id d) (a_id a) (su_txid u) (su_vout u) (su_amount_sats u) None"

lemma scan_row_simps [simp]:
  "u_id (scan_row dr k d a u) = sd_utxo_ids dr k" "outpoint (scan_row dr k d a u) = (su_txid u, su_vout u)"
  "u_txid (scan_row dr k d a u) = su_txid u" "u_descriptor_id (scan_row dr k d a u) = d_id d"
  "u_value_sats (scan_row dr k d a u) = su_amount_sats u" "\<not> u_is_spent (scan_row dr k d a u)"
  by (simp_all add: scan_row_def new_utxo_def outpoint_def)

definition known_outpoint :: "db \<Rightarrow> scan_utxo \<Rightarrow> bool" where
  "known_outpoint s u \<longleftrightarrow> (su_txid u, su_vout u) \<in> outpoint ` set (cores s)"

lemma amounts_cong:
  "ledger_links t = ledger_links s \<Longrightarrow> ledger_entries t = ledger_entries s \<Longrightarrow> amounts t = amounts s"
  by (simp add: amounts_def links_of_tx_def fun_eq_iff)

lemma sole_entry_cong: "ledger_entries t = ledger_entries s \<Longrightarrow> sole_entry t = sole_entry s"
  by (simp add: sole_entry_def entries_of_def fun_eq_iff)

lemma known_outpoint_iff:
  "known_outpoint s u \<longleftrightarrow> find_row outpoint (su_txid u, su_vout u) (utxos s) \<noteq> None"
  by (simp add: known_outpoint_def cores_def image_image find_row_None_iff)

text \<open>The three stages before the ledger.\<close>

lemma rows_stage:
  assumes inv: "books_inv s" and uid: "sd_utxo_ids dr k \<notin> u_id ` set (utxos s)" and ok: "scan_utxo_ok u" and
    new: "\<not> known_outpoint s u" and d: "d_id d \<in> d_id ` set (descriptors s)"
  obtains x y s1 s2 s3 where
    "utxo_upsert_unspent (sd_utxo_ids dr k) (sd_now dr) (d_id d) (a_id a) (su_txid u) (su_vout u)
       (su_amount_sats u) (nonzero (su_height u)) s = (Inr x, s1)"
    "onchain_upsert (sd_now dr) (su_txid u) (no_onchain_fields\<lparr>of_confirmation_height := nonzero (su_height u)\<rparr>) s1 = (Inr y, s2)"
    "compute_and_apply_hygiene dr k d (sd_utxo_ids dr k) s2 = (Inr (), s3)"
    "books_inv s3" "cores s3 = cores s @ [scan_row dr k d a u]" "descriptors s3 = descriptors s"
    "map akey (addresses s3) = map akey (addresses s)" "ledger_links s3 = ledger_links s" "ledger_entries s3 = ledger_entries s"
proof -
  let ?row = "new_utxo (sd_utxo_ids dr k) (sd_now dr) (d_id d) (a_id a) (su_txid u) (su_vout u) (su_amount_sats u) (nonzero (su_height u))"
  let ?s1 = "utxos_update (\<lambda>us. us @ [?row]) s"
  let ?f = "no_onchain_fields\<lparr>of_confirmation_height := nonzero (su_height u)\<rparr>"
  have row: "u_id ?row = sd_utxo_ids dr k" "outpoint ?row = (su_txid u, su_vout u)" "utxo_row_ok ?row" "u_descriptor_id ?row = d_id d"
    using ok by (simp_all add: new_utxo_def outpoint_def utxo_row_ok_iff scan_utxo_ok_def)
  have none: "find_row outpoint (su_txid u, su_vout u) (utxos s) = None" using new by (simp add: known_outpoint_iff)
  have sel: "utxo_row_by_outpoint s (su_txid u) (su_vout u) = SelNone"
    using inv none by (simp add: books_inv_def utxo_inv_def utxo_row_by_outpoint_eq)
  have up1: "utxo_upsert_unspent (sd_utxo_ids dr k) (sd_now dr) (d_id d) (a_id a) (su_txid u) (su_vout u)
       (su_amount_sats u) (nonzero (su_height u)) s = (Inr ?row, ?s1)"
    using sel row(3) by (simp add: utxo_upsert_unspent_def Let_def utxo_row_ok_def)
  have u1: "utxo_inv ?s1"
    using inv uid none row by (intro utxo_inv_insert) (auto simp: books_inv_def find_row_None_iff)
  have c1: "cores ?s1 = cores s @ [scan_row dr k d a u]"
    by (simp add: cores_def ucore_new_utxo scan_row_def)
  have "onchain_inv ?s1" using inv by (simp add: books_inv_def onchain_inv_def)
  moreover have "length (su_txid u) = 64" "onchain_fields_ok ?f"
    using ok by (auto simp: scan_utxo_ok_def onchain_fields_ok_def no_onchain_fields_def nonzero_def opt_lt_def)
  moreover obtain r s2 where up2: "onchain_upsert (sd_now dr) (su_txid u) ?f ?s1 = (r, s2)" by fastforce
  ultimately obtain y where r: "r = Inr y" and o2: "onchain_inv s2" using onchain_upsert_ok by blast
  obtain g where s2: "s2 = onchain_transactions_update g ?s1" using onchain_upsert_frame [OF up2] by blast
  have u2: "utxo_inv s2" using u1 by (simp add: s2 utxo_inv_def)
  obtain row' where found: "find_row u_id (sd_utxo_ids dr k) (utxos s2) = Some row'"
    using row(1) by (cases "find_row u_id (sd_utxo_ids dr k) (utxos s2)") (auto simp: s2 find_row_None_iff)
  obtain fl s3 where fl: "apply_flags_and_propagate_reuse row'
      \<lparr>hc_decoded_tx = None, hc_address_type = d_address_type d,
       hc_fee_rate = estimate_fee_rate_sat_per_vbyte (sd_fees dr k)\<rparr> s2 = (Inr fl, s3)"
    and frame: "same_but_utxos s2 s3" and c3: "cores s3 = cores s2" using apply_flags_ok [OF u2] by blast
  have up3: "compute_and_apply_hygiene dr k d (sd_utxo_ids dr k) s2 = (Inr (), s3)"
    using found fl by (simp add: compute_and_apply_hygiene_def bnd_def ret_def)
  note same = same_but_utxos_simps [OF frame]
  have cores3: "cores s3 = cores s @ [scan_row dr k d a u]" using c1 c3 by (simp add: s2 cores_def)
  have "utxo_inv s3" using u2 c3 by (simp add: utxo_inv_cores)
  moreover have "onchain_inv s3" using o2 same by (simp add: onchain_inv_def)
  moreover have "ledger_inv s3"
    using inv same by (subst ledger_inv_cong [of s3 s]) (simp_all add: s2 books_inv_def)
  moreover have "u_descriptor_id v \<in> d_id ` set (descriptors s)" if "v \<in> set (utxos s3)" for v
  proof -
    have "ucore v \<in> set (cores s @ [scan_row dr k d a u])" using that cores3 by (metis cores_def imageI set_map)
    then have "u_descriptor_id (ucore v) \<in> u_descriptor_id ` set (cores s @ [scan_row dr k d a u])" by (rule imageI)
    then have "u_descriptor_id v \<in> insert (d_id d) (u_descriptor_id ` set (utxos s))" by (simp add: cores_def image_image)
    then show ?thesis using inv d by (auto simp: books_inv_def)
  qed
  ultimately have "books_inv s3" using same by (simp add: books_inv_def s2)
  moreover have "map akey (addresses s3) = map akey (addresses s)" using frame by (simp add: same_but_utxos_def s2)
  ultimately show thesis
    using that [OF up1 up2 [unfolded r] up3] cores3 same by (simp add: s2)
qed

lemma record_scanned_ok:
  assumes inv: "books_inv s" and uid: "sd_utxo_ids dr k \<notin> u_id ` set (utxos s)" and eid: "sd_entry_ids dr k \<notin> entry_ids_used s"
    and ok: "scan_utxo_ok u" and new: "\<not> known_outpoint s u" and d: "d_id d \<in> d_id ` set (descriptors s)"
    and sole: "sole_entry s (su_txid u)"
  obtains t where "record_scanned dr k d a u s = (Inr (), t)" "books_inv t" "cores t = cores s @ [scan_row dr k d a u]"
    "descriptors t = descriptors s" "map akey (addresses t) = map akey (addresses s)"
    "\<And>x. sole_entry s x \<Longrightarrow> sole_entry t x" "entry_ids_used t \<subseteq> insert (sd_entry_ids dr k) (entry_ids_used s)"
    "\<And>x h. amounts t x h = amounts s x h @
       (if x = su_txid u \<and> h = d_holding_id d \<and> amounts s x h = [] then [su_amount_sats u] else [])"
proof -
  obtain x y s1 s2 s3 where stages:
    "utxo_upsert_unspent (sd_utxo_ids dr k) (sd_now dr) (d_id d) (a_id a) (su_txid u) (su_vout u)
       (su_amount_sats u) (nonzero (su_height u)) s = (Inr x, s1)"
    "onchain_upsert (sd_now dr) (su_txid u) (no_onchain_fields\<lparr>of_confirmation_height := nonzero (su_height u)\<rparr>) s1 = (Inr y, s2)"
    "compute_and_apply_hygiene dr k d (sd_utxo_ids dr k) s2 = (Inr (), s3)"
    and s3: "books_inv s3" "cores s3 = cores s @ [scan_row dr k d a u]" "descriptors s3 = descriptors s"
    "map akey (addresses s3) = map akey (addresses s)" and led: "ledger_links s3 = ledger_links s" "ledger_entries s3 = ledger_entries s"
    using rows_stage [OF inv uid ok new d] .
  have inv3: "ledger_inv s3" using s3(1) by (simp add: books_inv_def)
  have eid3: "sd_entry_ids dr k \<notin> entry_ids_used s3" using eid by (simp add: entry_ids_used_def led)
  have txid: "su_txid u \<noteq> []" and amt: "0 \<le> su_amount_sats u" using ok by (auto simp: scan_utxo_ok_def)
  have sole3: "sole_entry s3 (su_txid u)" using sole by (simp add: sole_entry_cong [OF led(2)])
  obtain t where t: "maybe_create_ledger_entry dr k d (su_txid u) (su_amount_sats u) s3 = (Inr (), t)" "ledger_inv t"
    "\<exists>f g. t = ledger_links_update f (ledger_entries_update g s3)"
    "\<And>x. sole_entry s3 x \<Longrightarrow> sole_entry t x" "entry_ids_used t \<subseteq> insert (sd_entry_ids dr k) (entry_ids_used s3)"
    "\<And>x h. amounts t x h = amounts s3 x h @ (if x = su_txid u \<and> h = d_holding_id d \<and> amounts s3 x h = [] then [su_amount_sats u] else [])"
    using entry_stage [where dr = dr and k = k and d = d, OF inv3 eid3 txid amt sole3] by blast
  have "record_scanned dr k d a u s = (Inr (), t)"
    by (simp add: record_scanned_def bnd_def stages t(1))
  moreover have "books_inv t" using s3(1) t(2,3) by (auto simp: books_inv_def utxo_inv_def onchain_inv_def)
  ultimately show thesis
    using t(3-6) s3 led by (intro that [of t]) (auto simp: cores_def sole_entry_cong [OF led(2)] amounts_cong [OF led] entry_ids_used_def)
qed

section \<open>All outputs\<close>

text \<open>The outputs that have an address row, and the rows they add: one for each outpoint that is not known.\<close>

definition placed :: "address_index \<Rightarrow> bool \<Rightarrow> scan_utxo list \<Rightarrow> (address \<times> scan_utxo) list" where
  "placed index ch us = List.map_filter (\<lambda>u. map_option (\<lambda>a. (a, u)) (address_of index ch u)) us"

fun scan_rows :: "scan_draws \<Rightarrow> descriptor \<Rightarrow> nat \<Rightarrow> (address \<times> scan_utxo) list \<Rightarrow> (string \<times> int) set \<Rightarrow> utxo list" where
  "scan_rows dr d k [] known = []"
| "scan_rows dr d k ((a, u) # ps) known =
     (if (su_txid u, su_vout u) \<in> known then scan_rows dr d k ps known
      else scan_row dr k d a u # scan_rows dr d (Suc k) ps (insert (su_txid u, su_vout u) known))"

definition scan_effect :: "descriptor \<Rightarrow> db \<Rightarrow> db \<Rightarrow> utxo list \<Rightarrow> bool" where
  "scan_effect d s t rows \<longleftrightarrow> books_inv t \<and> cores t = cores s @ rows \<and> descriptors t = descriptors s \<and>
     map akey (addresses t) = map akey (addresses s) \<and> (\<forall>x. sole_entry s x \<longrightarrow> sole_entry t x) \<and>
     (\<forall>x h. amounts t x h = amounts s x h @
        (if h = d_holding_id d \<and> amounts s x h = [] then take 1 (map u_value_sats (filter (\<lambda>v. u_txid v = x) rows)) else []))"

definition ids_free :: "scan_draws \<Rightarrow> nat \<Rightarrow> db \<Rightarrow> bool" where
  "ids_free dr k s \<longleftrightarrow> fresh_from (sd_utxo_ids dr) k (u_id ` set (utxos s)) \<and> fresh_from (sd_entry_ids dr) k (entry_ids_used s)"

lemma fresh_from_Suc:
  "fresh_from f k used \<Longrightarrow> used' \<subseteq> insert (f k) used \<Longrightarrow> fresh_from f (Suc k) used'"
  by (force simp: fresh_from_def dest: injD)

lemma outpoints_cores: "outpoint ` set (cores s) = outpoint ` set (utxos s)"
  by (simp add: cores_def image_image)

lemma u_ids_cores: "u_id ` set (cores s) = u_id ` set (utxos s)"
  by (simp add: cores_def image_image)

lemma scan_effect_refl: "books_inv s \<Longrightarrow> scan_effect d s s []"
  by (simp add: scan_effect_def)

lemma scan_effect_trans:
  assumes "scan_effect d r s xs" "scan_effect d s t ys"
  shows "scan_effect d r t (xs @ ys)"
proof -
  have "amounts t x h = amounts r x h @ (if h = d_holding_id d \<and> amounts r x h = []
      then take 1 (map u_value_sats (filter (\<lambda>v. u_txid v = x) (xs @ ys))) else [])" for x h
  proof -
    have "amounts s x h = amounts r x h @ (if h = d_holding_id d \<and> amounts r x h = []
        then take 1 (map u_value_sats (filter (\<lambda>v. u_txid v = x) xs)) else [])"
      "amounts t x h = amounts s x h @ (if h = d_holding_id d \<and> amounts s x h = []
        then take 1 (map u_value_sats (filter (\<lambda>v. u_txid v = x) ys)) else [])"
      using assms by (simp_all add: scan_effect_def)
    then show ?thesis by (cases "filter (\<lambda>v. u_txid v = x) xs") auto
  qed
  then show ?thesis using assms by (simp add: scan_effect_def)
qed

lemma record_effect:
  assumes inv: "books_inv s" and ids: "ids_free dr k s" and ok: "scan_utxo_ok u" and new: "\<not> known_outpoint s u"
    and d: "d_id d \<in> d_id ` set (descriptors s)" and sole: "sole_entry s (su_txid u)"
  obtains t where "record_scanned dr k d a u s = (Inr (), t)" "scan_effect d s t [scan_row dr k d a u]" "ids_free dr (Suc k) t"
proof -
  have free: "sd_utxo_ids dr k \<notin> u_id ` set (utxos s)" "sd_entry_ids dr k \<notin> entry_ids_used s"
    using ids by (simp_all add: ids_free_def fresh_from_def)
  obtain t where t: "record_scanned dr k d a u s = (Inr (), t)" "books_inv t" "cores t = cores s @ [scan_row dr k d a u]"
    "descriptors t = descriptors s" "map akey (addresses t) = map akey (addresses s)"
    "\<And>x. sole_entry s x \<Longrightarrow> sole_entry t x" "entry_ids_used t \<subseteq> insert (sd_entry_ids dr k) (entry_ids_used s)"
    "\<And>x h. amounts t x h = amounts s x h @
       (if x = su_txid u \<and> h = d_holding_id d \<and> amounts s x h = [] then [su_amount_sats u] else [])"
    by (rule record_scanned_ok [where a = a, OF inv free ok new d sole]) blast
  have "u_id ` set (utxos t) = insert (sd_utxo_ids dr k) (u_id ` set (utxos s))"
    unfolding u_ids_cores [symmetric] t(3) by simp
  then have "ids_free dr (Suc k) t"
    using ids t(7) by (auto simp: ids_free_def intro: fresh_from_Suc)
  moreover have "scan_effect d s t [scan_row dr k d a u]"
    using t by (auto simp: scan_effect_def)
  ultimately show thesis using t(1) that by blast
qed

lemma existing_lookup:
  assumes "books_inv s"
  shows "\<exists>x. utxo_get_by_outpoint s (su_txid u) (su_vout u) = Inr x \<and> (x = None \<longleftrightarrow> \<not> known_outpoint s u)"
proof -
  have sel: "utxo_row_by_outpoint s (su_txid u) (su_vout u) =
      (case find_row outpoint (su_txid u, su_vout u) (utxos s) of None \<Rightarrow> SelNone | Some u \<Rightarrow> SelOne u)"
    using assms by (simp add: utxo_row_by_outpoint_eq books_inv_def utxo_inv_def)
  have "UTXO v = Inr v" if "v \<in> set (utxos s)" for v
    using assms that by (simp add: books_inv_def utxo_inv_def utxo_row_ok_def)
  then show ?thesis
    by (auto simp: utxo_get_by_outpoint_def sel row_one_def known_outpoint_iff split: option.split dest: find_row_SomeD)
qed

lemma scan_unspents_effect:
  assumes "books_inv s" "ids_free dr (sc_discovered n) s" "d_id d \<in> d_id ` set (descriptors s)"
    "\<And>u. u \<in> set us \<Longrightarrow> scan_utxo_ok u \<and> sole_entry s (su_txid u)"
    "rows = scan_rows dr d (sc_discovered n) (placed index ch us) (outpoint ` set (cores s))"
  shows "\<exists>t n'. scan_unspents dr d index ch us n s = (Inr n', t) \<and> scan_effect d s t rows \<and>
    ids_free dr (sc_discovered n') t \<and> sc_discovered n' = sc_discovered n + length rows \<and>
    sc_entries n' = sc_entries n + length rows \<and> sc_height n' = sc_height n \<and>
    sc_pre_existing n' + length rows = sc_pre_existing n + length (placed index ch us)"
  using assms
proof (induction us arbitrary: n s rows)
  case Nil
  then show ?case by (simp add: placed_def ret_def scan_effect_refl map_filter_simps)
next
  case (Cons u us)
  obtain x where look: "utxo_get_by_outpoint s (su_txid u) (su_vout u) = Inr x" and x: "x = None \<longleftrightarrow> \<not> known_outpoint s u"
    using existing_lookup [OF Cons.prems(1)] by blast
  have us: "\<And>u. u \<in> set us \<Longrightarrow> scan_utxo_ok u \<and> sole_entry s (su_txid u)" using Cons.prems(4) by simp
  consider (unplaced) "address_of index ch u = None" | (known) a where "address_of index ch u = Some a" "known_outpoint s u"
    | (new) a where "address_of index ch u = Some a" "\<not> known_outpoint s u" by fastforce
  then show ?case
  proof cases
    case unplaced
    then show ?thesis using Cons.IH [OF Cons.prems(1-3) us refl] Cons.prems(5)
      by (simp add: scan_unspent_def bnd_def ret_def placed_def map_filter_simps)
  next
    case known
    let ?n = "n\<lparr>sc_pre_existing := sc_pre_existing n + 1\<rparr>"
    have "scan_unspent dr d index ch u n s = (Inr ?n, s)"
      using known look x by (cases x) (auto simp: scan_unspent_def bnd_def ret_def readr_def)
    moreover have "placed index ch (u # us) = (a, u) # placed index ch us"
      using known by (simp add: placed_def map_filter_simps)
    moreover have "(su_txid u, su_vout u) \<in> outpoint ` set (cores s)" using known(2) by (simp add: known_outpoint_def)
    ultimately show ?thesis
      using Cons.IH [where n = ?n, OF Cons.prems(1) _ Cons.prems(3) us refl] Cons.prems(2,5)
      by (simp add: bnd_def)
  next
    case new
    let ?k = "sc_discovered n"
    let ?n = "n\<lparr>sc_discovered := ?k + 1, sc_entries := sc_entries n + 1\<rparr>"
    obtain s1 where s1: "record_scanned dr ?k d a u s = (Inr (), s1)" "scan_effect d s s1 [scan_row dr ?k d a u]" "ids_free dr (Suc ?k) s1"
      using record_effect [OF Cons.prems(1,2) _ new(2) Cons.prems(3)] Cons.prems(4) by (metis list.set_intros(1))
    have step: "scan_unspent dr d index ch u n s = (Inr ?n, s1)"
      using new look x s1(1) by (simp add: scan_unspent_def bnd_def ret_def readr_def)
    have pl: "placed index ch (u # us) = (a, u) # placed index ch us" using new by (simp add: placed_def map_filter_simps)
    have cores1: "cores s1 = cores s @ [scan_row dr ?k d a u]" and d1: "descriptors s1 = descriptors s" and b1: "books_inv s1"
      and sole1: "\<And>u. u \<in> set us \<Longrightarrow> scan_utxo_ok u \<and> sole_entry s1 (su_txid u)"
      using s1(2) us by (simp_all add: scan_effect_def)
    let ?rows = "scan_rows dr d (Suc ?k) (placed index ch us) (outpoint ` set (cores s1))"
    have known1: "outpoint ` set (cores s1) = insert (su_txid u, su_vout u) (outpoint ` set (cores s))" by (simp add: cores1)
    have rows: "rows = scan_row dr ?k d a u # ?rows"
      using new(2) Cons.prems(5) unfolding pl by (simp add: known_outpoint_def known1)
    obtain t n' where "scan_unspents dr d index ch us ?n s1 = (Inr n', t)" "scan_effect d s1 t ?rows"
      "ids_free dr (sc_discovered n') t" "sc_discovered n' = Suc ?k + length ?rows" "sc_entries n' = sc_entries n + 1 + length ?rows"
      "sc_height n' = sc_height n" "sc_pre_existing n' + length ?rows = sc_pre_existing n + length (placed index ch us)"
      using Cons.IH [where n = ?n and rows = ?rows, OF b1 _ _ sole1] s1(3) Cons.prems(3) by (auto simp: d1)
    then show ?thesis
      using step pl rows scan_effect_trans [OF s1(2)] by (auto simp: bnd_def)
  qed
qed

section \<open>Both branches\<close>

definition answer_of :: "scan_rpc \<Rightarrow> address_index \<Rightarrow> bool \<times> string \<Rightarrow> (address \<times> scan_utxo) list" where
  "answer_of rpc index b =
     (case scan_descriptors rpc [snd b] of Inl _ \<Rightarrow> [] | Inr r \<Rightarrow> placed index (fst b) (sr_utxos r))"

text \<open>What the node reports at the addresses of a descriptor.\<close>

definition reported :: "scan_rpc \<Rightarrow> db \<Rightarrow> descriptor \<Rightarrow> (address \<times> scan_utxo) list" where
  "reported rpc s d = concat (map (answer_of rpc (address_index s (d_id d))) (branches d))"

text \<open>The node answers or refuses the descriptor, it reports well-formed outputs, and none of their transactions
  has two ledger entries.\<close>

definition branch_ok :: "scan_rpc \<Rightarrow> db \<Rightarrow> bool \<times> string \<Rightarrow> bool" where
  "branch_ok rpc s b \<longleftrightarrow>
     (case scan_descriptors rpc [snd b] of
        Inl (NodeRpcError _ _) \<Rightarrow> True
      | Inl _ \<Rightarrow> False
      | Inr r \<Rightarrow> list_all (\<lambda>u. scan_utxo_ok u \<and> sole_entry s (su_txid u)) (sr_utxos r))"

definition answers_ok :: "scan_rpc \<Rightarrow> db \<Rightarrow> descriptor \<Rightarrow> bool" where
  "answers_ok rpc s d \<longleftrightarrow> list_all (branch_ok rpc s) (branches d)"

lemma scan_rows_append:
  "scan_rows dr d k (ps @ qs) known =
     scan_rows dr d k ps known @
     scan_rows dr d (k + length (scan_rows dr d k ps known)) qs (known \<union> outpoint ` set (scan_rows dr d k ps known))"
  by (induction dr d k ps known rule: scan_rows.induct) simp_all

lemma scan_rows_known:
  "(a, u) \<in> set ps \<Longrightarrow> (su_txid u, su_vout u) \<in> known \<union> outpoint ` set (scan_rows dr d k ps known)"
  by (induction dr d k ps known rule: scan_rows.induct) (auto split: if_splits)

lemma scan_rows_Nil:
  "\<forall>p \<in> set ps. (su_txid (snd p), su_vout (snd p)) \<in> known \<Longrightarrow> scan_rows dr d k ps known = []"
  by (induction ps) auto

lemma scan_rows_origin:
  "v \<in> set (scan_rows dr d k ps known) \<Longrightarrow> \<exists>j a u. (a, u) \<in> set ps \<and> v = scan_row dr j d a u"
proof (induction dr d k ps known rule: scan_rows.induct)
  case (2 dr d k a u ps known)
  then show ?case by (cases "(su_txid u, su_vout u) \<in> known") (auto; blast)+
qed simp

lemma scan_branch_effect:
  assumes "books_inv s" "ids_free dr (sc_discovered n) s" "d_id d \<in> d_id ` set (descriptors s)" "branch_ok rpc s b"
    and "rows = scan_rows dr d (sc_discovered n) (answer_of rpc index b) (outpoint ` set (cores s))"
  shows "\<exists>t n'. scan_branch rpc dr d index b n s = (Inr n', t) \<and> scan_effect d s t rows \<and>
    ids_free dr (sc_discovered n') t \<and> sc_discovered n' = sc_discovered n + length rows \<and>
    sc_entries n' = sc_entries n + length rows"
proof (cases "scan_descriptors rpc [snd b]")
  case (Inl e)
  then obtain code m where "e = NodeRpcError code m" using assms(4) by (cases e) (auto simp: branch_ok_def)
  then show ?thesis
    using Inl assms by (simp add: scan_branch_def ret_def answer_of_def scan_effect_refl)
next
  case (Inr r)
  let ?n = "n\<lparr>sc_height := max (sc_height n) (sr_height_at_scan r)\<rparr>"
  have us: "\<And>u. u \<in> set (sr_utxos r) \<Longrightarrow> scan_utxo_ok u \<and> sole_entry s (su_txid u)"
    using assms(4) Inr by (simp add: branch_ok_def list_all_iff)
  show ?thesis
    using scan_unspents_effect [where n = ?n and dr = dr and us = "sr_utxos r" and rows = rows and ch = "fst b" and index = index, OF assms(1) _ assms(3) us] assms(2,5)
    by (auto simp: scan_branch_def Inr answer_of_def)
qed

lemma scan_branches_effect:
  assumes "books_inv s" "ids_free dr (sc_discovered n) s" "d_id d \<in> d_id ` set (descriptors s)" "list_all (branch_ok rpc s) bs"
    and "rows = scan_rows dr d (sc_discovered n) (concat (map (answer_of rpc index) bs)) (outpoint ` set (cores s))"
  shows "\<exists>t n'. scan_branches rpc dr d index bs n s = (Inr n', t) \<and> scan_effect d s t rows \<and>
    sc_discovered n' = sc_discovered n + length rows \<and> sc_entries n' = sc_entries n + length rows"
  using assms
proof (induction bs arbitrary: n s rows)
  case Nil
  then show ?case by (simp add: ret_def scan_effect_refl)
next
  case (Cons b bs)
  let ?xs = "scan_rows dr d (sc_discovered n) (answer_of rpc index b) (outpoint ` set (cores s))"
  obtain s1 n1 where b: "scan_branch rpc dr d index b n s = (Inr n1, s1)" "scan_effect d s s1 ?xs"
    "ids_free dr (sc_discovered n1) s1" "sc_discovered n1 = sc_discovered n + length ?xs" "sc_entries n1 = sc_entries n + length ?xs"
    using scan_branch_effect [OF Cons.prems(1-3) _ refl, of rpc b index] Cons.prems(4) by auto
  have e1: "books_inv s1" "cores s1 = cores s @ ?xs" "descriptors s1 = descriptors s" "\<And>x. sole_entry s x \<Longrightarrow> sole_entry s1 x"
    using b(2) by (simp_all add: scan_effect_def)
  have "list_all (branch_ok rpc s1) bs"
    using Cons.prems(4) e1(4) by (auto simp: list_all_iff branch_ok_def split: sum.splits node_exn.splits)
  then obtain t n' where t: "scan_branches rpc dr d index bs n1 s1 = (Inr n', t)"
    "scan_effect d s1 t (scan_rows dr d (sc_discovered n1) (concat (map (answer_of rpc index) bs)) (outpoint ` set (cores s1)))"
    "sc_discovered n' = sc_discovered n1 + length (scan_rows dr d (sc_discovered n1) (concat (map (answer_of rpc index) bs)) (outpoint ` set (cores s1)))"
    "sc_entries n' = sc_entries n1 + length (scan_rows dr d (sc_discovered n1) (concat (map (answer_of rpc index) bs)) (outpoint ` set (cores s1)))"
    using Cons.IH [OF e1(1) b(3) _ _ refl] Cons.prems(3) e1(3) by auto
  have "rows = ?xs @ scan_rows dr d (sc_discovered n1) (concat (map (answer_of rpc index) bs)) (outpoint ` set (cores s1))"
    using Cons.prems(5) b(4) e1(2) by (simp add: scan_rows_append image_Un)
  then show ?case
    using t b scan_effect_trans [OF b(2) t(2)] by (simp add: bnd_def)
qed

section \<open>The rescan\<close>

lemma raise_scanned_height_simps [simp]:
  "d_id (raise_scanned_height h d) = d_id d" "d_holding_id (raise_scanned_height h d) = d_holding_id d"
  "branches (raise_scanned_height h d) = branches d"
  by (simp_all add: raise_scanned_height_def branches_def)

lemma get_descriptor_SomeD:
  assumes "get_descriptor s did = Inr (Some d)"
  shows "find_row d_id did (descriptors s) = Some d" "Descriptor d = Inr d"
  using assms by (auto simp: get_descriptor_def row_get_def Descriptor_def construct_Inr_iff rbind_eq_Inr_iff split: option.splits)

lemma Descriptor_raise: "Descriptor d = Inr d \<Longrightarrow> Descriptor (raise_scanned_height h d) = Inr (raise_scanned_height h d)"
  by (auto simp: Descriptor_def construct_Inr_iff raise_scanned_height_def)

text \<open>The height a scan leaves behind, and the database it reaches.\<close>

definition scanned :: "int \<Rightarrow> uuid \<Rightarrow> db \<Rightarrow> db" where
  "scanned h did = descriptors_update (update_rows d_id did (raise_scanned_height h))"

lemma scanned_simps:
  "utxos (scanned h did t) = utxos t" "cores (scanned h did t) = cores t" "addresses (scanned h did t) = addresses t"
  "ledger_links (scanned h did t) = ledger_links t" "ledger_entries (scanned h did t) = ledger_entries t"
  "holding_of_descriptor (scanned h did t) = holding_of_descriptor t"
  "map d_id (descriptors (scanned h did t)) = map d_id (descriptors t)"
  by (auto simp: scanned_def cores_def holding_of_descriptor_def find_row_update map_key_update_rows fun_eq_iff option.map_comp comp_def)

lemma books_inv_scanned [simp]: "books_inv (scanned h did t) = books_inv t"
proof -
  have "d_id ` set (descriptors (scanned h did t)) = d_id ` set (descriptors t)"
    using scanned_simps(7) [of h did t] by (metis set_map)
  then show ?thesis
    by (simp add: books_inv_def utxo_inv_def ledger_inv_cong [of "scanned h did t" t] scanned_simps)
       (simp add: onchain_inv_def scanned_def)
qed

lemma rescan_effect:
  assumes get: "get_descriptor s did = Inr (Some d)" and inv: "books_inv s" and ids: "ids_free dr 0 s" and ok: "answers_ok rpc s d"
    and rows: "rows = scan_rows dr d 0 (reported rpc s d) (outpoint ` set (cores s))"
  obtains rep t h where "api_rescan_descriptor rpc dr did s = (Inr rep, scanned h did t)" "scan_effect d s t rows"
    "rp_utxos_discovered rep = length rows" "rp_ledger_entries_created rep = length rows" "rp_height_at_scan rep = h" "1 \<le> h"
proof -
  note d = get_descriptor_SomeD [OF get]
  have did: "d_id d = did" "d_id d \<in> d_id ` set (descriptors s)" using find_row_SomeD [OF d(1)] by auto
  have ok': "list_all (branch_ok rpc s) (branches d)" using ok by (simp add: answers_ok_def)
  have ids': "ids_free dr (sc_discovered no_counts) s" using ids by (simp add: no_counts_def)
  obtain t n where run: "scan_branches rpc dr d (address_index s (d_id d)) (branches d) no_counts s = (Inr n, t)"
    and eff: "scan_effect d s t rows" and n: "sc_discovered n = length rows" "sc_entries n = length rows"
    using scan_branches_effect [OF inv ids' did(2) ok' refl, of "address_index s (d_id d)"] rows
    by (auto simp: no_counts_def reported_def)
  let ?h = "max (sc_height n) 1"
  let ?rep = "\<lparr>rp_descriptor_id = d_id d, rp_utxos_discovered = sc_discovered n,
          rp_utxos_pre_existing = sc_pre_existing n, rp_ledger_entries_created = sc_entries n, rp_height_at_scan = ?h\<rparr>"
  have "initial_scan rpc dr d s = (Inr ?rep, scanned ?h did t)"
    using run by (simp add: initial_scan_def bnd_def gets_def modify_def ret_def Let_def scanned_def did(1))
  then have "api_rescan_descriptor rpc dr did s = (Inr ?rep, scanned ?h did t)"
    by (simp add: api_rescan_descriptor_def get)
  then show thesis using eff n by (intro that) auto
qed

text \<open>C30. A rescan records what the node reports: on consistent books it returns and keeps them consistent, every
  reported output of an address of the descriptor has a row, the rows there were are kept, each new row is an
  unspent output with the reported value at its address, and the descriptor counts as scanned.\<close>

theorem rescan_records_what_it_finds:
  assumes "get_descriptor s did = Inr (Some d)" "books_inv s" "ids_free dr 0 s" "answers_ok rpc s d"
  shows "\<exists>rep t new. api_rescan_descriptor rpc dr did s = (Inr rep, t) \<and> books_inv t \<and>
    map ucore (utxos t) = map ucore (utxos s) @ new \<and> rp_utxos_discovered rep = length new \<and>
    (\<forall>(a, u) \<in> set (reported rpc s d). (su_txid u, su_vout u) \<in> outpoint ` set (utxos t)) \<and>
    (\<forall>v \<in> set new. \<exists>(a, u) \<in> set (reported rpc s d). outpoint v = (su_txid u, su_vout u) \<and> \<not> u_is_spent v \<and>
       u_value_sats v = su_amount_sats u \<and> u_address_id v = a_id a \<and> u_descriptor_id v = did) \<and>
    (\<exists>d'. find_row d_id did (descriptors t) = Some d' \<and> 1 \<le> d_last_scanned_height d')"
proof -
  let ?rows = "scan_rows dr d 0 (reported rpc s d) (outpoint ` set (cores s))"
  have find: "find_row d_id did (descriptors s) = Some d" and did: "d_id d = did"
    using get_descriptor_SomeD [OF assms(1)] find_row_SomeD by metis+
  obtain rep t h where run: "api_rescan_descriptor rpc dr did s = (Inr rep, scanned h did t)" and eff: "scan_effect d s t ?rows"
    and n: "rp_utxos_discovered rep = length ?rows" "1 \<le> h"
    using rescan_effect [OF assms refl] .
  have cores: "cores t = cores s @ ?rows" and ds: "descriptors t = descriptors s" and inv: "books_inv t"
    using eff by (simp_all add: scan_effect_def)
  have "outpoint ` set (utxos t) = outpoint ` set (cores s) \<union> outpoint ` set ?rows"
    unfolding outpoints_cores [of t, symmetric] cores by (simp add: image_Un)
  then have "\<forall>(a, u) \<in> set (reported rpc s d). (su_txid u, su_vout u) \<in> outpoint ` set (utxos t)"
    using scan_rows_known by fastforce
  moreover have "\<forall>v \<in> set ?rows. \<exists>(a, u) \<in> set (reported rpc s d). outpoint v = (su_txid u, su_vout u) \<and> \<not> u_is_spent v \<and>
      u_value_sats v = su_amount_sats u \<and> u_address_id v = a_id a \<and> u_descriptor_id v = did"
  proof
    fix v assume "v \<in> set ?rows"
    then obtain j a u where au: "(a, u) \<in> set (reported rpc s d)" and v: "v = scan_row dr j d a u" using scan_rows_origin by blast
    have "u_address_id v = a_id a" by (simp add: v scan_row_def new_utxo_def)
    then show "\<exists>(a, u) \<in> set (reported rpc s d). outpoint v = (su_txid u, su_vout u) \<and> \<not> u_is_spent v \<and>
      u_value_sats v = su_amount_sats u \<and> u_address_id v = a_id a \<and> u_descriptor_id v = did"
      using au by (intro bexI [OF _ au]) (simp add: v did)
  qed
  moreover have "find_row d_id did (descriptors (scanned h did t)) = Some (raise_scanned_height h d)"
    by (simp add: scanned_def find_row_update ds find)
  moreover have "1 \<le> d_last_scanned_height (raise_scanned_height h d)" using n(2) by (simp add: raise_scanned_height_def)
  ultimately show ?thesis
    using run inv n(1) cores by (intro exI [of _ rep] exI [of _ "scanned h did t"] exI [of _ ?rows])
      (simp add: scanned_simps cores_def)
qed

text \<open>A scan does not keep the ledger in step with the balance: the balance of the holding grows by every
  output it found, but the ledger gets, for each transaction it had no link for, the amount of the first of
  its outputs only.\<close>

theorem scan_ledgers_first_output_only:
  assumes "get_descriptor s did = Inr (Some d)" "books_inv s" "ids_free dr 0 s" "answers_ok rpc s d"
    and "distinct (map d_id (descriptors s))" "api_rescan_descriptor rpc dr did s = (Inr rep, t)"
    and "new = drop (length (utxos s)) (utxos t)"
  shows "holding_balance t (d_holding_id d) - holding_balance s (d_holding_id d) = sum_list (map u_value_sats new) \<and>
    (\<forall>txid. amounts s txid (d_holding_id d) = [] \<longrightarrow>
       amounts t txid (d_holding_id d) = take 1 (map u_value_sats (filter (\<lambda>v. u_txid v = txid) new)))"
proof -
  let ?rows = "scan_rows dr d 0 (reported rpc s d) (outpoint ` set (cores s))"
  let ?h = "d_holding_id d"
  have find: "find_row d_id did (descriptors s) = Some d" and did: "d_id d = did"
    using get_descriptor_SomeD [OF assms(1)] find_row_SomeD by metis+
  obtain rep' t' k where run: "api_rescan_descriptor rpc dr did s = (Inr rep', scanned k did t')" and eff: "scan_effect d s t' ?rows"
    using rescan_effect [OF assms(1-4) refl] .
  have t: "t = scanned k did t'" using run assms(6) by simp
  have cores: "cores t = cores s @ ?rows" and ds: "descriptors t' = descriptors s"
    and am: "\<And>x. amounts t x ?h = amounts s x ?h @ (if amounts s x ?h = [] then take 1 (map u_value_sats (filter (\<lambda>v. u_txid v = x) ?rows)) else [])"
    using eff amounts_cong [of t t'] by (simp_all add: scan_effect_def t scanned_simps)
  have len: "length (cores s) = length (utxos s)" by (simp add: cores_def)
  have new: "map ucore new = ?rows"
    using cores unfolding assms(7) drop_map [symmetric] cores_def [symmetric] by (simp add: len)
  have vals: "map u_value_sats ?rows = map u_value_sats new" "map u_txid ?rows = map u_txid new"
    unfolding new [symmetric] by (simp_all add: comp_def)
  have fil: "map u_value_sats (filter (\<lambda>v. u_txid v = x) ?rows) = map u_value_sats (filter (\<lambda>v. u_txid v = x) new)" for x
    unfolding new [symmetric] by (simp add: filter_map comp_def)
  have "holding_of_descriptor t = holding_of_descriptor s"
    unfolding t scanned_simps by (simp add: fun_eq_iff holding_of_descriptor_def ds)
  then have held: "held_value t h = held_value s h" for h by (simp add: fun_eq_iff held_value_def)
  have "held_value s ?h v = u_value_sats v" if vin: "v \<in> set ?rows" for v
  proof -
    obtain j a u where "v = scan_row dr j d a u" using scan_rows_origin [OF vin] by blast
    then show ?thesis by (simp add: held_value_def holding_of_descriptor_def did find)
  qed
  then have sums: "sum_list (map (held_value s ?h) ?rows) = sum_list (map u_value_sats new)"
    unfolding vals(1) [symmetric] by (metis (no_types, lifting) map_cong)
  have dist: "distinct (map d_id (descriptors t))" using assms(5) by (simp add: t scanned_simps ds)
  have "holding_balance t ?h - holding_balance s ?h = sum_list (map u_value_sats new)"
    by (simp add: holding_balance_cores [OF assms(5)] holding_balance_cores [OF dist] held cores sums)
  then show ?thesis by (simp add: am fil)
qed

section \<open>Scanning again\<close>

lemma find_map: "find P (map f xs) = map_option f (find (P \<circ> f) xs)"
  by (induction xs) simp_all

lemma address_index_akey:
  "map_option akey (address_index s did ch i) =
     find (\<lambda>k. fst (snd (snd (snd k))) = ch \<and> snd (snd (snd (snd k))) = i)
       (rev (filter (\<lambda>k. fst (snd k) = did) (map akey (addresses s))))"
  by (simp add: address_index_def filter_map rev_map find_map comp_def akey_def)

lemma address_index_same:
  assumes "map akey (addresses t) = map akey (addresses s)"
  shows "address_index t did ch i = None \<longleftrightarrow> address_index s did ch i = None"
  using address_index_akey [of s did ch i] address_index_akey [of t did ch i] unfolding assms
  by (metis map_option_is_None)

lemma snd_placed:
  "map snd (placed index ch us) = filter (\<lambda>u. address_of index ch u \<noteq> None) us"
  by (induction us) (auto simp: placed_def map_filter_simps split: option.split)

lemma reported_same:
  assumes "map akey (addresses t) = map akey (addresses s)" "d_id d' = d_id d" "branches d' = branches d"
  shows "map snd (reported rpc t d') = map snd (reported rpc s d)"
proof -
  have "address_of (address_index t (d_id d)) ch u = None \<longleftrightarrow> address_of (address_index s (d_id d)) ch u = None" for ch u
    using address_index_same [OF assms(1)] by (simp add: address_of_def split: option.split)
  then have "map snd (answer_of rpc (address_index t (d_id d)) b) = map snd (answer_of rpc (address_index s (d_id d)) b)" for b
    by (simp add: answer_of_def snd_placed split: sum.split)
  then show ?thesis by (simp add: reported_def map_concat comp_def assms(2,3))
qed

text \<open>C31. A rescan can be repeated: when the node gives the same answers, the next rescan returns, discovers nothing,
  and changes no output, no ledger amount and no balance.\<close>

theorem rescan_is_idempotent:
  assumes "get_descriptor s did = Inr (Some d)" "books_inv s" "ids_free dr 0 s" "answers_ok rpc s d"
    and "api_rescan_descriptor rpc dr did s = (Inr rep, t)" "ids_free dr' 0 t"
  shows "\<exists>rep' t'. api_rescan_descriptor rpc dr' did t = (Inr rep', t') \<and> rp_utxos_discovered rep' = 0 \<and>
    rp_ledger_entries_created rep' = 0 \<and> map ucore (utxos t') = map ucore (utxos t) \<and>
    (\<forall>txid h. amounts t' txid h = amounts t txid h) \<and> (\<forall>e. descriptor_balance_sats t' e = descriptor_balance_sats t e)"
proof -
  let ?rows = "scan_rows dr d 0 (reported rpc s d) (outpoint ` set (cores s))"
  note d = get_descriptor_SomeD [OF assms(1)]
  have did: "d_id d = did" using find_row_SomeD [OF d(1)] by simp
  obtain rep1 t1 h where run: "api_rescan_descriptor rpc dr did s = (Inr rep1, scanned h did t1)" and eff: "scan_effect d s t1 ?rows"
    using rescan_effect [OF assms(1-4) refl] .
  have t: "t = scanned h did t1" using run assms(5) by simp
  have e: "books_inv t1" "cores t1 = cores s @ ?rows" "descriptors t1 = descriptors s" "map akey (addresses t1) = map akey (addresses s)"
    "\<And>x. sole_entry s x \<Longrightarrow> sole_entry t1 x" using eff by (simp_all add: scan_effect_def)
  let ?d = "raise_scanned_height h d"
  have get: "get_descriptor t did = Inr (Some ?d)"
    using d Descriptor_raise [OF d(2)] by (simp add: get_descriptor_def t scanned_def find_row_update e(3))
  have inv: "books_inv t" using e(1) by (simp add: t)
  have "answers_ok rpc t ?d"
    using assms(4) e(5) sole_entry_cong [of t t1]
    by (auto simp: answers_ok_def list_all_iff branch_ok_def t scanned_simps split: sum.splits node_exn.splits)
  note this_ok = this
  have same: "map snd (reported rpc t ?d) = map snd (reported rpc s d)"
    by (rule reported_same) (simp_all add: t scanned_simps e(4))
  have "\<forall>p \<in> set (reported rpc s d). (su_txid (snd p), su_vout (snd p)) \<in> outpoint ` set (cores t)"
    using scan_rows_known by (fastforce simp: t scanned_simps e(2) image_Un)
  then have "\<forall>u \<in> set (map snd (reported rpc s d)). (su_txid u, su_vout u) \<in> outpoint ` set (cores t)" by simp
  then have "\<forall>p \<in> set (reported rpc t ?d). (su_txid (snd p), su_vout (snd p)) \<in> outpoint ` set (cores t)"
    unfolding same [symmetric] by simp
  then have none: "[] = scan_rows dr' ?d 0 (reported rpc t ?d) (outpoint ` set (cores t))" by (simp add: scan_rows_Nil)
  obtain rep' t' k where "api_rescan_descriptor rpc dr' did t = (Inr rep', scanned k did t')" "scan_effect ?d t t' []"
    "rp_utxos_discovered rep' = length ([] :: utxo list)" "rp_ledger_entries_created rep' = length ([] :: utxo list)"
    by (rule rescan_effect [OF get inv assms(6) this_ok none]) blast
  moreover from this have "cores (scanned k did t') = cores t" "amounts (scanned k did t') = amounts t"
    using amounts_cong [of "scanned k did t'" t'] by (simp_all add: scan_effect_def scanned_simps fun_eq_iff)
  moreover from this have "descriptor_balance_sats (scanned k did t') e = descriptor_balance_sats t e" for e
    unfolding balance_eq using map_via_cores [of "unspent_value e"] by (simp add: unspent_value_def)
  ultimately show ?thesis by (auto simp: cores_def)
qed

end
