(* ===== verification/Examples_Scan.thy ===== *)
theory Examples_Scan
  imports Examples Chain_Scan
begin

text \<open>
  The properties of the rescan applied to a wallet that received two outputs of one transaction.
\<close>

definition ex_unspent :: "int \<Rightarrow> string \<Rightarrow> raw_unspent" where
  "ex_unspent n desc = \<lparr>ru_txid = ex_txid (CHR ''7''), ru_vout = n, ru_address = None, ru_amount = 1 / 1000,
     ru_height = Some 5, ru_desc = Some desc\<rparr>"

definition ex_rpc :: scan_rpc where
  "ex_rpc _ = Inr \<lparr>rs_success = Some True, rs_height = Some 9, rs_total = None,
     rs_unspents = [ex_unspent 0 ''[f/0]a'', ex_unspent 1 ''[f/1]b'']\<rparr>"

definition ex_scan_draws :: "nat \<Rightarrow> scan_draws" where
  "ex_scan_draws n = \<lparr>sd_utxo_ids = (\<lambda>i. n + i), sd_entry_ids = (\<lambda>i. n + i), sd_fees = (\<lambda>_. None), sd_now = 0\<rparr>"

lemma ex_answer:
  "scan_descriptors ex_rpc ds = Inr \<lparr>sr_success = True, sr_height_at_scan = 9, sr_total_amount_sats = btc_to_sats 0,
     sr_utxos = [scan_utxo_of (ex_unspent 0 ''[f/0]a''), scan_utxo_of (ex_unspent 1 ''[f/1]b'')]\<rparr>"
  by (simp add: scan_descriptors_def ex_rpc_def get_or_def)

lemma ex_index: "parse_derivation_index ''[f/0]a'' = Some 0" "parse_derivation_index ''[f/1]b'' = Some 1"
  by code_simp+

lemma ex_scan_utxo:
  "scan_utxo_of (ex_unspent n desc) = \<lparr>su_txid = ex_txid (CHR ''7''), su_vout = n, su_address = [], su_amount_sats = 100000,
     su_height = 5, su_descriptor = desc\<rparr>"
  using btc_to_sats_near [of "1 / 1000" 100000] by (simp add: scan_utxo_of_def ex_unspent_def get_or_def)

definition ex_wallet :: descriptor where "ex_wallet = ex_descriptor 11 1"

lemma ex_reported:
  "reported ex_rpc ex_db ex_wallet =
     [(ex_address 21 11 ''a'' 0, scan_utxo_of (ex_unspent 0 ''[f/0]a'')),
      (ex_address 23 11 ''c'' 1, scan_utxo_of (ex_unspent 1 ''[f/1]b''))]"
  by (simp add: reported_def branches_def ex_wallet_def ex_descriptor_def answer_of_def ex_answer placed_def map_filter_simps
      address_of_def ex_scan_utxo ex_index address_index_def ex_db_def ex_address_def)

lemma ex_scan_ok:
  "get_descriptor ex_db 11 = Inr (Some ex_wallet)" "books_inv ex_db" "ids_free (ex_scan_draws 500) 0 ex_db" "answers_ok ex_rpc ex_db ex_wallet"
  "distinct (map d_id (descriptors ex_db))"
proof -
  show "get_descriptor ex_db 11 = Inr (Some ex_wallet)"
    by (simp add: get_descriptor_def row_get_def ex_db_def ex_descriptor_def ex_wallet_def Descriptor_def construct_Inr_iff rbind_eq_Inr_iff)
  show "books_inv ex_db"
    by (simp add: inv_defs ex_db_def empty_db_def links_of_tx_def)
  show "ids_free (ex_scan_draws 500) 0 ex_db"
    by (simp add: ids_free_def fresh_from_def ex_scan_draws_def inj_def entry_ids_used_def ex_db_def empty_db_def)
  show "answers_ok ex_rpc ex_db ex_wallet"
    by (simp add: answers_ok_def branches_def ex_wallet_def ex_descriptor_def branch_ok_def ex_answer ex_scan_utxo scan_utxo_ok_def
        ex_txid_def sole_entry_def entries_of_def ex_db_def empty_db_def)
  show "distinct (map d_id (descriptors ex_db))" by (simp add: ex_db_def ex_descriptor_def)
qed

theorem rescan_records_what_it_finds_witness:
  "\<exists>rep t. api_rescan_descriptor ex_rpc (ex_scan_draws 500) 11 ex_db = (Inr rep, t) \<and>
    (ex_txid (CHR ''7''), 1) \<in> outpoint ` set (utxos t)"
  using rescan_records_what_it_finds [OF ex_scan_ok(1-4)] by (auto simp: ex_reported ex_scan_utxo)

lemma ex_rescan:
  obtains rep t where "api_rescan_descriptor ex_rpc (ex_scan_draws 500) 11 ex_db = (Inr rep, t)"
    "map u_value_sats (utxos t) = [100000, 100000]" "map u_txid (utxos t) = [ex_txid (CHR ''7''), ex_txid (CHR ''7'')]"
proof -
  have rows: "scan_rows (ex_scan_draws 500) ex_wallet 0 (reported ex_rpc ex_db ex_wallet) (outpoint ` set (cores ex_db)) =
      [scan_row (ex_scan_draws 500) 0 ex_wallet (ex_address 21 11 ''a'' 0) (scan_utxo_of (ex_unspent 0 ''[f/0]a'')),
       scan_row (ex_scan_draws 500) 1 ex_wallet (ex_address 23 11 ''c'' 1) (scan_utxo_of (ex_unspent 1 ''[f/1]b''))]"
    unfolding ex_reported by (simp add: ex_scan_utxo cores_def ex_db_def empty_db_def)
  obtain rep t h where t: "api_rescan_descriptor ex_rpc (ex_scan_draws 500) 11 ex_db = (Inr rep, scanned h 11 t)" "scan_effect ex_wallet ex_db t
      (scan_rows (ex_scan_draws 500) ex_wallet 0 (reported ex_rpc ex_db ex_wallet) (outpoint ` set (cores ex_db)))"
    using rescan_effect [OF ex_scan_ok(1-4) refl] .
  have c: "cores t = [scan_row (ex_scan_draws 500) 0 ex_wallet (ex_address 21 11 ''a'' 0) (scan_utxo_of (ex_unspent 0 ''[f/0]a'')),
       scan_row (ex_scan_draws 500) 1 ex_wallet (ex_address 23 11 ''c'' 1) (scan_utxo_of (ex_unspent 1 ''[f/1]b''))]"
    using t(2) unfolding rows by (simp add: scan_effect_def) (simp add: cores_def ex_db_def empty_db_def)
  have vals: "map u_value_sats (utxos t) = [100000, 100000]" "map u_txid (utxos t) = [ex_txid (CHR ''7''), ex_txid (CHR ''7'')]"
    using map_via_cores [of u_value_sats t] map_via_cores [of u_txid t]
    by (simp_all add: c ex_scan_utxo ex_scan_draws_def)
  show thesis by (rule that [OF t(1)]) (use vals in \<open>simp_all add: scanned_simps\<close>)
qed

theorem scan_ledgers_first_output_only_witness:
  "\<exists>rep t. api_rescan_descriptor ex_rpc (ex_scan_draws 500) 11 ex_db = (Inr rep, t) \<and>
    holding_balance t 1 - holding_balance ex_db 1 = 200000 \<and> amounts t (ex_txid (CHR ''7'')) 1 = [100000]"
proof -
  obtain rep t where t: "api_rescan_descriptor ex_rpc (ex_scan_draws 500) 11 ex_db = (Inr rep, t)"
    "map u_value_sats (utxos t) = [100000, 100000]" "map u_txid (utxos t) = [ex_txid (CHR ''7''), ex_txid (CHR ''7'')]"
    by (rule ex_rescan)
  have none: "utxos ex_db = []" "amounts ex_db x h = []" for x h
    by (simp_all add: ex_db_def empty_db_def amounts_def links_of_tx_def)
  have hid: "d_holding_id ex_wallet = 1" by (simp add: ex_wallet_def ex_descriptor_def)
  obtain u v where uv: "utxos t = [u, v]" "u_value_sats u = 100000" "u_value_sats v = 100000"
    "u_txid u = ex_txid (CHR ''7'')" "u_txid v = ex_txid (CHR ''7'')"
    using t(2,3) by (auto simp: map_eq_Cons_conv)
  from scan_ledgers_first_output_only [OF ex_scan_ok t(1) refl] show ?thesis
    using t(1) by (simp add: none uv hid)
qed

lemma ex_free_ids: "\<exists>n. ids_free (ex_scan_draws n) 0 t"
proof -
  let ?used = "u_id ` set (utxos t) \<union> entry_ids_used t"
  have fin: "finite ?used" by (simp add: entry_ids_used_def)
  have "Suc (Max (insert 0 ?used)) + j \<notin> ?used" for j
    using Max_ge [of "insert 0 ?used" "Suc (Max (insert 0 ?used)) + j"] fin by fastforce
  then have "ids_free (ex_scan_draws (Suc (Max (insert 0 ?used)))) 0 t"
    by (simp add: ids_free_def fresh_from_def ex_scan_draws_def inj_def)
  then show ?thesis ..
qed

theorem rescan_is_idempotent_witness:
  "\<exists>n rep t rep' t'. api_rescan_descriptor ex_rpc (ex_scan_draws 500) 11 ex_db = (Inr rep, t) \<and>
    api_rescan_descriptor ex_rpc (ex_scan_draws n) 11 t = (Inr rep', t') \<and> rp_utxos_discovered rep' = 0"
proof -
  obtain rep t where t: "api_rescan_descriptor ex_rpc (ex_scan_draws 500) 11 ex_db = (Inr rep, t)" by (rule ex_rescan)
  obtain n where "ids_free (ex_scan_draws n) 0 t" using ex_free_ids ..
  from rescan_is_idempotent [OF ex_scan_ok(1-4) t this] show ?thesis using t by blast
qed

end
