(* ===== verification/Self_Custody.thy ===== *)
theory Self_Custody
  imports Payment_Lifecycle
begin

text \<open>
  The self-custody poller: \<^verbatim>\<open>workers/schedulers/self_custody_poller.py\<close>.  Every round it reads the enabled
  threshold policies whose source is a wallet of the user's own, compares the balance with the threshold
  and, when it is exceeded, writes an execution and builds the payment that sweeps the surplus.

  An exception that the code does not catch ends the round; what a session has not committed is lost.
  \<open>AttributeError\<close> is what reading \<^verbatim>\<open>build_result.payment_request.id\<close> raises when there is no payment.
\<close>

section \<open>One sweep\<close>

datatype poller_exn = Raised exn | AttributeError

type_synonym 'a poller = "(poller_exn, db, 'a) svc"

definition in_session :: "'a service \<Rightarrow> 'a poller" where
  "in_session m s = (case m s of (Inl e, t) \<Rightarrow> (Inl (Raised e), t) | (Inr x, t) \<Rightarrow> (Inr x, t))"

text \<open>The identifiers a sweep draws, the two times it reads, and the text of an exception.\<close>

record sweep_draws =
  sw_execution_id :: uuid
  sw_request_id :: uuid
  sw_now :: timestamp
  sw_built_at :: timestamp
  sw_text :: "exn \<Rightarrow> string"

definition initial_execution :: "sweep_draws \<Rightarrow> sweep_policy \<Rightarrow> sats \<Rightarrow> sats \<Rightarrow> sweep_execution" where
  "initial_execution dr p balance amount =
     new_execution (sw_execution_id dr) (sw_now dr) (sp_id p) TRG_THRESHOLD balance amount
       (if sp_requires_user_confirmation p then SES_AWAITING_USER_CONFIRMATION else SES_REQUESTED)"

definition finish_execution :: "sweep_draws \<Rightarrow> sweep_execution_status \<Rightarrow> string option \<Rightarrow> uuid option poller" where
  "finish_execution dr status msg =
     bnd (in_session (update_status (sw_execution_id dr) status
            (no_fields\<lparr>ef_error_message := msg, ef_completed_at := Some (sw_now dr)\<rparr>))) (\<lambda>_. ret None)"

definition sweep_order :: "sweep_policy \<Rightarrow> sats \<Rightarrow> address \<Rightarrow> payment_order" where
  "sweep_order p amount a =
     \<lparr>po_holding_id = sp_source_holding_id p, po_destination_address = a_address a, po_amount_sats = Some amount,
      po_fee_strategy = Some ''normal'', po_fee_sat_per_vbyte = None,
      po_description = Some (''Auto-sweep for policy '' @ uuid_str (sp_id p)), po_confirmed_long_term = False\<rparr>"

definition link_execution :: "uuid \<Rightarrow> uuid \<Rightarrow> db \<Rightarrow> db" where
  "link_execution rid eid =
     payment_requests_update (update_rows pr_id rid (\<lambda>r. r\<lparr>pr_sweep_execution_id := Some eid\<rparr>))"

text \<open>The only exceptions caught are those of building the payment.\<close>

definition build_sweep :: "'p banking_env \<Rightarrow> sweep_draws \<Rightarrow> sweep_policy \<Rightarrow> sats \<Rightarrow> address \<Rightarrow> uuid option poller" where
  "build_sweep env dr p amount a s =
     (case build_payment_request env (sw_request_id dr) (sw_built_at dr) (sweep_order p amount a) s of
        (Inl e, t) \<Rightarrow> finish_execution dr SES_FAILED (Some (''PaymentRequest build failed: '' @ sw_text dr e)) t
      | (Inr NeedsConfirmation, t) \<Rightarrow> (Inl AttributeError, t)
      | (Inr (Built r), t) \<Rightarrow> (Inr (Some (pr_id r)), link_execution (pr_id r) (sw_execution_id dr) t))"

definition sweep_session ::
  "'p banking_env \<Rightarrow> sweep_draws \<Rightarrow> sweep_policy \<Rightarrow> sats \<Rightarrow> sats \<Rightarrow> uuid option poller" where
  "sweep_session env dr p balance amount =
     bnd (in_session (lift_result (SweepExecution (initial_execution dr p balance amount)))) (\<lambda>execution.
     bnd (modify (se_create execution)) (\<lambda>_.
     if sp_is_dry_run p then finish_execution dr SES_COMPLETED None
     else
       bnd (in_session (readr (\<lambda>s. list_descriptors_for_holding s (sp_destination_holding_id p)))) (\<lambda>ds.
       case ds of
         [] \<Rightarrow> finish_execution dr SES_FAILED (Some ''Destination holding has no descriptors'')
       | d # _ \<Rightarrow>
           bnd (in_session (readr (\<lambda>s. next_unused_address s (d_id d) False))) (\<lambda>found.
           case found of
             None \<Rightarrow> finish_execution dr SES_FAILED (Some ''No unused receive address on destination holding'')
           | Some a \<Rightarrow> build_sweep env dr p amount a))))"

text \<open>What is published: the execution, the payment request, the policy.\<close>

type_synonym sweep_event = "uuid \<times> uuid \<times> uuid"

definition trigger_sweep ::
  "'p banking_env \<Rightarrow> sweep_draws \<Rightarrow> sweep_policy \<Rightarrow> sats \<Rightarrow> sats \<Rightarrow> sweep_event list poller" where
  "trigger_sweep env dr p balance amount =
     bnd (commit_on_success (sweep_session env dr p balance amount)) (\<lambda>request.
     ret (case request of None \<Rightarrow> [] | Some rid \<Rightarrow> [(sw_execution_id dr, rid, sp_id p)]))"

section \<open>A round\<close>

definition source_balance :: "db \<Rightarrow> uuid \<Rightarrow> exn + sats" where
  "source_balance s hid =
     (case list_descriptors_for_holding s hid of
        Inl e \<Rightarrow> Inl e | Inr ds \<Rightarrow> Inr (sum_list (map (\<lambda>d. descriptor_balance_sats s (d_id d)) ds)))"

definition poll_policy :: "'p banking_env \<Rightarrow> sweep_draws \<Rightarrow> sweep_policy \<Rightarrow> sweep_event list poller" where
  "poll_policy env dr p =
     (if sp_trigger_type p \<noteq> TRG_THRESHOLD then ret []
      else
        bnd (in_session (readr (\<lambda>s. get_holding s (sp_source_holding_id p)))) (\<lambda>source.
        case source of
          None \<Rightarrow> ret []
        | Some h \<Rightarrow>
            if h_holding_type h = HT_ACCOUNT then ret []
            else
              bnd (in_session (readr (\<lambda>s. source_balance s (sp_source_holding_id p)))) (\<lambda>balance.
              if balance \<le> threshold_of p \<or> policy_sweep_amount p balance \<le> 0 then ret []
              else trigger_sweep env dr p balance (policy_sweep_amount p balance))))"

text \<open>The events published until the round ends, the exception that ended it, the database.\<close>

fun poll_policies ::
  "'p banking_env \<Rightarrow> (uuid \<Rightarrow> sweep_draws) \<Rightarrow> sweep_policy list \<Rightarrow> db \<Rightarrow> sweep_event list \<times> poller_exn option \<times> db" where
  "poll_policies env dr [] s = ([], None, s)"
| "poll_policies env dr (p # ps) s =
     (case poll_policy env (dr (sp_id p)) p s of
        (Inl e, t) \<Rightarrow> ([], Some e, t)
      | (Inr evs, t) \<Rightarrow> (case poll_policies env dr ps t of (evs', e, u) \<Rightarrow> (evs @ evs', e, u)))"

definition poll_once ::
  "'p banking_env \<Rightarrow> (uuid \<Rightarrow> sweep_draws) \<Rightarrow> db \<Rightarrow> sweep_event list \<times> poller_exn option \<times> db" where
  "poll_once env dr s =
     (case list_policies s None (Some True) of
        Inl e \<Rightarrow> ([], Some (Raised e), s)
      | Inr ps \<Rightarrow> poll_policies env dr ps s)"

text \<open>The loop logs what ends a round and waits for the next one.\<close>

fun run_rounds :: "('p banking_env \<times> (uuid \<Rightarrow> sweep_draws)) list \<Rightarrow> db \<Rightarrow> sweep_event list \<times> db" where
  "run_rounds [] s = ([], s)"
| "run_rounds ((env, dr) # rounds) s =
     (case poll_once env dr s of (evs, _, t) \<Rightarrow>
        (case run_rounds rounds t of (evs', u) \<Rightarrow> (evs @ evs', u)))"

section \<open>What a sweep leaves behind\<close>

definition added_execution :: "sweep_execution \<Rightarrow> db \<Rightarrow> db" where
  "added_execution x s = s\<lparr>sweep_executions := sweep_executions s @ [x]\<rparr>"

lemma se_create_added: "se_create x s = added_execution x s"
  by (cases s) (simp add: se_create_def added_execution_def)

lemma added_execution_simps [simp]:
  "sweep_executions (added_execution x s) = sweep_executions s @ [x]" "payment_requests (added_execution x s) = payment_requests s"
  "list_descriptors_for_holding (added_execution x s) = list_descriptors_for_holding s"
  "descriptor_ids_for_holding (added_execution x s) = descriptor_ids_for_holding s"
  "next_unused_address (added_execution x s) = next_unused_address s"
  "holding_repo_get (added_execution x s) = holding_repo_get s"
  "has_in_flight_for_holding (added_execution x s) = has_in_flight_for_holding s"
  by (simp_all add: added_execution_def fun_eq_iff list_descriptors_for_holding_def descriptor_rows_for_holding_def
      descriptor_ids_for_holding_def next_unused_address_def unused_candidate_def [abs_def] reserved_address_ids_def holding_repo_get_def
      has_in_flight_for_holding_def)

lemma initial_execution_simps [simp]:
  "se_id (initial_execution dr p balance amount) = sw_execution_id dr"
  "se_intended_amount_sats (initial_execution dr p balance amount) = amount"
  "se_sweep_policy_id (initial_execution dr p balance amount) = sp_id p"
  "se_status (initial_execution dr p balance amount) \<in> {SES_AWAITING_USER_CONFIRMATION, SES_REQUESTED}"
  by (simp_all add: initial_execution_def new_execution_def)

definition finished_row :: "sweep_draws \<Rightarrow> sweep_execution_status \<Rightarrow> string option \<Rightarrow> sweep_execution \<Rightarrow> sweep_execution" where
  "finished_row dr status msg = status_row status (no_fields\<lparr>ef_error_message := msg, ef_completed_at := Some (sw_now dr)\<rparr>)"

lemma finish_added:
  assumes "SweepExecution x = Inr x" "se_id x = sw_execution_id dr" "sw_execution_id dr \<notin> se_id ` set (sweep_executions s)"
  shows "finish_execution dr status msg (added_execution x s) = (Inr None, added_execution (finished_row dr status msg x) s)"
proof -
  have none: "find_row se_id (sw_execution_id dr) (sweep_executions s) = None" using assms(3) by (simp add: find_row_None_iff)
  have same: "update_rows se_id (sw_execution_id dr) f (sweep_executions s) = sweep_executions s" for f
    by (rule update_rows_absent [OF assms(3)])
  have ok: "SweepExecution (status_row st f x) = Inr (status_row st f x)" for st f
    using assms(1) by (simp add: SweepExecution_Inr_iff status_row_def)
  have "find_row se_id (sw_execution_id dr) (sweep_executions (added_execution x s)) = Some x"
    using assms(2) none by (simp add: find_row_append)
  moreover have "update_rows se_id (sw_execution_id dr) f (sweep_executions s @ [x]) = sweep_executions s @ [f x]" for f
    using assms(2) same [of f] by (simp add: update_rows_def)
  ultimately show ?thesis
    using ok by (simp add: finish_execution_def in_session_def bnd_def ret_def update_status_def finished_row_def)
      (cases s, simp add: added_execution_def)
qed

text \<open>The payment a sweep builds.\<close>

definition swept :: "sweep_draws \<Rightarrow> sweep_policy \<Rightarrow> sats \<Rightarrow> address \<Rightarrow> string \<Rightarrow> payment_request" where
  "swept dr p amount a psbt =
     (new_payment_request (sw_request_id dr) (sw_built_at dr) (sweep_order p amount a) psbt)
       \<lparr>pr_sweep_execution_id := Some (sw_execution_id dr)\<rparr>"

definition sweep_target :: "db \<Rightarrow> sweep_policy \<Rightarrow> address \<Rightarrow> bool" where
  "sweep_target s p a \<longleftrightarrow> (\<exists>d ds. list_descriptors_for_holding s (sp_destination_holding_id p) = Inr (d # ds) \<and>
     next_unused_address s (d_id d) False = Inr (Some a))"

inductive swept_to :: "sweep_draws \<Rightarrow> sweep_policy \<Rightarrow> sats \<Rightarrow> sats \<Rightarrow> db \<Rightarrow> poller_exn + sweep_event list \<Rightarrow> db \<Rightarrow> bool"
  for dr p balance amount s where
  raised: "swept_to dr p balance amount s (Inl e) s"
| dry_run: "sp_is_dry_run p \<Longrightarrow> swept_to dr p balance amount s (Inr [])
    (added_execution (finished_row dr SES_COMPLETED None (initial_execution dr p balance amount)) s)"
| failed: "\<not> sp_is_dry_run p \<Longrightarrow> swept_to dr p balance amount s (Inr [])
    (added_execution (finished_row dr SES_FAILED (Some msg) (initial_execution dr p balance amount)) s)"
| created: "\<not> sp_is_dry_run p \<Longrightarrow> sweep_target s p a \<Longrightarrow> \<not> has_in_flight_for_holding s (sp_source_holding_id p) \<Longrightarrow>
    PaymentRequest (swept dr p amount a psbt) = Inr (swept dr p amount a psbt) \<Longrightarrow>
    swept_to dr p balance amount s (Inr [(sw_execution_id dr, sw_request_id dr, sp_id p)])
      (payment_requests_update (\<lambda>rs. rs @ [swept dr p amount a psbt]) (added_execution (initial_execution dr p balance amount) s))"

inductive_cases swept_toE: "swept_to dr p balance amount s r t"

lemma link_new:
  assumes "rid \<notin> pr_id ` set (payment_requests s)" "pr_id q = rid"
  shows "link_execution rid eid (payment_requests_update (\<lambda>rs. rs @ [q]) s) =
    payment_requests_update (\<lambda>rs. rs @ [q\<lparr>pr_sweep_execution_id := Some eid\<rparr>]) s"
proof -
  have "update_rows pr_id rid f (payment_requests s @ [q]) = payment_requests s @ [f q]" for f
    using assms update_rows_absent [OF assms(1)] by (simp add: update_rows_def)
  then show ?thesis by (cases s) (simp add: link_execution_def)
qed

lemma PaymentRequest_sweep_link:
  "PaymentRequest q = Inr q \<Longrightarrow> PaymentRequest (q\<lparr>pr_sweep_execution_id := e\<rparr>) = Inr (q\<lparr>pr_sweep_execution_id := e\<rparr>)"
  by (cases "pr_payment_type q") (simp_all add: PaymentRequest_def construct_Inr_iff)

lemma trigger_sweep_effect:
  assumes run: "trigger_sweep env dr p balance amount s = (r, t)"
    and eid: "sw_execution_id dr \<notin> se_id ` set (sweep_executions s)" and rid: "sw_request_id dr \<notin> pr_id ` set (payment_requests s)"
  shows "swept_to dr p balance amount s r t"
proof -
  let ?x = "initial_execution dr p balance amount"
  let ?s1 = "added_execution ?x s"
  obtain r0 u where session: "sweep_session env dr p balance amount s = (r0, u)" by fastforce
  have out: "(r, t) = (case r0 of Inl e \<Rightarrow> (Inl e, s) | Inr None \<Rightarrow> (Inr [], u)
      | Inr (Some q) \<Rightarrow> (Inr [(sw_execution_id dr, q, sp_id p)], u))"
    using run session by (simp add: trigger_sweep_def commit_on_success_def bnd_def ret_def split: sum.splits option.splits)
  show ?thesis
  proof (cases r0)
    case (Inl e)
    then show ?thesis using out by (simp add: swept_to.raised)
  next
    case (Inr q)
    have x: "SweepExecution ?x = Inr ?x"
      using session Inr by (cases "SweepExecution ?x") (auto simp: sweep_session_def in_session_def bnd_def lift_result_def SweepExecution_Inr_iff)
    note fin = finish_added [OF x _ eid, simplified]
    have body: "(if sp_is_dry_run p then finish_execution dr SES_COMPLETED None
     else
       bnd (in_session (readr (\<lambda>s. list_descriptors_for_holding s (sp_destination_holding_id p)))) (\<lambda>ds.
       case ds of
         [] \<Rightarrow> finish_execution dr SES_FAILED (Some ''Destination holding has no descriptors'')
       | d # _ \<Rightarrow>
           bnd (in_session (readr (\<lambda>s. next_unused_address s (d_id d) False))) (\<lambda>found.
           case found of
             None \<Rightarrow> finish_execution dr SES_FAILED (Some ''No unused receive address on destination holding'')
           | Some a \<Rightarrow> build_sweep env dr p amount a))) ?s1 = (Inr q, u)"
      using session Inr by (simp add: sweep_session_def in_session_def [of "lift_result _"] bnd_def [of "in_session (lift_result _)"] bnd_def [of "modify _"]
          lift_result_def modify_def x se_create_added)
    show ?thesis
    proof (cases "sp_is_dry_run p")
      case True
      then show ?thesis using body fin out Inr by (auto intro: swept_to.dry_run)
    next
      case False
      then obtain ds where ds: "list_descriptors_for_holding s (sp_destination_holding_id p) = Inr ds"
        using body by (cases "list_descriptors_for_holding s (sp_destination_holding_id p)") (auto simp: in_session_def bnd_def readr_def)
      show ?thesis
      proof (cases ds)
        case Nil
        then show ?thesis using False body ds fin out Inr by (auto simp: in_session_def bnd_def readr_def intro: swept_to.failed)
      next
        case (Cons d ds')
        then obtain found where found: "next_unused_address s (d_id d) False = Inr found"
          using False body ds by (cases "next_unused_address s (d_id d) False") (auto simp: in_session_def bnd_def readr_def)
        show ?thesis
        proof (cases found)
          case None
          then show ?thesis using False body ds Cons found fin out Inr by (auto simp: in_session_def bnd_def readr_def intro: swept_to.failed)
        next
          case (Some a)
          then have bs: "build_sweep env dr p amount a ?s1 = (Inr q, u)"
            using False body ds Cons found by (simp add: in_session_def bnd_def readr_def)
          obtain rb v where b: "build_payment_request env (sw_request_id dr) (sw_built_at dr) (sweep_order p amount a) ?s1 = (rb, v)" by fastforce
          consider e where "rb = Inl e" "v = ?s1" | "rb = Inr NeedsConfirmation"
            | psbt where "rb = Inr (Built (new_payment_request (sw_request_id dr) (sw_built_at dr) (sweep_order p amount a) psbt))"
                "v = payment_requests_update (\<lambda>ps. ps @ [new_payment_request (sw_request_id dr) (sw_built_at dr) (sweep_order p amount a) psbt]) ?s1"
                "\<not> has_in_flight_for_holding s (sp_source_holding_id p)"
                "PaymentRequest (new_payment_request (sw_request_id dr) (sw_built_at dr) (sweep_order p amount a) psbt) =
                   Inr (new_payment_request (sw_request_id dr) (sw_built_at dr) (sweep_order p amount a) psbt)"
            using build_effect [OF b] by (auto simp: sweep_order_def)
          then show ?thesis
          proof cases
            case 1
            then show ?thesis using bs b fin False out Inr by (auto simp: build_sweep_def intro: swept_to.failed)
          next
            case 2
            then show ?thesis using bs b by (simp add: build_sweep_def)
          next
            case 3
            let ?q = "new_payment_request (sw_request_id dr) (sw_built_at dr) (sweep_order p amount a) psbt"
            have id: "pr_id ?q = sw_request_id dr" by (simp add: new_payment_request_def)
            have u: "q = Some (sw_request_id dr)" "u = payment_requests_update (\<lambda>rs. rs @ [swept dr p amount a psbt]) ?s1"
              using bs b 3(1,2) link_new [of "sw_request_id dr" ?s1 ?q] rid id by (auto simp: build_sweep_def swept_def)
            have "sweep_target s p a" using ds Cons found Some by (auto simp: sweep_target_def)
            then have "swept_to dr p balance amount s (Inr [(sw_execution_id dr, sw_request_id dr, sp_id p)]) u"
              unfolding u(2) using False 3(3) PaymentRequest_sweep_link [OF 3(4)] by (intro swept_to.created) (simp_all add: swept_def)
            moreover have "r = Inr [(sw_execution_id dr, sw_request_id dr, sp_id p)]" "t = u" using out Inr u(1) by simp_all
            ultimately show ?thesis by simp
          qed
        qed
      qed
    qed
  qed
qed

section \<open>What a round does with one policy\<close>

text \<open>A policy is due when its source is a self-custody wallet whose balance fires the policy; it is passed
  over when the round reads a reason to leave it alone.\<close>

definition due :: "db \<Rightarrow> sweep_policy \<Rightarrow> sats \<Rightarrow> bool" where
  "due s p balance \<longleftrightarrow> fires p balance \<and> source_balance s (sp_source_holding_id p) = Inr balance \<and>
     (case get_holding s (sp_source_holding_id p) of Inr (Some h) \<Rightarrow> h_holding_type h \<noteq> HT_ACCOUNT | _ \<Rightarrow> False)"

definition passed_over :: "db \<Rightarrow> sweep_policy \<Rightarrow> bool" where
  "passed_over s p \<longleftrightarrow> sp_trigger_type p \<noteq> TRG_THRESHOLD \<or>
     (case get_holding s (sp_source_holding_id p) of
        Inl _ \<Rightarrow> False
      | Inr None \<Rightarrow> True
      | Inr (Some h) \<Rightarrow> h_holding_type h = HT_ACCOUNT \<or>
          (case source_balance s (sp_source_holding_id p) of Inl _ \<Rightarrow> False | Inr b \<Rightarrow> \<not> fires p b))"

lemma poll_passed_over: "passed_over s p \<Longrightarrow> poll_policy env dr p s = (Inr [], s)"
  by (auto simp: passed_over_def poll_policy_def in_session_def readr_def bnd_def ret_def fires_def split: sum.splits option.splits)

lemma poll_due: "due s p b \<Longrightarrow> poll_policy env dr p s = trigger_sweep env dr p b (policy_sweep_amount p b) s"
  by (auto simp: due_def poll_policy_def in_session_def readr_def bnd_def ret_def fires_def split: sum.splits option.splits)

lemma poll_cases:
  fixes env :: "'p banking_env"
  obtains (quiet) "passed_over s p" | (due) b where "due s p b" | (unreadable) e where "poll_policy env dr p s = (Inl e, s)"
proof (cases "passed_over s p \<or> (\<exists>b. due s p b)")
  case True
  then show ?thesis using quiet due by blast
next
  case False
  then have "\<exists>e. poll_policy env dr p s = (Inl e, s)"
    by (auto simp: passed_over_def due_def poll_policy_def in_session_def readr_def bnd_def ret_def split: sum.splits option.splits)
  then show ?thesis using unreadable by blast
qed

text \<open>Where the first policy that is due ends the round, the policies after it are never looked at.\<close>

lemma poll_policies_stuck:
  assumes "\<forall>q\<in>set before. passed_over s q" "poll_policy env (dr (sp_id p)) p s = (Inl e, s)"
  shows "poll_policies env dr (before @ p # behind) s = ([], Some e, s)"
  using assms by (induction before) (simp_all add: poll_passed_over)

lemma long_term_vault_raises:
  assumes due: "due s p b" and real: "\<not> sp_is_dry_run p" and target: "sweep_target s p a"
    and source: "holding_repo_get s (sp_source_holding_id p) (descriptor_ids_for_holding s (sp_source_holding_id p)) None = Inr (Some h)"
      "\<not> cannot_send h" "h_holding_type h = HT_VAULT" "h_purpose h = PUR_LONG_TERM" and b: "0 \<le> b"
  shows "poll_policy env dr p s = (Inl AttributeError, s)"
proof -
  let ?n = "policy_sweep_amount p b"
  let ?x = "initial_execution dr p b ?n"
  have x: "SweepExecution ?x = Inr ?x"
    using due b by (simp add: SweepExecution_Inr_iff due_def fires_def initial_execution_def new_execution_def)
  have build: "build_payment_request env rid now (sweep_order p ?n a) (added_execution ?x s) = (Inr NeedsConfirmation, added_execution ?x s)" for rid now
    using source by (simp add: build_payment_request_def Let_def sweep_order_def needs_long_term_confirmation_def svc_defs)
  have "sweep_session env dr p b ?n s = (Inl AttributeError, added_execution ?x s)"
    using target real build unfolding sweep_target_def
    by (auto simp: sweep_session_def in_session_def bnd_def lift_result_def x modify_def se_create_added readr_def build_sweep_def)
  then show ?thesis
    by (simp add: poll_due [OF due] trigger_sweep_def commit_on_success_def bnd_def)
qed

lemma poll_policy_effect:
  assumes "poll_policy env dr p s = (r, t)"
    and "sw_execution_id dr \<notin> se_id ` set (sweep_executions s)" "sw_request_id dr \<notin> pr_id ` set (payment_requests s)"
  shows "(passed_over s p \<and> r = Inr [] \<and> t = s) \<or> (\<exists>e. r = Inl e \<and> t = s) \<or>
    (\<exists>balance. due s p balance \<and> swept_to dr p balance (policy_sweep_amount p balance) s r t)"
proof (cases rule: poll_cases [where s = s and p = p and env = env and dr = dr])
  case quiet
  then show ?thesis using assms(1) by (simp add: poll_passed_over)
next
  case (due b)
  then have "trigger_sweep env dr p b (policy_sweep_amount p b) s = (r, t)" using assms(1) by (simp add: poll_due)
  then have "swept_to dr p b (policy_sweep_amount p b) s r t" by (rule trigger_sweep_effect [OF _ assms(2,3)])
  then show ?thesis using due by blast
next
  case (unreadable e)
  then show ?thesis using assms(1) by simp
qed

section \<open>Properties\<close>


text \<open>C37. A policy whose source is a Vault declared long-term stops the poller.  Building its payment asks for a
  confirmation instead of returning a payment; reading the payment's identifier then raises, which ends the
  round and discards the execution.  Every round ends there, whatever the node answers, so neither this
  policy nor any policy behind it ever sweeps, and nothing in the database tells.\<close>

theorem long_term_vault_stops_all_sweeps:
  assumes policies: "list_policies s None (Some True) = Inr (before @ p # behind)" "\<forall>q\<in>set before. passed_over s q"
    and p: "due s p balance" "0 \<le> balance" "\<not> sp_is_dry_run p" "sweep_target s p a"
    and vault: "holding_repo_get s (sp_source_holding_id p) (descriptor_ids_for_holding s (sp_source_holding_id p)) None = Inr (Some h)"
      "h_holding_type h = HT_VAULT" "h_purpose h = PUR_LONG_TERM" "\<not> cannot_send h"
  shows "run_rounds rounds s = ([], s)"
proof (induction rounds)
  case (Cons rd rounds)
  obtain env dr where rd: "rd = (env, dr)" by (cases rd)
  have "poll_policy env (dr (sp_id p)) p s = (Inl AttributeError, s)"
    using p vault by (blast intro: long_term_vault_raises)
  then have "poll_once env dr s = ([], Some AttributeError, s)"
    using policies by (simp add: poll_once_def poll_policies_stuck)
  then show ?case using Cons rd by simp
qed simp

end
