(* ===== verification/Examples_Sweeps.thy ===== *)
theory Examples_Sweeps
  imports Examples Self_Custody
begin

text \<open>
  The properties of the self-custody poller applied to a threshold policy between two wallets, and to the
  same policy when its source is a Vault declared long-term.
\<close>

definition ex_auto_policy :: sweep_policy where
  "ex_auto_policy = ex_policy True []"

definition ex_sweeping :: db where
  "ex_sweeping = ex_funded\<lparr>sweep_policies := [ex_auto_policy]\<rparr>"

definition ex_sweep_draws :: "uuid \<Rightarrow> sweep_draws" where
  "ex_sweep_draws n = \<lparr>sw_execution_id = n, sw_request_id = n, sw_now = 0, sw_built_at = 0, sw_text = (\<lambda>_. [])\<rparr>"

lemma ex_draws_fresh:
  "sw_execution_id (ex_sweep_draws 7) \<notin> se_id ` set (sweep_executions ex_sweeping)"
  "sw_request_id (ex_sweep_draws 7) \<notin> pr_id ` set (payment_requests ex_sweeping)"
  by (simp_all add: ex_sweeping_def ex_funded_def ex_db_def empty_db_def)

definition ex_target :: address where "ex_target = ex_address 22 12 ''b'' 0"

definition ex_executing :: db where
  "ex_executing = added_execution (initial_execution (ex_sweep_draws 7) ex_auto_policy (u_value_sats ex_utxo) 50) ex_sweeping"

lemma ex_due: "due ex_sweeping ex_auto_policy (u_value_sats ex_utxo)" "policy_sweep_amount ex_auto_policy (u_value_sats ex_utxo) = 50"
  by code_simp+

lemma ex_sweep_target: "list_descriptors_for_holding ex_sweeping 2 = Inr [ex_descriptor 12 2]"
  "next_unused_address ex_sweeping 12 False = Inr (Some ex_target)"
  by code_simp+

lemma ex_guards:
  "holding_repo_get ex_executing 1 (descriptor_ids_for_holding ex_executing 1) None = Inr (Some ((ex_holding 1)\<lparr>h_descriptor_ids := [11]\<rparr>))"
  "has_in_flight_for_holding ex_executing 1 = False"
  "list_descriptors_for_holding ex_executing 1 = Inr [ex_descriptor 11 1]"
  "compose_psbt ex_env (sweep_order ex_auto_policy 50 ex_target) ex_executing (ex_descriptor 11 1) = Inr ''p''"
  by code_simp+

lemma ex_swept: "\<exists>t. build_payment_request ex_env 7 0 (sweep_order ex_auto_policy 50 ex_target) ex_executing =
    (Inr (Built (new_payment_request 7 0 (sweep_order ex_auto_policy 50 ex_target) ''p'')), t)"
proof -
  let ?o = "sweep_order ex_auto_policy 50 ex_target"
  have po: "po_holding_id ?o = 1" "po_amount_sats ?o = Some 50" by (simp_all add: sweep_order_def ex_auto_policy_def ex_policy_def)
  have "PaymentRequest (new_payment_request 7 0 ?o ''p'') = Inr (new_payment_request 7 0 ?o ''p'')"
    by (simp add: PaymentRequest_def construct_Inr_iff new_payment_request_def opt_le_def po)
  then show ?thesis
    using ex_guards by (simp add: build_payment_request_def po svc_defs cannot_send_def needs_long_term_confirmation_def
        ex_holding_def ex_security_def pr_insert_def)
qed

lemma ex_sweep_published:
  "\<exists>t. poll_policy ex_env (ex_sweep_draws 7) ex_auto_policy ex_sweeping = (Inr [(7, 7, 81)], t)"
proof -
  have p: "\<not> sp_is_dry_run ex_auto_policy" "sp_destination_holding_id ex_auto_policy = 2" "sp_id ex_auto_policy = 81"
    by (simp_all add: ex_auto_policy_def ex_policy_def)
  have x: "SweepExecution (initial_execution (ex_sweep_draws 7) ex_auto_policy (u_value_sats ex_utxo) 50) =
      Inr (initial_execution (ex_sweep_draws 7) ex_auto_policy (u_value_sats ex_utxo) 50)"
    by (simp add: SweepExecution_Inr_iff initial_execution_def new_execution_def ex_utxo_def)
  have "\<exists>t. build_sweep ex_env (ex_sweep_draws 7) ex_auto_policy 50 ex_target ex_executing = (Inr (Some 7), t)"
    using ex_swept by (auto simp: build_sweep_def ex_sweep_draws_def) (simp add: new_payment_request_def)
  then have "\<exists>t. sweep_session ex_env (ex_sweep_draws 7) ex_auto_policy (u_value_sats ex_utxo) 50 ex_sweeping = (Inr (Some 7), t)"
    by (simp add: sweep_session_def in_session_def bnd_def lift_result_def x modify_def se_create_added readr_def p
        ex_sweep_target ex_executing_def [symmetric]) (simp add: ex_executing_def ex_sweep_target ex_descriptor_def)
  then show ?thesis
    by (auto simp: poll_due [OF ex_due(1)] ex_due(2) trigger_sweep_def commit_on_success_def bnd_def ret_def p ex_sweep_draws_def)
qed


definition ex_vault :: holding where
  "ex_vault = (ex_holding 1)\<lparr>h_holding_type := HT_VAULT, h_purpose := PUR_LONG_TERM\<rparr>"

definition ex_vaulted :: db where
  "ex_vaulted = ex_sweeping\<lparr>holdings := [ex_vault, ex_holding 2]\<rparr>"

lemma ex_vaulted_policy:
  "list_policies ex_vaulted None (Some True) = Inr ([] @ ex_auto_policy # [])" "\<not> sp_is_dry_run ex_auto_policy"
  by code_simp+

lemma ex_vaulted_source:
  "due ex_vaulted ex_auto_policy (u_value_sats ex_utxo)" "0 \<le> u_value_sats ex_utxo" "sweep_target ex_vaulted ex_auto_policy ex_target"
  "holding_repo_get ex_vaulted (sp_source_holding_id ex_auto_policy)
     (descriptor_ids_for_holding ex_vaulted (sp_source_holding_id ex_auto_policy)) None =
   Inr (Some (ex_vault\<lparr>h_descriptor_ids := [11]\<rparr>))"
  "\<not> cannot_send (ex_vault\<lparr>h_descriptor_ids := [11]\<rparr>)"
proof -
  have "list_descriptors_for_holding ex_vaulted (sp_destination_holding_id ex_auto_policy) = Inr [ex_descriptor 12 2]"
    "next_unused_address ex_vaulted (d_id (ex_descriptor 12 2)) False = Inr (Some ex_target)"
    by code_simp+
  then show "sweep_target ex_vaulted ex_auto_policy ex_target" by (auto simp: sweep_target_def)
qed code_simp+

theorem long_term_vault_stops_all_sweeps_witness:
  "run_rounds [(ex_env, ex_sweep_draws), (ex_env, ex_sweep_draws)] ex_vaulted = ([], ex_vaulted)"
  by (rule long_term_vault_stops_all_sweeps [OF ex_vaulted_policy(1) _ ex_vaulted_source(1,2) ex_vaulted_policy(2)
      ex_vaulted_source(3,4) _ _ ex_vaulted_source(5)]) (simp_all add: ex_vault_def)

end
