(* ===== verification/Descriptor_Handlers.thy ===== *)
theory Descriptor_Handlers
  imports Holdings Payments
begin

text \<open>
  The descriptor handlers: \<^verbatim>\<open>api/v1/descriptors.py\<close>, but for the rescan.  Validation classifies a descriptor
  and proposes a name for a Vault; attaching adds one to a wallet that exists; the rest lists and edits.
  A handler returns a status code or its answer; an exception it does not catch is a 500.

  Strings are lists of code points; all the program writes are below 256.
\<close>

section \<open>The name of a Vault\<close>

text \<open>\<^verbatim>\<open>datetime.fromtimestamp(ts, tz=utc).year\<close>: the year of the proleptic Gregorian calendar the day lies in.
  \<open>days_before_year\<close> counts the days from 1970-01-01 to the first of January.  Python raises for a year
  after 9999.\<close>

definition days_before_year :: "int \<Rightarrow> int" where
  "days_before_year y = 365 * (y - 1970) + ((y - 1) div 4 - (y - 1) div 100 + (y - 1) div 400) - 477"

definition year_of_day :: "int \<Rightarrow> int" where
  "year_of_day d =
     (let y = 1970 + (400 * d) div 146097 in
      if d < days_before_year y then y - 1 else if days_before_year (y + 1) \<le> d then y + 1 else y)"

definition GENESIS_TIMESTAMP :: int where
  "GENESIS_TIMESTAMP = 1230940905"

definition cltv_year :: "int \<Rightarrow> int option" where
  "cltv_year block_height =
     (let y = year_of_day ((GENESIS_TIMESTAMP + block_height * 600) div 86400) in if y \<le> 9999 then Some y else None)"

definition csv_duration_label :: "int \<Rightarrow> string" where
  "csv_duration_label n =
     (if n \<ge> 52560 then int_str (n div 52560) @ ''-year''
      else if n \<ge> 4320 then int_str (n div 4320) @ ''-month''
      else int_str (if n div 144 = 0 then 1 else n div 144) @ ''-day'')"

definition or_one :: "int option \<Rightarrow> int" where
  "or_one n = (case n of None \<Rightarrow> 1 | Some k \<Rightarrow> if k = 0 then 1 else k)"

definition compute_vault_auto_name ::
  "int option \<Rightarrow> int option \<Rightarrow> string option \<Rightarrow> int option \<Rightarrow> string option" where
  "compute_vault_auto_name required_signers total_signers kind lock =
     (let req = or_one required_signers; tot = or_one total_signers;
          m_of_n = int_str req @ ''-of-'' @ int_str tot @ '' Vault'' in
      case (kind, lock) of
        (Some k, Some v) \<Rightarrow>
          if k = ''cltv'' then
            map_option (\<lambda>y. (if tot = 1 then ''Vault'' else m_of_n) @ '' unlocking '' @ int_str y) (cltv_year v)
          else if k = ''csv'' then
            Some (if tot = 1 then csv_duration_label v @ '' Vault''
                  else m_of_n @ '' '' @ [CHR 0xB7] @ '' '' @ csv_duration_label v @ '' lock'')
          else Some ''Vault''
      | (None, _) \<Rightarrow> Some (if tot = 1 then ''Vault'' else m_of_n)
      | (Some _, None) \<Rightarrow> Some ''Vault'')"

definition vault_names :: "db \<Rightarrow> string list" where
  "vault_names s = map h_name (filter (\<lambda>h. h_holding_type h = HT_VAULT) (holdings s))"

definition numbered :: "string \<Rightarrow> nat \<Rightarrow> string" where
  "numbered base n = base @ '' ('' @ nat_str n @ '')''"

lemma numbered_inj [simp]: "numbered base m = numbered base n \<longleftrightarrow> m = n"
  by (auto simp: numbered_def) (metis digits_val_nat_str)

lemma finite_taken: "finite {m. numbered base m \<in> set names}"
proof (rule finite_imageD)
  show "finite (numbered base ` {m. numbered base m \<in> set names})" by (rule finite_subset [of _ "set names"]) auto
qed (simp add: inj_on_def)

text \<open>The loop counts up to the first number that is free.\<close>

function free_number :: "string list \<Rightarrow> string \<Rightarrow> nat \<Rightarrow> nat" where
  "free_number existing base n =
     (if numbered base n \<in> set existing then free_number existing base (n + 1) else n)"
  by pat_completeness auto

termination
proof (relation "measure (\<lambda>(existing, base, n). card {m. n \<le> m \<and> numbered base m \<in> set existing})")
  fix existing base n
  assume "numbered base n \<in> set existing"
  then have "{m. n + 1 \<le> m \<and> numbered base m \<in> set existing} \<subset> {m. n \<le> m \<and> numbered base m \<in> set existing}"
    by (auto simp: psubset_eq set_eq_iff) (metis Suc_n_not_le_n order_refl)
  then show "((existing, base, n + 1), (existing, base, n)) \<in>
      measure (\<lambda>(existing, base, n). card {m. n \<le> m \<and> numbered base m \<in> set existing})"
    using finite_taken [of base existing] by (simp add: psubset_card_mono)
qed simp

declare free_number.simps [simp del]

definition vault_auto_name_with_collision :: "db \<Rightarrow> string \<Rightarrow> string" where
  "vault_auto_name_with_collision s base =
     (if base \<notin> set (vault_names s) then base else numbered base (free_number (vault_names s) base 2))"

section \<open>Validation\<close>

definition script_type_label :: "address_type \<Rightarrow> string" where
  "script_type_label a =
     (case a of AT_LEGACY \<Rightarrow> ''p2pkh'' | AT_NESTED_SEGWIT \<Rightarrow> ''p2sh-p2wpkh'' | AT_NATIVE_SEGWIT \<Rightarrow> ''p2wpkh''
      | AT_TAPROOT \<Rightarrow> ''p2tr'' | AT_P2SH_MULTISIG \<Rightarrow> ''p2sh-multisig'' | AT_P2WSH \<Rightarrow> ''p2wsh''
      | AT_P2SH_P2WSH \<Rightarrow> ''p2sh-p2wsh'')"

record validate_response =
  vr_best_fit :: "string option"
  vr_rejection_category :: "string option"
  vr_canonical_expression :: "string option"
  vr_canonical_change_expression :: "string option"
  vr_script_type :: string
  vr_is_multisig :: bool
  vr_required_signers :: "int option"
  vr_total_signers :: "int option"
  vr_timelock_kind :: "string option"
  vr_timelock_value :: "int option"
  vr_cosigner_fingerprints :: "string list"
  vr_auto_name :: "string option"
  vr_parse_category :: string
  vr_first_addresses :: "string list"
  vr_signing_metadata_present :: bool

definition rejection_response :: "classified_descriptor \<Rightarrow> string option \<Rightarrow> validate_response" where
  "rejection_response c category =
     \<lparr>vr_best_fit = None, vr_rejection_category = category, vr_canonical_expression = cd_canonical_expression c,
      vr_canonical_change_expression = cd_canonical_change_expression c, vr_script_type = [], vr_is_multisig = False,
      vr_required_signers = None, vr_total_signers = None, vr_timelock_kind = None, vr_timelock_value = None,
      vr_cosigner_fingerprints = [], vr_auto_name = None, vr_parse_category = ''single_key_no_timelock'',
      vr_first_addresses = [], vr_signing_metadata_present = False\<rparr>"

definition validated_expression :: "classified_descriptor \<Rightarrow> string \<Rightarrow> string" where
  "validated_expression c raw =
     (case cd_canonical_expression c of None \<Rightarrow> strip raw | Some e \<Rightarrow> if e = [] then strip raw else e)"

definition first_addresses :: "bdk_parser \<Rightarrow> string \<Rightarrow> network \<Rightarrow> string list" where
  "first_addresses bdk e net =
     (case derive_addresses bdk e net 0 3 True of Inl _ \<Rightarrow> [] | Inr ds \<Rightarrow> map da_address ds)"

definition accepted_response ::
  "bdk_parser \<Rightarrow> network \<Rightarrow> classified_descriptor \<Rightarrow> string \<Rightarrow> parsed_descriptor \<Rightarrow> string option \<Rightarrow> validate_response" where
  "accepted_response bdk net c e p auto_name =
     \<lparr>vr_best_fit = cd_best_fit c, vr_rejection_category = None, vr_canonical_expression = cd_canonical_expression c,
      vr_canonical_change_expression = cd_canonical_change_expression c,
      vr_script_type = script_type_label (pd_address_type p) @ (if pd_timelock_kind p \<noteq> None then '' miniscript'' else []),
      vr_is_multisig = pd_is_multisig p, vr_required_signers = pd_required_signers p,
      vr_total_signers = pd_total_signers p, vr_timelock_kind = pd_timelock_kind p,
      vr_timelock_value = pd_timelock_value p, vr_cosigner_fingerprints = pd_cosigner_fingerprints p,
      vr_auto_name = auto_name,
      vr_parse_category = (if pd_is_multisig p \<or> pd_timelock_kind p \<noteq> None then ''parseback_ready'' else ''single_key_no_timelock''),
      vr_first_addresses = first_addresses bdk e net, vr_signing_metadata_present = CHR ''['' \<in> set e\<rparr>"

definition api_validate_descriptor :: "bdk_parser \<Rightarrow> string \<Rightarrow> network \<Rightarrow> db \<Rightarrow> int + validate_response" where
  "api_validate_descriptor bdk raw net s =
     (let c = classify_descriptor bdk raw net; e = validated_expression c raw in
      if cd_best_fit c = None then Inr (rejection_response c (cd_rejection_category c))
      else
        case parse bdk e net True of
          Inl x \<Rightarrow> if x = DescriptorParseError \<or> x = UnsupportedDescriptorError
                   then Inr (rejection_response c (Some ''unsupported_form'')) else Inl 500
        | Inr p \<Rightarrow>
            if \<not> vault_shape p then Inr (accepted_response bdk net c e p None)
            else
              (case compute_vault_auto_name (pd_required_signers p) (pd_total_signers p)
                      (pd_timelock_kind p) (pd_timelock_value p) of
                 None \<Rightarrow> Inl 500
               | Some base \<Rightarrow> Inr (accepted_response bdk net c e p (Some (vault_auto_name_with_collision s base)))))"

section \<open>Attaching, editing, listing\<close>

definition api_list_descriptors :: "uuid option \<Rightarrow> db \<Rightarrow> int + descriptor list" where
  "api_list_descriptors hid s = (case list_descriptors s hid of Inl _ \<Rightarrow> Inl 500 | Inr ds \<Rightarrow> Inr ds)"

text \<open>The paths are written \<^verbatim>\<open>m/0/i\<close> and \<^verbatim>\<open>m/1/i\<close> whatever the address type, and the change expression is
  derived from without being parsed first.\<close>

definition attach_session ::
  "bdk_parser \<Rightarrow> timestamp \<Rightarrow> import_draws \<Rightarrow> uuid \<Rightarrow> descriptor_input \<Rightarrow> db \<Rightarrow> descriptor service" where
  "attach_session bdk now dr hid spec base =
     bnd (lift_result (parse bdk (di_expression spec) (di_network spec) False)) (\<lambda>parsed.
     bnd (lift_result (Descriptor (new_descriptor now (id_descriptor dr) hid spec (pd_address_type parsed)))) (\<lambda>d.
     bnd (insert_descriptor base d) (\<lambda>_.
     bnd (lift_result (derived_rows bdk now dr spec False ''m'')) (\<lambda>as.
     bnd (modify (insert_addresses as)) (\<lambda>_.
     ret d)))))"

text \<open>Only the parse of the main expression and the insertion of the descriptor are guarded.\<close>

definition attach_status :: "bdk_parser \<Rightarrow> descriptor_input \<Rightarrow> exn \<Rightarrow> int" where
  "attach_status bdk spec e =
     (if parse bdk (di_expression spec) (di_network spec) False = Inl e \<and>
         (e = DescriptorParseError \<or> e = UnsupportedDescriptorError) then 422
      else if e = DescriptorAlreadyExists then 409 else 500)"

definition api_attach_descriptor ::
  "bdk_parser \<Rightarrow> timestamp \<Rightarrow> import_draws \<Rightarrow> uuid \<Rightarrow> descriptor_input \<Rightarrow> db \<Rightarrow> (int + descriptor) \<times> db" where
  "api_attach_descriptor bdk now dr hid spec s =
     (case find_row h_id hid (holdings s) of
        None \<Rightarrow> (Inl 404, s)
      | Some h \<Rightarrow>
          if h_holding_type h = HT_ACCOUNT then (Inl 422, s)
          else
            (case attach_session bdk now dr hid spec s s of
               (Inl e, _) \<Rightarrow> (Inl (attach_status bdk spec e), s)
             | (Inr d, t) \<Rightarrow> (Inr d, t)))"

definition api_get_descriptor :: "uuid \<Rightarrow> db \<Rightarrow> int + descriptor" where
  "api_get_descriptor did s =
     (case get_descriptor s did of Inl _ \<Rightarrow> Inl 500 | Inr None \<Rightarrow> Inl 404 | Inr (Some d) \<Rightarrow> Inr d)"

text \<open>An empty update has no field; a field set to \<^verbatim>\<open>null\<close> changes nothing.\<close>

definition arg_value :: "'a option arg \<Rightarrow> 'a option" where
  "arg_value a = (case a of UNSET \<Rightarrow> None | SET x \<Rightarrow> x)"

definition api_patch_descriptor ::
  "uuid \<Rightarrow> string option arg \<Rightarrow> int option arg \<Rightarrow> db \<Rightarrow> (int + descriptor) \<times> db" where
  "api_patch_descriptor did name gap_limit s =
     (if name = UNSET \<and> gap_limit = UNSET then (Inl 422, s)
      else
        (case update_descriptor did (arg_value name) (arg_value gap_limit) s of
           (Inl _, _) \<Rightarrow> (Inl 500, s)
         | (Inr None, _) \<Rightarrow> (Inl 404, s)
         | (Inr (Some d), t) \<Rightarrow> (Inr d, t)))"

definition page_limit :: "int \<Rightarrow> nat" where
  "page_limit n = nat (min (max n 1) 200)"

definition page_offset :: "int \<Rightarrow> nat" where
  "page_offset n = nat (max n 0)"

definition described :: "uuid \<Rightarrow> db \<Rightarrow> exn + 'a \<Rightarrow> int + 'a" where
  "described did s answer =
     (case get_descriptor s did of
        Inl _ \<Rightarrow> Inl 500 | Inr None \<Rightarrow> Inl 404
      | Inr (Some _) \<Rightarrow> (case answer of Inl _ \<Rightarrow> Inl 500 | Inr x \<Rightarrow> Inr x))"

definition api_list_descriptor_addresses :: "uuid \<Rightarrow> bool option \<Rightarrow> int \<Rightarrow> int \<Rightarrow> db \<Rightarrow> int + address list" where
  "api_list_descriptor_addresses did is_change limit offset s =
     described did s (list_addresses_for_descriptor s did is_change (Some (page_limit limit)) (page_offset offset))"

definition api_next_receiving_address :: "uuid \<Rightarrow> db \<Rightarrow> int + (string \<times> string \<times> int)" where
  "api_next_receiving_address did s =
     (case described did s (next_unused_address s did False) of
        Inl c \<Rightarrow> Inl c | Inr None \<Rightarrow> Inl 409
      | Inr (Some a) \<Rightarrow> Inr (a_address a, a_derivation_path a, a_derivation_index a))"

definition utxo_page :: "uuid \<Rightarrow> bool \<Rightarrow> int \<Rightarrow> int \<Rightarrow> db \<Rightarrow> exn + utxo list" where
  "utxo_page did only_unspent limit offset s =
     rmap UTXO (take (page_limit limit) (drop (page_offset offset) (utxo_order (filter
       (\<lambda>u. u_descriptor_id u = did \<and> (only_unspent \<longrightarrow> \<not> u_is_spent u)) (utxos s)))))"

definition api_list_descriptor_utxos :: "uuid \<Rightarrow> bool \<Rightarrow> int \<Rightarrow> int \<Rightarrow> db \<Rightarrow> int + utxo list" where
  "api_list_descriptor_utxos did only_unspent limit offset s = described did s (utxo_page did only_unspent limit offset s)"

definition api_descriptor_balance :: "uuid \<Rightarrow> db \<Rightarrow> int + sats" where
  "api_descriptor_balance did s = described did s (Inr (descriptor_balance_sats s did))"


section \<open>Lemmas\<close>

text \<open>The year is the one whose first of January is the last not after the day.\<close>

lemma div_bounds: "0 < k \<Longrightarrow> n div k * k \<le> n" "0 < k \<Longrightarrow> n < n div k * k + k" for n k :: int
  using div_mult_mod_eq [of n k] pos_mod_bound [of k n] pos_mod_sign [of k n] by linarith+

lemma days_before_year_near:
  "146097 * (y - 1970) - 506 \<le> 400 * days_before_year y" "400 * days_before_year y \<le> 146097 * (y - 1970) + 589"
proof -
  define a b c where "a = (y - 1) div 4" and "b = (y - 1) div 100" and "c = (y - 1) div 400"
  have bounds: "a * 4 \<le> y - 1" "y - 1 < a * 4 + 4" "b * 100 \<le> y - 1" "y - 1 < b * 100 + 100" "c * 400 \<le> y - 1" "y - 1 < c * 400 + 400"
    unfolding a_def b_def c_def by (rule div_bounds, simp)+
  have year: "days_before_year y = 365 * (y - 1970) + (a - b + c) - 477"
    by (simp add: days_before_year_def a_def b_def c_def)
  show "146097 * (y - 1970) - 506 \<le> 400 * days_before_year y" unfolding year using bounds by simp
  show "400 * days_before_year y \<le> 146097 * (y - 1970) + 589" unfolding year using bounds by simp
qed

lemma year_of_day_bounds: "days_before_year (year_of_day d) \<le> d" "d < days_before_year (year_of_day d + 1)"
proof -
  define k where "k = (400 * d) div 146097"
  have "k * 146097 \<le> 400 * d" "400 * d < k * 146097 + 146097"
    unfolding k_def by (rule div_bounds, simp)+
  then have "400 * days_before_year (1970 + k - 1) \<le> 400 * d" "400 * d < 400 * days_before_year (1970 + k + 1 + 1)"
    using days_before_year_near(2) [of "1970 + k - 1"] days_before_year_near(1) [of "1970 + k + 1 + 1"] by simp_all
  then show "days_before_year (year_of_day d) \<le> d" "d < days_before_year (year_of_day d + 1)"
    by (auto simp: year_of_day_def Let_def k_def [symmetric])
qed

text \<open>A lock given as a time, which is at least 500,000,000, is read as a block height and lies after the year
  9999; a block height of the next three centuries does not.\<close>

lemma cltv_year_time: "500000000 \<le> v \<Longrightarrow> cltv_year v = None"
proof -
  define d where "d = (GENESIS_TIMESTAMP + v * 600) div 86400"
  assume "500000000 \<le> v"
  then have "(GENESIS_TIMESTAMP + 500000000 * 600) div 86400 \<le> d"
    unfolding d_def by (intro zdiv_mono1) simp_all
  then have "9999 < year_of_day d"
    using year_of_day_bounds(2) [of d] days_before_year_near(2) [of "year_of_day d + 1"] by (simp add: GENESIS_TIMESTAMP_def)
  then show ?thesis by (simp add: cltv_year_def Let_def d_def)
qed

lemma cltv_year_height: "v \<le> 20000000 \<Longrightarrow> \<exists>y. cltv_year v = Some y"
proof -
  define d where "d = (GENESIS_TIMESTAMP + v * 600) div 86400"
  assume "v \<le> 20000000"
  then have "d \<le> (GENESIS_TIMESTAMP + 20000000 * 600) div 86400"
    unfolding d_def by (intro zdiv_mono1) simp_all
  then have "year_of_day d \<le> 9999"
    using year_of_day_bounds(1) [of d] days_before_year_near(1) [of "year_of_day d"] by (simp add: GENESIS_TIMESTAMP_def)
  then show ?thesis by (simp add: cltv_year_def Let_def d_def)
qed

text \<open>The number found is free, and every smaller one from 2 on is taken.\<close>

lemma free_number_free: "numbered base (free_number names base n) \<notin> set names"
  by (induction names base n rule: free_number.induct) (subst free_number.simps, simp)

lemma free_number_least: "n \<le> k \<Longrightarrow> k < free_number names base n \<Longrightarrow> numbered base k \<in> set names"
proof (induction names base n rule: free_number.induct)
  case (1 names base n)
  then show ?case by (cases "k = n") (auto simp: free_number.simps [of names base n] split: if_splits)
qed

text \<open>The parser raises nothing but the two errors the handlers catch.\<close>

lemma parse_errors: "parse bdk e net allow = Inl x \<Longrightarrow> x = DescriptorParseError \<or> x = UnsupportedDescriptorError"
  by (auto simp: parse_def parse_multisig_def parse_miniscript_def parse_taproot_vault_def Let_def address_type_of_def
      MULTISIG_TYPES_def MINISCRIPT_TYPES_def SINGLE_KEY_TYPES_def rbind_def split: if_splits option.splits)

lemma auto_name_None:
  "compute_vault_auto_name m n kind lock = None \<longleftrightarrow> (\<exists>v. kind = Some ''cltv'' \<and> lock = Some v \<and> cltv_year v = None)"
  by (auto simp: compute_vault_auto_name_def Let_def split: option.splits)


lemma classify_canonical:
  "cd_canonical_expression (classify_descriptor bdk raw net) = map_option fst (auto_wrap_bare_key (strip raw))"
proof -
  have "cd_canonical_expression (rejected w c) = map_option fst w" "cd_canonical_expression (fits w h) = map_option fst w" for w c h
    by (simp_all add: rejected_def fits_def)
  then show ?thesis by (simp only: classify_descriptor_def Let_def split: option.split if_split) simp
qed

lemma wrap_cases:
  "(if a then None else if b then x1 else if c then x2 else if d then x3 else if e then x4 else if f then x5 else if g then x6
    else None) = Some w \<Longrightarrow> x1 = Some w \<or> x2 = Some w \<or> x3 = Some w \<or> x4 = Some w \<or> x5 = Some w \<or> x6 = Some w"
  by (auto split: if_splits)

lemma recoded_Some: "recoded form k v = Some w \<Longrightarrow> \<exists>k. w = form k"
  by (auto simp: recoded_def split: sum.splits)

lemma pairs_nonempty [simp]: "fst (wpkh_pair k) \<noteq> []" "fst (sh_wpkh_pair k) \<noteq> []"
  by (simp_all add: wpkh_pair_def sh_wpkh_pair_def)

lemma wrapped_nonempty: "auto_wrap_bare_key e = Some w \<Longrightarrow> fst w \<noteq> []"
  unfolding auto_wrap_bare_key_def Let_def by (drule wrap_cases) (auto dest!: recoded_Some)

lemma validated_expression_classified:
  "validated_expression (classify_descriptor bdk raw net) raw = classified_expression raw"
  using wrapped_nonempty [of "strip raw"]
  by (auto simp: validated_expression_def classified_expression_def classify_canonical split: option.split)

definition rejection_categories :: "string list" where
  "rejection_categories = [''single_address_input'', ''unparseable'', ''lsp_coordinated_wallet'', ''multi_path_miniscript'', ''unsupported_form'']"

lemma classification_shape:
  "(cd_best_fit (classify_descriptor bdk raw net) = None \<longrightarrow>
     cd_rejection_category (classify_descriptor bdk raw net) \<in> Some ` set rejection_categories) \<and>
   cd_best_fit (classify_descriptor bdk raw net) \<in> {None, Some ''purse'', Some ''strongbox'', Some ''vault''}"
  using single_key_fit_cases [of "classified_expression raw"]
  by (auto simp: classify_descriptor_def Let_def rejection_categories_def split: option.split)

lemma single_fit_shape:
  assumes "cd_best_fit (classify_descriptor bdk raw net) \<in> {Some ''purse'', Some ''strongbox''}"
    "parse bdk (classified_expression raw) net True = Inr p"
  shows "\<not> vault_shape p"
proof -
  obtain d where d: "bdk (classified_expression raw) net = Some d" using assms(2) by (elim parse_InrD)
  have fit: "cd_best_fit (classify_descriptor bdk raw net) \<noteq> Some ''vault''" "cd_best_fit (classify_descriptor bdk raw net) \<noteq> None"
    using assms(1) by auto
  have plain: "bd_desc_type d \<in> {DT_PKH, DT_WPKH, DT_SH_WPKH} \<or> (bd_desc_type d = DT_TR \<and> \<not> is_vault_tr (classified_expression raw))"
    using fit unfolding classify_fit_iff [where bdk = bdk, OF d] Let_def
    by (cases "bd_desc_type d") (simp_all split: if_splits)
  have "\<exists>a. p = parsed (classified_expression raw) d a False (None, None) (None, None) []"
    using plain assms(2) d unfolding parse_def MULTISIG_TYPES_def MINISCRIPT_TYPES_def
    by (elim disjE conjE insertE emptyE) (simp_all add: rbind_eq_Inr_iff address_type_of_def split: if_splits, blast+)
  then show ?thesis by (auto simp: parsed_def vault_shape_def)
qed

lemma attach_effect:
  assumes "api_attach_descriptor bdk now dr hid spec s = (Inr d, t)"
  obtains as where "t = insert_addresses as (descriptors_update (\<lambda>ds. ds @ [d]) s)" "d_holding_id d = hid"
    "d_id d = id_descriptor dr" "derived_rows bdk now dr spec False ''m'' = Inr as"
proof -
  have run: "attach_session bdk now dr hid spec s s = (Inr d, t)"
    using assms by (auto simp: api_attach_descriptor_def split: option.splits if_splits prod.splits sum.splits)
  then have "\<exists>as. t = insert_addresses as (descriptors_update (\<lambda>ds. ds @ [d]) s) \<and> d_holding_id d = hid \<and>
      d_id d = id_descriptor dr \<and> derived_rows bdk now dr spec False ''m'' = Inr as"
    by (auto simp: attach_session_def bnd_def lift_result_def insert_descriptor_def modify_def ret_def new_descriptor_def
        Descriptor_def construct_Inr_iff split: sum.splits if_splits)
  then show ?thesis using that by blast
qed

section \<open>Properties\<close>

text \<open>C38. The answer to a validation has one of two shapes: a rejection with one of the documented categories and
  nothing else, or a holding type.  Then a name is proposed exactly when the descriptor has cosigners or a
  lock, in which case it is for a Vault and marked ready.\<close>

theorem validation_response_shape:
  assumes "api_validate_descriptor bdk raw net s = Inr r"
  shows "(vr_best_fit r = None \<and> vr_rejection_category r \<in> Some ` set rejection_categories \<and> vr_auto_name r = None \<and>
      vr_first_addresses r = [] \<and> vr_parse_category r = ''single_key_no_timelock'') \<or>
    (vr_best_fit r \<in> {Some ''purse'', Some ''strongbox'', Some ''vault''} \<and> vr_rejection_category r = None \<and>
      (vr_auto_name r \<noteq> None \<longleftrightarrow> vr_is_multisig r \<or> vr_timelock_kind r \<noteq> None) \<and>
      (vr_parse_category r = ''parseback_ready'' \<longleftrightarrow> vr_auto_name r \<noteq> None) \<and>
      (vr_auto_name r \<noteq> None \<longrightarrow> vr_best_fit r = Some ''vault''))"
proof (cases "cd_best_fit (classify_descriptor bdk raw net)")
  case None
  then show ?thesis
    using assms classification_shape [of bdk raw net] by (auto simp: api_validate_descriptor_def rejection_response_def Let_def)
next
  case (Some fit)
  let ?e = "classified_expression raw"
  show ?thesis
  proof (cases "parse bdk ?e net True")
    case (Inl x)
    then show ?thesis
      using assms Some parse_errors [OF Inl]
      by (auto simp: api_validate_descriptor_def validated_expression_classified rejection_response_def rejection_categories_def Let_def)
  next
    case (Inr p)
    have "fit = ''vault''" if "vault_shape p"
      using that Some single_fit_shape [OF _ Inr] classification_shape [of bdk raw net] by auto
    then show ?thesis
      using assms Some Inr classification_shape [of bdk raw net]
      by (auto simp: api_validate_descriptor_def validated_expression_classified accepted_response_def vault_shape_def Let_def
          split: if_splits option.splits)
  qed
qed

text \<open>A Vault locked until a time cannot be validated.  The proposed name reads the lock as a block height,
  which for a UNIX time (500,000,000 or more) lies beyond the last year Python can represent: the handler
  answers 500.  Every other descriptor that is accepted, locks up to block 20,000,000 included, gets an
  answer.\<close>

theorem date_locks_break_validation:
  assumes "cd_best_fit (classify_descriptor bdk raw net) \<noteq> None" "parse bdk (classified_expression raw) net True = Inr p"
  shows "(pd_timelock_kind p = Some ''cltv'' \<and> (\<exists>v. pd_timelock_value p = Some v \<and> 500000000 \<le> v) \<longrightarrow>
      api_validate_descriptor bdk raw net s = Inl 500) \<and>
    (pd_timelock_kind p \<noteq> Some ''cltv'' \<or> (\<exists>v. pd_timelock_value p = Some v \<and> v \<le> 20000000) \<longrightarrow>
      (\<exists>r. api_validate_descriptor bdk raw net s = Inr r))"
proof -
  have name: "compute_vault_auto_name (pd_required_signers p) (pd_total_signers p) (pd_timelock_kind p) (pd_timelock_value p) = None
      \<longleftrightarrow> (\<exists>v. pd_timelock_kind p = Some ''cltv'' \<and> pd_timelock_value p = Some v \<and> cltv_year v = None)"
    by (rule auto_name_None)
  show ?thesis
    using assms name cltv_year_time cltv_year_height
    by (auto simp: api_validate_descriptor_def validated_expression_classified vault_shape_def Let_def split: option.split)
       (metis option.distinct(1))+
qed

text \<open>The search for a free name ends, and the name proposed for a Vault is no Vault's name: it is the
  descriptive name itself or, when that is taken, the one with the lowest free number from 2 on.\<close>

theorem proposed_vault_name_is_free:
  assumes "api_validate_descriptor bdk raw net s = Inr r" "vr_auto_name r = Some name"
  shows "name \<notin> set (vault_names s) \<and>
    (\<exists>base. compute_vault_auto_name (vr_required_signers r) (vr_total_signers r) (vr_timelock_kind r) (vr_timelock_value r) = Some base \<and>
      (name = base \<or> base \<in> set (vault_names s) \<and>
        (\<exists>n. name = numbered base n \<and> (\<forall>k \<in> {2..<n}. numbered base k \<in> set (vault_names s)))))"
proof -
  obtain base where "compute_vault_auto_name (vr_required_signers r) (vr_total_signers r) (vr_timelock_kind r) (vr_timelock_value r) = Some base"
    "name = vault_auto_name_with_collision s base"
    using assms by (auto simp: api_validate_descriptor_def rejection_response_def accepted_response_def Let_def
        split: if_splits option.splits sum.splits)
  then show ?thesis
    using free_number_free [of base "vault_names s" 2] free_number_least [of 2 _ "vault_names s" base]
    by (auto simp: vault_auto_name_with_collision_def)
qed

text \<open>The second descriptor of a wallet ends its payments.  Attaching one to a holding that has one is
  accepted, and from then on no payment of that holding can be built, whatever is asked for.\<close>

theorem second_descriptor_blocks_payments:
  assumes "api_attach_descriptor bdk now dr hid spec s = (Inr d, t)" "d0 \<in> set (descriptors s)" "d_holding_id d0 = hid"
    and "po_holding_id po = hid"
  shows "fst (build_payment_request env rid built_at po t) \<noteq> Inr (Built r)"
proof
  obtain as where t: "t = insert_addresses as (descriptors_update (\<lambda>ds. ds @ [d]) s)" "d_holding_id d = hid"
    using assms(1) by (elim attach_effect)
  have "d0 \<in> set (filter (\<lambda>x. d_holding_id x = hid) (descriptors s))" using assms(2,3) by simp
  then have "length (filter (\<lambda>x. d_holding_id x = hid) (descriptors t)) \<noteq> 1"
    using t by (cases "filter (\<lambda>x. d_holding_id x = hid) (descriptors s)") (auto simp: insert_addresses_def)
  moreover assume "fst (build_payment_request env rid built_at po t) = Inr (Built r)"
  then obtain x where "list_descriptors_for_holding t hid = Inr [x]"
    using build_effect [OF prod.collapse [symmetric], of env rid built_at po t] assms(4) by auto
  ultimately show False
    by (auto simp: list_descriptors_for_holding_def descriptor_rows_for_holding_def rmap_eq_Inr_iff dest!: list_all2_lengthD)
qed

text \<open>Raising the gap limit gives no address.  Asked for a receive address when none is free, the program
  advises to increase the gap limit; the update that does so derives nothing, and the answer stays the same.\<close>

theorem raising_gap_limit_gives_no_address:
  assumes "api_patch_descriptor did name (SET gap_limit) s = (Inr d, t)" "api_next_receiving_address did s = Inl 409"
  shows "api_next_receiving_address did t = Inl 409 \<and> addresses t = addresses s"
proof -
  obtain d0 where d0: "find_row d_id did (descriptors s) = Some d0"
    and t: "t = descriptors_update (update_rows d_id did (set_descriptor_fields (arg_value name) gap_limit)) s"
    and d: "Descriptor (set_descriptor_fields (arg_value name) gap_limit d0) = Inr d"
    using assms(1)
    by (auto simp: api_patch_descriptor_def update_descriptor_def arg_value_def rbind_eq_Inr_iff split: option.splits prod.splits sum.splits)
  have "get_descriptor t did = Inr (Some d)"
    using d0 d by (simp add: t get_descriptor_def row_get_def find_row_update set_descriptor_fields_def Let_def rbind_eq_Inr_iff split: option.split)
  moreover have "next_unused_address t did False = next_unused_address s did False"
    by (simp add: t next_unused_address_def unused_candidate_def [abs_def] reserved_address_ids_def)
  ultimately show ?thesis
    using assms(2) by (auto simp: api_next_receiving_address_def described_def t split: sum.splits option.splits)
qed

end
