(* ===== verification/Examples_Descriptors.thy ===== *)
theory Examples_Descriptors
  imports Examples_Holdings Descriptor_Handlers
begin

text \<open>
  The properties of the descriptor handlers applied to a Vault with a relative lock, to one locked until a
  date, and to a wallet that gets a second descriptor.
\<close>

definition ex_relative :: string where
  "ex_relative = ''wsh(and_v(v:pk(A),older(144)))''"

definition ex_named :: db where
  "ex_named = ex_db\<lparr>holdings := [(ex_holding 1)\<lparr>h_holding_type := HT_VAULT, h_name := ''1-day Vault''\<rparr>, ex_holding 2]\<rparr>"

lemma ex_relative_checked:
  "\<exists>r. api_validate_descriptor ex_parser ex_relative NET_REGTEST ex_named = Inr r \<and>
     vr_auto_name r = Some ''1-day Vault (2)'' \<and> vr_best_fit r = Some ''vault''"
proof -
  have "case_sum (\<lambda>_. False) (\<lambda>r. vr_auto_name r = Some ''1-day Vault (2)'' \<and> vr_best_fit r = Some ''vault'')
    (api_validate_descriptor ex_parser ex_relative NET_REGTEST ex_named)"
    by code_simp
  then show ?thesis by (auto split: sum.splits)
qed

theorem validation_response_shape_witness:
  "\<exists>r. api_validate_descriptor ex_parser ex_relative NET_REGTEST ex_named = Inr r \<and> vr_parse_category r = ''parseback_ready''"
  using ex_relative_checked validation_response_shape [where bdk = ex_parser and raw = ex_relative and net = NET_REGTEST and s = ex_named]
  by fastforce

theorem proposed_vault_name_is_free_witness:
  "''1-day Vault (2)'' \<notin> set (vault_names ex_named)"
  using ex_relative_checked
    proposed_vault_name_is_free [where bdk = ex_parser and raw = ex_relative and net = NET_REGTEST and s = ex_named]
  by blast

definition ex_dated :: string where
  "ex_dated = ''wsh(and_v(v:pk(A),after(500000000)))''"

lemma ex_dated_lock: "map_option group1 (re_search TIMELOCK_AFTER_RE ex_dated) = Some ''500000000''"
  by code_simp

lemma ex_dated_facts:
  "cd_best_fit (classify_descriptor ex_parser ex_dated NET_REGTEST) \<noteq> None" "classified_expression ex_dated = ex_dated"
  "\<not> re_test UNSUPPORTED_FRAGMENT_RE ex_dated"
  by code_simp+

theorem date_locks_break_validation_witness: "api_validate_descriptor ex_parser ex_dated NET_REGTEST ex_db = Inl 500"
proof -
  have lock: "extract_timelock ex_dated = (Some ''cltv'', Some 500000000)"
    using ex_dated_lock by (auto simp: extract_timelock_def int_of_digits_def digit_value_def horner_def split: option.splits)
  have "ex_parser ex_dated NET_REGTEST = Some (ex_bdk_descriptor DT_WSH ex_dated)"
    by (simp add: ex_parser_def ex_dated_def starts_with_def)
  moreover have "ex_dated \<noteq> []" "length ex_dated \<le> 4096" by (simp_all add: ex_dated_def)
  moreover have "bd_desc_type (ex_bdk_descriptor DT_WSH ex_dated) = DT_WSH" "\<not> bd_is_multipath (ex_bdk_descriptor DT_WSH ex_dated)"
    by (simp_all add: ex_bdk_descriptor_def)
  ultimately have "parse ex_parser ex_dated NET_REGTEST True = parse_miniscript ex_dated (ex_bdk_descriptor DT_WSH ex_dated) True"
    "bd_desc_type (ex_bdk_descriptor DT_WSH ex_dated) = DT_WSH"
    by (simp_all add: parse_def MULTISIG_TYPES_def MINISCRIPT_TYPES_def)
  then obtain p where "parse ex_parser ex_dated NET_REGTEST True = Inr p" "pd_timelock_kind p = Some ''cltv''" "pd_timelock_value p = Some 500000000"
    using ex_dated_facts(3) lock by (simp add: parse_miniscript_def address_type_of_def Let_def parsed_def)
  then show ?thesis
    using date_locks_break_validation [OF ex_dated_facts(1), of p ex_db] ex_dated_facts(2) by simp
qed

definition ex_second :: descriptor_input where
  "ex_second = ex_spec\<lparr>di_change_expression := None\<rparr>"

lemma ex_attached: "\<exists>d t. api_attach_descriptor ex_parser 5 (ex_import_draws 0) 1 ex_second ex_db = (Inr d, t)"
  by (rule isr_Inr) code_simp

theorem second_descriptor_blocks_payments_witness:
  "\<exists>d t. api_attach_descriptor ex_parser 5 (ex_import_draws 0) 1 ex_second ex_db = (Inr d, t) \<and>
     fst (build_payment_request ex_env 61 0 ex_order t) \<noteq> Inr (Built ex_request)"
proof -
  obtain d t where run: "api_attach_descriptor ex_parser 5 (ex_import_draws 0) 1 ex_second ex_db = (Inr d, t)"
    using ex_attached by blast
  have "ex_descriptor 11 1 \<in> set (descriptors ex_db)" "d_holding_id (ex_descriptor 11 1) = 1" "po_holding_id ex_order = 1"
    by (simp_all add: ex_db_def ex_descriptor_def ex_order_def)
  from second_descriptor_blocks_payments [OF run this] show ?thesis using run by blast
qed

definition ex_exhausted :: db where
  "ex_exhausted = ex_db\<lparr>addresses := []\<rparr>"

theorem raising_gap_limit_gives_no_address_witness:
  "\<exists>d t. api_patch_descriptor 11 UNSET (SET (Some 40)) ex_exhausted = (Inr d, t) \<and> api_next_receiving_address 11 t = Inl 409"
proof -
  have "\<exists>d t. api_patch_descriptor 11 UNSET (SET (Some 40)) ex_exhausted = (Inr d, t)"
    by (rule isr_Inr) code_simp
  moreover have "api_next_receiving_address 11 ex_exhausted = Inl 409" by code_simp
  ultimately show ?thesis using raising_gap_limit_gives_no_address by blast
qed

end
