(* ===== verification/Events.thy ===== *)
theory Events
  imports Descriptor_Adapter Ledger "HOL-Library.Sublist"
begin

text \<open>
  Events: \<^verbatim>\<open>infrastructure/event_bus.py\<close> (topic patterns, the in-memory bus, the Redis bus of one process),
  \<^verbatim>\<open>infrastructure/event_emission.py\<close> (the log of critical events and its reconciler), the stream of
  \<^verbatim>\<open>api/v1/events_stream.py\<close> and the categoriser that answers an event with an event.

  Redis is a parameter: which of the patterns a process has subscribed to match a channel.  It hands the
  process one message for each of them.
\<close>

section \<open>Topics and patterns\<close>

text \<open>\<^verbatim>\<open>re.escape\<close> makes every character stand for itself; the escaped star is then turned into \<^verbatim>\<open>.*\<close>.\<close>

definition dot :: re where
  "dot = Cls (\<lambda>c. c \<noteq> CHR 0x0A)"

fun pattern_body :: "string \<Rightarrow> re" where
  "pattern_body [] = Eps"
| "pattern_body (c # cs) = Cat (if c = CHR ''*'' then Star dot else Chr c) (pattern_body cs)"

definition compile_pattern :: "string \<Rightarrow> re" where
  "compile_pattern pattern = Cats [Line_Start, pattern_body pattern, Line_End]"

definition topic_matches_pattern :: "string \<Rightarrow> string \<Rightarrow> bool" where
  "topic_matches_pattern topic pattern \<longleftrightarrow> re_match (compile_pattern pattern) topic \<noteq> None"

text \<open>The documented rule: a star stands for any text, every other character for itself.\<close>

fun glob :: "string \<Rightarrow> string \<Rightarrow> bool" where
  "glob [] t \<longleftrightarrow> t = []"
| "glob (c # p) [] \<longleftrightarrow> c = CHR ''*'' \<and> glob p []"
| "glob (c # p) (x # t) \<longleftrightarrow> (if c = CHR ''*'' then glob p (x # t) \<or> glob (c # p) t else x = c \<and> glob p t)"

section \<open>The buses\<close>

datatype payload_value = PText string | PNum int | PBool bool | PNull

type_synonym payload = "(string \<times> payload_value) list"

record event =
  ev_topic :: string
  ev_payload :: payload
  ev_timestamp :: timestamp
  ev_id :: uuid

record 'h subscription =
  sub_id :: uuid
  sub_patterns :: "string list"
  sub_handler :: 'h

definition interested :: "string \<Rightarrow> 'h subscription \<Rightarrow> bool" where
  "interested topic sub \<longleftrightarrow> list_ex (topic_matches_pattern topic) (sub_patterns sub)"

text \<open>A handler changes the world and may raise; the exception is logged and forgotten.  The list of
  subscriptions is a snapshot, so what the handlers do to the bus does not change who is called.\<close>

type_synonym ('h, 'w) handlers = "'h \<Rightarrow> event \<Rightarrow> 'w \<Rightarrow> (string + unit) \<times> 'w"

fun dispatch :: "('h, 'w) handlers \<Rightarrow> event \<Rightarrow> 'h subscription list \<Rightarrow> 'w \<Rightarrow> 'w" where
  "dispatch run e [] w = w"
| "dispatch run e (sub # subs) w =
     dispatch run e subs (if interested (ev_topic e) sub then snd (run (sub_handler sub) e w) else w)"

record 'h memory_bus =
  mb_subs :: "'h subscription list"
  mb_closed :: bool

datatype bus_exn = RuntimeError | NoPattern

definition memory_publish ::
  "('h, 'w) handlers \<Rightarrow> ('w \<Rightarrow> 'h memory_bus) \<Rightarrow> event \<Rightarrow> 'w \<Rightarrow> (bus_exn + event) \<times> 'w" where
  "memory_publish run bus e w =
     (if mb_closed (bus w) then (Inl RuntimeError, w) else (Inr e, dispatch run e (mb_subs (bus w)) w))"

definition memory_subscribe :: "uuid \<Rightarrow> string list \<Rightarrow> 'h \<Rightarrow> 'h memory_bus \<Rightarrow> bus_exn + 'h memory_bus" where
  "memory_subscribe sid patterns h b =
     (if patterns = [] then Inl NoPattern
      else Inr (b\<lparr>mb_subs := mb_subs b @ [\<lparr>sub_id = sid, sub_patterns = patterns, sub_handler = h\<rparr>]\<rparr>))"

definition memory_unsubscribe :: "uuid \<Rightarrow> 'h memory_bus \<Rightarrow> 'h memory_bus" where
  "memory_unsubscribe sid b = b\<lparr>mb_subs := filter (\<lambda>s. sub_id s \<noteq> sid) (mb_subs b)\<rparr>"

definition memory_close :: "'h memory_bus \<Rightarrow> 'h memory_bus" where
  "memory_close b = b\<lparr>mb_subs := [], mb_closed := True\<rparr>"

text \<open>The Redis bus keeps the patterns it has ever subscribed to; unsubscribing leaves them.\<close>

record 'h redis_bus =
  rb_subs :: "'h subscription list"
  rb_active_patterns :: "string list"
  rb_closed :: bool

definition new_redis_bus :: "'h redis_bus" where
  "new_redis_bus = \<lparr>rb_subs = [], rb_active_patterns = [], rb_closed = False\<rparr>"

fun add_patterns :: "string list \<Rightarrow> string list \<Rightarrow> string list" where
  "add_patterns active [] = active"
| "add_patterns active (p # ps) = add_patterns (if p \<in> set active then active else active @ [p]) ps"

definition redis_subscribe :: "uuid \<Rightarrow> string list \<Rightarrow> 'h \<Rightarrow> 'h redis_bus \<Rightarrow> bus_exn + 'h redis_bus" where
  "redis_subscribe sid patterns h b =
     (if patterns = [] then Inl NoPattern
      else Inr (b\<lparr>rb_subs := rb_subs b @ [\<lparr>sub_id = sid, sub_patterns = patterns, sub_handler = h\<rparr>],
                  rb_active_patterns := add_patterns (rb_active_patterns b) patterns\<rparr>))"

definition redis_unsubscribe :: "uuid \<Rightarrow> 'h redis_bus \<Rightarrow> 'h redis_bus" where
  "redis_unsubscribe sid b = b\<lparr>rb_subs := filter (\<lambda>s. sub_id s \<noteq> sid) (rb_subs b)\<rparr>"

definition redis_publish :: "event \<Rightarrow> 'h redis_bus \<Rightarrow> bus_exn + event" where
  "redis_publish e b = (if rb_closed b then Inl RuntimeError else Inr e)"

definition redis_close :: "'h redis_bus \<Rightarrow> 'h redis_bus" where
  "redis_close b = b\<lparr>rb_closed := True\<rparr>"

text \<open>The messages one published event becomes in the read loop, and the calls they lead to.\<close>

type_synonym redis = "string \<Rightarrow> string \<Rightarrow> bool"

definition messages :: "redis \<Rightarrow> 'h redis_bus \<Rightarrow> string \<Rightarrow> string list" where
  "messages redis b topic = filter (\<lambda>p. redis p topic) (rb_active_patterns b)"

definition redis_deliver :: "redis \<Rightarrow> ('h, 'w) handlers \<Rightarrow> event \<Rightarrow> 'h redis_bus \<Rightarrow> 'w \<Rightarrow> 'w" where
  "redis_deliver redis run e b = fold (\<lambda>_. dispatch run e (rb_subs b)) (messages redis b (ev_topic e))"

text \<open>How often a handler is called: the world that counts the calls of one handler.\<close>

definition counting :: "'h \<Rightarrow> ('h, nat) handlers" where
  "counting h h' e n = (Inr (), if h' = h then Suc n else n)"

section \<open>Critical events\<close>

record emission =
  el_id :: uuid
  el_topic :: string
  el_payload :: payload
  el_is_critical :: bool
  el_emitted_at :: timestamp
  el_acknowledged_at :: "timestamp option"

text \<open>\<open>stored\<close> and \<open>sent\<close> say whether the commit and the publish go through.  Nothing is published before
  the row is committed; a failed publish still returns an event.\<close>

definition emit_critical ::
  "uuid \<Rightarrow> timestamp \<Rightarrow> bool \<Rightarrow> bool \<Rightarrow> string \<Rightarrow> payload \<Rightarrow> emission list \<Rightarrow> event option \<times> event list \<times> emission list" where
  "emit_critical eid now stored sent topic payload log =
     (if \<not> stored then (None, [], log)
      else
        let e = \<lparr>ev_topic = topic, ev_payload = payload, ev_timestamp = now, ev_id = eid\<rparr> in
        (Some e, if sent then [e] else [],
         log @ [\<lparr>el_id = eid, el_topic = topic, el_payload = payload, el_is_critical = True, el_emitted_at = now,
                 el_acknowledged_at = None\<rparr>]))"

definition acknowledge :: "uuid \<Rightarrow> timestamp \<Rightarrow> emission list \<Rightarrow> bool \<times> emission list" where
  "acknowledge eid now log =
     (list_ex (\<lambda>r. el_id r = eid \<and> el_acknowledged_at r = None) log,
      map (\<lambda>r. if el_id r = eid \<and> el_acknowledged_at r = None then r\<lparr>el_acknowledged_at := Some now\<rparr> else r) log)"

definition is_acknowledged :: "uuid \<Rightarrow> emission list \<Rightarrow> bool" where
  "is_acknowledged eid log = (case find_row el_id eid log of None \<Rightarrow> False | Some r \<Rightarrow> el_acknowledged_at r \<noteq> None)"

definition REPLAY_MARKER_KEY :: string where
  "REPLAY_MARKER_KEY = ''__replay__''"

definition set_key :: "string \<Rightarrow> payload_value \<Rightarrow> payload \<Rightarrow> payload" where
  "set_key k v p = (if k \<in> fst ` set p then map (\<lambda>(k', v'). (k', if k' = k then v else v')) p else p @ [(k, v)])"

definition overdue :: "timestamp \<Rightarrow> emission \<Rightarrow> bool" where
  "overdue cutoff r \<longleftrightarrow> el_is_critical r \<and> el_acknowledged_at r = None \<and> el_emitted_at r < cutoff"

definition replayed :: "timestamp \<Rightarrow> emission \<Rightarrow> event" where
  "replayed now r = \<lparr>ev_topic = el_topic r, ev_payload = set_key REPLAY_MARKER_KEY (PBool True) (el_payload r),
     ev_timestamp = now, ev_id = el_id r\<rparr>"

text \<open>The number of rows found, whatever becomes of their publication.\<close>

definition reconcile_once :: "timestamp \<Rightarrow> timestamp \<Rightarrow> bool \<Rightarrow> emission list \<Rightarrow> nat \<times> event list" where
  "reconcile_once grace now sent log =
     (let rows = filter (overdue (now - grace)) log in (length rows, if sent then map (replayed now) rows else []))"

section \<open>The categoriser\<close>

definition custodial_match :: "db \<Rightarrow> ledger_entry \<Rightarrow> ledger_category option" where
  "custodial_match s e = None"

definition payment_request_match :: "db \<Rightarrow> ledger_entry \<Rightarrow> ledger_category option" where
  "payment_request_match s e = None"

definition suggest_category :: "uuid \<Rightarrow> db \<Rightarrow> ledger_category option \<times> db" where
  "suggest_category eid s =
     (case find_row le_id eid (ledger_entries s) of
        None \<Rightarrow> (None, s)
      | Some e \<Rightarrow>
          (case le_suggested_category e of
             Some c \<Rightarrow> (Some c, s)
           | None \<Rightarrow>
               let suggestion =
                 (if le_direction e = DIR_INTERNAL then Some CAT_INTERNAL_TRANSFER
                  else case custodial_match s e of Some c \<Rightarrow> Some c | None \<Rightarrow> payment_request_match s e)
               in (suggestion,
                   if suggestion = None then s
                   else ledger_entries_update (update_rows le_id eid (\<lambda>e. e\<lparr>le_suggested_category := suggestion\<rparr>)) s)))"

text \<open>\<^verbatim>\<open>UUID(text)\<close> for the canonical form, which is the only one the program writes.\<close>

definition hex_value :: "char \<Rightarrow> nat" where
  "hex_value c = (if is_digit c then of_char c - 48 else of_char (lower_char c) - 87)"

definition uuid_of_text :: "string \<Rightarrow> uuid option" where
  "uuid_of_text t =
     (let h = filter (\<lambda>c. c \<noteq> CHR ''-'') t in
      if length h = 32 \<and> list_all is_hex h then Some (horner 16 (map hex_value h)) else None)"

definition CATEGORIZE :: string where
  "CATEGORIZE = ''ledger_entry.requires_categorization''"

definition categorize_event :: "uuid \<Rightarrow> ledger_category option \<Rightarrow> payload" where
  "categorize_event eid c =
     (''ledger_entry_id'', PText (uuid_str eid)) #
     (case c of None \<Rightarrow> [] | Some c \<Rightarrow> [(''suggested_category'', PText (ledger_category_value c))])"

definition event_entry :: "payload \<Rightarrow> uuid option" where
  "event_entry p = (case map_of p ''ledger_entry_id'' of Some (PText t) \<Rightarrow> uuid_of_text t | _ \<Rightarrow> None)"

text \<open>What the categoriser publishes in answer to an event, and what it writes.\<close>

definition on_categorize :: "payload \<Rightarrow> db \<Rightarrow> payload list \<times> db" where
  "on_categorize p s =
     (case event_entry p of
        None \<Rightarrow> ([], s)
      | Some eid \<Rightarrow>
          (case suggest_category eid s of
             (None, t) \<Rightarrow> ([], t) | (Some c, t) \<Rightarrow> ([categorize_event eid (Some c)], t)))"

text \<open>The events of its topic that wait in the bus are handled one after the other; what is published in
  answer waits behind them.\<close>

fun drain :: "nat \<Rightarrow> payload list \<Rightarrow> db \<Rightarrow> payload list \<times> db" where
  "drain 0 q s = (q, s)"
| "drain (Suc n) [] s = ([], s)"
| "drain (Suc n) (p # q) s = (case on_categorize p s of (out, t) \<Rightarrow> drain n (q @ out) t)"

section \<open>The stream to a client\<close>

definition QUEUE_MAX :: nat where "QUEUE_MAX = 1000"

text \<open>The queue, the number of events dropped since the client was last told, what the client was sent:
  events, and how many it missed.\<close>

datatype 'e sse = Sent 'e | Dropped nat

record 'e client =
  cl_queue :: "'e list"
  cl_dropped :: nat
  cl_sent :: "'e sse list"

definition new_client :: "'e client" where
  "new_client = \<lparr>cl_queue = [], cl_dropped = 0, cl_sent = []\<rparr>"

definition enqueue_event :: "'e \<Rightarrow> 'e client \<Rightarrow> 'e client" where
  "enqueue_event e c =
     (if length (cl_queue c) < QUEUE_MAX then c\<lparr>cl_queue := cl_queue c @ [e]\<rparr>
      else c\<lparr>cl_queue := tl (cl_queue c) @ [e], cl_dropped := Suc (cl_dropped c)\<rparr>)"

definition send_event :: "'e client \<Rightarrow> 'e client" where
  "send_event c =
     (case cl_queue c of
        [] \<Rightarrow> c
      | e # q \<Rightarrow> c\<lparr>cl_queue := q, cl_dropped := 0,
                   cl_sent := cl_sent c @ (if cl_dropped c = 0 then [] else [Dropped (cl_dropped c)]) @ [Sent e]\<rparr>)"

datatype 'e stream_op = Put 'e | Next

fun stream_run :: "'e stream_op list \<Rightarrow> 'e client \<Rightarrow> 'e client" where
  "stream_run [] c = c"
| "stream_run (Put e # ops) c = stream_run ops (enqueue_event e c)"
| "stream_run (Next # ops) c = stream_run ops (send_event c)"

definition split_commas :: "string \<Rightarrow> string list" where
  "split_commas s = foldr (\<lambda>c ps. if c = CHR '','' then [] # ps else (c # hd ps) # tl ps) s [[]]"

definition stream_patterns :: "string \<Rightarrow> string list" where
  "stream_patterns topics =
     (let ps = filter (\<lambda>p. p \<noteq> []) (map strip (split_commas topics)) in if ps = [] then [''*''] else ps)"


section \<open>Lemmas\<close>

subsection \<open>Patterns\<close>

lemma rest_simps [simp]: "rest (prev, s, caps) = s"
  by (simp add: rest_def)

lemma matches_dot_star:
  "CHR 0x0A \<notin> set s \<Longrightarrow> rest ` set (matches (Star dot) (prev, s, caps)) = {r. \<exists>u. s = u @ r}"
proof (induction s arbitrary: prev)
  case Nil
  then show ?case by (simp add: matches.simps(5) dot_def)
next
  case (Cons c cs)
  have "matches dot (prev, c # cs, caps) = [(Some c, cs, caps)]" using Cons.prems by (auto simp: dot_def)
  then have "rest ` set (matches (Star dot) (prev, c # cs, caps)) = insert (c # cs) {r. \<exists>u. cs = u @ r}"
    using Cons by (subst matches.simps(5)) simp
  also have "\<dots> = {r. \<exists>u. c # cs = u @ r}" by (auto simp: Cons_eq_append_conv)
  finally show ?case .
qed

lemma glob_star: "glob (CHR ''*'' # p) t \<longleftrightarrow> (\<exists>v w. t = v @ w \<and> glob p w)"
proof (induction t)
  case (Cons x t)
  then show ?case by (auto simp: Cons_eq_append_conv)
qed simp

lemma re_match_some: "re_match r s \<noteq> None \<longleftrightarrow> matches r (None, s, []) \<noteq> []"
  by (simp add: re_match_def split: list.split)

lemma rest_matches_Cat: "rest ` set (matches (Cat a b) x) = (\<Union>q \<in> set (matches a x). rest ` set (matches b q))"
  by auto

lemma matches_body:
  "CHR 0x0A \<notin> set s \<Longrightarrow> r \<in> rest ` set (matches (pattern_body p) (prev, s, caps)) \<longleftrightarrow> (\<exists>u. s = u @ r \<and> glob p u)"
proof (induction p arbitrary: s prev caps)
  case Nil
  then show ?case by auto
next
  case (Cons c p)
  note IH = Cons.IH and prems = Cons.prems
  show ?case
  proof (cases "c = CHR ''*''")
    case True
    have step: "r \<in> rest ` set (matches (pattern_body p) q) \<longleftrightarrow> (\<exists>w. rest q = w @ r \<and> glob p w)"
      if "q \<in> set (matches (Star dot) (prev, s, caps))" for q
    proof -
      have "CHR 0x0A \<notin> set (rest q)" using that Cons.prems matches_suffix [of q "Star dot" "(prev, s, caps)"] by auto
      then show ?thesis using Cons.IH [of "rest q"] by (cases q) auto
    qed
    have "r \<in> rest ` set (matches (pattern_body (c # p)) (prev, s, caps)) \<longleftrightarrow>
        (\<exists>q \<in> set (matches (Star dot) (prev, s, caps)). \<exists>w. rest q = w @ r \<and> glob p w)"
      using step True unfolding pattern_body.simps if_P [OF True] rest_matches_Cat by blast
    also have "\<dots> \<longleftrightarrow> (\<exists>x \<in> rest ` set (matches (Star dot) (prev, s, caps)). \<exists>w. x = w @ r \<and> glob p w)" by auto
    also have "\<dots> \<longleftrightarrow> (\<exists>v w. s = v @ w @ r \<and> glob p w)"
      unfolding matches_dot_star [OF Cons.prems] by auto
    also have "\<dots> \<longleftrightarrow> (\<exists>u. s = u @ r \<and> glob (c # p) u)"
      using True by (simp add: glob_star) (metis append_assoc)
    finally show ?thesis .
  next
    case False
    show ?thesis
    proof (cases s)
      case Nil
      then show ?thesis using False by (simp add: Chr_def)
    next
      case (Cons x list)
      then have "r \<in> rest ` set (matches (pattern_body p) (Some x, list, caps)) \<longleftrightarrow> (\<exists>u. list = u @ r \<and> glob p u)"
        using prems by (intro IH) simp
      moreover have "(\<exists>u. x # list = u @ r \<and> glob (c # p) u) \<longleftrightarrow> x = c \<and> (\<exists>u. list = u @ r \<and> glob p u)"
      proof
        assume "\<exists>u. x # list = u @ r \<and> glob (c # p) u"
        then obtain u where u: "x # list = u @ r" "glob (c # p) u" by blast
        then show "x = c \<and> (\<exists>u. list = u @ r \<and> glob p u)" using False by (cases u) auto
      next
        assume "x = c \<and> (\<exists>u. list = u @ r \<and> glob p u)"
        then obtain u where "x = c" "list = u @ r" "glob p u" by blast
        then show "\<exists>u. x # list = u @ r \<and> glob (c # p) u" using False by (intro exI [of _ "c # u"]) simp
      qed
      ultimately show ?thesis using False Cons by (cases "x = c") (simp_all add: Chr_def)
    qed
  qed
qed

subsection \<open>Buses\<close>

lemma dispatch_counting:
  "dispatch (counting h) e subs n = n + length (filter (\<lambda>s. sub_handler s = h \<and> interested (ev_topic e) s) subs)"
  by (induction subs arbitrary: n) (auto simp: counting_def)

lemma deliver_counting:
  "redis_deliver redis (counting h) e b n =
     n + length (messages redis b (ev_topic e)) * length (filter (\<lambda>s. sub_handler s = h \<and> interested (ev_topic e) s) (rb_subs b))"
proof -
  have "fold (\<lambda>_. dispatch (counting h) e subs) xs n =
      n + length xs * length (filter (\<lambda>s. sub_handler s = h \<and> interested (ev_topic e) s) subs)" for subs and xs :: "string list"
    by (induction xs arbitrary: n) (simp_all add: dispatch_counting)
  then show ?thesis by (simp add: redis_deliver_def)
qed

subsection \<open>The log\<close>

lemma map_of_set_key: "map_of (set_key k v p) = (map_of p)(k \<mapsto> v)"
proof (cases "k \<in> fst ` set p")
  case True
  have "map_of (map (\<lambda>(k', v'). (k', if k' = k then v else v')) p) x = (if x = k then Some v else map_of p x)"
    if "x = k \<longrightarrow> k \<in> fst ` set p" for x
    using that by (induction p) (force simp: image_iff)+
  then show ?thesis using True by (auto simp: set_key_def fun_eq_iff)
next
  case False
  then have "map_of p k = None" by (simp add: map_of_eq_None_iff)
  then show ?thesis using False by (auto simp: set_key_def fun_eq_iff map_add_def split: option.split)
qed

datatype log_op =
    Emit uuid timestamp bool bool string payload
  | Ack uuid timestamp

fun log_step :: "log_op \<Rightarrow> emission list \<Rightarrow> emission list" where
  "log_step (Emit eid now stored sent topic p) log = snd (snd (emit_critical eid now stored sent topic p log))"
| "log_step (Ack eid now) log = snd (acknowledge eid now log)"

fun emitted_id :: "log_op \<Rightarrow> uuid option" where
  "emitted_id (Emit eid now stored sent topic p) = (if stored then Some eid else None)"
| "emitted_id (Ack eid now) = None"

lemma log_step_keeps:
  "r \<in> set log \<Longrightarrow> (\<And>t. op \<noteq> Ack (el_id r) t) \<Longrightarrow> r \<in> set (log_step op log)"
  by (cases op) (auto simp: emit_critical_def acknowledge_def image_iff Let_def)

lemma log_run_keeps:
  "r \<in> set log \<Longrightarrow> (\<And>t. Ack (el_id r) t \<notin> set ops) \<Longrightarrow> r \<in> set (fold log_step ops log)"
proof (induction ops arbitrary: log)
  case (Cons op ops)
  have "r \<in> set (log_step op log)" using Cons.prems by (intro log_step_keeps) auto
  then show ?case using Cons by auto
qed simp

lemma acknowledge_marks: "\<forall>r \<in> set (snd (acknowledge eid t log)). el_id r = eid \<longrightarrow> el_acknowledged_at r \<noteq> None"
proof
  fix r assume "r \<in> set (snd (acknowledge eid t log))"
  then obtain x where "r = (if el_id x = eid \<and> el_acknowledged_at x = None then x\<lparr>el_acknowledged_at := Some t\<rparr> else x)"
    unfolding acknowledge_def snd_conv set_map by blast
  then show "el_id r = eid \<longrightarrow> el_acknowledged_at r \<noteq> None"
    by (cases "el_id x = eid \<and> el_acknowledged_at x = None") auto
qed

lemma log_acknowledged:
  assumes "\<forall>r \<in> set log. el_id r = eid \<longrightarrow> el_acknowledged_at r \<noteq> None" "Some eid \<notin> emitted_id ` set ops"
  shows "\<forall>r \<in> set (fold log_step ops log). el_id r = eid \<longrightarrow> el_acknowledged_at r \<noteq> None"
  using assms
proof (induction ops arbitrary: log)
  case (Cons op ops)
  have "\<forall>r \<in> set (log_step op log). el_id r = eid \<longrightarrow> el_acknowledged_at r \<noteq> None"
    using Cons.prems by (cases op) (auto simp: emit_critical_def acknowledge_def Let_def)
  then show ?case using Cons by auto
qed simp

subsection \<open>The categoriser\<close>

lemma hex_char_facts: "n < 16 \<Longrightarrow> hex_value (hex_char n) = n \<and> is_hex (hex_char n) \<and> hex_char n \<noteq> CHR ''-''"
proof -
  assume "n < 16"
  then have "n \<in> set [0..<16]" by simp
  moreover have "list_all (\<lambda>n. hex_value (hex_char n) = n \<and> is_hex (hex_char n) \<and> hex_char n \<noteq> CHR ''-'') [0..<16]" by code_simp
  ultimately show ?thesis by (simp only: list_all_iff) blast
qed

lemma low_digits_facts:
  "length (low_digits k n) = k" "list_all is_hex (low_digits k n)" "CHR ''-'' \<notin> set (low_digits k n)"
  "horner 16 (map hex_value (low_digits k n)) = n mod 16 ^ k"
proof (induction k arbitrary: n)
  case (Suc k)
  case 1 then show ?case using Suc by simp
  case 2 then show ?case using Suc hex_char_facts [of "n mod 16"] by simp
  case 3 then show ?case using Suc hex_char_facts [of "n mod 16"] by auto
  case 4 then show ?case using Suc(4) [of "n div 16"] hex_char_facts [of "n mod 16"] by (simp add: mod_mult2_eq)
qed simp_all

lemma take_drop_append: "take m (drop n xs) @ drop (n + m) xs = drop n xs"
  by (metis add.commute append_take_drop_id drop_drop)

lemma uuid_text_reads_back:
  assumes "eid < 16 ^ 32"
  shows "uuid_of_text (uuid_str eid) = Some eid"
proof -
  define h where "h = uuid_hex eid"
  have facts: "length h = 32" "list_all is_hex h" "CHR ''-'' \<notin> set h" "horner 16 (map hex_value h) = eid"
    using low_digits_facts [of 32 eid] assms by (simp_all add: h_def uuid_hex_def)
  have keep: "filter (\<lambda>c. c \<noteq> CHR ''-'') xs = xs" if "set xs \<subseteq> set h" for xs
    using that facts(3) by (intro filter_True) auto
  have sub: "set (take m (drop n h)) \<subseteq> set h" "set (drop n h) \<subseteq> set h" "set (take m h) \<subseteq> set h" for m n
    by (meson order_trans set_drop_subset set_take_subset)+
  have "filter (\<lambda>c. c \<noteq> CHR ''-'') (uuid_str eid) =
      take 8 h @ take 4 (drop 8 h) @ take 4 (drop 12 h) @ take 4 (drop 16 h) @ drop 20 h"
    by (simp add: uuid_str_def Let_def h_def [symmetric] keep [OF sub(1)] keep [OF sub(2)] keep [OF sub(3)])
  also have "\<dots> = h"
    using take_drop_append [of 4 16 h] take_drop_append [of 4 12 h] take_drop_append [of 4 8 h] by simp
  finally show ?thesis using facts by (simp add: uuid_of_text_def)
qed

lemma event_entry_categorize: "eid < 16 ^ 32 \<Longrightarrow> event_entry (categorize_event eid c) = Some eid"
  by (cases c) (simp_all add: event_entry_def categorize_event_def uuid_text_reads_back)

subsection \<open>The stream\<close>

fun puts :: "'e stream_op list \<Rightarrow> 'e list" where
  "puts [] = []"
| "puts (Put e # ops) = e # puts ops"
| "puts (Next # ops) = puts ops"

fun sent_events :: "'e sse list \<Rightarrow> 'e list" where
  "sent_events [] = []"
| "sent_events (Sent e # xs) = e # sent_events xs"
| "sent_events (Dropped n # xs) = sent_events xs"

fun told_missing :: "'e sse list \<Rightarrow> nat" where
  "told_missing [] = 0"
| "told_missing (Sent e # xs) = told_missing xs"
| "told_missing (Dropped n # xs) = n + told_missing xs"

lemma sse_append [simp]:
  "sent_events (xs @ ys) = sent_events xs @ sent_events ys" "told_missing (xs @ ys) = told_missing xs + told_missing ys"
  by (induction xs rule: sent_events.induct) simp_all

definition stream_inv :: "'e list \<Rightarrow> 'e client \<Rightarrow> bool" where
  "stream_inv es c \<longleftrightarrow> subseq (sent_events (cl_sent c) @ cl_queue c) es \<and> length (cl_queue c) \<le> QUEUE_MAX \<and>
     length (sent_events (cl_sent c)) + length (cl_queue c) + told_missing (cl_sent c) + cl_dropped c = length es"

lemma stream_put: "stream_inv es c \<Longrightarrow> stream_inv (es @ [e]) (enqueue_event e c)"
proof (cases "length (cl_queue c) < QUEUE_MAX")
  case True
  assume "stream_inv es c"
  then show ?thesis using True by (auto simp: stream_inv_def enqueue_event_def simp flip: append_assoc)
next
  case False
  assume inv: "stream_inv es c"
  then have "length (cl_queue c) = 1000" using False by (auto simp: stream_inv_def QUEUE_MAX_def)
  then obtain x q where q: "cl_queue c = x # q" "length q = 999" by (cases "cl_queue c") auto
  have "subseq (sent_events (cl_sent c) @ q) es"
  proof -
    have "subseq (sent_events (cl_sent c) @ q) (sent_events (cl_sent c) @ x # q)" by (rule list_emb_append_mono) auto
    then show ?thesis using inv q(1) by (auto simp: stream_inv_def elim: subseq_order.trans)
  qed
  then have "subseq ((sent_events (cl_sent c) @ q) @ [e]) (es @ [e])" by (rule list_emb_append_mono) simp
  then show ?thesis using inv False q by (auto simp: stream_inv_def enqueue_event_def QUEUE_MAX_def)
qed

lemma stream_send: "stream_inv es c \<Longrightarrow> stream_inv es (send_event c)"
  by (auto simp: stream_inv_def send_event_def split: list.split)

lemma stream_run_inv: "stream_inv es c \<Longrightarrow> stream_inv (es @ puts ops) (stream_run ops c)"
proof (induction ops arbitrary: es c rule: puts.induct)
  case (2 e ops)
  then show ?case using 2(1) [OF stream_put [OF 2(2)]] by simp
qed (auto dest: stream_send)


section \<open>Properties\<close>

text \<open>The regular expression a topic pattern is compiled to matches exactly what the documented rule says,
  a star for any text and every other character for itself, on every topic without a line break.\<close>

theorem topic_matching_is_glob:
  assumes "CHR 0x0A \<notin> set topic"
  shows "topic_matches_pattern topic pattern \<longleftrightarrow> glob pattern topic"
proof -
  have "topic_matches_pattern topic pattern \<longleftrightarrow>
      (\<exists>q \<in> set (matches (pattern_body pattern) (None, topic, [])). matches Line_End q \<noteq> [])"
    unfolding topic_matches_pattern_def re_match_some compile_pattern_def
    by simp (metis all_not_in_conv set_empty surj_pair)
  also have "\<dots> \<longleftrightarrow> (\<exists>q \<in> set (matches (pattern_body pattern) (None, topic, [])). rest q = [])"
  proof (rule bex_cong [OF refl])
    fix q assume "q \<in> set (matches (pattern_body pattern) (None, topic, []))"
    then have "rest q \<noteq> [CHR 0x0A]" using assms matches_suffix [of q "pattern_body pattern" "(None, topic, [])"] by auto
    then show "matches Line_End q \<noteq> [] \<longleftrightarrow> rest q = []" by (cases q) auto
  qed
  also have "\<dots> \<longleftrightarrow> [] \<in> rest ` set (matches (pattern_body pattern) (None, topic, []))" unfolding image_iff by metis
  also have "\<dots> \<longleftrightarrow> glob pattern topic" using matches_body [OF assms] by simp
  finally show ?thesis .
qed

text \<open>Over Redis a handler is called again for every pattern of the process that matches, whoever subscribed to
  it.  A handler that is called so many times for an event is called once more as soon as another subscriber
  of the process comes with a pattern that is new and matches, and stays so when that subscriber leaves.  The
  in-memory bus calls it once.\<close>

theorem overlapping_patterns_repeat_events:
  assumes sub: "filter (\<lambda>s. sub_handler s = h \<and> interested (ev_topic e) s) (rb_subs b) = [sub]" "sub_id sub \<noteq> j"
    and other: "redis_subscribe j [pattern] g b = Inr b1" "g \<noteq> h" "pattern \<notin> set (rb_active_patterns b)"
    and redis: "redis pattern (ev_topic e)"
  shows "redis_deliver redis (counting h) e (redis_unsubscribe j b1) 0 = Suc (redis_deliver redis (counting h) e b 0) \<and>
    dispatch (counting h) e (rb_subs b) 0 = 1"
proof -
  let ?P = "\<lambda>s. sub_handler s = h \<and> interested (ev_topic e) s"
  have b1: "b1 = b\<lparr>rb_subs := rb_subs b @ [\<lparr>sub_id = j, sub_patterns = [pattern], sub_handler = g\<rparr>],
      rb_active_patterns := rb_active_patterns b @ [pattern]\<rparr>"
    using other by (auto simp: redis_subscribe_def)
  have "filter ?P (filter (\<lambda>s. sub_id s \<noteq> j) (rb_subs b)) = filter (\<lambda>s. sub_id s \<noteq> j) (filter ?P (rb_subs b))"
    by (simp add: conj_commute)
  then have "length (filter ?P (filter (\<lambda>s. sub_id s \<noteq> j) (rb_subs b1))) = 1"
    using sub other(2) by (simp add: b1)
  moreover have "messages redis (redis_unsubscribe j b1) (ev_topic e) = messages redis b (ev_topic e) @ [pattern]"
    using redis by (simp add: messages_def redis_unsubscribe_def b1)
  ultimately show ?thesis
    using sub(1) by (simp add: deliver_counting dispatch_counting redis_unsubscribe_def)
qed

text \<open>C40. A critical event is not lost.  Once its row is committed, whatever is emitted and acknowledged before and
  after, every run of the reconciler after the grace period publishes it again under its identifier and
  topic, with its payload and the replay mark, until it is acknowledged; from then on never.\<close>

theorem critical_events_come_back:
  assumes ops: "ops = before @ Emit eid at_time True sent topic payload # behind"
    and once: "Some eid \<notin> emitted_id ` set behind" and late: "at_time + grace < now"
  shows "((\<forall>t. Ack eid t \<notin> set behind) \<longrightarrow>
      (\<exists>e \<in> set (snd (reconcile_once grace now True (fold log_step ops []))).
        ev_id e = eid \<and> ev_topic e = topic \<and> map_of (ev_payload e) = (map_of payload)(REPLAY_MARKER_KEY \<mapsto> PBool True))) \<and>
    ((\<exists>t. Ack eid t \<in> set behind) \<longrightarrow>
      (\<forall>e \<in> set (snd (reconcile_once grace now True (fold log_step ops []))). ev_id e \<noteq> eid))"
proof -
  let ?row = "\<lparr>el_id = eid, el_topic = topic, el_payload = payload, el_is_critical = True, el_emitted_at = at_time,
    el_acknowledged_at = None\<rparr>"
  let ?log = "fold log_step before []"
  have run: "fold log_step ops [] = fold log_step behind (?log @ [?row])"
    by (simp add: ops emit_critical_def Let_def)
  show ?thesis
  proof (intro conjI impI)
    assume "\<forall>t. Ack eid t \<notin> set behind"
    then have "?row \<in> set (fold log_step ops [])" unfolding run by (intro log_run_keeps) simp_all
    then have "replayed now ?row \<in> set (snd (reconcile_once grace now True (fold log_step ops [])))"
      using late by (auto simp: reconcile_once_def overdue_def Let_def)
    then show "\<exists>e \<in> set (snd (reconcile_once grace now True (fold log_step ops []))).
        ev_id e = eid \<and> ev_topic e = topic \<and> map_of (ev_payload e) = (map_of payload)(REPLAY_MARKER_KEY \<mapsto> PBool True)"
      by (rule rev_bexI) (simp add: replayed_def map_of_set_key)
  next
    assume "\<exists>t. Ack eid t \<in> set behind"
    then obtain t xs ys where b: "behind = xs @ Ack eid t # ys" by (meson split_list)
    define acked where "acked = snd (acknowledge eid t (fold log_step xs (?log @ [?row])))"
    have "\<forall>r \<in> set acked. el_id r = eid \<longrightarrow> el_acknowledged_at r \<noteq> None"
      unfolding acked_def by (rule acknowledge_marks)
    moreover have "Some eid \<notin> emitted_id ` set ys" using once b by auto
    ultimately have "\<forall>r \<in> set (fold log_step ys acked). el_id r = eid \<longrightarrow> el_acknowledged_at r \<noteq> None"
      by (rule log_acknowledged)
    moreover have "fold log_step ops [] = fold log_step ys acked" by (simp add: run b acked_def)
    ultimately have "\<forall>r \<in> set (fold log_step ops []). el_id r = eid \<longrightarrow> el_acknowledged_at r \<noteq> None" by simp
    then show "\<forall>e \<in> set (snd (reconcile_once grace now True (fold log_step ops []))). ev_id e \<noteq> eid"
      by (auto simp: reconcile_once_def overdue_def replayed_def Let_def)
  qed
qed

text \<open>C39. The categoriser answers itself.  It subscribes to the topic it publishes its answer on, and it answers
  whenever there is a suggestion, also one it made before.  The event for an entry between two holdings of
  the user is therefore followed by another one after every event handled, for ever; for any other entry
  without a suggestion the first event is the last.\<close>

theorem internal_transfers_never_settle:
  assumes "find_row le_id eid (ledger_entries s) = Some entry" "le_suggested_category entry = None" "eid < 16 ^ 32"
  shows "fst (drain (Suc n) [categorize_event eid None] s) =
    (if le_direction entry = DIR_INTERNAL then [categorize_event eid (Some CAT_INTERNAL_TRANSFER)] else [])"
proof (cases "le_direction entry = DIR_INTERNAL")
  case True
  have again: "fst (drain n [categorize_event eid (Some CAT_INTERNAL_TRANSFER)] t) = [categorize_event eid (Some CAT_INTERNAL_TRANSFER)]"
    if "find_row le_id eid (ledger_entries t) = Some e" "le_suggested_category e = Some CAT_INTERNAL_TRANSFER" for t e n
    using that by (induction n) (simp_all add: on_categorize_def event_entry_categorize [OF assms(3)] suggest_category_def)
  show ?thesis
    using assms True
    by (simp add: on_categorize_def event_entry_categorize suggest_category_def Let_def again [where e = "entry\<lparr>le_suggested_category := Some CAT_INTERNAL_TRANSFER\<rparr>"]
        find_row_update)
next
  case False
  have "drain n [] s = ([], s)" for n by (cases n) simp_all
  then show ?thesis
    using assms False by (simp add: on_categorize_def event_entry_categorize suggest_category_def custodial_match_def payment_request_match_def)
qed

text \<open>A client of the event stream gets events in the order they were published, without repetition; at most 1000
  wait for it, and every event published was sent, is waiting, or is counted among those it is or will be
  told it missed.\<close>

theorem stream_keeps_order_and_count:
  assumes "c = stream_run ops (new_client :: 'e client)"
  shows "subseq (sent_events (cl_sent c) @ cl_queue c) (puts ops) \<and> length (cl_queue c) \<le> 1000 \<and>
    length (sent_events (cl_sent c)) + length (cl_queue c) + told_missing (cl_sent c) + cl_dropped c = length (puts ops)"
proof -
  have "stream_inv [] (new_client :: 'e client)" by (simp add: stream_inv_def new_client_def)
  then show ?thesis using stream_run_inv [of "[]" "new_client :: 'e client" ops] by (simp add: assms stream_inv_def QUEUE_MAX_def)
qed

end
