(* ===== verification/Examples_Events.thy ===== *)
theory Examples_Events
  imports Examples Events
begin

text \<open>
  The properties of the event bus, the event log, the categoriser and the stream applied to a client that
  listens to everything, a second one that listens to the chain, and an entry between two wallets.
\<close>

theorem topic_matching_is_glob_witness: "topic_matches_pattern ''chain.tx'' ''chain.*''"
proof -
  have "CHR 0x0A \<notin> set ''chain.tx''" "glob ''chain.*'' ''chain.tx''" by code_simp+
  then show ?thesis using topic_matching_is_glob by blast
qed

definition ex_bus :: "nat redis_bus" where
  "ex_bus = \<lparr>rb_subs = [\<lparr>sub_id = 1, sub_patterns = [''*''], sub_handler = 0\<rparr>], rb_active_patterns = [''*''], rb_closed = False\<rparr>"

definition ex_event :: event where
  "ex_event = \<lparr>ev_topic = ''chain.tx'', ev_payload = [], ev_timestamp = 0, ev_id = 9\<rparr>"

theorem overlapping_patterns_repeat_events_witness:
  "\<exists>b. redis_subscribe 2 [''chain.*''] 1 ex_bus = Inr b \<and>
     redis_deliver glob (counting 0) ex_event (redis_unsubscribe 2 b) 0 = Suc (redis_deliver glob (counting 0) ex_event ex_bus 0)"
proof -
  obtain b where b: "redis_subscribe 2 [''chain.*''] 1 ex_bus = Inr b" by (simp add: redis_subscribe_def)
  have "filter (\<lambda>s. sub_handler s = 0 \<and> interested (ev_topic ex_event) s) (rb_subs ex_bus) = [hd (rb_subs ex_bus)]"
    "sub_id (hd (rb_subs ex_bus)) \<noteq> 2" "''chain.*'' \<notin> set (rb_active_patterns ex_bus)" "glob ''chain.*'' (ev_topic ex_event)"
    by code_simp+
  from overlapping_patterns_repeat_events [where h = 0 and e = ex_event and redis = glob, OF this(1,2) b _ this(3,4)] show ?thesis using b by simp
qed

theorem critical_events_come_back_witness:
  "\<exists>e. e \<in> set (snd (reconcile_once 300 400 True (fold log_step [Emit 5 0 True False ''t'' []] []))) \<and> ev_id e = 5"
proof -
  have "[Emit 5 0 True False ''t'' []] = [] @ Emit 5 0 True False ''t'' [] # []" "Some 5 \<notin> emitted_id ` set []" "0 + 300 < (400 :: timestamp)"
    by simp_all
  from critical_events_come_back [OF this] show ?thesis by auto
qed

definition ex_internal :: ledger_entry where
  "ex_internal = \<lparr>le_id = 71, le_direction = DIR_INTERNAL, le_net_amount_sats = 0, le_fee_sats = None, le_timestamp = 0,
     le_source = SRC_ONCHAIN_TRANSACTION, le_source_reference = ''x'', le_category = None, le_counterparty_label = None, le_note = None,
     le_suggested_category = None, le_categorized_at = None, le_created_at = 0\<rparr>"

definition ex_transfer :: db where
  "ex_transfer = ex_db\<lparr>ledger_entries := [ex_internal]\<rparr>"

theorem internal_transfers_never_settle_witness:
  "fst (drain 1000000 [categorize_event 71 None] ex_transfer) = [categorize_event 71 (Some CAT_INTERNAL_TRANSFER)]"
proof -
  have "find_row le_id 71 (ledger_entries ex_transfer) = Some ex_internal" "le_suggested_category ex_internal = None" "(71 :: uuid) < 16 ^ 32"
    by (simp_all add: ex_transfer_def ex_internal_def)
  from internal_transfers_never_settle [OF this, of 999999] show ?thesis by (simp add: ex_internal_def)
qed

theorem stream_keeps_order_and_count_witness:
  "subseq (sent_events (cl_sent (stream_run [Put 1, Next, Put 2] new_client)) @ cl_queue (stream_run [Put 1, Next, Put 2] new_client)) [1, 2 :: nat]"
  using stream_keeps_order_and_count [OF refl, of "[Put 1, Next, Put (2 :: nat)]"] by simp

end
