(* ===== verification/Device_Auth.thy ===== *)
theory Device_Auth
  imports Secrets Descriptor_Adapter
begin

text \<open>
  Who may call the API: \<^verbatim>\<open>api/lock_middleware.py\<close>, \<^verbatim>\<open>api/auth_middleware.py\<close>, and the endpoints that pair a
  device (\<^verbatim>\<open>api/v1/pairing.py\<close>), revoke it and open the secret store (\<^verbatim>\<open>api/v1/auth.py\<close>, \<^verbatim>\<open>api/v1/unlock.py\<close>).
  A request goes through the lock middleware, then the credential middleware, then its endpoint, as
  \<^verbatim>\<open>main.create_app\<close> stacks them; the secret store is the one of \<open>Secrets\<close>.

  The argon2 package is the argument \<open>hasher\<close>.  A request reads the clock several times: \<open>now i\<close> is
  its i-th reading.  Times are in microseconds.
\<close>

section \<open>State\<close>

definition seconds :: "int \<Rightarrow> timestamp" where
  "seconds n = n * 1000000"

record paired_device =
  pdv_id :: uuid
  pdv_credential_hash :: string
  pdv_label :: "string option"
  pdv_created_at :: timestamp
  pdv_last_seen_at :: timestamp
  pdv_revoked_at :: "timestamp option"

record pairing_token =
  tok_expires_at :: timestamp
  tok_redeemed :: bool

record cached_credential =
  cac_device_id :: string
  cac_expires_at :: timestamp

record attempts =
  lim_failures :: int
  lim_window_start :: timestamp

text \<open>\<^verbatim>\<open>app.state\<close> and the table of devices.  No database, no secret store and no event bus are \<open>None\<close>;
  a dictionary that was not created yet is empty.  The bus is the list of topics published on it.\<close>

record app_state =
  app_pairing_tokens :: "string \<rightharpoonup> pairing_token"
  app_credential_cache :: "string \<rightharpoonup> cached_credential"
  app_rate_limits :: "string \<rightharpoonup> attempts"
  app_devices :: "paired_device list option"
  app_secret_store :: "secret_store option"
  app_bus :: "string list option"
  app_auth_disabled :: bool

text \<open>\<^verbatim>\<open>PasswordHasher.verify\<close> returns true, raises a mismatch or another verification error (both are caught),
  or raises something else, as for a malformed hash.\<close>

datatype verification = Verified | Refused | Verify_Raises

record hasher =
  hs_hash :: "bytes \<Rightarrow> string \<Rightarrow> string"
  hs_verify :: "string \<Rightarrow> string \<Rightarrow> verification"

section \<open>Requests and answers\<close>

text \<open>The endpoints, with what they draw at random; \<open>Elsewhere p\<close> is any other path.\<close>

datatype api_call =
    Issue string
  | Redeem string "string option" bytes bytes uuid
  | Delete_Device uuid
  | Validate_Passphrase string
  | Initialize_Store string bytes bytes
  | Elsewhere string

fun call_path :: "api_call \<Rightarrow> string" where
  "call_path (Issue _) = ''/api/v1/pairing/issue''"
| "call_path (Redeem _ _ _ _ _) = ''/api/v1/pairing/redeem''"
| "call_path (Delete_Device u) = ''/api/v1/devices/'' @ uuid_str u"
| "call_path (Validate_Passphrase _) = ''/api/v1/auth/passphrase-validate''"
| "call_path (Initialize_Store _ _ _) = ''/api/v1/unlock/initialize''"
| "call_path (Elsewhere p) = p"

text \<open>A request: what is called, the \<^verbatim>\<open>Authorization\<close> header and the \<^verbatim>\<open>token\<close> parameter (empty when
  absent), the address of the client.\<close>

record request =
  rq_call :: api_call
  rq_authorization :: string
  rq_token :: string
  rq_client :: string

datatype response =
    Locked
  | Unauthorized string
  | Http_Error int
  | Server_Error
  | Issued string timestamp
  | Redeemed uuid string
  | No_Content
  | Passphrase_Valid
  | Initialized
  | Served "string option"

text \<open>The packages the program runs on.\<close>

record env =
  en_hasher :: hasher
  en_crypto :: crypto_api

type_synonym clock = "nat \<Rightarrow> timestamp"

type_synonym endpoint = "string option \<Rightarrow> app_state \<Rightarrow> response \<times> app_state"

section \<open>The lock middleware\<close>

definition ALWAYS_ALLOWED_PREFIXES :: "string list" where
  "ALWAYS_ALLOWED_PREFIXES =
     [''/api/v1/health'', ''/api/v1/unlock'', ''/api/v1/auth/passphrase-validate'', ''/api/v1/server/info'',
      ''/api/v1/pairing'', ''/openapi.json'', ''/docs'']"

definition under_prefix :: "string list \<Rightarrow> string \<Rightarrow> bool" where
  "under_prefix ps path \<longleftrightarrow> list_ex (\<lambda>p. path = p \<or> starts_with path (p @ ''/'')) ps"

definition is_unlocked :: "secret_store \<Rightarrow> bool" where
  "is_unlocked st \<longleftrightarrow> ss_key st \<noteq> None"

definition lock_dispatch :: "string \<Rightarrow> (app_state \<Rightarrow> response \<times> app_state) \<Rightarrow> app_state \<Rightarrow> response \<times> app_state" where
  "lock_dispatch path call_next st =
     (if under_prefix ALWAYS_ALLOWED_PREFIXES path then call_next st
      else case app_secret_store st of
        None \<Rightarrow> (Locked, st)
      | Some store \<Rightarrow> if \<not> is_unlocked store then (Locked, st) else call_next st)"

section \<open>The credential middleware\<close>

definition AUTH_EXEMPT_PREFIXES :: "string list" where
  "AUTH_EXEMPT_PREFIXES =
     [''/api/v1/health'', ''/api/v1/unlock'', ''/api/v1/server/info'', ''/api/v1/pairing'',
      ''/api/v1/auth/passphrase-validate'', ''/api/v1/internal'', ''/openapi.json'', ''/docs'']"

definition is_exempt :: "string \<Rightarrow> bool" where
  "is_exempt path \<longleftrightarrow> under_prefix AUTH_EXEMPT_PREFIXES path"

definition CREDENTIAL_CACHE_TTL_SECONDS :: int where
  "CREDENTIAL_CACHE_TTL_SECONDS = 300"

definition cache_lookup ::
  "timestamp \<Rightarrow> (string \<rightharpoonup> cached_credential) \<Rightarrow> string \<Rightarrow> string option \<times> (string \<rightharpoonup> cached_credential)" where
  "cache_lookup now cache credential =
     (case cache credential of
        None \<Rightarrow> (None, cache)
      | Some entry \<Rightarrow>
          if now > cac_expires_at entry then (None, cache(credential := None))
          else (Some (cac_device_id entry), cache))"

definition cache_store ::
  "timestamp \<Rightarrow> (string \<rightharpoonup> cached_credential) \<Rightarrow> string \<Rightarrow> string \<Rightarrow> (string \<rightharpoonup> cached_credential)" where
  "cache_store now cache credential device_id =
     cache(credential \<mapsto> \<lparr>cac_device_id = device_id, cac_expires_at = now + seconds CREDENTIAL_CACHE_TTL_SECONDS\<rparr>)"

text \<open>The first device whose hash verifies; \<open>Inl\<close> when the verification raises what is not caught.\<close>

fun first_verified :: "hasher \<Rightarrow> string \<Rightarrow> paired_device list \<Rightarrow> unit + uuid option" where
  "first_verified h credential [] = Inr None"
| "first_verified h credential (d # ds) =
     (case hs_verify h (pdv_credential_hash d) credential of
        Verified \<Rightarrow> Inr (Some (pdv_id d))
      | Refused \<Rightarrow> first_verified h credential ds
      | Verify_Raises \<Rightarrow> Inl ())"

definition live_device :: "paired_device \<Rightarrow> bool" where
  "live_device d \<longleftrightarrow> pdv_revoked_at d = None"

definition validate_credential_against_db ::
  "hasher \<Rightarrow> timestamp \<Rightarrow> paired_device list \<Rightarrow> string \<Rightarrow> unit + (string option \<times> paired_device list)" where
  "validate_credential_against_db h now devices credential =
     rbind (first_verified h credential (filter live_device devices)) (\<lambda>found.
     Inr (case found of
        None \<Rightarrow> (None, devices)
      | Some u \<Rightarrow> (Some (uuid_str u), update_rows pdv_id u (\<lambda>d. d\<lparr>pdv_last_seen_at := now\<rparr>) devices)))"

definition presented_credential :: "request \<Rightarrow> string" where
  "presented_credential r =
     (if starts_with (rq_authorization r) ''Bearer '' then drop (length ''Bearer '') (rq_authorization r) else rq_token r)"

definition auth_dispatch :: "hasher \<Rightarrow> clock \<Rightarrow> request \<Rightarrow> endpoint \<Rightarrow> app_state \<Rightarrow> response \<times> app_state" where
  "auth_dispatch h now r call_next st =
     (if is_exempt (call_path (rq_call r)) then call_next None st
      else if app_auth_disabled st then call_next None st
      else
        let credential = presented_credential r in
        if credential = [] then (Unauthorized ''Missing or malformed Authorization header'', st)
        else
          let (found, cache) = cache_lookup (now 0) (app_credential_cache st) credential;
              st1 = st\<lparr>app_credential_cache := cache\<rparr>
          in case found of
            Some device_id \<Rightarrow> call_next (Some device_id) st1
          | None \<Rightarrow>
              case app_devices st1 of
                None \<Rightarrow> (Unauthorized ''No device store available'', st1)
              | Some devices \<Rightarrow>
                  case validate_credential_against_db h (now 1) devices credential of
                    Inl _ \<Rightarrow> (Server_Error, st1)
                  | Inr (None, _) \<Rightarrow> (Unauthorized ''Invalid or revoked credential'', st1)
                  | Inr (Some device_id, devices1) \<Rightarrow>
                      call_next (Some device_id)
                        (st1\<lparr>app_devices := Some devices1,
                             app_credential_cache := cache_store (now 2) cache credential device_id\<rparr>))"

section \<open>Pairing\<close>

definition PAIRING_TOKEN_TTL_SECONDS :: int where
  "PAIRING_TOKEN_TTL_SECONDS = 60"

definition purge_expired :: "timestamp \<Rightarrow> (string \<rightharpoonup> pairing_token) \<Rightarrow> (string \<rightharpoonup> pairing_token)" where
  "purge_expired now store =
     (\<lambda>k. case store k of None \<Rightarrow> None | Some v \<Rightarrow> if tok_expires_at v < now then None else Some v)"

definition post_pairing_issue :: "clock \<Rightarrow> string \<Rightarrow> app_state \<Rightarrow> response \<times> app_state" where
  "post_pairing_issue now token st =
     (let store = purge_expired (now 3) (app_pairing_tokens st);
          expires_at = now 4 + seconds PAIRING_TOKEN_TTL_SECONDS
      in (Issued token expires_at,
          st\<lparr>app_pairing_tokens := store(token \<mapsto> \<lparr>tok_expires_at = expires_at, tok_redeemed = False\<rparr>)\<rparr>))"

text \<open>\<^verbatim>\<open>base64.urlsafe_b64encode\<close>, and the credential made of the bytes drawn.\<close>

definition b64_char :: "nat \<Rightarrow> char" where
  "b64_char n = ''ABCDEFGHIJKLMNOPQRSTUVWXYZabcdefghijklmnopqrstuvwxyz0123456789-_'' ! n"

definition b64_block :: "nat \<Rightarrow> string" where
  "b64_block n = [b64_char (n div 262144 mod 64), b64_char (n div 4096 mod 64), b64_char (n div 64 mod 64), b64_char (n mod 64)]"

fun urlsafe_b64encode :: "bytes \<Rightarrow> string" where
  "urlsafe_b64encode [] = []"
| "urlsafe_b64encode [a] = take 2 (b64_block (unat a * 65536)) @ ''==''"
| "urlsafe_b64encode [a, b] = take 3 (b64_block (unat a * 65536 + unat b * 256)) @ ''=''"
| "urlsafe_b64encode (a # b # c # cs) = b64_block (unat a * 65536 + unat b * 256 + unat c) @ urlsafe_b64encode cs"

definition credential_of :: "bytes \<Rightarrow> string" where
  "credential_of raw = rev (dropWhile (\<lambda>c. c = CHR ''='') (rev (urlsafe_b64encode raw)))"

text \<open>A dependency that raises answers first, then the validation of the body (422).\<close>

definition post_pairing_redeem ::
  "hasher \<Rightarrow> clock \<Rightarrow> string \<Rightarrow> string option \<Rightarrow> bytes \<Rightarrow> bytes \<Rightarrow> uuid \<Rightarrow> app_state \<Rightarrow> response \<times> app_state" where
  "post_pairing_redeem h now token label raw salt device_id st =
     (case app_devices st of
        None \<Rightarrow> (Http_Error 503, st)
      | Some devices \<Rightarrow>
          if token = [] \<or> length token > 256 \<or> length (get_or label []) > 200 then (Http_Error 422, st)
          else
            let store = purge_expired (now 3) (app_pairing_tokens st);
                st1 = st\<lparr>app_pairing_tokens := store\<rparr>
            in case store token of
              None \<Rightarrow> (Http_Error 401, st1)
            | Some entry \<Rightarrow>
                if tok_redeemed entry \<or> now 4 > tok_expires_at entry then (Http_Error 401, st1)
                else
                  let credential = credential_of raw;
                      row = \<lparr>pdv_id = device_id, pdv_credential_hash = hs_hash h salt credential, pdv_label = label,
                             pdv_created_at = now 5, pdv_last_seen_at = now 5, pdv_revoked_at = None\<rparr>
                  in (Redeemed device_id credential,
                      st1\<lparr>app_pairing_tokens := store(token \<mapsto> entry\<lparr>tok_redeemed := True\<rparr>),
                          app_devices := Some (devices @ [row])\<rparr>))"

section \<open>Revocation and the passphrase\<close>

definition delete_device :: "clock \<Rightarrow> uuid \<Rightarrow> app_state \<Rightarrow> response \<times> app_state" where
  "delete_device now device_id st =
     (case app_devices st of
        None \<Rightarrow> (Http_Error 503, st)
      | Some devices \<Rightarrow>
          case find_row pdv_id device_id devices of
            None \<Rightarrow> (Http_Error 404, st)
          | Some row \<Rightarrow>
              (No_Content,
               if live_device row
               then st\<lparr>app_devices := Some (update_rows pdv_id device_id (\<lambda>d. d\<lparr>pdv_revoked_at := Some (now 3)\<rparr>) devices)\<rparr>
               else st))"

definition RATE_LIMIT_MAX_FAILURES :: int where
  "RATE_LIMIT_MAX_FAILURES = 10"

definition RATE_LIMIT_WINDOW_SECONDS :: int where
  "RATE_LIMIT_WINDOW_SECONDS = 900"

text \<open>The entry of a client after the check (a missing one starts its window now), and whether it passes.\<close>

definition check_rate_limit :: "timestamp \<Rightarrow> timestamp \<Rightarrow> attempts option \<Rightarrow> attempts \<times> bool" where
  "check_rate_limit created now entry =
     (let e = get_or entry \<lparr>lim_failures = 0, lim_window_start = created\<rparr>;
          e1 = if now - lim_window_start e > seconds RATE_LIMIT_WINDOW_SECONDS
               then \<lparr>lim_failures = 0, lim_window_start = now\<rparr> else e
      in (e1, lim_failures e1 < RATE_LIMIT_MAX_FAILURES))"

definition emit_system_unlocked :: "bool \<Rightarrow> app_state \<Rightarrow> app_state" where
  "emit_system_unlocked bus_up st =
     (case app_bus st of
        None \<Rightarrow> st
      | Some topics \<Rightarrow> if bus_up then st\<lparr>app_bus := Some (topics @ [''system.unlocked''])\<rparr> else st)"

definition post_passphrase_validate ::
  "crypto_api \<Rightarrow> bool \<Rightarrow> clock \<Rightarrow> string \<Rightarrow> string \<Rightarrow> app_state \<Rightarrow> response \<times> app_state" where
  "post_passphrase_validate c bus_up now client_ip passphrase st =
     (case app_secret_store st of
        None \<Rightarrow> (Server_Error, st)
      | Some store \<Rightarrow>
          if passphrase = [] \<or> length passphrase > 4096 then (Http_Error 422, st)
          else
            let (e, passes) = check_rate_limit (now 3) (now 4) (app_rate_limits st client_ip);
                st1 = st\<lparr>app_rate_limits := (app_rate_limits st)(client_ip \<mapsto> e)\<rparr>
            in if \<not> passes then (Http_Error 429, st1)
               else case unlock c passphrase store of
                 (Inl x, store1) \<Rightarrow>
                   if x = NotInitializedError then (Http_Error 503, st1\<lparr>app_secret_store := Some store1\<rparr>)
                   else if x = WrongPassphraseError then
                     (Http_Error 401,
                      st1\<lparr>app_secret_store := Some store1,
                          app_rate_limits := (app_rate_limits st)(client_ip \<mapsto> e\<lparr>lim_failures := lim_failures e + 1\<rparr>)\<rparr>)
                   else (Server_Error, st1\<lparr>app_secret_store := Some store1\<rparr>)
               | (Inr _, store1) \<Rightarrow>
                   (Passphrase_Valid,
                    emit_system_unlocked bus_up
                      (st1\<lparr>app_secret_store := Some store1,
                           app_rate_limits := (app_rate_limits st)(client_ip \<mapsto> e\<lparr>lim_failures := 0\<rparr>)\<rparr>)))"

definition post_unlock_initialize ::
  "crypto_api \<Rightarrow> bool \<Rightarrow> string \<Rightarrow> bytes \<Rightarrow> bytes \<Rightarrow> app_state \<Rightarrow> response \<times> app_state" where
  "post_unlock_initialize c bus_up passphrase salt nonce st =
     (case app_secret_store st of
        None \<Rightarrow> (Server_Error, st)
      | Some store \<Rightarrow>
          if passphrase = [] \<or> length passphrase > 4096 then (Http_Error 422, st)
          else case initialize c salt nonce passphrase store of
            (Inl x, store1) \<Rightarrow>
              (if x = AlreadyInitializedError then Http_Error 409 else Server_Error, st\<lparr>app_secret_store := Some store1\<rparr>)
          | (Inr _, store1) \<Rightarrow> (Initialized, emit_system_unlocked bus_up (st\<lparr>app_secret_store := Some store1\<rparr>)))"

section \<open>The stack\<close>

text \<open>Any other endpoint leaves this state alone; its answer shows the device it is served to.\<close>

fun endpoint_of :: "env \<Rightarrow> clock \<Rightarrow> bool \<Rightarrow> string \<Rightarrow> api_call \<Rightarrow> endpoint" where
  "endpoint_of en now bus_up ip (Issue token) device st = post_pairing_issue now token st"
| "endpoint_of en now bus_up ip (Redeem token label raw salt u) device st =
     post_pairing_redeem (en_hasher en) now token label raw salt u st"
| "endpoint_of en now bus_up ip (Delete_Device u) device st = delete_device now u st"
| "endpoint_of en now bus_up ip (Validate_Passphrase p) device st = post_passphrase_validate (en_crypto en) bus_up now ip p st"
| "endpoint_of en now bus_up ip (Initialize_Store p salt nonce) device st =
     post_unlock_initialize (en_crypto en) bus_up p salt nonce st"
| "endpoint_of en now bus_up ip (Elsewhere p) device st = (Served device, st)"

definition app_call :: "env \<Rightarrow> clock \<Rightarrow> bool \<Rightarrow> request \<Rightarrow> app_state \<Rightarrow> response \<times> app_state" where
  "app_call en now bus_up r =
     lock_dispatch (call_path (rq_call r))
       (auth_dispatch (en_hasher en) now r (endpoint_of en now bus_up (rq_client r) (rq_call r)))"

text \<open>A stop of the process locks the store and forgets what is in memory; the database stays.\<close>

definition restart :: "app_state \<Rightarrow> app_state" where
  "restart st = st\<lparr>app_pairing_tokens := Map.empty, app_credential_cache := Map.empty, app_rate_limits := Map.empty,
     app_secret_store := map_option (\<lambda>s. snd (lock s)) (app_secret_store st)\<rparr>"

datatype input = Ask clock bool request | Restart

text \<open>What was asked and answered, in order.\<close>

fun serve_all :: "env \<Rightarrow> input list \<Rightarrow> app_state \<Rightarrow> (request \<times> response) list \<times> app_state" where
  "serve_all en [] st = ([], st)"
| "serve_all en (Ask now up r # xs) st =
     (let (a, st1) = app_call en now up r st; (as, st2) = serve_all en xs st1 in ((r, a) # as, st2))"
| "serve_all en (Restart # xs) st = serve_all en xs (restart st)"

text \<open>The clock does not go back, within a request and from one to the next.\<close>

definition ticks :: "timestamp \<Rightarrow> clock \<Rightarrow> bool" where
  "ticks t now \<longleftrightarrow> t \<le> now 0 \<and> now 0 \<le> now 1 \<and> now 1 \<le> now 2 \<and> now 2 \<le> now 3 \<and> now 3 \<le> now 4 \<and> now 4 \<le> now 5"

fun timely :: "timestamp \<Rightarrow> input list \<Rightarrow> bool" where
  "timely t [] \<longleftrightarrow> True"
| "timely t (Ask now up r # xs) \<longleftrightarrow> ticks t now \<and> timely (now 5) xs"
| "timely t (Restart # xs) \<longleftrightarrow> timely t xs"

fun end_time :: "timestamp \<Rightarrow> input list \<Rightarrow> timestamp" where
  "end_time t [] = t"
| "end_time t (Ask now up r # xs) = end_time (now 5) xs"
| "end_time t (Restart # xs) = end_time t xs"

section \<open>What the cache of credentials knows\<close>

definition vouches :: "hasher \<Rightarrow> string \<Rightarrow> timestamp \<Rightarrow> paired_device \<Rightarrow> bool" where
  "vouches h credential until d \<longleftrightarrow>
     hs_verify h (pdv_credential_hash d) credential = Verified \<and>
     (case pdv_revoked_at d of None \<Rightarrow> True | Some t \<Rightarrow> until \<le> t + seconds CREDENTIAL_CACHE_TTL_SECONDS)"

text \<open>Every cached credential is a device's, and it expires at most the life of the cache after now and after
  the device was revoked.\<close>

definition cache_sound :: "hasher \<Rightarrow> timestamp \<Rightarrow> app_state \<Rightarrow> bool" where
  "cache_sound h now st \<longleftrightarrow>
     (\<forall>c e. app_credential_cache st c = Some e \<longrightarrow>
        cac_expires_at e \<le> now + seconds CREDENTIAL_CACHE_TTL_SECONDS \<and>
        (\<exists>d \<in> set (get_or (app_devices st) []). vouches h c (cac_expires_at e) d))"

lemma cache_soundD:
  assumes "cache_sound h now st" "app_credential_cache st c = Some e"
  shows "cac_expires_at e \<le> now + seconds CREDENTIAL_CACHE_TTL_SECONDS"
    "\<exists>d \<in> set (get_or (app_devices st) []). vouches h c (cac_expires_at e) d"
  using assms unfolding cache_sound_def by blast+

lemma cache_soundI:
  assumes "\<And>c e. app_credential_cache st c = Some e \<Longrightarrow> cac_expires_at e \<le> now + seconds CREDENTIAL_CACHE_TTL_SECONDS"
    and "\<And>c e. app_credential_cache st c = Some e \<Longrightarrow> \<exists>d \<in> set (get_or (app_devices st) []). vouches h c (cac_expires_at e) d"
  shows "cache_sound h now st"
  using assms unfolding cache_sound_def by blast

lemma cache_sound_later: "cache_sound h t st \<Longrightarrow> t \<le> u \<Longrightarrow> cache_sound h u st"
  unfolding cache_sound_def by force

text \<open>What happens to the devices: none goes, none changes its hash, and a revocation happens now.\<close>

definition devices_persist :: "timestamp \<Rightarrow> paired_device list \<Rightarrow> paired_device list \<Rightarrow> bool" where
  "devices_persist now ds ds' \<longleftrightarrow>
     (\<forall>d \<in> set ds. \<exists>d' \<in> set ds'. pdv_credential_hash d' = pdv_credential_hash d \<and>
        (pdv_revoked_at d' = pdv_revoked_at d \<or> (\<exists>t \<ge> now. pdv_revoked_at d' = Some t)))"

lemma devices_persist_refl [intro]: "devices_persist now ds ds"
  by (auto simp: devices_persist_def)

lemma devices_persist_append [intro]: "devices_persist now ds (ds @ es)"
  by (auto simp: devices_persist_def)

lemma devices_persist_update:
  assumes "\<And>d. pdv_credential_hash (f d) = pdv_credential_hash d"
    "\<And>d. pdv_revoked_at (f d) = pdv_revoked_at d \<or> (\<exists>t \<ge> now. pdv_revoked_at (f d) = Some t)"
  shows "devices_persist now ds (update_rows pdv_id u f ds)"
  unfolding devices_persist_def
proof
  fix d assume "d \<in> set ds"
  then have "(if pdv_id d = u then f d else d) \<in> set (update_rows pdv_id u f ds)"
    by (auto simp: update_rows_def)
  then show "\<exists>d' \<in> set (update_rows pdv_id u f ds). pdv_credential_hash d' = pdv_credential_hash d \<and>
      (pdv_revoked_at d' = pdv_revoked_at d \<or> (\<exists>t \<ge> now. pdv_revoked_at d' = Some t))"
    by (rule bexI [rotated]) (use assms in auto)
qed

lemma cache_sound_persist:
  assumes "cache_sound h now st" "app_credential_cache st' \<subseteq>\<^sub>m app_credential_cache st"
    "devices_persist now (get_or (app_devices st) []) (get_or (app_devices st') [])"
  shows "cache_sound h now st'"
proof (rule cache_soundI)
  fix c e assume "app_credential_cache st' c = Some e"
  then have e: "app_credential_cache st c = Some e" using assms(2) by (metis map_le_def domI)
  from cache_soundD [OF assms(1) e] obtain d where
    d: "cac_expires_at e \<le> now + seconds CREDENTIAL_CACHE_TTL_SECONDS"
      "d \<in> set (get_or (app_devices st) [])" "vouches h c (cac_expires_at e) d" by blast
  show "cac_expires_at e \<le> now + seconds CREDENTIAL_CACHE_TTL_SECONDS" by (rule d(1))
  obtain d' where d': "d' \<in> set (get_or (app_devices st') [])" "pdv_credential_hash d' = pdv_credential_hash d"
      "pdv_revoked_at d' = pdv_revoked_at d \<or> (\<exists>t \<ge> now. pdv_revoked_at d' = Some t)"
    using assms(3) d(2) unfolding devices_persist_def by blast
  then have "vouches h c (cac_expires_at e) d'" using d(1,3) by (auto simp: vouches_def)
  then show "\<exists>d \<in> set (get_or (app_devices st') []). vouches h c (cac_expires_at e) d" using d'(1) by blast
qed

lemma endpoint_leaves [simp]:
  "app_credential_cache (snd (endpoint_of en now up ip call dev st)) = app_credential_cache st"
  "app_auth_disabled (snd (endpoint_of en now up ip call dev st)) = app_auth_disabled st"
  by (cases call; simp add: post_pairing_issue_def post_pairing_redeem_def delete_device_def
      post_passphrase_validate_def post_unlock_initialize_def emit_system_unlocked_def Let_def
      split: option.split prod.split sum.split)+

lemma endpoint_keeps_devices:
  assumes "ticks t now"
  shows "devices_persist (now 2) (get_or (app_devices st) []) (get_or (app_devices (snd (endpoint_of en now up ip call dev st))) [])"
proof -
  have "now 2 \<le> now 3" using assms by (simp add: ticks_def)
  then show ?thesis
    by (cases call; auto simp: get_or_def post_pairing_issue_def post_pairing_redeem_def delete_device_def
        post_passphrase_validate_def post_unlock_initialize_def emit_system_unlocked_def Let_def
        intro!: devices_persist_update
        split: option.split prod.split sum.split)
qed

lemma first_verified_Some:
  "first_verified h c ds = Inr (Some u) \<Longrightarrow> \<exists>d \<in> set ds. pdv_id d = u \<and> hs_verify h (pdv_credential_hash d) c = Verified"
  by (induction ds) (auto split: verification.splits)

text \<open>The outcomes of the credential middleware on a path that is not exempt: it answers itself, or it calls
  on with a credential that is in the cache and has not expired.\<close>

lemma auth_dispatch_cases:
  assumes "cache_sound h t st" "ticks t now" "\<not> is_exempt (call_path (rq_call r))" "\<not> app_auth_disabled st"
  obtains (answered) a st1 where "auth_dispatch h now r next st = (a, st1)" "a = Server_Error \<or> (\<exists>m. a = Unauthorized m)"
      "cache_sound h (now 2) st1" "\<not> app_auth_disabled st1"
  | (passed) dev st1 e where "auth_dispatch h now r next st = next (Some dev) st1"
      "cache_sound h (now 2) st1" "\<not> app_auth_disabled st1"
      "app_credential_cache st1 (presented_credential r) = Some e" "now 0 \<le> cac_expires_at e"
      "app_secret_store st1 = app_secret_store st"
proof -
  have n: "t \<le> now 2" "now 0 \<le> now 2" using assms(2) by (simp_all add: ticks_def)
  let ?c = "presented_credential r"
  obtain found cache where look: "cache_lookup (now 0) (app_credential_cache st) ?c = (found, cache)" by fastforce
  let ?st1 = "st\<lparr>app_credential_cache := cache\<rparr>"
  have sub: "cache \<subseteq>\<^sub>m app_credential_cache st"
    using look by (auto simp: cache_lookup_def map_le_def split: option.splits if_splits)
  have sound: "cache_sound h (now 2) ?st1"
    by (rule cache_sound_later [OF cache_sound_persist [OF assms(1)] n(1)]) (auto simp: sub)
  consider (empty) "?c = []" | (hit) dev where "?c \<noteq> []" "found = Some dev"
    | (miss) "?c \<noteq> []" "found = None" by blast
  then show thesis
  proof cases
    case empty
    then show ?thesis
      using answered cache_sound_later [OF assms(1) n(1)] assms(3,4) by (simp add: auth_dispatch_def)
  next
    case hit
    then obtain e where e: "app_credential_cache st ?c = Some e" "now 0 \<le> cac_expires_at e" "cache = app_credential_cache st"
      using look by (auto simp: cache_lookup_def split: option.splits if_splits)
    show ?thesis
      by (rule passed [where dev = dev and ?st1.0 = ?st1 and e = e])
        (use hit e sound assms(3,4) in \<open>auto simp: auth_dispatch_def look Let_def\<close>)
  next
    case miss
    show ?thesis
    proof (cases "app_devices st")
      case None
      then show ?thesis using answered [OF _ _ sound] miss assms(3,4)
        by (auto simp: auth_dispatch_def Let_def look)
    next
      case (Some ds)
      show ?thesis
      proof (cases "first_verified h ?c (filter live_device ds)")
        case (Inl x)
        then show ?thesis using answered [OF _ _ sound] miss assms(3,4) Some
          by (auto simp: auth_dispatch_def validate_credential_against_db_def Let_def look)
      next
        case (Inr who)
        show ?thesis
        proof (cases who)
          case None
          then show ?thesis using answered [OF _ _ sound] miss assms(3,4) Some Inr
            by (auto simp: auth_dispatch_def validate_credential_against_db_def Let_def look)
        next
          case (Some u)
          let ?ds = "update_rows pdv_id u (\<lambda>d. d\<lparr>pdv_last_seen_at := now 1\<rparr>) ds"
          let ?e = "\<lparr>cac_device_id = uuid_str u, cac_expires_at = now 2 + seconds CREDENTIAL_CACHE_TTL_SECONDS\<rparr>"
          let ?st2 = "?st1\<lparr>app_devices := Some ?ds, app_credential_cache := cache(?c \<mapsto> ?e)\<rparr>"
          obtain d where d: "d \<in> set ds" "live_device d" "pdv_id d = u" "hs_verify h (pdv_credential_hash d) ?c = Verified"
            using first_verified_Some Inr Some by fastforce
          then have d': "d\<lparr>pdv_last_seen_at := now 1\<rparr> \<in> set ?ds" by (force simp: update_rows_def)
          have keep: "cache_sound h (now 2) (?st1\<lparr>app_devices := Some ?ds\<rparr>)"
            by (rule cache_sound_persist [OF sound])
              (auto simp: get_or_def \<open>app_devices st = Some ds\<close> intro!: devices_persist_update)
          have "cache_sound h (now 2) ?st2"
          proof (rule cache_soundI)
            fix c e assume ce: "app_credential_cache ?st2 c = Some e"
            show "cac_expires_at e \<le> now 2 + seconds CREDENTIAL_CACHE_TTL_SECONDS"
              using ce cache_soundD(1) [OF keep, of c e] by (auto split: if_splits)
            show "\<exists>d \<in> set (get_or (app_devices ?st2) []). vouches h c (cac_expires_at e) d"
            proof (cases "c = ?c")
              case True
              have "vouches h ?c (cac_expires_at ?e) (d\<lparr>pdv_last_seen_at := now 1\<rparr>)"
                using d by (simp add: vouches_def live_device_def)
              then show ?thesis using ce True d' by (auto simp: get_or_def)
            next
              case False
              then show ?thesis using ce cache_soundD(2) [OF keep, of c e] by simp
            qed
          qed
          then show ?thesis
            by (rule passed [where dev = "uuid_str u" and ?st1.0 = ?st2 and e = ?e, rotated])
              (use miss Some Inr \<open>app_devices st = Some ds\<close> assms(3,4) n in
                \<open>auto simp: auth_dispatch_def validate_credential_against_db_def cache_store_def seconds_def
                  CREDENTIAL_CACHE_TTL_SECONDS_def Let_def look\<close>)
        qed
      qed
    qed
  qed
qed

lemma allowed_is_exempt: "under_prefix ALWAYS_ALLOWED_PREFIXES path \<Longrightarrow> is_exempt path"
  by (auto simp: under_prefix_def is_exempt_def ALWAYS_ALLOWED_PREFIXES_def AUTH_EXEMPT_PREFIXES_def)

lemma lock_dispatch_cases:
  obtains (locked) "lock_dispatch path next st = (Locked, st)"
  | (open_path) "lock_dispatch path next st = next st" "under_prefix ALWAYS_ALLOWED_PREFIXES path"
  | (unlocked) store where "lock_dispatch path next st = next st" "app_secret_store st = Some store" "is_unlocked store"
proof (cases "under_prefix ALWAYS_ALLOWED_PREFIXES path")
  case False
  show ?thesis
  proof (cases "app_secret_store st")
    case (Some store)
    then show ?thesis using locked unlocked [of store] False by (cases "is_unlocked store") (auto simp: lock_dispatch_def)
  qed (use locked False in \<open>auto simp: lock_dispatch_def\<close>)
qed (use open_path in \<open>auto simp: lock_dispatch_def\<close>)

definition guarded :: "hasher \<Rightarrow> timestamp \<Rightarrow> app_state \<Rightarrow> bool" where
  "guarded h t st \<longleftrightarrow> cache_sound h t st \<and> \<not> app_auth_disabled st"

lemma endpoint_guarded:
  assumes "guarded h (now 2) st" "ticks t now"
  shows "guarded h (now 5) (snd (endpoint_of en now up ip call dev st))"
proof -
  have "cache_sound h (now 2) (snd (endpoint_of en now up ip call dev st))"
    by (rule cache_sound_persist [of h "now 2" st])
      (use assms(1) endpoint_keeps_devices [OF assms(2)] in \<open>simp_all add: guarded_def\<close>)
  from cache_sound_later [OF this, of "now 5"] show ?thesis
    using assms by (simp add: guarded_def ticks_def)
qed

lemma guarded_later: "guarded h t st \<Longrightarrow> t \<le> u \<Longrightarrow> guarded h u st"
  by (auto simp: guarded_def intro: cache_sound_later)

lemma app_call_guarded:
  assumes "guarded (en_hasher en) t st" "ticks t now"
  shows "guarded (en_hasher en) (now 5) (snd (app_call en now up r st))"
proof -
  let ?h = "en_hasher en" and ?next = "endpoint_of en now up (rq_client r) (rq_call r)"
  have t: "t \<le> now 2" "now 2 \<le> now 5" using assms(2) by (simp_all add: ticks_def)
  have auth: "guarded ?h (now 5) (snd (auth_dispatch ?h now r ?next st))"
  proof (cases "is_exempt (call_path (rq_call r))")
    case True
    then show ?thesis
      using endpoint_guarded [OF guarded_later [OF assms(1) t(1)] assms(2)] by (simp add: auth_dispatch_def)
  next
    case False
    show ?thesis
    proof (rule auth_dispatch_cases [of ?h t st now r ?next])
      fix a st1 assume "auth_dispatch ?h now r ?next st = (a, st1)" "cache_sound ?h (now 2) st1" "\<not> app_auth_disabled st1"
      then show ?thesis using t cache_sound_later [of ?h "now 2" st1 "now 5"] by (simp add: guarded_def)
    next
      fix dev st1 assume "auth_dispatch ?h now r ?next st = ?next (Some dev) st1" "cache_sound ?h (now 2) st1" "\<not> app_auth_disabled st1"
      then show ?thesis using endpoint_guarded [OF _ assms(2)] by (simp add: guarded_def)
    qed (use assms False in \<open>auto simp: guarded_def\<close>)
  qed
  show ?thesis
    unfolding app_call_def
    by (rule lock_dispatch_cases [of "call_path (rq_call r)" "auth_dispatch ?h now r ?next" st])
      (use auth guarded_later [OF assms(1) order_trans [OF t]] in auto)
qed

lemma restart_guarded: "guarded h t st \<Longrightarrow> guarded h t (restart st)"
  by (simp add: guarded_def cache_sound_def restart_def)

lemma serve_all_guarded:
  "guarded (en_hasher en) t st \<Longrightarrow> timely t xs \<Longrightarrow> guarded (en_hasher en) (end_time t xs) (snd (serve_all en xs st))"
proof (induction en xs st arbitrary: t rule: serve_all.induct)
  case (2 en now up r xs st)
  obtain a st1 where a: "app_call en now up r st = (a, st1)" by fastforce
  show ?case
    using 2(1) [OF a [symmetric] refl, of "now 5"] app_call_guarded [OF 2(2), of now up r] 2(3)
    by (auto simp: a split: prod.split)
qed (auto simp: restart_guarded)

lemma timely_append: "timely t (xs @ ys) \<longleftrightarrow> timely t xs \<and> timely (end_time t xs) ys"
  by (induction xs arbitrary: t rule: timely.induct) auto

lemma end_time_later: "timely t xs \<Longrightarrow> t \<le> end_time t xs"
  by (induction t xs rule: timely.induct) (auto simp: ticks_def)

section \<open>Only paired devices pass\<close>

text \<open>C8. From the start of the process on, a request on a path that is not exempt is answered by its endpoint only
  while the secret store is unlocked and only for a credential whose hash some paired device holds, where the device
  is not revoked or was revoked at most five minutes before the request.\<close>

theorem only_paired_devices_pass:
  assumes "app_credential_cache st0 = Map.empty" "\<not> app_auth_disabled st0" "timely t (xs @ [Ask now up r])"
    and "serve_all en xs st0 = (rs, st)" "app_call en now up r st = (a, st1)"
    and "\<not> is_exempt (call_path (rq_call r))" "a \<noteq> Locked" "a \<noteq> Server_Error" "\<forall>m. a \<noteq> Unauthorized m"
  shows "(\<exists>store. app_secret_store st = Some store \<and> is_unlocked store) \<and>
    (\<exists>d \<in> set (get_or (app_devices st1) []).
       hs_verify (en_hasher en) (pdv_credential_hash d) (presented_credential r) = Verified \<and>
       (pdv_revoked_at d = None \<or> now 0 \<le> the (pdv_revoked_at d) + seconds 300))"
proof -
  let ?h = "en_hasher en" and ?next = "endpoint_of en now up (rq_client r) (rq_call r)" and ?c = "presented_credential r"
  have "guarded ?h t st0" using assms(1,2) by (simp add: guarded_def cache_sound_def)
  then have g: "guarded ?h (end_time t xs) st"
    using serve_all_guarded [of en t st0 xs] assms(3,4) by (simp add: timely_append)
  have tick: "ticks (end_time t xs) now" using assms(3) by (simp add: timely_append)
  obtain store where store: "app_secret_store st = Some store" "is_unlocked store"
    and auth: "auth_dispatch ?h now r ?next st = (a, st1)"
    by (rule lock_dispatch_cases [of "call_path (rq_call r)" "auth_dispatch ?h now r ?next" st])
      (use assms(5-7) allowed_is_exempt in \<open>auto simp: app_call_def\<close>)
  have "\<exists>d \<in> set (get_or (app_devices st1) []).
       hs_verify ?h (pdv_credential_hash d) ?c = Verified \<and>
       (pdv_revoked_at d = None \<or> now 0 \<le> the (pdv_revoked_at d) + seconds 300)"
  proof (rule auth_dispatch_cases [of ?h "end_time t xs" st now r ?next])
    fix dev st2 e
    assume *: "auth_dispatch ?h now r ?next st = ?next (Some dev) st2" "cache_sound ?h (now 2) st2"
      "app_credential_cache st2 ?c = Some e" "now 0 \<le> cac_expires_at e"
    obtain d where d: "d \<in> set (get_or (app_devices st2) [])" "vouches ?h ?c (cac_expires_at e) d"
      using cache_soundD(2) [OF *(2,3)] by blast
    have "devices_persist (now 2) (get_or (app_devices st2) []) (get_or (app_devices st1) [])"
      using endpoint_keeps_devices [OF tick, where en = en and up = up and ip = "rq_client r" and call = "rq_call r" and dev = "Some dev" and st = st2] auth *(1) by simp
    then obtain d' where d': "d' \<in> set (get_or (app_devices st1) [])" "pdv_credential_hash d' = pdv_credential_hash d"
      "pdv_revoked_at d' = pdv_revoked_at d \<or> (\<exists>t \<ge> now 2. pdv_revoked_at d' = Some t)"
      using d(1) unfolding devices_persist_def by blast
    show ?thesis
      by (rule bexI [OF _ d'(1)])
        (use d'(2,3) d(2) *(4) tick in \<open>auto simp: vouches_def ticks_def seconds_def CREDENTIAL_CACHE_TTL_SECONDS_def split: option.splits\<close>)
  qed (use g tick assms(6,8,9) auth in \<open>auto simp: guarded_def\<close>)
  with store show ?thesis by blast
qed

section \<open>Revocation\<close>

text \<open>What the middlewares leave alone, and when an endpoint is reached.\<close>

definition same_memory :: "app_state \<Rightarrow> app_state \<Rightarrow> bool" where
  "same_memory st st' \<longleftrightarrow>
     app_pairing_tokens st' = app_pairing_tokens st \<and> app_rate_limits st' = app_rate_limits st \<and>
     app_secret_store st' = app_secret_store st \<and> app_bus st' = app_bus st \<and> app_auth_disabled st' = app_auth_disabled st"

lemma app_call_cases:
  obtains (answered) a st1 where "app_call en now up r st = (a, st1)" "same_memory st st1"
      "a = Locked \<or> a = Server_Error \<or> (\<exists>m. a = Unauthorized m)"
  | (called) dev st1 where "app_call en now up r st = endpoint_of en now up (rq_client r) (rq_call r) dev st1" "same_memory st st1"
      "under_prefix ALWAYS_ALLOWED_PREFIXES (call_path (rq_call r)) \<or> (\<exists>store. app_secret_store st = Some store \<and> is_unlocked store)"
proof -
  let ?next = "endpoint_of en now up (rq_client r) (rq_call r)"
  have auth: "(\<exists>a st1. auth_dispatch (en_hasher en) now r ?next st = (a, st1) \<and> same_memory st st1 \<and>
        (a = Locked \<or> a = Server_Error \<or> (\<exists>m. a = Unauthorized m))) \<or>
      (\<exists>dev st1. auth_dispatch (en_hasher en) now r ?next st = ?next dev st1 \<and> same_memory st st1)"
    unfolding auth_dispatch_def Let_def
    by (simp split: prod.split option.split sum.split) (fastforce simp: same_memory_def)
  show thesis
    by (rule lock_dispatch_cases [of "call_path (rq_call r)" "auth_dispatch (en_hasher en) now r ?next" st])
      (use auth answered called in \<open>auto simp: app_call_def same_memory_def\<close>)
qed

lemma app_call_keeps_entry:
  assumes "app_credential_cache st c = Some e" "now 0 \<le> cac_expires_at e"
  shows "app_credential_cache (snd (app_call en now up r st)) c = Some e"
  using assms
  by (auto simp: app_call_def lock_dispatch_def auth_dispatch_def cache_lookup_def cache_store_def Let_def
      split: prod.split option.split sum.split)

lemma app_call_hit:
  assumes "app_secret_store st = Some store" "is_unlocked store" "\<not> is_exempt p" "\<not> app_auth_disabled st" "rq_call r = Elsewhere p"
    "presented_credential r \<noteq> []" "app_credential_cache st (presented_credential r) = Some e" "now 0 \<le> cac_expires_at e"
  shows "app_call en now up r st = (Served (Some (cac_device_id e)), st)"
  using assms by (simp add: app_call_def lock_dispatch_def auth_dispatch_def cache_lookup_def)


section \<open>Pairing tokens are used once\<close>

definition issues :: "string \<Rightarrow> request \<times> response \<Rightarrow> bool" where
  "issues token x \<longleftrightarrow> rq_call (fst x) = Issue token"

definition redeems :: "string \<Rightarrow> request \<times> response \<Rightarrow> bool" where
  "redeems token x \<longleftrightarrow>
     (case rq_call (fst x) of Redeem tok _ _ _ _ \<Rightarrow> tok = token | _ \<Rightarrow> False) \<and>
     (case snd x of Redeemed _ _ \<Rightarrow> True | _ \<Rightarrow> False)"

definition times_seen :: "('a \<Rightarrow> bool) \<Rightarrow> 'a list \<Rightarrow> nat" where
  "times_seen p xs = length (filter p xs)"

lemma times_seen_simps [simp]:
  "times_seen p [] = 0" "times_seen p (x # xs) = (if p x then Suc (times_seen p xs) else times_seen p xs)"
  by (simp_all add: times_seen_def)

definition open_token :: "string \<Rightarrow> app_state \<Rightarrow> nat" where
  "open_token token st = (case app_pairing_tokens st token of Some e \<Rightarrow> if tok_redeemed e then 0 else 1 | None \<Rightarrow> 0)"

lemma token_step:
  assumes "app_call en now up r st = (a, st1)"
  shows "(if redeems token (r, a) then 1 else 0) + open_token token st1
    \<le> (if issues token (r, a) then 1 else 0) + open_token token st"
proof (rule app_call_cases [of en now up r st])
  fix b st2 assume "app_call en now up r st = (b, st2)" "same_memory st st2" "b = Locked \<or> b = Server_Error \<or> (\<exists>m. b = Unauthorized m)"
  then show ?thesis using assms by (auto simp: redeems_def open_token_def same_memory_def)
next
  fix dev st2 assume *: "app_call en now up r st = endpoint_of en now up (rq_client r) (rq_call r) dev st2" "same_memory st st2"
  then have tok: "app_pairing_tokens st = app_pairing_tokens st2" by (simp add: same_memory_def)
  show ?thesis
  proof (cases "rq_call r")
    case (Issue tk)
    then show ?thesis using assms * tok
      by (auto simp: redeems_def issues_def open_token_def post_pairing_issue_def purge_expired_def Let_def
          split: option.splits if_splits)
  next
    case (Redeem tk label raw salt u)
    then show ?thesis using assms * tok
      by (auto simp: redeems_def issues_def open_token_def post_pairing_redeem_def purge_expired_def Let_def split: option.splits if_splits)
  qed (use assms * tok in \<open>auto simp: redeems_def issues_def open_token_def delete_device_def post_passphrase_validate_def
      post_unlock_initialize_def emit_system_unlocked_def Let_def split: option.splits if_splits prod.splits sum.splits\<close>)
qed

lemma tokens_run:
  "times_seen (redeems token) (fst (serve_all en xs st)) + open_token token (snd (serve_all en xs st))
    \<le> times_seen (issues token) (fst (serve_all en xs st)) + open_token token st"
proof (induction en xs st rule: serve_all.induct)
  case (2 en now up r xs st)
  obtain a st1 where a: "app_call en now up r st = (a, st1)" by fastforce
  show ?case using 2 [OF a [symmetric] refl] token_step [OF a, of token] by (auto simp: a split: prod.split)
next
  case (3 en xs st)
  then show ?case by (simp add: open_token_def restart_def)
qed simp

text \<open>C11. A pairing token makes at most one device for each time it was issued, whatever requests and restarts come
  between, in any order.\<close>

theorem pairing_token_used_once:
  assumes "app_pairing_tokens st token = None"
  shows "times_seen (redeems token) (fst (serve_all en xs st)) \<le> times_seen (issues token) (fst (serve_all en xs st))"
  using tokens_run [of token en xs st] assms by (simp add: open_token_def)

section \<open>Pairing gives access\<close>

lemma open_paths:
  "under_prefix ALWAYS_ALLOWED_PREFIXES (call_path (Issue t))"
  "under_prefix ALWAYS_ALLOWED_PREFIXES (call_path (Redeem t l raw salt u))"
  "under_prefix ALWAYS_ALLOWED_PREFIXES (call_path (Validate_Passphrase q))"
  "under_prefix ALWAYS_ALLOWED_PREFIXES (call_path (Initialize_Store q salt nonce))"
  by (simp_all add: under_prefix_def ALWAYS_ALLOWED_PREFIXES_def starts_with_def)

lemma app_call_open:
  assumes "under_prefix ALWAYS_ALLOWED_PREFIXES (call_path (rq_call r))"
  shows "app_call en now up r st = endpoint_of en now up (rq_client r) (rq_call r) None st"
  using assms allowed_is_exempt [OF assms] by (simp add: app_call_def lock_dispatch_def auth_dispatch_def)

lemma b64_char_not_pad: "n < 64 \<Longrightarrow> b64_char n \<noteq> CHR ''=''"
proof -
  have "\<forall>n \<in> set [0..<64]. b64_char n \<noteq> CHR ''=''" by (simp add: b64_char_def upt_rec nth_Cons')
  then show "n < 64 \<Longrightarrow> b64_char n \<noteq> CHR ''=''" by simp
qed

lemma credential_of_nonempty:
  assumes "length raw = 32"
  shows "credential_of raw \<noteq> []"
proof -
  obtain a b c cs where "raw = a # b # c # cs" using assms by (auto simp: numeral_eq_Suc length_Suc_conv)
  then obtain x xs where "urlsafe_b64encode raw = x # xs" "x \<noteq> CHR ''=''"
    by (simp add: b64_block_def b64_char_not_pad)
  then show ?thesis by (auto simp: credential_of_def dropWhile_eq_Nil_conv)
qed

lemma presented_bearer: "rq_authorization r = ''Bearer '' @ c \<Longrightarrow> presented_credential r = c"
  by (simp add: presented_credential_def starts_with_def)

lemma first_verified_hit:
  assumes "\<And>d. d \<in> set ds \<Longrightarrow> hs_verify h (pdv_credential_hash d) c \<noteq> Verify_Raises"
    and "\<exists>d \<in> set ds. hs_verify h (pdv_credential_hash d) c = Verified"
  shows "\<exists>u. first_verified h c ds = Inr (Some u)"
  using assms by (induction ds) (auto split: verification.splits)

text \<open>C12. Pairing works, and asks for nothing: while the secret store is unlocked, a client without a credential that
  issues a token and redeems it within a minute is answered with a credential, and that credential is accepted
  on every path.\<close>

theorem pairing_gives_access:
  assumes "\<forall>salt c. hs_verify (en_hasher en) (hs_hash (en_hasher en) salt c) c = Verified"
    and "app_devices st = Some ds" "\<forall>d \<in> set ds. hs_verify (en_hasher en) (pdv_credential_hash d) (credential_of raw) \<noteq> Verify_Raises"
    and "app_secret_store st = Some store" "is_unlocked store"
    and "timely t [Ask n1 up a, Ask n2 up b, Ask n3 up r]" "n2 4 \<le> n1 4 + seconds PAIRING_TOKEN_TTL_SECONDS"
    and "rq_call a = Issue token" "rq_call b = Redeem token label raw salt u" "rq_call r = Elsewhere p"
    and "token \<noteq> []" "length token \<le> 256" "length (get_or label []) \<le> 200" "length raw = 32"
    and "rq_authorization r = ''Bearer '' @ credential_of raw"
  shows "\<exists>e dev. fst (serve_all en [Ask n1 up a, Ask n2 up b, Ask n3 up r] st) =
    [(a, Issued token e), (b, Redeemed u (credential_of raw)), (r, Served dev)]"
proof -
  let ?h = "en_hasher en" and ?c = "credential_of raw" and ?e = "n1 4 + seconds PAIRING_TOKEN_TTL_SECONDS"
  let ?d = "\<lparr>pdv_id = u, pdv_credential_hash = hs_hash ?h salt ?c, pdv_label = label,
    pdv_created_at = n2 5, pdv_last_seen_at = n2 5, pdv_revoked_at = None\<rparr>"
  obtain st1 where one: "app_call en n1 up a st = (Issued token ?e, st1)"
    and st1: "app_pairing_tokens st1 token = Some \<lparr>tok_expires_at = ?e, tok_redeemed = False\<rparr>"
      "app_devices st1 = Some ds" "app_secret_store st1 = Some store"
    using assms(2,4,8) app_call_open [of a en n1 up st] open_paths(1) by (simp add: post_pairing_issue_def Let_def)
  have n: "n2 3 \<le> ?e" "n2 4 \<le> ?e" using assms(6,7) by (auto simp: ticks_def)
  obtain st2 where two: "app_call en n2 up b st1 = (Redeemed u ?c, st2)"
    and st2: "app_devices st2 = Some (ds @ [?d])" "app_secret_store st2 = Some store"
    using st1 n assms(9,11-13) app_call_open [of b en n2 up st1] open_paths(2)
    by (simp add: post_pairing_redeem_def purge_expired_def Let_def)
  have "\<exists>v. first_verified ?h ?c (filter live_device (ds @ [?d])) = Inr (Some v)"
    by (rule first_verified_hit) (use assms(1,3) in \<open>auto simp: live_device_def\<close>)
  then obtain v where v: "first_verified ?h ?c (filter live_device (ds @ [?d])) = Inr (Some v)" by blast
  have "\<exists>dev. fst (app_call en n3 up r st2) = Served dev"
    using st2 assms(5,10) v credential_of_nonempty [OF assms(14)]
    by (auto simp: app_call_def lock_dispatch_def auth_dispatch_def presented_bearer [OF assms(15)]
        validate_credential_against_db_def Let_def split: prod.split option.split)
  then obtain dev st3 where "app_call en n3 up r st2 = (Served dev, st3)" by (metis prod.collapse)
  then show ?thesis using one two by simp
qed

section \<open>Guessing the passphrase\<close>

definition wrong_guess :: "string \<Rightarrow> request \<times> response \<Rightarrow> bool" where
  "wrong_guess ip x \<longleftrightarrow>
     rq_client (fst x) = ip \<and> snd x = Http_Error 401 \<and>
     (case rq_call (fst x) of Validate_Passphrase _ \<Rightarrow> True | _ \<Rightarrow> False)"

definition right_guess :: "string \<Rightarrow> request \<times> response \<Rightarrow> bool" where
  "right_guess ip x \<longleftrightarrow> rq_client (fst x) = ip \<and> snd x = Passphrase_Valid"

text \<open>After \<open>n\<close> wrong guesses of a client since \<open>t0\<close>: each finished window took its full time and held at most ten.\<close>

definition guesses_ok :: "timestamp \<Rightarrow> nat \<Rightarrow> timestamp \<Rightarrow> attempts option \<Rightarrow> bool" where
  "guesses_ok t0 n now entry \<longleftrightarrow>
     (case entry of
        None \<Rightarrow> n = 0
      | Some e \<Rightarrow> \<exists>k \<ge> 0. t0 + k * seconds RATE_LIMIT_WINDOW_SECONDS \<le> lim_window_start e \<and> lim_window_start e \<le> now \<and>
                  int n \<le> 10 * k + lim_failures e \<and> 0 \<le> lim_failures e \<and> lim_failures e \<le> 10)"

lemmas rate_defs = RATE_LIMIT_WINDOW_SECONDS_def RATE_LIMIT_MAX_FAILURES_def seconds_def

lemma guesses_ok_later: "guesses_ok t0 n t e \<Longrightarrow> t \<le> u \<Longrightarrow> guesses_ok t0 n u e"
  by (auto simp: guesses_ok_def split: option.splits)

text \<open>The check starts a new window only when the last one is over, and lets a client pass with fewer than ten.\<close>

lemma check_rate_limit_ok:
  assumes "guesses_ok t0 n t entry" "t0 \<le> t" "t \<le> created" "created \<le> now" "check_rate_limit created now entry = (e, passes)"
  shows "guesses_ok t0 n now (Some e)"
    "passes \<Longrightarrow> guesses_ok t0 (Suc n) now (Some (e\<lparr>lim_failures := lim_failures e + 1\<rparr>))"
proof -
  let ?W = "seconds RATE_LIMIT_WINDOW_SECONDS"
  define f where "f = get_or entry \<lparr>lim_failures = 0, lim_window_start = created\<rparr>"
  have "\<exists>k \<ge> 0. t0 + k * ?W \<le> lim_window_start f \<and> lim_window_start f \<le> now \<and>
      int n \<le> 10 * k + lim_failures f \<and> 0 \<le> lim_failures f \<and> lim_failures f \<le> 10"
  proof (cases entry)
    case None
    then show ?thesis using assms(1-4) by (intro exI [of _ 0]) (simp add: f_def get_or_def guesses_ok_def)
  next
    case (Some x)
    then obtain k where k: "k \<ge> 0" "t0 + k * ?W \<le> lim_window_start x" "lim_window_start x \<le> t"
      "int n \<le> 10 * k + lim_failures x" "0 \<le> lim_failures x" "lim_failures x \<le> 10"
      using assms(1) by (auto simp: guesses_ok_def)
    then show ?thesis using Some assms(3,4) by (intro exI [of _ k]) (simp add: f_def get_or_def)
  qed
  then obtain k where k: "k \<ge> 0" "t0 + k * ?W \<le> lim_window_start f" "lim_window_start f \<le> now"
      "int n \<le> 10 * k + lim_failures f" "0 \<le> lim_failures f" "lim_failures f \<le> 10" by blast
  have e: "e = (if now - lim_window_start f > ?W then \<lparr>lim_failures = 0, lim_window_start = now\<rparr> else f)"
    "passes \<longleftrightarrow> lim_failures e < 10"
    using assms(5) by (auto simp: check_rate_limit_def f_def Let_def RATE_LIMIT_MAX_FAILURES_def split: if_splits)
  have "\<exists>k \<ge> 0. t0 + k * ?W \<le> lim_window_start e \<and> lim_window_start e \<le> now \<and>
      int n \<le> 10 * k + lim_failures e \<and> 0 \<le> lim_failures e \<and> lim_failures e \<le> 10"
  proof (cases "now - lim_window_start f > ?W")
    case True
    then have "t0 + (k + 1) * ?W \<le> now" using k by (simp add: rate_defs)
    then show ?thesis using True k e(1) by (intro exI [of _ "k + 1"]) simp
  next
    case False
    then show ?thesis using k e(1) by (intro exI [of _ k]) simp
  qed
  then obtain j where j: "j \<ge> 0" "t0 + j * ?W \<le> lim_window_start e" "lim_window_start e \<le> now"
      "int n \<le> 10 * j + lim_failures e" "0 \<le> lim_failures e" "lim_failures e \<le> 10" by blast
  then show "guesses_ok t0 n now (Some e)" unfolding guesses_ok_def by auto
  assume "passes"
  then show "guesses_ok t0 (Suc n) now (Some (e\<lparr>lim_failures := lim_failures e + 1\<rparr>))"
    unfolding guesses_ok_def option.case by (intro exI [of _ j]) (use j e(2) in simp)
qed

lemma guess_step:
  assumes "guesses_ok t0 n t (app_rate_limits st ip)" "t0 \<le> t" "ticks t now" "app_call en now up r st = (a, st1)"
    and "\<not> right_guess ip (r, a)"
  shows "guesses_ok t0 (n + (if wrong_guess ip (r, a) then 1 else 0)) (now 5) (app_rate_limits st1 ip)"
proof (rule app_call_cases [of en now up r st])
  have later: "guesses_ok t0 n (now 5) (app_rate_limits st ip)"
    by (rule guesses_ok_later [OF assms(1)]) (use assms(3) in \<open>simp add: ticks_def\<close>)
  {
    fix b st2 assume "app_call en now up r st = (b, st2)" "same_memory st st2" "b = Locked \<or> b = Server_Error \<or> (\<exists>m. b = Unauthorized m)"
    then show ?thesis using assms(4) later by (auto simp: wrong_guess_def same_memory_def)
  next
    fix dev st2 assume *: "app_call en now up r st = endpoint_of en now up (rq_client r) (rq_call r) dev st2" "same_memory st st2"
    then have lim: "app_rate_limits st2 = app_rate_limits st" by (simp add: same_memory_def)
    show ?thesis
    proof (cases "rq_call r")
      case (Validate_Passphrase q)
      have run: "post_passphrase_validate (en_crypto en) up now (rq_client r) q st2 = (a, st1)"
        using * assms(4) Validate_Passphrase by simp
      show ?thesis
      proof (cases "rq_client r = ip")
        case True
        obtain e passes where e: "check_rate_limit (now 3) (now 4) (app_rate_limits st ip) = (e, passes)" by fastforce
        have t: "t \<le> now 3" "now 3 \<le> now 4" "now 4 \<le> now 5" using assms(3) by (simp_all add: ticks_def)
        note checked = check_rate_limit_ok [OF assms(1,2) t(1,2) e]
        note ok = checked(1) [THEN guesses_ok_later, OF t(3)] checked(2) [THEN guesses_ok_later, OF _ t(3)]
        show ?thesis
          using run True later ok e lim Validate_Passphrase assms(5)
          by (auto simp: post_passphrase_validate_def wrong_guess_def right_guess_def Let_def
              split: option.splits if_splits prod.splits sum.splits)
      next
        case False
        then show ?thesis using run later lim
          by (auto simp: post_passphrase_validate_def wrong_guess_def emit_system_unlocked_def Let_def
              split: option.splits if_splits prod.splits sum.splits)
      qed
    qed (use assms(4) * later lim in \<open>auto simp: wrong_guess_def post_pairing_issue_def post_pairing_redeem_def
        delete_device_def post_unlock_initialize_def emit_system_unlocked_def Let_def
        split: option.splits if_splits prod.splits sum.splits\<close>)
  }
qed

lemma guesses_run:
  assumes "guesses_ok t0 n t (app_rate_limits st ip)" "t0 \<le> t" "timely t xs" "Restart \<notin> set xs"
    and "times_seen (right_guess ip) (fst (serve_all en xs st)) = 0"
  shows "guesses_ok t0 (n + times_seen (wrong_guess ip) (fst (serve_all en xs st))) (end_time t xs)
      (app_rate_limits (snd (serve_all en xs st)) ip)"
  using assms
proof (induction en xs st arbitrary: n t rule: serve_all.induct)
  case (2 en now up r xs st)
  obtain a st1 where a: "app_call en now up r st = (a, st1)" by fastforce
  have right: "\<not> right_guess ip (r, a)" "times_seen (right_guess ip) (fst (serve_all en xs st1)) = 0"
    using 2(6) by (auto simp: a split: prod.splits if_splits)
  have t: "ticks t now" "t0 \<le> now 5" "timely (now 5) xs" using 2(3,4) by (auto simp: ticks_def)
  have "guesses_ok t0 (n + (if wrong_guess ip (r, a) then 1 else 0) + times_seen (wrong_guess ip) (fst (serve_all en xs st1)))
      (end_time (now 5) xs) (app_rate_limits (snd (serve_all en xs st1)) ip)"
    using 2(1) [OF a [symmetric] refl guess_step [OF 2(2,3) t(1) a right(1)] t(2,3)] 2(5) right(2) by simp
  then show ?case by (auto simp: a split: prod.split)
qed auto

text \<open>C10. A client that never gives the right passphrase can try at most ten for every full quarter of an hour since
  the start of the process, and ten more: all further attempts are refused without a look at the secret store.\<close>

theorem passphrase_guesses_bounded:
  assumes "app_rate_limits st ip = None" "timely t xs" "Restart \<notin> set xs"
    and "times_seen (right_guess ip) (fst (serve_all en xs st)) = 0"
  shows "int (times_seen (wrong_guess ip) (fst (serve_all en xs st)))
    \<le> 10 * ((end_time t xs - t) div seconds RATE_LIMIT_WINDOW_SECONDS) + 10"
proof -
  let ?n = "times_seen (wrong_guess ip) (fst (serve_all en xs st))" and ?W = "seconds RATE_LIMIT_WINDOW_SECONDS"
  have ok: "guesses_ok t ?n (end_time t xs) (app_rate_limits (snd (serve_all en xs st)) ip)"
    using guesses_run [of t 0 t st ip xs en] assms by (simp add: guesses_ok_def)
  show ?thesis
  proof (cases "app_rate_limits (snd (serve_all en xs st)) ip")
    case None
    then show ?thesis using ok end_time_later [OF assms(2)] by (simp add: guesses_ok_def rate_defs)
  next
    case (Some e)
    then obtain k where k: "k \<ge> 0" "t + k * ?W \<le> end_time t xs" "int ?n \<le> 10 * k + 10"
      using ok by (fastforce simp: guesses_ok_def)
    have "k * ?W div ?W \<le> (end_time t xs - t) div ?W"
      using k(2) by (intro zdiv_mono1) (simp_all add: rate_defs)
    then show ?thesis using k(3) by (simp add: rate_defs)
  qed
qed

section \<open>A locked server stays closed\<close>

text \<open>The store holds passphrase \<open>p\<close> and is locked.\<close>

definition closed_with :: "crypto_api \<Rightarrow> string set \<Rightarrow> string \<Rightarrow> app_state \<Rightarrow> bool" where
  "closed_with c P p st \<longleftrightarrow>
     (\<exists>store a. app_secret_store st = Some store \<and> store_rel c P store a \<and> as_passphrase a = Some p \<and> \<not> as_open a)"

fun tries :: "input \<Rightarrow> string set" where
  "tries (Ask now up r) = (case rq_call r of Validate_Passphrase q \<Rightarrow> {q} | _ \<Rightarrow> {})"
| "tries Restart = {}"

lemma unlock_refused:
  assumes "crypto_ok c P" "store_rel c P store a" "as_passphrase a = Some p" "q \<in> P" "q \<noteq> p"
  shows "\<exists>x store1. unlock c q store = (Inl x, store1) \<and> store_rel c P store1 a"
proof -
  have "abstract_call (Unlock q) a = (Inl (if q = [] then CryptoValueError else WrongPassphraseError), a)"
    using assms(3,5) by simp
  then have "fst (unlock c q store) = Inl (if q = [] then CryptoValueError else WrongPassphraseError)"
    "store_rel c P (snd (unlock c q store)) a"
    using unlock_simulates(1) [OF assms(1,2,4)] by (simp_all add: simulates_def)
  then show ?thesis by (metis prod.collapse)
qed

lemma closed_not_unlocked: "closed_with c P p st \<Longrightarrow> app_secret_store st = Some store \<Longrightarrow> \<not> is_unlocked store"
  by (auto simp: closed_with_def is_unlocked_def store_rel_def)

lemma closed_step:
  assumes "crypto_ok (en_crypto en) P" "closed_with (en_crypto en) P p st" "app_call en now up r st = (a, st1)"
    and "tries (Ask now up r) \<subseteq> P - {p}"
  shows "closed_with (en_crypto en) P p st1 \<and>
    (under_prefix ALWAYS_ALLOWED_PREFIXES (call_path (rq_call r)) \<or> a = Locked)"
proof (cases "under_prefix ALWAYS_ALLOWED_PREFIXES (call_path (rq_call r))")
  case True
  obtain store x where store: "app_secret_store st = Some store" "store_rel (en_crypto en) P store x"
      "as_passphrase x = Some p" "\<not> as_open x"
    using assms(2) by (auto simp: closed_with_def)
  have run: "endpoint_of en now up (rq_client r) (rq_call r) None st = (a, st1)"
    using assms(3) app_call_open [OF True] by simp
  have "closed_with (en_crypto en) P p st1"
  proof (cases "rq_call r")
    case (Validate_Passphrase q)
    then obtain y store1 where "unlock (en_crypto en) q store = (Inl y, store1)" "store_rel (en_crypto en) P store1 x"
      using unlock_refused [OF assms(1) store(2,3), of q] assms(4) by auto
    then show ?thesis using run store Validate_Passphrase
      by (auto simp: post_passphrase_validate_def closed_with_def Let_def split: if_splits prod.splits)
  next
    case (Initialize_Store q salt nonce)
    have "initialize (en_crypto en) salt nonce q store = (Inl AlreadyInitializedError, store)"
      using store_rel_SomeE [OF store(2,3)] by (metis initialize_def option.distinct(1))
    then show ?thesis using run store Initialize_Store
      by (auto simp: post_unlock_initialize_def closed_with_def split: if_splits)
  qed (use run store in \<open>auto simp: closed_with_def post_pairing_issue_def post_pairing_redeem_def delete_device_def Let_def
      split: option.splits if_splits\<close>)
  with True show ?thesis by blast
next
  case False
  then have "app_call en now up r st = (Locked, st)"
    using assms(2) closed_not_unlocked [OF assms(2)]
    by (auto simp: app_call_def lock_dispatch_def closed_with_def)
  then show ?thesis using assms(2,3) by simp
qed

lemma closed_restart:
  assumes "crypto_ok c P" "closed_with c P p st"
  shows "closed_with c P p (restart st)"
proof -
  obtain store x where store: "app_secret_store st = Some store" "store_rel c P store x" "as_passphrase x = Some p" "\<not> as_open x"
    using assms(2) by (auto simp: closed_with_def)
  have "simulates c P (lock store) (abstract_call Lock x)" by (rule secrets_simulate(1) [OF assms(1) store(2)])
  moreover have "x\<lparr>as_open := False\<rparr> = x" using store(4) by simp
  ultimately have "store_rel c P (snd (lock store)) x" by (simp add: simulates_def)
  then show ?thesis using store by (auto simp: closed_with_def restart_def)
qed

text \<open>C9. While nobody gives the right passphrase, a locked server answers every request outside the
  seven open paths with 423: no sequence of pairing, revocation, initialisation, guesses and restarts opens it.\<close>

theorem locked_server_stays_closed:
  assumes "crypto_ok (en_crypto en) P" "closed_with (en_crypto en) P p st" "list_all (\<lambda>x. tries x \<subseteq> P - {p}) xs"
  shows "list_all (\<lambda>(r, a). under_prefix ALWAYS_ALLOWED_PREFIXES (call_path (rq_call r)) \<or> a = Locked) (fst (serve_all en xs st))"
  using assms(2,3)
proof (induction xs arbitrary: st)
  case (Cons x xs)
  show ?case
  proof (cases x)
    case (Ask now up r)
    obtain a st1 where a: "app_call en now up r st = (a, st1)" by fastforce
    have "tries (Ask now up r) \<subseteq> P - {p}" using Cons.prems(2) Ask by simp
    from closed_step [OF assms(1) Cons.prems(1) a this] Cons.IH [of st1] Cons.prems(2)
    show ?thesis by (auto simp: Ask a split: prod.split)
  next
    case Restart
    then show ?thesis using Cons closed_restart [OF assms(1) Cons.prems(1)] by simp
  qed
qed simp

end
