(* ===== verification/Examples_Access.thy ===== *)
theory Examples_Access
  imports Examples_Custody Device_Auth
begin

text \<open>
  The properties of the middlewares, of pairing and of the passphrase applied to a server with one paired phone,
  a hasher that keeps the text and the toy cipher.
\<close>

definition ex_api :: env where
  "ex_api = \<lparr>en_hasher = \<lparr>hs_hash = (\<lambda>salt c. c), hs_verify = (\<lambda>h c. if h = c then Verified else Refused)\<rparr>,
     en_crypto = ex_crypto\<rparr>"

definition ex_opened :: secret_store where
  "ex_opened = snd (run_calls (run_call ex_crypto) [Initialize (replicate 16 0) (replicate 12 0) ''pw''] empty_store)"

definition ex_locked :: secret_store where
  "ex_locked = snd (run_calls (run_call ex_crypto) [Initialize (replicate 16 0) (replicate 12 0) ''pw'', Lock] empty_store)"

definition ex_server :: app_state where
  "ex_server = \<lparr>app_pairing_tokens = Map.empty, app_credential_cache = Map.empty, app_rate_limits = Map.empty,
     app_devices = Some [\<lparr>pdv_id = 7, pdv_credential_hash = ''secret'', pdv_label = None,
       pdv_created_at = 0, pdv_last_seen_at = 0, pdv_revoked_at = None\<rparr>],
     app_secret_store = Some ex_opened, app_bus = Some [], app_auth_disabled = False\<rparr>"

definition ex_ask :: "api_call \<Rightarrow> string \<Rightarrow> request" where
  "ex_ask c credential = \<lparr>rq_call = c, rq_authorization = ''Bearer '' @ credential, rq_token = [], rq_client = ''10.0.0.2''\<rparr>"

definition ex_holdings :: request where
  "ex_holdings = ex_ask (Elsewhere ''/api/v1/holdings'') ''secret''"

lemma ex_holdings_path: "\<not> is_exempt (call_path (rq_call ex_holdings))" "\<not> is_exempt ''/api/v1/holdings''"
  by code_simp+

lemma ex_unlocked: "is_unlocked ex_opened"
  by code_simp

theorem only_paired_devices_pass_witness:
  "\<exists>rs st a st1. serve_all ex_api [Ask (\<lambda>_. 10) True ex_holdings] ex_server = (rs, st) \<and>
     app_call ex_api (\<lambda>_. 20) True ex_holdings st = (a, st1) \<and> a = Served (Some (uuid_str 7)) \<and>
     (\<exists>d \<in> set (get_or (app_devices st1) []). hs_verify (en_hasher ex_api) (pdv_credential_hash d) (presented_credential ex_holdings) = Verified \<and>
        (pdv_revoked_at d = None \<or> 20 \<le> the (pdv_revoked_at d) + seconds 300))"
proof -
  obtain rs st where run: "serve_all ex_api [Ask (\<lambda>_. 10) True ex_holdings] ex_server = (rs, st)" by fastforce
  obtain a st1 where ask: "app_call ex_api (\<lambda>_. 20) True ex_holdings st = (a, st1)" by fastforce
  have "fst (app_call ex_api (\<lambda>_. 20) True ex_holdings (snd (serve_all ex_api [Ask (\<lambda>_. 10) True ex_holdings] ex_server)))
      = Served (Some (uuid_str 7))"
    by code_simp
  then have a: "a = Served (Some (uuid_str 7))" using run ask by simp
  have "app_credential_cache ex_server = Map.empty" "\<not> app_auth_disabled ex_server" by (simp_all add: ex_server_def)
  moreover have "timely 0 ([Ask (\<lambda>_. 10) True ex_holdings] @ [Ask (\<lambda>_. 20) True ex_holdings])" by (simp add: ticks_def)
  ultimately show ?thesis
    using only_paired_devices_pass [OF _ _ _ run ask ex_holdings_path(1)] run ask a by blast
qed


theorem pairing_token_used_once_witness:
  "times_seen (redeems ''t'') (fst (serve_all ex_api
     [Ask (\<lambda>_. 10) True (ex_ask (Issue ''t'') ''''), Ask (\<lambda>_. 20) True (ex_ask (Redeem ''t'' None [] [] 8) ''''),
      Ask (\<lambda>_. 30) True (ex_ask (Redeem ''t'' None [] [] 9) '''')] ex_server)) \<le> 1"
proof -
  let ?xs = "[Ask (\<lambda>_. 10) True (ex_ask (Issue ''t'') ''''), Ask (\<lambda>_. 20) True (ex_ask (Redeem ''t'' None [] [] 8) ''''),
      Ask (\<lambda>_. 30) True (ex_ask (Redeem ''t'' None [] [] 9) '''')]"
  have "times_seen (issues ''t'') (fst (serve_all ex_api ?xs ex_server)) = 1"
    by (simp add: ex_ask_def issues_def split: prod.split)
  then show ?thesis using pairing_token_used_once [of ex_server "''t''" ex_api ?xs] by (simp add: ex_server_def)
qed

theorem pairing_gives_access_witness:
  "\<exists>e dev. fst (serve_all ex_api
     [Ask (\<lambda>_. 10) True (ex_ask (Issue ''t'') ''''), Ask (\<lambda>_. 20) True (ex_ask (Redeem ''t'' None (replicate 32 5) [] 8) ''''),
      Ask (\<lambda>_. 30) True (ex_ask (Elsewhere ''/api/v1/holdings'') (credential_of (replicate 32 5)))] ex_server) =
    [(ex_ask (Issue ''t'') '''', Issued ''t'' e), (ex_ask (Redeem ''t'' None (replicate 32 5) [] 8) '''', Redeemed 8 (credential_of (replicate 32 5))),
     (ex_ask (Elsewhere ''/api/v1/holdings'') (credential_of (replicate 32 5)), Served dev)]"
  by (rule pairing_gives_access [where t = 0 and store = ex_opened and label = None and salt = "[]"])
    (auto simp: ex_server_def ex_api_def ex_ask_def ex_unlocked ticks_def seconds_def PAIRING_TOKEN_TTL_SECONDS_def get_or_def)

definition ex_guess :: request where
  "ex_guess = ex_ask (Validate_Passphrase ''no'') ''''"

lemma ex_wrong_answers:
  "fst (serve_all ex_api [Ask (\<lambda>_. 10) True ex_guess, Ask (\<lambda>_. 20) True ex_guess] (ex_server\<lparr>app_secret_store := Some ex_locked\<rparr>)) =
    [(ex_guess, Http_Error 401), (ex_guess, Http_Error 401)]"
  by code_simp

theorem passphrase_guesses_bounded_witness:
  "int (times_seen (wrong_guess ''10.0.0.2'') (fst (serve_all ex_api [Ask (\<lambda>_. 10) True ex_guess, Ask (\<lambda>_. 20) True ex_guess]
     (ex_server\<lparr>app_secret_store := Some ex_locked\<rparr>)))) \<le> 10 * ((20 - 10) div seconds RATE_LIMIT_WINDOW_SECONDS) + 10"
proof -
  have "app_rate_limits (ex_server\<lparr>app_secret_store := Some ex_locked\<rparr>) ''10.0.0.2'' = None" by (simp add: ex_server_def)
  moreover have "timely 10 [Ask (\<lambda>_. 10) True ex_guess, Ask (\<lambda>_. 20) True ex_guess]" by (simp add: ticks_def)
  moreover have "times_seen (right_guess ''10.0.0.2'') (fst (serve_all ex_api [Ask (\<lambda>_. 10) True ex_guess, Ask (\<lambda>_. 20) True ex_guess]
     (ex_server\<lparr>app_secret_store := Some ex_locked\<rparr>))) = 0"
    unfolding ex_wrong_answers by (simp add: right_guess_def)
  ultimately show ?thesis
    using passphrase_guesses_bounded [of "ex_server\<lparr>app_secret_store := Some ex_locked\<rparr>" "''10.0.0.2''" 10
      "[Ask (\<lambda>_. 10) True ex_guess, Ask (\<lambda>_. 20) True ex_guess]" ex_api] by simp
qed

lemma ex_closed: "closed_with ex_crypto {''pw'', ''no''} ''pw'' (ex_server\<lparr>app_secret_store := Some ex_locked\<rparr>)"
proof -
  let ?xs = "[Initialize (replicate 16 0) (replicate 12 0) ''pw'', Lock]"
  have "store_rel ex_crypto {''pw'', ''no''} (snd (run_calls (run_call ex_crypto) ?xs empty_store)) (snd (run_calls abstract_call ?xs empty_abstract))"
    using calls_simulate [OF ex_crypto_ok empty_store_rel, of ?xs] by (simp add: KDF_SALT_SIZE_def GCM_NONCE_SIZE_def)
  moreover have "as_passphrase (snd (run_calls abstract_call ?xs empty_abstract)) = Some ''pw''"
    "\<not> as_open (snd (run_calls abstract_call ?xs empty_abstract))"
    by (simp_all add: empty_abstract_def)
  ultimately show ?thesis unfolding closed_with_def ex_locked_def by auto
qed

theorem locked_server_stays_closed_witness:
  "list_all (\<lambda>(r, a). under_prefix ALWAYS_ALLOWED_PREFIXES (call_path (rq_call r)) \<or> a = Locked)
     (fst (serve_all ex_api [Ask (\<lambda>_. 10) True ex_guess, Restart, Ask (\<lambda>_. 20) True ex_holdings]
       (ex_server\<lparr>app_secret_store := Some ex_locked\<rparr>)))"
  by (rule locked_server_stays_closed [where P = "{''pw'', ''no''}" and p = "''pw''"])
    (use ex_closed ex_crypto_ok in \<open>simp_all add: ex_api_def ex_guess_def ex_holdings_def ex_ask_def\<close>)

end
