(* ===== verification/System.thy ===== *)
theory System
  imports Self_Custody Chain_Scan
begin

text \<open>
  The whole application as one transition system: the request handlers of the payments, invoices
  and sweep policies, the threshold engine, the self-custody poller, the rescan of a descriptor
  and the listener's visits interleave on one database.
  The invariants of the components hold together, because each step leaves the tables of the
  others alone or changes them in ways their invariant allows.
\<close>

section \<open>Tables an operation leaves alone\<close>

definition keeps :: "('s \<Rightarrow> 'x) \<Rightarrow> ('e, 's, 'a) svc \<Rightarrow> bool" where
  "keeps view m \<longleftrightarrow> (\<forall>s. view (snd (m s)) = view s)"

lemma keepsD: "keeps view m \<Longrightarrow> m s = (r, t) \<Longrightarrow> view t = view s"
  by (metis keeps_def snd_conv)

named_theorems keeps_intros

lemma keeps_basic [keeps_intros]:
  "keeps view (ret x)" "keeps view (raise e)" "keeps view (gets f)" "keeps view (lift_result r)"
  "keeps view (raise_if c e)" "keeps view (readr g)"
  by (simp_all add: keeps_def ret_def raise_def gets_def lift_result_def raise_if_def readr_def)

lemma keeps_modify [keeps_intros]: "(\<And>s. view (f s) = view s) \<Longrightarrow> keeps view (modify f)"
  by (simp add: keeps_def modify_def)

lemma keeps_bnd [keeps_intros]:
  assumes "keeps view m" "\<And>x. keeps view (f x)"
  shows "keeps view (bnd m f)"
  unfolding keeps_def bnd_def using keepsD [OF assms(1)] keepsD [OF assms(2)]
  by (auto split: prod.split sum.split) (metis snd_conv surj_pair)

lemma keeps_commit [keeps_intros]: "keeps view m \<Longrightarrow> keeps view (commit_on_success m)"
  unfolding keeps_def commit_on_success_def by (auto split: prod.splits sum.splits) (metis snd_conv)

lemma keeps_found_or [keeps_intros]: "keeps view (found_or x e)"
  by (simp add: keeps_def svc_defs)

section \<open>Frames of the components\<close>

text \<open>The tables the invariants of the other components speak of.\<close>

definition beside_policies where
  "beside_policies s = (utxos s, onchain_transactions s, ledger_entries s, ledger_links s,
     descriptors s, payment_requests s, broadcast_attempts s, invoices s)"

lemma keeps_sp_write: "keeps beside_policies (sp_write pid f)"
  by (auto simp: keeps_def sp_write_def beside_policies_def split: option.split)

lemma keeps_sp_delete: "keeps beside_policies (sp_delete pid)"
  by (auto simp: keeps_def sp_delete_def beside_policies_def split: option.split)

lemma keeps_get_sweep_policy: "keeps beside_policies (get_sweep_policy pid)"
  unfolding get_sweep_policy_def by (intro keeps_intros)

lemma keeps_pause_all: "keeps beside_policies (pause_all now)"
  by (simp add: keeps_def pause_all_def beside_policies_def)

lemma keeps_sp_create: "keeps beside_policies (modify (sp_create p))"
  by (rule keeps_modify) (simp add: sp_create_def beside_policies_def)

lemmas keeps_policy_ops = keeps_sp_write keeps_sp_delete keeps_get_sweep_policy keeps_pause_all
  keeps_sp_create

lemma policy_step_frame: "policy_step s t \<Longrightarrow> beside_policies t = beside_policies s"
  by (erule policy_stepE; erule keepsD [rotated])
     (auto simp: create_sweep_policy_def update_sweep_policy_def delete_sweep_policy_def
       enable_sweep_policy_def disable_sweep_policy_def acknowledge_warnings_def update_policy_def
       set_enabled_def acknowledge_all_warnings_def
       intro!: keeps_intros keeps_policy_ops)

text \<open>The engine writes executions only.\<close>

definition beside_executions where
  "beside_executions s = (beside_policies s, sweep_policies s)"

lemma keeps_update_status: "keeps beside_executions (update_status eid st f)"
  by (auto simp: keeps_def update_status_def beside_executions_def beside_policies_def split: option.split)

lemma keeps_se_create: "keeps beside_executions (modify (se_create e))"
  by (rule keeps_modify) (simp add: se_create_def beside_executions_def beside_policies_def)

lemma keeps_process_policy: "keeps beside_executions (process_policy eid now b p)"
  unfolding process_policy_def
  by (auto intro!: keeps_intros keeps_update_status keeps_se_create)

lemma keeps_process_policies: "keeps beside_executions (process_policies eids now b ps)"
proof (induction ps)
  case Nil
  then show ?case by (simp add: keeps_def)
next
  case (Cons p ps)
  have "process_policies eids now b (p # ps) =
      bnd (process_policy (eids (sp_id p)) now b p) (\<lambda>_. process_policies eids now b ps)"
    by (rule ext) simp
  then show ?case using Cons by (auto intro!: keeps_intros keeps_process_policy)
qed

lemma engine_frame: "beside_executions (on_balance_updated eids now hid b s) = beside_executions s"
proof -
  have "keeps beside_executions (commit_on_success (process_threshold_policies eids now h x))" for h x
    unfolding process_threshold_policies_def by (auto intro!: keeps_intros keeps_process_policies)
  then show ?thesis
    by (auto simp: on_balance_updated_def keeps_def split: option.split)
qed

text \<open>The invoice handlers write invoices and address labels only.\<close>

definition beside_invoices where
  "beside_invoices s = (utxos s, onchain_transactions s, ledger_entries s, ledger_links s,
     descriptors s, payment_requests s, broadcast_attempts s, sweep_policies s)"

lemma keeps_inv_write: "keeps beside_invoices (inv_write iid f)"
  by (auto simp: keeps_def inv_write_def beside_invoices_def split: option.split)

lemma keeps_inv_cancel: "keeps beside_invoices (inv_cancel iid)"
  using keeps_inv_write unfolding keeps_def by (auto simp: inv_cancel_def split: option.split)

lemma keeps_update_address_label: "keeps beside_invoices (update_address_label aid l)"
  by (auto simp: keeps_def update_address_label_def beside_invoices_def split: option.split)

lemma keeps_inv_insert: "keeps beside_invoices (modify (inv_insert i))"
  by (rule keeps_modify) (simp add: inv_insert_def beside_invoices_def)

lemma keeps_create_invoice:
  "keeps beside_invoices (create_invoice iid now label hid amount description)"
  unfolding create_invoice_def
  by (auto intro!: keeps_intros keeps_update_address_label keeps_inv_insert split: option.split list.split)

lemma cancel_invoice_frame:
  assumes "api_cancel_invoice iid s = (r, t)"
  shows "beside_invoices t = beside_invoices s"
proof -
  obtain r0 u where u: "inv_cancel iid s = (r0, u)" by fastforce
  then have "beside_invoices u = beside_invoices s" by (rule keepsD [OF keeps_inv_cancel])
  then show ?thesis
    using assms u by (auto simp: api_cancel_invoice_def split: sum.splits option.splits exn.splits)
qed

lemma invoice_step_frame:
  assumes "invoice_step s t"
  shows "beside_invoices t = beside_invoices s"
  using assms
proof cases
  case (create iid now label hid amount description r)
  then show ?thesis
    unfolding api_create_invoice_def by (elim keepsD [rotated]) (intro keeps_intros keeps_create_invoice)
next
  case (cancel iid r)
  then show ?thesis by (blast intro: cancel_invoice_frame)
next
  case (pay iid eid overpaid r)
  then show ?thesis unfolding mark_paid_def by (elim keepsD [rotated]) (rule keeps_inv_write)
qed

text \<open>The payment handlers write payment requests and broadcast attempts only.\<close>

definition beside_payments where
  "beside_payments s = (utxos s, onchain_transactions s, ledger_entries s, ledger_links s,
     descriptors s, invoices s, sweep_policies s)"

lemma keeps_pr_write: "keeps beside_payments (pr_write rid f)"
  by (auto simp: keeps_def pr_write_def beside_payments_def split: option.split)

lemma keeps_pr_cancel: "keeps beside_payments (pr_cancel now rid)"
  using keeps_pr_write unfolding keeps_def by (auto simp: pr_cancel_def split: option.split)

lemma keeps_pr_insert: "keeps beside_payments (pr_insert p)"
  by (simp add: keeps_def pr_insert_def beside_payments_def)

lemma keeps_attempts:
  "keeps beside_payments (modify (insert_broadcast_attempt now aid rid hex txid st reason))"
  "keeps beside_payments (modify (update_broadcast_attempt now aid st reason))"
  by (auto intro!: keeps_modify simp: insert_broadcast_attempt_def update_broadcast_attempt_def
      beside_payments_def)

lemma keeps_require: "keeps beside_payments (require x)"
  by (simp add: keeps_def svc_defs)

lemmas keeps_payment_ops = keeps_pr_write keeps_pr_insert keeps_attempts keeps_require

lemma keeps_api_create: "keeps beside_payments (api_create_payment_request env rid now po)"
  unfolding api_create_payment_request_def build_payment_request_def Let_def
  by (auto intro!: keeps_intros keeps_payment_ops split: option.split list.split)

lemma keeps_api_submit: "keeps beside_payments (api_submit_signed_payment bdk now rid psbt hex)"
  unfolding api_submit_signed_payment_def submit_signed_payment_request_def mark_signed_def
  by (auto intro!: keeps_intros keeps_payment_ops split: option.split prod.split)

lemma keeps_broadcast: "keeps beside_payments (broadcast_payment_request node bdk aid now rid)"
  unfolding broadcast_payment_request_def mark_broadcast_def
  by (auto intro!: keeps_intros keeps_payment_ops split: option.split sum.split node_exn.split)

lemma keeps_api_broadcast: "keeps beside_payments (api_broadcast_payment node bdk aid now rid)"
  unfolding keeps_def
proof
  fix s
  obtain r t where "broadcast_payment_request node bdk aid now rid s = (r, t)" by fastforce
  then show "beside_payments (snd (api_broadcast_payment node bdk aid now rid s)) = beside_payments s"
    using keepsD [OF keeps_broadcast] by (auto simp: api_broadcast_payment_def split: sum.split)
qed

lemma keeps_api_cancel: "keeps beside_payments (api_cancel_payment_request now rid)"
proof -
  have "keeps beside_payments (\<lambda>s. case pr_cancel now rid s of
       (Inl (ValueError _), t) \<Rightarrow> (Inl WrongStatusForOperation, t)
     | (Inl e, t) \<Rightarrow> (Inl e, t)
     | (Inr cancelled, t) \<Rightarrow> require cancelled t)"
    unfolding keeps_def
  proof
    fix s
    obtain r t where "pr_cancel now rid s = (r, t)" by fastforce
    then show "beside_payments (snd (case pr_cancel now rid s of
       (Inl (ValueError _), t) \<Rightarrow> (Inl WrongStatusForOperation, t)
     | (Inl e, t) \<Rightarrow> (Inl e, t)
     | (Inr cancelled, t) \<Rightarrow> require cancelled t)) = beside_payments s"
      using keepsD [OF keeps_pr_cancel] by (auto simp: svc_defs split: sum.split exn.split)
  qed
  then show ?thesis
    unfolding api_cancel_payment_request_def cancel_payment_request_def
    by (intro keeps_intros keeps_require)
qed

text \<open>A scan writes the books only, and ledger entries are only added.\<close>

definition scan_frame :: "db \<Rightarrow> db \<Rightarrow> bool" where
  "scan_frame s t \<longleftrightarrow> payment_requests t = payment_requests s \<and> broadcast_attempts t = broadcast_attempts s \<and>
     invoices t = invoices s \<and> sweep_policies t = sweep_policies s \<and> set (ledger_entries s) \<subseteq> set (ledger_entries t)"

definition scans :: "('e, db, 'a) svc \<Rightarrow> bool" where
  "scans m \<longleftrightarrow> (\<forall>s. scan_frame s (snd (m s)))"

lemma scan_frame_refl [simp]: "scan_frame s s"
  by (simp add: scan_frame_def)

lemma scansI: "(\<And>s. scan_frame s (snd (m s))) \<Longrightarrow> scans m"
  by (simp add: scans_def)

named_theorems scans_intros

lemma scans_basic [scans_intros]:
  "scans (ret x)" "scans (raise e)" "scans (gets f)" "scans (lift_result r)" "scans (readr g)"
  by (simp_all add: scans_def ret_def raise_def gets_def lift_result_def readr_def)

lemma scans_modify [scans_intros]: "(\<And>s. scan_frame s (f s)) \<Longrightarrow> scans (modify f)"
  by (simp add: scans_def modify_def)

lemma scans_bnd [scans_intros]:
  assumes "scans m" "\<And>x. scans (f x)"
  shows "scans (bnd m f)"
proof (rule scansI)
  fix s
  obtain r u where m: "m s = (r, u)" by fastforce
  then have "scan_frame s u" using assms(1) by (metis scans_def snd_conv)
  moreover have "scan_frame u (snd (f x u))" for x using assms(2) by (simp add: scans_def)
  ultimately show "scan_frame s (snd (bnd m f s))"
    using m by (cases r) (force simp: bnd_def scan_frame_def)+
qed

lemma scans_upserts: "scans (utxo_upsert_unspent uid now did aid txid vout v h)" "scans (onchain_upsert now txid f)"
  by (auto simp: scans_def scan_frame_def utxo_upsert_unspent_def onchain_upsert_def Let_def split: selected.split option.split)

lemma scans_flags: "scans (apply_flags_and_propagate_reuse u c)"
  by (auto simp: scans_def scan_frame_def apply_flags_and_propagate_reuse_def propagate_address_reuse_def Let_def split: sum.split)

lemma scans_hygiene: "scans (compute_and_apply_hygiene dr k d uid)"
proof (rule scansI)
  fix s
  have "scans (bnd (apply_flags_and_propagate_reuse u c) (\<lambda>_. ret ()))" for u c
    by (intro scans_bnd scans_flags scans_basic)
  then have "scan_frame s (snd (bnd (apply_flags_and_propagate_reuse u c) (\<lambda>_. ret ()) s))" for u c
    by (simp add: scans_def)
  then show "scan_frame s (snd (compute_and_apply_hygiene dr k d uid s))"
    by (simp add: compute_and_apply_hygiene_def split: option.split)
qed

lemma scans_entry: "scans (maybe_create_ledger_entry dr k d txid amount)"
  unfolding maybe_create_ledger_entry_def
  by (auto intro!: scans_intros simp: scan_frame_def le_insert_def split: option.split)

lemma scans_unspents: "scans (scan_unspents dr d index c us n)"
proof (induction us arbitrary: n)
  case Nil
  then show ?case by (simp add: scans_def ret_def)
next
  case (Cons u us)
  have "scans (scan_unspent dr d index c u n)"
    unfolding scan_unspent_def record_scanned_def
    by (auto intro!: scans_intros scans_upserts scans_hygiene scans_entry split: option.split)
  moreover have "scan_unspents dr d index c (u # us) n = bnd (scan_unspent dr d index c u n) (scan_unspents dr d index c us)"
    by (rule ext) simp
  ultimately show ?case using Cons by (simp only:) (rule scans_bnd)
qed

lemma scans_branches: "scans (scan_branches rpc dr d index bs n)"
proof (induction bs arbitrary: n)
  case Nil
  then show ?case by (simp add: scans_def ret_def)
next
  case (Cons b bs)
  have "scans (scan_branch rpc dr d index b n)"
    by (auto simp: scan_branch_def intro!: scans_intros scans_unspents split: sum.split node_exn.split)
  moreover have "scan_branches rpc dr d index (b # bs) n = bnd (scan_branch rpc dr d index b n) (scan_branches rpc dr d index bs)"
    by (rule ext) simp
  ultimately show ?case using Cons by (simp only:) (rule scans_bnd)
qed

lemma rescan_frame: "api_rescan_descriptor rpc dr did s = (r, t) \<Longrightarrow> scan_frame s t"
proof -
  have "scans (initial_scan rpc dr d)" for d
    unfolding initial_scan_def Let_def by (auto intro!: scans_intros scans_branches simp: scan_frame_def)
  then have "scan_frame s (snd (initial_scan rpc dr d s))" for d by (simp add: scans_def)
  moreover assume "api_rescan_descriptor rpc dr did s = (r, t)"
  ultimately show "scan_frame s t"
    by (auto simp: api_rescan_descriptor_def split: sum.splits option.splits prod.splits) (metis snd_conv)
qed

section \<open>The system\<close>

inductive system_step :: "'p bdk_api \<Rightarrow> db \<Rightarrow> db \<Rightarrow> bool" for bdk where
  create_payment: "rid \<notin> pr_id ` set (payment_requests s) \<Longrightarrow> env_bdk env = bdk \<Longrightarrow>
    api_create_payment_request env rid now po s = (r, t) \<Longrightarrow> system_step bdk s t"
| submit_signed: "api_submit_signed_payment bdk now rid psbt hex s = (r', t) \<Longrightarrow> system_step bdk s t"
| broadcast_payment: "aid \<notin> ba_id ` set (broadcast_attempts s) \<Longrightarrow>
    api_broadcast_payment node bdk aid now rid s = (r', t) \<Longrightarrow> system_step bdk s t"
| cancel_payment: "api_cancel_payment_request now rid s = (r', t) \<Longrightarrow> system_step bdk s t"
| create_invoice: "iid \<notin> i_id ` set (invoices s) \<Longrightarrow>
    api_create_invoice iid now label hid amount description s = (i, t) \<Longrightarrow> system_step bdk s t"
| cancel_invoice: "api_cancel_invoice iid s = (i', t) \<Longrightarrow> system_step bdk s t"
| policy: "policy_step s t \<Longrightarrow> system_step bdk s t"
| balance_updated: "t = on_balance_updated eids now holding balance s \<Longrightarrow> system_step bdk s t"
| poll_policy: "sw_execution_id dr \<notin> se_id ` set (sweep_executions s) \<Longrightarrow>
    sw_request_id dr \<notin> pr_id ` set (payment_requests s) \<Longrightarrow> env_bdk env = bdk \<Longrightarrow> poll_policy env dr p s = (r'', t) \<Longrightarrow>
    system_step bdk s t"
| rescan: "get_descriptor s did = Inr (Some d) \<Longrightarrow> ids_free sdr 0 s \<Longrightarrow> answers_ok rpc s d \<Longrightarrow>
    api_rescan_descriptor rpc sdr did s = (rr, t) \<Longrightarrow> system_step bdk s t"
| visit: "tx_ok tx height \<Longrightarrow> draws_ok s dr \<Longrightarrow> tx_session dr now tx height fee s = (v, t) \<Longrightarrow>
    system_step bdk s t"

definition system_inv :: "db \<Rightarrow> bool" where
  "system_inv s \<longleftrightarrow> books_inv s \<and> payments_inv s \<and> reservation_inv s \<and> policy_inv s"

declare system_inv_def [inv_defs]

text \<open>What each invariant depends on.\<close>

lemma books_inv_cong:
  assumes "utxos t = utxos s" "onchain_transactions t = onchain_transactions s"
    "ledger_entries t = ledger_entries s" "ledger_links t = ledger_links s" "descriptors t = descriptors s"
  shows "books_inv t = books_inv s"
  using assms by (simp add: books_inv_def utxo_inv_def onchain_inv_def ledger_inv_def links_of_tx_def)

lemma reservation_inv_cong: "invoices t = invoices s \<Longrightarrow> reservation_inv t = reservation_inv s"
  by (simp add: reservation_inv_def reserved_address_ids_def)

lemma policy_inv_cong: "sweep_policies t = sweep_policies s \<Longrightarrow> policy_inv t = policy_inv s"
  by (simp add: policy_inv_def)

lemma payments_inv_cong:
  assumes "payments_inv s" "payment_requests t = payment_requests s"
    "broadcast_attempts t = broadcast_attempts s" "ledger_entries t = ledger_entries s"
  shows "payments_inv t"
  using assms(1,2)
  by (rule payments_inv_same) (simp add: keeps_records_def entry_for_def assms(3,4))

lemma payment_frame_system:
  assumes "system_inv s" "payment_change s t" "beside_payments t = beside_payments s"
  shows "system_inv t"
  using assms payment_change_keeps [of s t] books_inv_cong [of t s] reservation_inv_cong [of t s]
    policy_inv_cong [of t s]
  by (simp add: system_inv_def beside_payments_def)

lemma invoice_frame_system:
  assumes "system_inv s" "invoice_step s t"
  shows "system_inv t"
  using assms invoice_step_keeps [of s t] invoice_step_frame [of s t] books_inv_cong [of t s]
    payments_inv_cong [of s t] policy_inv_cong [of t s]
  by (simp add: system_inv_def beside_invoices_def)

lemma policy_frame_system:
  assumes "system_inv s" "policy_step s t"
  shows "system_inv t"
  using assms policy_step_keeps [of s t] policy_step_frame [of s t] books_inv_cong [of t s]
    payments_inv_cong [of s t] reservation_inv_cong [of t s]
  by (simp add: system_inv_def beside_policies_def)

lemma engine_frame_system:
  assumes "system_inv s"
  shows "system_inv (on_balance_updated eids now hid b s)"
proof -
  let ?t = "on_balance_updated eids now hid b s"
  show ?thesis
    using assms engine_frame [of eids now hid b s] books_inv_cong [of ?t s] payments_inv_cong [of s ?t]
      reservation_inv_cong [of ?t s] policy_inv_cong [of ?t s]
    by (simp add: system_inv_def beside_executions_def beside_policies_def)
qed

text \<open>A sweep of the self-custody poller writes an execution, and possibly a payment request.\<close>

lemma added_execution_system: "system_inv s \<Longrightarrow> system_inv (added_execution x s)"
  using books_inv_cong [of "added_execution x s" s] reservation_inv_cong [of "added_execution x s" s]
    policy_inv_cong [of "added_execution x s" s] payments_inv_cong [of s "added_execution x s"]
  by (simp add: system_inv_def added_execution_def)

lemma swept_lifecycle:
  assumes "PaymentRequest (swept dr p amount a psbt) = Inr (swept dr p amount a psbt)"
  shows "lifecycle_ok (swept dr p amount a psbt)"
  using assms by (simp add: lifecycle_ok_def) (simp add: swept_def new_payment_request_def)

lemma sweep_system:
  assumes inv: "system_inv s" and rid: "sw_request_id dr \<notin> pr_id ` set (payment_requests s)"
    and swept: "swept_to dr p balance amount s r t"
  shows "system_inv t"
  using swept
proof cases
  case (created a psbt)
  let ?s1 = "added_execution (initial_execution dr p balance amount) s"
  let ?q = "swept dr p amount a psbt"
  have q: "pr_id ?q = sw_request_id dr" "pr_holding_id ?q = sp_source_holding_id p" "pr_status ?q = PS_AWAITING_SIGNATURE"
    by (simp_all add: swept_def new_payment_request_def sweep_order_def)
  have "payment_change ?s1 t"
  proof (rule payment_change.opened)
    show "payment_requests t = payment_requests ?s1 @ [?q]" by (simp add: created(2))
    show "keeps_records ?s1 t" by (simp add: created(2) keeps_records_def entry_for_def)
    show "pr_id ?q \<notin> pr_id ` set (payment_requests ?s1)" using rid by (simp add: q(1))
    show "\<not> has_in_flight_for_holding ?s1 (pr_holding_id ?q)" using created(5) by (simp add: q(2))
  qed (rule q(3), rule swept_lifecycle [OF created(6)])
  moreover have "beside_payments t = beside_payments ?s1" by (simp add: created(2) beside_payments_def)
  ultimately show ?thesis using added_execution_system [OF inv] by (blast intro: payment_frame_system)
qed (simp_all add: inv added_execution_system)

lemma poll_system:
  assumes "system_inv s" "sw_execution_id dr \<notin> se_id ` set (sweep_executions s)"
    "sw_request_id dr \<notin> pr_id ` set (payment_requests s)" "poll_policy env dr p s = (r, t)"
  shows "system_inv t"
  using poll_policy_effect [OF assms(4,2,3)] assms(1) sweep_system [OF assms(1,3)] by blast

lemma rescan_system:
  assumes inv: "system_inv s" and ok: "get_descriptor s did = Inr (Some d)" "ids_free dr 0 s" "answers_ok rpc s d"
    and run: "api_rescan_descriptor rpc dr did s = (r, t)"
  shows "system_inv t"
proof -
  have frame: "scan_frame s t" using run by (rule rescan_frame)
  have "books_inv s" using inv by (simp add: system_inv_def)
  from rescan_effect [OF ok(1) this ok(2,3) refl] have "books_inv t"
    using run by (metis books_inv_scanned prod.inject scan_effect_def)
  moreover have "payments_inv t"
    using inv frame payments_inv_same [of s t]
    by (auto simp: system_inv_def scan_frame_def keeps_records_def entry_for_def)
  ultimately show ?thesis
    using inv frame reservation_inv_cong [of t s] policy_inv_cong [of t s] by (simp add: system_inv_def scan_frame_def)
qed

lemma visit_keeps_reservations:
  assumes "reservation_inv s" "invoices_after tx s t"
  shows "reservation_inv t"
  using assms(2) unfolding invoices_after_def
proof (elim disjE bexE exE conjE)
  assume "invoices t = invoices s"
  then show ?thesis using assms(1) reservation_inv_cong by blast
next
  fix out i v eid over
  assume t: "invoices t = update_rows i_id (i_id i) (paid_row eid over) (invoices s)"
  obtain r u where m: "mark_paid (i_id i) eid over s = (r, u)" by fastforce
  then have "u = invoices_update (update_rows i_id (i_id i) (paid_row eid over)) s"
    unfolding mark_paid_def by (rule inv_write_effect) (simp add: paid_row_def)
  with m have "mark_paid (i_id i) eid over s =
      (r, invoices_update (update_rows i_id (i_id i) (paid_row eid over)) s)" by simp
  then have "reservation_inv (invoices_update (update_rows i_id (i_id i) (paid_row eid over)) s)"
    using assms(1) by (blast intro: invoice_step_keeps invoice_step.pay)
  then show ?thesis
    using t by (subst reservation_inv_cong
        [of t "invoices_update (update_rows i_id (i_id i) (paid_row eid over)) s"]) simp_all
qed

lemma visit_system:
  assumes inv: "system_inv s" and tx: "tx_ok tx height" "draws_ok s dr"
    and run: "tx_session dr now tx height fee s = (v, t)"
  shows "system_inv t"
proof (cases v)
  case (Inl e)
  then have "t = s" using run by (auto simp: tx_session_def dest: commit_on_success_InlD)
  then show ?thesis using inv by simp
next
  case (Inr x)
  obtain res a b c where x: "x = (res, a, b, c)" by (cases x)
  note session = run [unfolded Inr x]
  from tx_session_effect [OF session] obtain u where
    u: "process_decoded_transaction dr tx height (dt_blocktime tx) fee s = (Inr res, u)"
    "books_of t = books_of u" "invoices_after tx s t" by blast
  have "sweep_policies t = sweep_policies s"
    using process_frame [OF u(1)] books_of_simps(8) [OF u(2)] by (simp add: outside_books_def)
  then have "policy_inv t" using inv policy_inv_cong [of t s] by (simp add: system_inv_def)
  moreover have "books_inv t"
    using tx_session_books [OF _ tx session] inv by (simp add: system_inv_def)
  moreover have "payments_inv t"
    using inv payment_change_keeps [OF _ visit_change [OF run]] by (simp add: system_inv_def)
  moreover have "reservation_inv t"
    using inv visit_keeps_reservations [OF _ u(3)] by (simp add: system_inv_def)
  ultimately show ?thesis by (simp add: system_inv_def)
qed

lemma system_step_keeps: "system_inv s \<Longrightarrow> system_step bdk s t \<Longrightarrow> system_inv t"
proof (erule system_step.cases)
  fix rid s' env now po r t'
  assume "system_inv s" "s = s'" "t = t'" "rid \<notin> pr_id ` set (payment_requests s')"
    "api_create_payment_request (env :: 'a banking_env) rid now po s' = (r, t')"
  then show "system_inv t"
    by (blast intro: payment_frame_system create_change keepsD [OF keeps_api_create])
qed (blast intro: payment_frame_system submit_change broadcast_change cancel_change visit_system
    keepsD [OF keeps_api_submit] keepsD [OF keeps_api_broadcast] keepsD [OF keeps_api_cancel]
    invoice_frame_system invoice_step.create invoice_step.cancel policy_frame_system
    engine_frame_system poll_system rescan_system)+

interpretation system: invariant_system "system_step bdk" system_inv for bdk
  by unfold_locales (rule system_step_keeps)

end
