(* ===== verification/Spec2Isabelle.thy ===== *)
theory Spec2Isabelle
  imports Examples_Accounts Examples_Scan Examples_Sweeps Examples_Descriptors Examples_Events Examples_Access System
begin

text \<open>
  TallyKeep keeps the books of a person's bitcoin: it watches the wallets (holdings) a user has declared,
  records what the chain does to them in a ledger, prepares and broadcasts payments, hands out invoice
  addresses, sweeps exchange balances into self custody by policy, and lists security-health items to
  settle.  This library models the backend under \<^verbatim>\<open>src/backend/tallykeep\<close>.

  \<^bold>\<open>How the program is put together.\<close>  FastAPI handlers (\<^verbatim>\<open>api/v1\<close>) open a database session, call services
  (\<^verbatim>\<open>services\<close>), which call repositories (\<^verbatim>\<open>repositories\<close>) and adapters (\<^verbatim>\<open>adapters\<close>), and commit or roll back.
  Workers (\<^verbatim>\<open>workers\<close>) do the same from a ZeroMQ listener, from subscribers of the event bus and from timers.
  Every value that leaves a repository is a dataclass of \<^verbatim>\<open>domain\<close> whose \<^verbatim>\<open>__post_init__\<close> may refuse it.

  \<^bold>\<open>How it is modelled.\<close>  A table is a list of rows in insertion order, the database a record of tables
  (\<open>Database\<close>).  A service is a function from a session to a value or an exception and the session reached
  (\<open>TK_Prelude\<close>), so that a handler's decision to commit or to discard is a definition of its own.
  A dataclass constructor is a function that returns the first violated check (\<open>Domain\<close>).  Identifiers drawn
  by \<^verbatim>\<open>uuid4\<close>, the clock, the iteration order of a Python set, bitcoind, bdkpython, ccxt and
  the primitives Argon2 and AES-GCM are arguments.  Amounts are integers as in Python; floats are the rationals they
  denote, rounded to 53 bits where the code computes with them (\<open>Doubles\<close>).

  \<^bold>\<open>Theories, in the order of their imports.\<close>
  \<^item> \<open>TK_Prelude\<close>: services, results, rows and their lemmas; the locale of invariants over steps.
  \<^item> \<open>Enums\<close>, \<open>Domain\<close>, \<open>Amounts\<close>: \<^verbatim>\<open>domain/*.py\<close> and the conversion of bitcoin amounts.
  \<^item> \<open>Database\<close>, \<open>Utxos\<close>, \<open>Descriptors\<close>, \<open>Ledger\<close>, \<open>Sweeps\<close>: the tables and their repositories.
  \<^item> \<open>Chain_Processing\<close>, \<open>Chain_Books\<close>, \<open>Chain_Ledger\<close>: \<^verbatim>\<open>services/chain_processing_service.py\<close> with the UTXO
    hygiene; the books' invariant, and that the ledger links of a transaction sum to the change of the balance.
  \<^item> \<open>Payments\<close>, \<open>Payment_Lifecycle\<close>: \<^verbatim>\<open>services/banking_service.py\<close> and its handlers; the status machine they refine.
  \<^item> \<open>Invoices\<close>: invoices and the reservation of receive addresses.
  \<^item> \<open>Treasury\<close>: sweep policies, the safety validator, the threshold engine.
  \<^item> \<open>Chain_Listener\<close>: \<^verbatim>\<open>workers/listeners/chain_listener.py\<close>, one session per visit of a transaction.
  \<^item> \<open>Regex\<close>, \<open>Base58\<close>, \<open>Sha256\<close>, \<open>Descriptor_Adapter\<close>: \<^verbatim>\<open>adapters/descriptor_adapter.py\<close> with the parts of
    Python's \<^verbatim>\<open>re\<close>, \<^verbatim>\<open>int.to_bytes\<close> and \<^verbatim>\<open>hashlib\<close> it uses; parsing, derivation, classification, key recoding.
  \<^item> \<open>Holding_Deletion\<close>, \<open>Holdings\<close>: \<^verbatim>\<open>repositories/holding.py\<close>, \<^verbatim>\<open>services/holding_service.py\<close> and their handlers;
    the foreign keys of all tables as an invariant.
  \<^item> \<open>Security_Health\<close>: the security-health items, their repair, the user profile.
  \<^item> \<open>Doubles\<close>, \<open>Exchanges\<close>: \<^verbatim>\<open>adapters/kraken_adapter.py\<close>, \<^verbatim>\<open>bitstamp_adapter.py\<close>, their interface and registry, over what
    ccxt answers; the feed of ledger entries they make of it.
  \<^item> \<open>Secrets\<close>: \<^verbatim>\<open>infrastructure/secrets.py\<close> and \<^verbatim>\<open>cryptography.py\<close>; the encrypted store refines a map behind a passphrase.
  \<^item> \<open>Custody\<close>: the mirrored ledger of an exchange account, the poll cycle (\<^verbatim>\<open>api/v1/internal_custodial.py\<close>), its
    scheduler, the connection status, the reconciler that links entries to sweeps.
  \<^item> \<open>Accounts\<close>: exchange accounts in \<^verbatim>\<open>services/treasury_service.py\<close> and their handlers: validation, creation, rotation of the
    key, refresh, manual sweeps, deletion, paging.  Database and secret store are one state here; a failing handler
    rolls back the first and not the second.
  \<^item> \<open>Chain_Scan\<close>: \<^verbatim>\<open>services/chain_scan_service.py\<close> over what bitcoind answers to \<^verbatim>\<open>scantxoutset\<close>, and the rescan handler.
  \<^item> \<open>Self_Custody\<close>: \<^verbatim>\<open>workers/schedulers/self_custody_poller.py\<close>, the rounds that sweep the surplus of a wallet.
  \<^item> \<open>Descriptor_Handlers\<close>: \<^verbatim>\<open>api/v1/descriptors.py\<close>: validation with the proposed name of a Vault, attaching, editing, listing.
  \<^item> \<open>Events\<close>: \<^verbatim>\<open>infrastructure/event_bus.py\<close>, \<^verbatim>\<open>event_emission.py\<close>, \<^verbatim>\<open>api/v1/events_stream.py\<close> and the categoriser: topic
    patterns, both buses over what Redis delivers, the log of critical events, the stream of a client.
  \<^item> \<open>Device_Auth\<close>: \<^verbatim>\<open>api/lock_middleware.py\<close>, \<^verbatim>\<open>api/auth_middleware.py\<close>, \<^verbatim>\<open>api/v1/pairing.py\<close>, \<^verbatim>\<open>auth.py\<close>, \<^verbatim>\<open>unlock.py\<close>:
    sequences of requests and restarts over the stack of middlewares, with the secret store of \<open>Secrets\<close> behind it.
  \<^item> \<open>System\<close>: handlers, engine, poller, rescans and listener interleaved on one database.
  \<^item> \<open>Examples\<close>, \<open>Examples_Holdings\<close>, \<open>Examples_Custody\<close>, \<open>Examples_Accounts\<close>, \<open>Examples_Scan\<close>, \<open>Examples_Sweeps\<close>,
    \<open>Examples_Descriptors\<close>, \<open>Examples_Events\<close>, \<open>Examples_Access\<close>: a small database, an exchange that
    answers and one that is down, a toy cipher, and the properties applied to them.

  \<^bold>\<open>What the lemmas show.\<close>  Invariants of each component under all its operations and of all components
  together; the effect of each operation on every branch, errors included; refinements of the payment
  status machine and of the secret store; that an outage is noticed, that lost critical events come back, that paging
  and the search for a free name end; who passes the middlewares, in every sequence of requests; round trips of
  stored and encoded values; and, where the code does something else than
  it says, theorems that state exactly what it does.

  \<^bold>\<open>Bounds.\<close>  Every definition is a total function; recursion is on lists, on numbers that shrink, on the
  expression being matched, or (the free name of a Vault) on the names still in the way, so that no fuel is needed.

  \<^bold>\<open>Not modelled.\<close>  SQL, SQLAlchemy and migrations; HTTP routing and pydantic's schemas but for the bounds the handlers rely on; the sockets
  of the ZeroMQ and exchange adapters; the PSBT builder and the other calls into bdkpython; threads.
  Not modelled yet: the analysis of declared against observable security, the job queue, the configuration.
\<close>

section \<open>Composition\<close>


lemma ex_system_inv: "system_inv ex_funded"
proof -
  have "utxos ex_funded = [ex_utxo]" "onchain_transactions ex_funded = []" "ledger_entries ex_funded = []"
    "ledger_links ex_funded = []" "descriptors ex_funded = [ex_descriptor 11 1, ex_descriptor 12 2]"
    "invoices ex_funded = []" "sweep_policies ex_funded = []"
    by (simp_all add: ex_funded_def ex_db_def empty_db_def)
  then show ?thesis
    by (simp add: system_inv_def ex_payments_inv books_inv_def utxo_inv_def utxo_row_ok_iff onchain_inv_def
        ledger_inv_def links_of_tx_def ex_utxo_def ex_descriptor_def reservation_inv_def
        reserved_address_ids_def List.map_filter_def policy_inv_def)
qed

lemma ex_system_run: "(system_step ex_bdk)\<^sup>*\<^sup>* ex_funded (ex_with ex_signed)"
proof -
  have "system_step ex_bdk ex_funded (ex_with ex_request)"
    by (rule system_step.create_payment [OF ex_fresh_payment _ ex_create_payment]) (simp add: ex_env_def)
  moreover have "system_step ex_bdk (ex_with ex_request) (ex_with ex_signed)"
    by (rule system_step.submit_signed [OF ex_submit])
  ultimately show ?thesis by (meson rtranclp.rtrancl_into_rtrancl rtranclp.rtrancl_refl)
qed


section \<open>Amounts and stored values\<close>

text \<open>Every amount bitcoind can report is converted exactly: a float within half a satoshi of
  \<open>n\<close> satoshis becomes \<open>n\<close>, of either sign.\<close>

theorem btc_to_sats_exact:
  assumes "\<bar>x * 100000000 - of_int n\<bar> < 1 / 2"
  shows "btc_to_sats x = n"
  by (rule btc_to_sats_near [OF assms])

theorem btc_to_sats_exact_witness: "btc_to_sats (- (3 / 10)) = - 30000000"
  by (rule btc_to_sats_exact) simp

text \<open>The amount written into a BIP21 URI reads back as the amount of the request.\<close>

theorem bip21_amount_reads_back: "text_to_sats (bip21_amount n) = n"
  using btc_to_sats_near [of "of_int n / 100000000" n] by (simp add: bip21_amount_def btc_to_sats_def)

text \<open>The canonical string a status, a type or a category is stored as reads back as the same
  member, and a string that is no member's value is refused.\<close>

theorem stored_enums_read_back:
  "(enum_of payment_status_members payment_status_value v = Some st \<longleftrightarrow> v = payment_status_value st) \<and>
   (enum_of invoice_status_members invoice_status_value v = Some ist \<longleftrightarrow> v = invoice_status_value ist) \<and>
   (enum_of holding_type_members holding_type_value v = Some ht \<longleftrightarrow> v = holding_type_value ht) \<and>
   (enum_of direction_members direction_value v = Some dir \<longleftrightarrow> v = direction_value dir) \<and>
   (enum_of sweep_execution_status_members sweep_execution_status_value v = Some ses \<longleftrightarrow>
      v = sweep_execution_status_value ses) \<and>
   (enum_of safety_warning_kind_members safety_warning_kind_value v = Some wk \<longleftrightarrow>
      v = safety_warning_kind_value wk)"
  by (simp add: ps_enum.of_value_iff is_enum.of_value_iff ht_enum.of_value_iff dir_enum.of_value_iff
      ses_enum.of_value_iff swk_enum.of_value_iff)

end
